(* ===== verification/KPrelude.thy ===== *)
theory KPrelude
  imports Main "HOL-Library.Word" "HOL-Library.State_Monad"
begin

text \<open>
  Shared vocabulary of the driver models: machine integers, error numbers, kernel pointers and
  their error encoding, and the arithmetic of C's signed counters. Every model of a C function
  follows the same conventions. A kernel address is a 64-bit word with 0 for NULL. A function
  with external calls takes a record of the answers these calls give during this one invocation,
  so a run of several invocations may see any sequence of answers. A function that can
  dereference a bad pointer or write out of bounds returns an option, with \<open>None\<close> for the crash.
\<close>

unbundle bit_operations_syntax

section \<open>Machine integers\<close>

type_synonym u8 = "8 word"
type_synonym u16 = "16 word"
type_synonym u32 = "32 word"
type_synonym u64 = "64 word"

named_theorems word_nat \<open>facts that move word goals to natural numbers\<close>

lemma unat_u64_bound [simp]: "unat (x :: u64) < 18446744073709551616"
  using unsigned_less [of x, where ?'a = nat] by simp

lemma unat_u64_bound_le [simp]: "unat (x :: u64) \<le> 18446744073709551616"
  using unat_u64_bound [of x] by linarith

lemma unat_u64_max_le [simp]: "unat (x :: u64) \<le> 18446744073709551615"
  using unat_u64_bound [of x] by linarith

lemma unat_u64_not_above [simp]: "\<not> 18446744073709551615 < unat (x :: u64)"
  using unat_u64_max_le [of x] by linarith

lemma uint_u64_bound [simp]: "uint (x :: u64) < 18446744073709551616"
  using unsigned_less [of x, where ?'a = int] by simp

lemma unat_u32_bound [simp]: "unat (x :: u32) < 4294967296"
  using unsigned_less [of x, where ?'a = nat] by simp

lemma unat_add_u64 [word_nat]:
  "unat (a :: u64) + unat b < 18446744073709551616 \<Longrightarrow> unat (a + b) = unat a + unat b"
  by (simp add: unat_word_ariths)

lemma unat_sub_u64 [word_nat]:
  "unat (b :: u64) \<le> unat a \<Longrightarrow> unat (a - b) = unat a - unat b"
  by (simp add: unat_sub_if')

lemma unat_minus_u64:
  "unat (- a :: u64) = (if a = 0 then 0 else 18446744073709551616 - unat a)"
  using unat_sub_if' [of "0 :: u64" a] by (simp add: unat_eq_zero word_le_nat_alt)

lemma unat_max_u64 [simp]: "unat (- 1 :: u64) = 18446744073709551615"
  by (simp add: unat_minus_u64)

lemma sint_u64_small:
  assumes "unat (x :: u64) < 9223372036854775808"
  shows "sint x = int (unat x)"
proof -
  have "uint x = int (unat x)" by simp
  with assms have "uint x < 9223372036854775808" by linarith
  then have "uint x < 2 ^ 63" by simp
  then have "signed_take_bit 63 (uint x) = uint x"
    by (intro signed_take_bit_int_eq_self) (auto intro: order_trans [of _ 0])
  then show ?thesis by (simp add: sint_uint)
qed

lemmas word_less_unat = word_less_nat_alt word_le_nat_alt

lemma unat_eq_0_u64: "(a :: u64) = 0 \<longleftrightarrow> unat a = 0"
  by (simp add: unat_eq_zero)

section \<open>Error numbers\<close>

abbreviation (input) EPERM :: int where "EPERM \<equiv> 1"
abbreviation (input) ENOENT :: int where "ENOENT \<equiv> 2"
abbreviation (input) EIO :: int where "EIO \<equiv> 5"
abbreviation (input) EBADF :: int where "EBADF \<equiv> 9"
abbreviation (input) ENOMEM :: int where "ENOMEM \<equiv> 12"
abbreviation (input) EFAULT :: int where "EFAULT \<equiv> 14"
abbreviation (input) EBUSY :: int where "EBUSY \<equiv> 16"
abbreviation (input) ENODEV :: int where "ENODEV \<equiv> 19"
abbreviation (input) EINVAL :: int where "EINVAL \<equiv> 22"
abbreviation (input) ENOTTY :: int where "ENOTTY \<equiv> 25"
abbreviation (input) ENOSPC :: int where "ENOSPC \<equiv> 28"
abbreviation (input) ENOTCONN :: int where "ENOTCONN \<equiv> 107"

section \<open>Pointers\<close>

type_synonym ptr = u64

definition IS_ERR :: "ptr \<Rightarrow> bool" where
  "IS_ERR p \<longleftrightarrow> unat p \<ge> 18446744073709547521"

definition IS_ERR_OR_NULL :: "ptr \<Rightarrow> bool" where
  "IS_ERR_OR_NULL p \<longleftrightarrow> p = 0 \<or> IS_ERR p"

definition PTR_ERR :: "ptr \<Rightarrow> int" where
  "PTR_ERR p = sint p"

definition ERR_PTR :: "int \<Rightarrow> ptr" where
  "ERR_PTR e = of_int e"

lemma not_IS_ERR_0 [simp]: "\<not> IS_ERR 0"
  by (simp add: IS_ERR_def)

lemma IS_ERR_OR_NULL_0 [simp]: "IS_ERR_OR_NULL 0"
  by (simp add: IS_ERR_OR_NULL_def)

lemma sint_u64_large:
  assumes "9223372036854775808 \<le> unat (x :: u64)"
  shows "sint x = int (unat x) - 18446744073709551616"
proof -
  have u: "uint x = int (unat x)" by simp
  have "uint x div 9223372036854775808 = 1"
    using assms unat_u64_bound [of x] unfolding u by linarith
  then have "bit (uint x) 63" by (simp add: bit_iff_odd)
  then have "signed_take_bit 63 (uint x) = take_bit 64 (uint x) - 18446744073709551616"
    by (simp add: signed_take_bit_eq_take_bit_minus)
  moreover have "take_bit 64 (uint x) = uint x"
    by (simp add: take_bit_int_eq_self_iff)
  ultimately show ?thesis by (simp add: sint_uint)
qed

lemma PTR_ERR_neg: "IS_ERR p \<Longrightarrow> PTR_ERR p < 0"
  using unat_u64_bound [of p] by (simp add: IS_ERR_def PTR_ERR_def sint_u64_large)

section \<open>Signed 32-bit counters\<close>

definition wrap32 :: "int \<Rightarrow> int" where
  "wrap32 c = signed_take_bit 31 c"

lemma wrap32_id [simp]: "- 2147483648 \<le> c \<Longrightarrow> c < 2147483648 \<Longrightarrow> wrap32 c = c"
  by (simp add: wrap32_def signed_take_bit_int_eq_self)

section \<open>Register fields\<close>

definition BIT_U32 :: "nat \<Rightarrow> u32" where
  "BIT_U32 n = push_bit n 1"

definition GENMASK :: "nat \<Rightarrow> nat \<Rightarrow> 'w::len word" where
  "GENMASK h l = push_bit l (mask (Suc h - l))"

definition FIELD_PREP :: "nat \<Rightarrow> nat \<Rightarrow> 'w::len word \<Rightarrow> 'w word" where
  "FIELD_PREP h l v = push_bit l v AND GENMASK h l"

definition FIELD_GET :: "nat \<Rightarrow> nat \<Rightarrow> 'w::len word \<Rightarrow> 'w word" where
  "FIELD_GET h l r = drop_bit l (r AND GENMASK h l)"

lemma bit_GENMASK [simp]:
  "bit (GENMASK h l :: 'w::len word) n \<longleftrightarrow> l \<le> n \<and> n \<le> h \<and> n < LENGTH('w)"
  by (auto simp: GENMASK_def bit_simps)

lemma bit_FIELD_PREP [simp]:
  "bit (FIELD_PREP h l (v :: 'w::len word)) n \<longleftrightarrow> l \<le> n \<and> n \<le> h \<and> n < LENGTH('w) \<and> bit v (n - l)"
  by (auto simp: FIELD_PREP_def bit_simps)

lemma bit_FIELD_GET [simp]:
  "bit (FIELD_GET h l (v :: 'w::len word)) n \<longleftrightarrow> n + l \<le> h \<and> n + l < LENGTH('w) \<and> bit v (n + l)"
  by (auto simp: FIELD_GET_def bit_simps ac_simps)

lemma bit_BIT_U32 [simp]: "bit (BIT_U32 k) n \<longleftrightarrow> n = k \<and> n < 32"
  by (auto simp: BIT_U32_def bit_simps)

end
