(* ===== verification/Uapi.thy ===== *)
theory Uapi
  imports KPrelude
begin

text \<open>
  The data that user space passes to the drivers: \<open>include/uapi/misc/kiumd.h\<close>. Field by field
  the structures of the header; the user's access-control list is a pointer that the kernel
  copies separately, and a character pointer is an address.
\<close>

abbreviation (input) HANDLE_TO_FD :: int where "HANDLE_TO_FD \<equiv> - 1"
abbreviation (input) FD_TO_HANDLE :: u32 where "FD_TO_HANDLE \<equiv> 0xFFFFFFFE"
abbreviation (input) CLOSE_HANDLE :: int where "CLOSE_HANDLE \<equiv> - 3"

abbreviation (input) KGSL_GLOBAL_PT :: int where "KGSL_GLOBAL_PT \<equiv> 1"
abbreviation (input) KGSL_PER_PROCESS_PT :: int where "KGSL_PER_PROCESS_PT \<equiv> 2"
abbreviation (input) KGSL_DEFAULT_PT :: int where "KGSL_DEFAULT_PT \<equiv> 3"

abbreviation (input) FIXED_IOVA_AT_ZERO :: int where "FIXED_IOVA_AT_ZERO \<equiv> 5"

abbreviation (input) KIUMD_SMMU_SET_TTBR0_CONFIG :: u32 where "KIUMD_SMMU_SET_TTBR0_CONFIG \<equiv> 11"
abbreviation (input) KIUMD_SMMU_SET_TTBR1_CONFIG :: u32 where "KIUMD_SMMU_SET_TTBR1_CONFIG \<equiv> 12"

record kiumd_smmu_user =
  su_vfio_fd :: int
  pgtbl_ops_ptr :: ptr
  ttbr0 :: u64
  su_asid :: u16
  su_flags :: u32

record kiumd_acl_entry =
  acl_vmid :: u32
  acl_perms :: u32

record kiumd_mem_parcel =
  nr_acl_entries :: u32
  acl_list :: ptr

record kiumd_user =
  vfio_fd :: int
  dma_buf_fd :: int
  heap_fd :: int
  uflag :: int
  dma_addr :: u64
  buf_token :: int
  dma_attr :: int
  dma_direction :: int
  ptselect :: int
  handle :: u32
  is_iova_zero :: int
  mem_parcel :: kiumd_mem_parcel
  uid :: int

record kiumd_smmu_mmio_map =
  fixed_iova :: u8
  mm_vfio_fd :: int
  mm_id :: int
  mm_iova :: u64
  reg_len :: u64
  reg_name :: ptr

record kiumd_mem_info =
  mi_offset :: u32
  mi_size :: u32

record kiumd_dev_mem_info =
  dmi_vfio_fd :: int
  num_regions :: u32
  mem_info :: "kiumd_mem_info list"

definition user0 :: kiumd_user where
  "user0 = \<lparr>vfio_fd = 0, dma_buf_fd = 0, heap_fd = 0, uflag = 0, dma_addr = 0, buf_token = 0,
     dma_attr = 0, dma_direction = 0, ptselect = 0, handle = 0, is_iova_zero = 0,
     mem_parcel = \<lparr>nr_acl_entries = 0, acl_list = 0\<rparr>, uid = 0\<rparr>"

end
