(* ===== verification/IovaRegions.thy ===== *)
theory IovaRegions
  imports KPrelude "HOL-Library.Multiset"
begin

text \<open>
  Model of \<open>drivers/iommu_iova_map.c\<close>: reading the \<open>qcom,iommu-dma-addr-pool\<close> property of
  a device into a sorted list of IOVA regions, and inverting that list into the reserved regions
  that the IOVA allocator must never hand out. Regions keep the code's 64-bit fields, so the
  wrap-around of \<open>start + length\<close> is visible. The device tree and the region allocator belong to
  the kernel: the tree is an argument, and \<open>alloc n\<close> says whether the \<open>n\<close>-th allocation
  succeeds. The heap record counts the attempts and the regions still allocated.
\<close>

section \<open>Data\<close>

record iommu_resv_region =
  rstart :: u64
  rlength :: u64

record region_heap =
  attempts :: nat
  live :: int

record device_node =
  addr_cells :: nat
  size_cells :: nat
  node_property :: "string \<Rightarrow> u32 list option"

record iova_device =
  of_node :: "device_node option"
  iommu_group_phandle :: "device_node option"

section \<open>Operations\<close>

definition alloc_resv_region ::
  "(nat \<Rightarrow> bool) \<Rightarrow> u64 \<Rightarrow> u64 \<Rightarrow> region_heap \<Rightarrow> iommu_resv_region option \<times> region_heap" where
  "alloc_resv_region alloc start len h =
     (if alloc (attempts h)
      then (Some \<lparr>rstart = start, rlength = len\<rparr>, h\<lparr>attempts := Suc (attempts h), live := live h + 1\<rparr>)
      else (None, h\<lparr>attempts := Suc (attempts h)\<rparr>))"

text \<open>Freeing every region of a list, by \<open>kfree\<close> in a loop or by \<open>iommu_put_resv_regions\<close>.\<close>

definition free_regions :: "iommu_resv_region list \<Rightarrow> region_heap \<Rightarrow> region_heap" where
  "free_regions rs h = h\<lparr>live := live h - int (length rs)\<rparr>"

definition qcom_iommu_group_parse_phandle :: "iova_device \<Rightarrow> device_node option" where
  "qcom_iommu_group_parse_phandle dev =
     (case of_node dev of
        None \<Rightarrow> None
      | Some own \<Rightarrow> (case iommu_group_phandle dev of Some np \<Rightarrow> Some np | None \<Rightarrow> Some own))"

function walk_entries ::
  "(u32 list \<Rightarrow> nat \<Rightarrow> nat \<Rightarrow> 's \<Rightarrow> int \<times> 's) \<Rightarrow> nat \<Rightarrow> nat \<Rightarrow> u32 list \<Rightarrow> 's \<Rightarrow> int \<times> 's" where
  "walk_entries cb naddr nsize p st =
     (if p = [] \<or> naddr + nsize = 0 then (0, st)
      else (case cb p naddr nsize st of
              (ret, st') \<Rightarrow>
                if ret \<noteq> 0 then (ret, st')
                else walk_entries cb naddr nsize (drop (naddr + nsize) p) st'))"
  by pat_completeness auto
termination
  by (relation "measure (\<lambda>(cb, naddr, nsize, p, st). length p)") auto

declare walk_entries.simps [simp del]

definition of_property_walk_each_entry ::
  "iova_device \<Rightarrow> string \<Rightarrow> (u32 list \<Rightarrow> nat \<Rightarrow> nat \<Rightarrow> 's \<Rightarrow> int \<times> 's) \<Rightarrow> 's \<Rightarrow> int \<times> 's" where
  "of_property_walk_each_entry dev propname cb st =
     (case qcom_iommu_group_parse_phandle dev of
        None \<Rightarrow> (- EINVAL, st)
      | Some np \<Rightarrow>
          (case node_property np propname of
             None \<Rightarrow> (- ENODEV, st)
           | Some p \<Rightarrow>
               (let len = length p; naddr = addr_cells np; nsize = size_cells np in
                if naddr = 0 \<or> nsize = 0 \<or> len mod (naddr + nsize) \<noteq> 0 then (- EINVAL, st)
                else walk_entries cb naddr nsize p st)))"

definition check_overlap :: "iommu_resv_region \<Rightarrow> u64 \<Rightarrow> u64 \<Rightarrow> bool" where
  "check_overlap region start end' =
     (let region_end = rstart region + rlength region - 1
      in end' \<ge> rstart region \<and> start \<le> region_end)"

text \<open>Big-endian cells to a number, the kernel's header function \<open>of_read_number\<close>.\<close>

definition of_read_number :: "u32 list \<Rightarrow> u64" where
  "of_read_number cells = foldl (\<lambda>r c. push_bit 32 r OR ucast c) 0 cells"

text \<open>The loop of \<open>insert_range\<close>: \<open>None\<close> for an overlap, otherwise the position of insertion.\<close>

fun insert_scan :: "iommu_resv_region list \<Rightarrow> u64 \<Rightarrow> u64 \<Rightarrow> nat option" where
  "insert_scan [] start end' = Some 0"
| "insert_scan (region # rest) start end' =
     (if check_overlap region start end' then None
      else if start < rstart region then Some 0
      else map_option Suc (insert_scan rest start end'))"

definition insert_region ::
  "(nat \<Rightarrow> bool) \<Rightarrow> u64 \<Rightarrow> u64 \<Rightarrow> iommu_resv_region list \<times> region_heap
     \<Rightarrow> int \<times> iommu_resv_region list \<times> region_heap" where
  "insert_region alloc start end' = (\<lambda>(head, h).
     case insert_scan head start end' of
       None \<Rightarrow> (- EINVAL, head, h)
     | Some i \<Rightarrow>
         (case alloc_resv_region alloc start (end' - start + 1) h of
            (None, h') \<Rightarrow> (- ENOMEM, head, h')
          | (Some new, h') \<Rightarrow> (0, take i head @ new # drop i head, h')))"

definition insert_range ::
  "(nat \<Rightarrow> bool) \<Rightarrow> u32 list \<Rightarrow> nat \<Rightarrow> nat \<Rightarrow> iommu_resv_region list \<times> region_heap
     \<Rightarrow> int \<times> iommu_resv_region list \<times> region_heap" where
  "insert_range alloc p naddr nsize st =
     (let start = of_read_number (take naddr p);
          end' = start + of_read_number (take nsize (drop naddr p)) - 1
      in insert_region alloc start end' st)"

definition qcom_iommu_generate_dma_regions ::
  "(nat \<Rightarrow> bool) \<Rightarrow> iova_device \<Rightarrow> iommu_resv_region list \<times> region_heap
     \<Rightarrow> int \<times> iommu_resv_region list \<times> region_heap" where
  "qcom_iommu_generate_dma_regions alloc dev st =
     of_property_walk_each_entry dev ''qcom,iommu-dma-addr-pool'' (insert_range alloc) st"

text \<open>
  The first loop of \<open>invert_regions\<close>, from its second element on; \<open>False\<close> is the jump to
  \<open>out_err\<close>. The last region visited is the \<open>prev\<close> that the code reads after the loop.
\<close>

fun invert_gaps ::
  "(nat \<Rightarrow> bool) \<Rightarrow> iommu_resv_region \<Rightarrow> iommu_resv_region list \<Rightarrow> iommu_resv_region list
     \<Rightarrow> region_heap \<Rightarrow> bool \<times> iommu_resv_region list \<times> region_heap" where
  "invert_gaps alloc prev [] inverted h = (True, inverted, h)"
| "invert_gaps alloc prev (cur # rest) inverted h =
     (let rsv_start = rstart prev + rlength prev;
          rsv_size = rstart cur - rsv_start
      in if rsv_size = 0 then invert_gaps alloc cur rest inverted h
         else (case alloc_resv_region alloc rsv_start rsv_size h of
                 (None, h') \<Rightarrow> (False, inverted, h')
               | (Some new, h') \<Rightarrow> invert_gaps alloc cur rest (inverted @ [new]) h'))"

text \<open>\<open>out_err\<close>: the regions are freed but stay linked, so the list returned is dangling.\<close>

definition invert_out_err ::
  "iommu_resv_region list \<Rightarrow> region_heap \<Rightarrow> int \<times> iommu_resv_region list \<times> region_heap" where
  "invert_out_err inverted h = (- ENOMEM, inverted, free_regions inverted h)"

definition invert_begin ::
  "(nat \<Rightarrow> bool) \<Rightarrow> iommu_resv_region \<Rightarrow> iommu_resv_region list \<Rightarrow> region_heap
     \<Rightarrow> bool \<times> iommu_resv_region list \<times> region_heap" where
  "invert_begin alloc first inverted h =
     (let rsv_size = rstart first in
      if rsv_size \<noteq> 0 then
        (case alloc_resv_region alloc 0 rsv_size h of
           (None, h') \<Rightarrow> (False, inverted, h')
         | (Some new, h') \<Rightarrow> (True, new # inverted, h'))
      else (True, inverted, h))"

definition invert_end ::
  "(nat \<Rightarrow> bool) \<Rightarrow> iommu_resv_region \<Rightarrow> iommu_resv_region list \<Rightarrow> region_heap
     \<Rightarrow> bool \<times> iommu_resv_region list \<times> region_heap" where
  "invert_end alloc prev inverted h =
     (let rsv_start = rstart prev + rlength prev;
          rsv_size = - rsv_start in
      if rsv_size \<noteq> 0 \<and> - 1 - rstart prev > rlength prev then
        (case alloc_resv_region alloc rsv_start rsv_size h of
           (None, h') \<Rightarrow> (False, inverted, h')
         | (Some new, h') \<Rightarrow> (True, inverted @ [new], h'))
      else (True, inverted, h))"

definition invert_regions ::
  "(nat \<Rightarrow> bool) \<Rightarrow> iommu_resv_region list \<Rightarrow> iommu_resv_region list \<Rightarrow> region_heap
     \<Rightarrow> int \<times> iommu_resv_region list \<times> region_heap" where
  "invert_regions alloc head inverted h =
     (case head of
        [] \<Rightarrow> (- EINVAL, inverted, h)
      | first # rest \<Rightarrow>
          (case invert_gaps alloc first rest inverted h of
             (False, inv1, h1) \<Rightarrow> invert_out_err inv1 h1
           | (True, inv1, h1) \<Rightarrow>
               (case invert_begin alloc first inv1 h1 of
                  (False, inv2, h2) \<Rightarrow> invert_out_err inv2 h2
                | (True, inv2, h2) \<Rightarrow>
                    (case invert_end alloc (last head) inv2 h2 of
                       (False, inv3, h3) \<Rightarrow> invert_out_err inv3 h3
                     | (True, inv3, h3) \<Rightarrow> (0, inv3, h3)))))"

definition qcom_iommu_generate_resv_regions ::
  "(nat \<Rightarrow> bool) \<Rightarrow> iova_device \<Rightarrow> iommu_resv_region list \<Rightarrow> region_heap
     \<Rightarrow> iommu_resv_region list \<times> region_heap" where
  "qcom_iommu_generate_resv_regions alloc dev head h =
     (case qcom_iommu_generate_dma_regions alloc dev ([], h) of
        (ret, dma_regions, h1) \<Rightarrow>
          if ret \<noteq> 0 then (head, h1)
          else (case invert_regions alloc dma_regions [] h1 of
                  (ret', resv_regions, h2) \<Rightarrow>
                    let h3 = free_regions dma_regions h2 in
                    if ret' \<noteq> 0 then (head, h3)
                    else (resv_regions @ head, h3)))"

section \<open>Well-formed region lists\<close>

definition rend :: "iommu_resv_region \<Rightarrow> nat" where
  "rend r = unat (rstart r) + unat (rlength r)"

definition addrs :: "iommu_resv_region \<Rightarrow> nat set" where
  "addrs r = {unat (rstart r) ..< rend r}"

definition covered :: "iommu_resv_region list \<Rightarrow> nat set" where
  "covered rs = (\<Union>r \<in> set rs. addrs r)"

definition wf_region :: "iommu_resv_region \<Rightarrow> bool" where
  "wf_region r \<longleftrightarrow> unat (rstart r) < rend r \<and> rend r \<le> 18446744073709551616"

definition before :: "iommu_resv_region \<Rightarrow> iommu_resv_region \<Rightarrow> bool" where
  "before a b \<longleftrightarrow> rend a \<le> unat (rstart b)"

definition wf_regions :: "iommu_resv_region list \<Rightarrow> bool" where
  "wf_regions rs \<longleftrightarrow> (\<forall>r \<in> set rs. wf_region r) \<and> sorted_wrt before rs"

lemma wf_regions_Nil [simp]: "wf_regions []"
  by (simp add: wf_regions_def)

lemma wf_regions_Cons [simp]:
  "wf_regions (r # rs) \<longleftrightarrow> wf_region r \<and> (\<forall>x \<in> set rs. before r x) \<and> wf_regions rs"
  by (auto simp: wf_regions_def)

lemma wf_regions_append [simp]:
  "wf_regions (xs @ ys) \<longleftrightarrow>
     wf_regions xs \<and> wf_regions ys \<and> (\<forall>x \<in> set xs. \<forall>y \<in> set ys. before x y)"
  by (auto simp: wf_regions_def sorted_wrt_append)

lemma covered_Nil [simp]: "covered [] = {}"
  by (simp add: covered_def)

lemma covered_Cons [simp]: "covered (r # rs) = addrs r \<union> covered rs"
  by (simp add: covered_def)

lemma covered_append [simp]: "covered (xs @ ys) = covered xs \<union> covered ys"
  by (simp add: covered_def)

lemma addrs_nonempty: "wf_region r \<Longrightarrow> unat (rstart r) \<in> addrs r"
  by (simp add: wf_region_def addrs_def)

lemma rend_no_wrap:
  "rend r < 18446744073709551616 \<Longrightarrow> unat (rstart r + rlength r) = rend r"
  by (simp add: rend_def unat_add_u64)

lemma rend_wraps:
  assumes "rend r = 18446744073709551616"
  shows "rstart r + rlength r = 0"
proof -
  have "unat (rstart r + rlength r) = rend r mod 18446744073709551616"
    by (simp add: rend_def unat_word_ariths)
  with assms have "unat (rstart r + rlength r) = 0" by simp
  then show ?thesis by (simp add: unat_eq_zero)
qed

text \<open>The last address of a well-formed region, computed by the code as \<open>start + length - 1\<close>.\<close>

lemma unat_region_end:
  assumes "wf_region r"
  shows "unat (rstart r + rlength r - 1) = rend r - 1"
proof (cases "rend r = 18446744073709551616")
  case True
  then show ?thesis by (simp add: rend_wraps)
next
  case False
  with assms have "rend r < 18446744073709551616" by (simp add: wf_region_def)
  then have "unat (rstart r + rlength r) = rend r" by (rule rend_no_wrap)
  moreover from assms have "1 \<le> rend r" by (simp add: wf_region_def)
  ultimately show ?thesis by (simp add: unat_sub_u64)
qed

section \<open>Inserting a pool entry\<close>

lemma check_overlap_iff:
  assumes "wf_region r"
  shows "check_overlap r s e \<longleftrightarrow> unat (rstart r) \<le> unat e \<and> unat s < rend r"
proof -
  have "unat (rstart r + rlength r - 1) = rend r - 1" by (rule unat_region_end) fact
  moreover from assms have "0 < rend r" by (simp add: wf_region_def)
  ultimately show ?thesis
    by (auto simp: check_overlap_def Let_def word_less_unat)
qed

lemma insert_scan_Some:
  assumes "wf_regions rs" and "unat s \<le> unat e" and "insert_scan rs s e = Some i"
  shows "i \<le> length rs \<and> (\<forall>r \<in> set (take i rs). rend r \<le> unat s)
           \<and> (\<forall>r \<in> set (drop i rs). unat e < unat (rstart r))"
  using assms
proof (induction rs arbitrary: i)
  case Nil
  then show ?case by simp
next
  case (Cons r rs)
  then have wf: "wf_region r" and no: "\<not> check_overlap r s e" by (auto split: if_splits)
  show ?case
  proof (cases "s < rstart r")
    case True
    with no wf have "unat e < unat (rstart r)"
      by (auto simp: check_overlap_iff word_less_unat wf_region_def)
    moreover have "unat e < unat (rstart x)" if "x \<in> set rs" for x
      using that Cons.prems(1) calculation by (fastforce simp: before_def wf_region_def)
    ultimately show ?thesis using Cons.prems(3) no True by simp
  next
    case False
    with no wf Cons.prems(2) have "rend r \<le> unat s"
      by (auto simp: check_overlap_iff word_less_unat)
    with False no Cons show ?thesis by auto
  qed
qed

lemma insert_scan_None:
  "insert_scan rs s e = None \<Longrightarrow> \<exists>r \<in> set rs. check_overlap r s e"
  by (induction rs) (auto split: if_splits)

text \<open>The scan stops early, yet it misses no overlap in a sorted list.\<close>

lemma insert_scan_iff:
  assumes "wf_regions rs" and "unat s \<le> unat e"
  shows "insert_scan rs s e = None \<longleftrightarrow> (\<exists>r \<in> set rs. check_overlap r s e)"
proof
  assume "\<exists>r \<in> set rs. check_overlap r s e"
  then obtain r where r: "r \<in> set rs" "check_overlap r s e" ..
  with assms(1) have wf: "wf_region r" by (auto simp: wf_regions_def)
  show "insert_scan rs s e = None"
  proof (rule ccontr)
    assume "insert_scan rs s e \<noteq> None"
    then obtain i where "insert_scan rs s e = Some i" by auto
    with assms have *: "(\<forall>r \<in> set (take i rs). rend r \<le> unat s)"
        "(\<forall>r \<in> set (drop i rs). unat e < unat (rstart r))"
      by (blast dest: insert_scan_Some)+
    have "r \<in> set (take i rs) \<or> r \<in> set (drop i rs)"
      using r(1) by (metis Un_iff append_take_drop_id set_append)
    with * r(2) wf show False by (force simp: check_overlap_iff)
  qed
qed (rule insert_scan_None)

definition pool_entry :: "nat \<Rightarrow> nat \<Rightarrow> u32 list \<Rightarrow> iommu_resv_region" where
  "pool_entry naddr nsize p =
     \<lparr>rstart = of_read_number (take naddr p),
      rlength = of_read_number (take nsize (drop naddr p))\<rparr>"

lemma new_region_eq:
  "\<lparr>rstart = rstart x, rlength = rstart x + rlength x - 1 - rstart x + 1\<rparr> = x"
  by (cases x) simp

lemma insert_range_entry:
  "insert_range alloc p naddr nsize st =
     insert_region alloc (rstart (pool_entry naddr nsize p))
       (rstart (pool_entry naddr nsize p) + rlength (pool_entry naddr nsize p) - 1) st"
  by (simp add: insert_range_def pool_entry_def Let_def)

text \<open>What inserting one well-formed entry does to a sorted list, on every branch.\<close>

lemma insert_region_cases:
  assumes wf: "wf_regions rs" and x: "wf_region x"
  shows "insert_region alloc (rstart x) (rstart x + rlength x - 1) (rs, h) =
     (if \<exists>r \<in> set rs. addrs r \<inter> addrs x \<noteq> {} then (- EINVAL, rs, h)
      else if \<not> alloc (attempts h) then (- ENOMEM, rs, h\<lparr>attempts := Suc (attempts h)\<rparr>)
      else (0, (let i = the (insert_scan rs (rstart x) (rstart x + rlength x - 1))
                in take i rs @ x # drop i rs),
            h\<lparr>attempts := Suc (attempts h), live := live h + 1\<rparr>))"
proof -
  have e: "unat (rstart x + rlength x - 1) = rend x - 1" and lt: "unat (rstart x) < rend x"
    using x by (simp_all add: unat_region_end wf_region_def)
  have ov: "check_overlap r (rstart x) (rstart x + rlength x - 1) \<longleftrightarrow> addrs r \<inter> addrs x \<noteq> {}"
    if "r \<in> set rs" for r
  proof -
    from that wf have r: "wf_region r" by (auto simp: wf_regions_def)
    have "addrs r \<inter> addrs x \<noteq> {} \<longleftrightarrow> unat (rstart r) < rend x \<and> unat (rstart x) < rend r"
      using r x by (auto simp: addrs_def wf_region_def)
    with r lt show ?thesis by (auto simp: check_overlap_iff e)
  qed
  have "insert_scan rs (rstart x) (rstart x + rlength x - 1) = None
          \<longleftrightarrow> (\<exists>r \<in> set rs. addrs r \<inter> addrs x \<noteq> {})"
    using insert_scan_iff [OF wf, of "rstart x"] e lt ov by auto
  then show ?thesis
    by (auto simp: insert_region_def alloc_resv_region_def new_region_eq Let_def
             split: option.splits)
qed

lemma insert_region_wf:
  assumes wf: "wf_regions rs" and x: "wf_region x"
    and ins: "insert_region alloc (rstart x) (rstart x + rlength x - 1) (rs, h) = (0, rs', h')"
  shows "wf_regions rs' \<and> mset rs' = add_mset x (mset rs) \<and> live h' = live h + 1"
proof -
  let ?e = "rstart x + rlength x - 1"
  have e: "unat ?e = rend x - 1" and lt: "unat (rstart x) < rend x"
    using x by (simp_all add: unat_region_end wf_region_def)
  obtain i where i: "insert_scan rs (rstart x) ?e = Some i" and rs': "rs' = take i rs @ x # drop i rs"
      and h': "live h' = live h + 1"
    using ins by (auto simp: insert_region_def alloc_resv_region_def new_region_eq
                       split: option.splits if_splits)
  have *: "\<forall>r \<in> set (take i rs). rend r \<le> unat (rstart x)"
      "\<forall>r \<in> set (drop i rs). rend x \<le> unat (rstart r)"
  proof -
    have le: "unat (rstart x) \<le> unat ?e" using e lt by linarith
    have "rend x \<le> n" if "unat ?e < n" for n using that e lt by linarith
    with insert_scan_Some [OF wf le i]
    show "\<forall>r \<in> set (take i rs). rend r \<le> unat (rstart x)"
      and "\<forall>r \<in> set (drop i rs). rend x \<le> unat (rstart r)" by auto
  qed
  have "wf_regions (take i rs @ drop i rs)" using wf by simp
  then have "wf_regions rs'"
    using * x unfolding rs' wf_regions_append wf_regions_Cons by (auto simp: before_def)
  moreover have "mset rs' = add_mset x (mset (take i rs @ drop i rs))"
    by (simp add: rs' del: append_take_drop_id)
  ultimately show ?thesis using h' by simp
qed

section \<open>Reading the whole pool property\<close>

text \<open>The entries a property of whole entries holds.\<close>

function pool_entries :: "nat \<Rightarrow> nat \<Rightarrow> u32 list \<Rightarrow> iommu_resv_region list" where
  "pool_entries naddr nsize p =
     (if p = [] \<or> naddr + nsize = 0 then []
      else pool_entry naddr nsize p # pool_entries naddr nsize (drop (naddr + nsize) p))"
  by pat_completeness auto
termination
  by (relation "measure (\<lambda>(naddr, nsize, p). length p)") auto

declare pool_entries.simps [simp del]

lemma covered_mset: "mset xs = mset ys \<Longrightarrow> covered xs = covered ys"
  by (metis covered_def set_mset_mset)

lemma walk_insert_success:
  assumes "walk_entries (insert_range alloc) naddr nsize p (rs, h) = (0, rs', h')"
    and "wf_regions rs" and "\<forall>x \<in> set (pool_entries naddr nsize p). wf_region x"
  shows "wf_regions rs' \<and> mset rs' = mset (pool_entries naddr nsize p) + mset rs
           \<and> live h' = live h + int (length (pool_entries naddr nsize p))"
  using assms
proof (induction "length p" arbitrary: p rs h rule: less_induct)
  case less
  show ?case
  proof (cases "p = [] \<or> naddr + nsize = 0")
    case True
    with less.prems show ?thesis
      by (auto simp: walk_entries.simps [of _ _ _ p] pool_entries.simps [of _ _ p])
  next
    case False
    let ?x = "pool_entry naddr nsize p" and ?q = "drop (naddr + nsize) p"
    have entries: "pool_entries naddr nsize p = ?x # pool_entries naddr nsize ?q"
      using False by (simp add: pool_entries.simps [of _ _ p])
    obtain rs1 h1 where
        step: "insert_range alloc p naddr nsize (rs, h) = (0, rs1, h1)"
      and rest: "walk_entries (insert_range alloc) naddr nsize ?q (rs1, h1) = (0, rs', h')"
      using less.prems(1) False
      by (auto simp: walk_entries.simps [of _ _ _ p] split: prod.splits if_splits)
    have "wf_region ?x" using less.prems(3) entries by simp
    with step less.prems(2) have one: "wf_regions rs1 \<and> mset rs1 = add_mset ?x (mset rs)
        \<and> live h1 = live h + 1"
      by (simp add: insert_range_entry insert_region_wf)
    have "length ?q < length p" using False by auto
    from less.hyps [OF this rest] one less.prems(3) entries
    show ?thesis by auto
  qed
qed

lemma walk_insert_errors:
  "fst (walk_entries (insert_range alloc) naddr nsize p st) \<in> {0, - EINVAL, - ENOMEM}"
proof (induction "length p" arbitrary: p st rule: less_induct)
  case less
  show ?case
  proof (cases "p = [] \<or> naddr + nsize = 0")
    case True
    then show ?thesis by (simp add: walk_entries.simps [of _ _ _ p])
  next
    case False
    obtain ret st' where step: "insert_range alloc p naddr nsize st = (ret, st')"
      by (cases "insert_range alloc p naddr nsize st")
    then have ret: "ret \<in> {0, - EINVAL, - ENOMEM}"
      by (cases st) (auto simp: insert_range_def insert_region_def Let_def split: option.splits prod.splits)
    show ?thesis
    proof (cases "ret = 0")
      case True
      have "length (drop (naddr + nsize) p) < length p" using False by auto
      from less [OF this] False True step show ?thesis
        by (simp add: walk_entries.simps [of _ _ _ p])
    next
      case ne: False
      with False step ret show ?thesis by (simp add: walk_entries.simps [of _ _ _ p])
    qed
  qed
qed

section \<open>Inverting the pool\<close>

lemma alloc_resv_region_Some:
  "alloc_resv_region alloc s l h = (Some new, h') \<longleftrightarrow>
     alloc (attempts h) \<and> new = \<lparr>rstart = s, rlength = l\<rparr>
       \<and> h' = h\<lparr>attempts := Suc (attempts h), live := live h + 1\<rparr>"
  by (auto simp: alloc_resv_region_def)

lemma wf_regions_last:
  "wf_regions (r # rs) \<Longrightarrow> rend r \<le> rend (last (r # rs)) \<and> covered (r # rs) \<subseteq> {..< rend (last (r # rs))}"
proof (induction rs arbitrary: r)
  case Nil
  then show ?case by (auto simp: addrs_def)
next
  case (Cons q rs)
  then have "rend r \<le> unat (rstart q)" "unat (rstart q) < rend q"
    by (simp_all add: before_def wf_region_def)
  with Cons.IH [of q] Cons.prems show ?case by (auto simp: addrs_def)
qed

lemma invert_gaps_spec:
  assumes "invert_gaps alloc prev rest acc h = (True, acc', h')" and "wf_regions (prev # rest)"
  shows "\<exists>new. acc' = acc @ new \<and> wf_regions new \<and> live h' = live h + int (length new)
     \<and> (\<forall>n \<in> set new. rend prev \<le> unat (rstart n) \<and> rend n \<le> unat (rstart (last (prev # rest))))
     \<and> covered new = {unat (rstart prev) ..< rend (last (prev # rest))} - covered (prev # rest)"
  using assms
proof (induction alloc prev rest acc h rule: invert_gaps.induct)
  case (1 alloc prev acc h)
  then show ?case by (auto simp: addrs_def)
next
  case (2 alloc prev cur rest acc h)
  let ?s = "rstart prev + rlength prev" and ?z = "rstart cur - (rstart prev + rlength prev)"
  let ?L = "last (cur # rest)"
  from "2.prems"(2) have ord: "rend prev \<le> unat (rstart cur)" "unat (rstart prev) < rend prev"
      "unat (rstart cur) < rend cur" and wf: "wf_regions (cur # rest)"
    by (simp_all add: before_def wf_region_def)
  have s: "unat ?s = rend prev"
    using ord unat_u64_bound [of "rstart cur"] by (intro rend_no_wrap) linarith
  then have z: "unat ?z = unat (rstart cur) - rend prev"
    using ord by (subst unat_sub_u64) simp_all
  have low: "covered (cur # rest) \<subseteq> {unat (rstart cur) ..< rend ?L}"
    using wf wf_regions_last [OF wf]
    by (fastforce simp: covered_def addrs_def before_def wf_region_def)
  have Lord: "unat (rstart cur) \<le> unat (rstart ?L)" "unat (rstart cur) < rend ?L"
    using wf wf_regions_last [OF wf] ord(3)
    by (auto simp: before_def wf_region_def last_in_set split: if_splits)
      (metis last_in_set le_trans less_imp_le ord(3))
  show ?case
  proof (cases "?z = 0")
    case True
    with z ord have adj: "rend prev = unat (rstart cur)" by (simp add: unat_eq_zero)
    from "2.prems"(1) True have "invert_gaps alloc cur rest acc h = (True, acc', h')" by simp
    from "2.IH"(1) [OF refl refl True this wf] obtain new where
      new: "acc' = acc @ new" "wf_regions new" "live h' = live h + int (length new)"
        "\<forall>n \<in> set new. rend cur \<le> unat (rstart n) \<and> rend n \<le> unat (rstart ?L)"
        "covered new = {unat (rstart cur) ..< rend ?L} - covered (cur # rest)" by auto
    have "covered new = {unat (rstart prev) ..< rend ?L} - covered (prev # cur # rest)"
      using new(5) adj ord Lord low by (auto simp: addrs_def)
    with new ord show ?thesis by (intro exI [of _ new]) fastforce
  next
    case False
    then have pos: "rend prev < unat (rstart cur)" using z ord by (simp add: unat_eq_0_u64)
    let ?g = "\<lparr>rstart = ?s, rlength = ?z\<rparr>"
    from "2.prems"(1) False have
      rec: "invert_gaps alloc cur rest (acc @ [?g])
              (h\<lparr>attempts := Suc (attempts h), live := live h + 1\<rparr>) = (True, acc', h')"
      by (auto simp: Let_def alloc_resv_region_Some split: prod.splits option.splits)
    have "alloc_resv_region alloc ?s ?z h
            = (Some ?g, h\<lparr>attempts := Suc (attempts h), live := live h + 1\<rparr>)"
      using "2.prems"(1) False by (auto simp: Let_def alloc_resv_region_def split: if_splits)
    from "2.IH"(2) [OF refl refl False this [symmetric] refl rec wf] obtain new where
      new: "acc' = (acc @ [?g]) @ new" "wf_regions new" "live h' = live h + 1 + int (length new)"
        "\<forall>n \<in> set new. rend cur \<le> unat (rstart n) \<and> rend n \<le> unat (rstart ?L)"
        "covered new = {unat (rstart cur) ..< rend ?L} - covered (cur # rest)" by auto
    have g: "rend ?g = unat (rstart cur)" "unat (rstart ?g) = rend prev"
      using s z ord by (simp_all add: rend_def)
    have wfg: "wf_region ?g"
      using g pos unat_u64_bound [of "rstart cur"] by (simp add: wf_region_def)
    have "covered (?g # new) = {unat (rstart prev) ..< rend ?L} - covered (prev # cur # rest)"
      using new(5) g ord Lord low by (auto simp: addrs_def)
    moreover have "wf_regions (?g # new)"
      using new(2,4) wfg g ord by (fastforce simp: before_def)
    ultimately show ?thesis
      using new g ord Lord by (intro exI [of _ "?g # new"]) fastforce
  qed
qed

lemma invert_begin_spec:
  assumes "invert_begin alloc first acc h = (True, acc', h')" and wf: "wf_region first"
    and acc: "wf_regions acc" "\<forall>n \<in> set acc. unat (rstart first) \<le> unat (rstart n)"
  shows "wf_regions acc' \<and> covered acc' = {..< unat (rstart first)} \<union> covered acc
     \<and> live h' = live h + int (length acc') - int (length acc)"
proof (cases "rstart first = 0")
  case True
  with assms show ?thesis by (auto simp: invert_begin_def Let_def)
next
  case False
  let ?g = "\<lparr>rstart = 0, rlength = rstart first\<rparr>"
  have acc': "acc' = ?g # acc" "live h' = live h + 1"
    using assms(1) False
    by (auto simp: invert_begin_def Let_def alloc_resv_region_Some split: option.splits prod.splits)
  have "rend ?g = unat (rstart first)" by (simp add: rend_def)
  moreover have "0 < unat (rstart first)" using False by (simp add: unat_gt_0)
  ultimately show ?thesis
    using acc acc' by (auto simp: wf_region_def before_def addrs_def)
qed

text \<open>
  The end of the address space: the code reserves what follows the last region, except that
  a gap of exactly the last address is not reserved.
\<close>

lemma invert_end_spec:
  assumes "invert_end alloc prev acc h = (True, acc', h')" and wf: "wf_region prev"
    and acc: "wf_regions acc" "\<forall>n \<in> set acc. rend n \<le> unat (rstart prev)"
  shows "wf_regions acc' \<and> live h' = live h + int (length acc') - int (length acc)
     \<and> covered acc' = covered acc \<union>
         (if rend prev = 18446744073709551615 then {} else {rend prev ..< 18446744073709551616})"
proof (cases "rend prev < 18446744073709551615")
  case False
  have "rend prev = 18446744073709551615 \<or> rend prev = 18446744073709551616"
    using False wf by (auto simp: wf_region_def)
  then have "\<not> (- (rstart prev + rlength prev) \<noteq> 0 \<and> - 1 - rstart prev > rlength prev)"
  proof
    assume "rend prev = 18446744073709551616"
    then show ?thesis by (simp add: rend_wraps)
  next
    assume top: "rend prev = 18446744073709551615"
    have "unat (- 1 - rstart prev) = 18446744073709551615 - unat (rstart prev)"
      by (simp add: unat_sub_u64)
    also have "\<dots> \<le> unat (rlength prev)" using top by (simp add: rend_def)
    finally show ?thesis by (simp add: word_less_unat not_less)
  qed
  then have "acc' = acc" "h' = h" using assms(1) unfolding invert_end_def Let_def by auto
  with False wf acc show ?thesis by (auto simp: wf_region_def)
next
  case True
  let ?s = "rstart prev + rlength prev"
  have s: "unat ?s = rend prev" using True by (intro rend_no_wrap) linarith
  have "0 < rend prev" using wf by (simp add: wf_region_def)
  with s have nz: "?s \<noteq> 0" by (auto simp: unat_eq_0_u64)
  then have ns: "unat (- ?s) = 18446744073709551616 - rend prev"
    using s by (subst unat_minus_u64) simp
  have "- 1 - rstart prev > rlength prev"
    using True by (simp add: word_less_unat unat_sub_u64 rend_def)
  moreover have "- ?s \<noteq> 0" using nz unfolding neg_equal_0_iff_equal .
  ultimately obtain h1 where acc': "acc' = acc @ [\<lparr>rstart = ?s, rlength = - ?s\<rparr>]"
      and "live h' = live h + 1"
    using assms(1) unfolding invert_end_def Let_def
    by (auto simp: alloc_resv_region_Some split: option.splits prod.splits)
  moreover have "rend \<lparr>rstart = ?s, rlength = - ?s\<rparr> = 18446744073709551616"
    unfolding rend_def using s ns True by simp
  ultimately show ?thesis
    using acc s True wf by (force simp: wf_region_def before_def addrs_def)
qed

lemma complement_split:
  assumes "S \<subseteq> {s ..< R}" and "s \<le> R" and "R \<le> (18446744073709551616 :: nat)"
  shows "{..< s} \<union> ({s ..< R} - S) \<union>
           (if R = 18446744073709551615 then {} else {R ..< 18446744073709551616})
         = {..< 18446744073709551616} - S
             - (if R = 18446744073709551615 then {18446744073709551615} else {})"
  using assms by auto

lemma invert_regions_success:
  assumes "invert_regions alloc (first # rest) [] h = (0, acc, h')" and wf: "wf_regions (first # rest)"
  shows "wf_regions acc \<and> live h' = live h + int (length acc)
     \<and> covered acc = {..< 18446744073709551616} - covered (first # rest)
         - (if rend (last (first # rest)) = 18446744073709551615
            then {18446744073709551615} else {})"
proof -
  let ?L = "last (first # rest)"
  obtain a1 h1 a2 h2 where
      gaps: "invert_gaps alloc first rest [] h = (True, a1, h1)"
    and beg: "invert_begin alloc first a1 h1 = (True, a2, h2)"
    and fin: "invert_end alloc ?L a2 h2 = (True, acc, h')"
    using assms(1) by (auto simp: invert_regions_def invert_out_err_def split: prod.splits bool.splits)
  have wff: "wf_region first" "wf_region ?L"
    using wf last_in_set [of "first # rest"] unfolding wf_regions_def by auto
  have ends: "rend first \<le> rend ?L" "covered (first # rest) \<subseteq> {..< rend ?L}"
    using wf_regions_last [OF wf] by auto
  have starts: "\<forall>x \<in> covered (first # rest). unat (rstart first) \<le> x"
    using wf by (fastforce simp: covered_def addrs_def before_def wf_region_def)
  have "unat (rstart ?L) \<in> covered (first # rest)"
    using addrs_nonempty [OF wff(2)] last_in_set [of "first # rest"] unfolding covered_def by blast
  with starts have fL: "unat (rstart first) \<le> unat (rstart ?L)" by blast
  from invert_gaps_spec [OF gaps wf] have g: "wf_regions a1" "live h1 = live h + int (length a1)"
      "\<forall>n \<in> set a1. rend first \<le> unat (rstart n) \<and> rend n \<le> unat (rstart ?L)"
      "covered a1 = {unat (rstart first) ..< rend ?L} - covered (first # rest)" by auto
  have "\<forall>n \<in> set a1. unat (rstart first) \<le> unat (rstart n)"
    using g(3) wff(1) by (fastforce simp: wf_region_def)
  from invert_begin_spec [OF beg wff(1) g(1) this]
  have b: "wf_regions a2" "live h2 = live h1 + int (length a2) - int (length a1)"
      "covered a2 = {..< unat (rstart first)} \<union> covered a1" by auto
  have "\<forall>n \<in> set a2. rend n \<le> unat (rstart ?L)"
  proof
    fix n assume n: "n \<in> set a2"
    then have "wf_region n" using b(1) by (simp add: wf_regions_def)
    then have "rend n - 1 \<in> covered a2"
      using n by (auto simp: covered_def addrs_def wf_region_def intro!: bexI [of _ n])
    then show "rend n \<le> unat (rstart ?L)"
      using n g(3) fL beg \<open>wf_region n\<close>
      by (auto simp: invert_begin_def Let_def alloc_resv_region_Some rend_def
               split: if_splits option.splits prod.splits)
  qed
  from invert_end_spec [OF fin wff(2) b(1) this] have e: "wf_regions acc"
      "live h' = live h2 + int (length acc) - int (length a2)"
      "covered acc = covered a2 \<union> (if rend ?L = 18446744073709551615 then {}
         else {rend ?L ..< 18446744073709551616})" by auto
  have "unat (rstart first) \<le> rend ?L" "rend ?L \<le> 18446744073709551616"
    using fL wff(2) by (simp_all add: wf_region_def)
  moreover have "covered (first # rest) \<subseteq> {unat (rstart first) ..< rend ?L}"
    using starts ends(2) by auto
  ultimately have "covered acc = {..< 18446744073709551616} - covered (first # rest)
      - (if rend ?L = 18446744073709551615 then {18446744073709551615} else {})"
    unfolding e(3) b(3) g(4) by (intro complement_split)
  with e b(2) g(2) show ?thesis by simp
qed

section \<open>Allocations are accounted for\<close>

lemma walk_insert_live:
  "walk_entries (insert_range alloc) naddr nsize p (rs, h) = (ret, rs', h') \<Longrightarrow>
     live h' - int (length rs') = live h - int (length rs)"
proof (induction "length p" arbitrary: p rs h rule: less_induct)
  case less
  show ?case
  proof (cases "p = [] \<or> naddr + nsize = 0")
    case True
    with less.prems show ?thesis by (auto simp: walk_entries.simps [of _ _ _ p])
  next
    case False
    obtain r1 rs1 h1 where step: "insert_range alloc p naddr nsize (rs, h) = (r1, rs1, h1)"
      by (cases "insert_range alloc p naddr nsize (rs, h)") auto
    then have one: "live h1 - int (length rs1) = live h - int (length rs)"
      by (auto simp: insert_range_def insert_region_def Let_def alloc_resv_region_def
               split: option.splits if_splits)
    show ?thesis
    proof (cases "r1 = 0")
      case True
      then have "walk_entries (insert_range alloc) naddr nsize (drop (naddr + nsize) p) (rs1, h1)
                   = (ret, rs', h')"
        using less.prems step False
        by (auto simp: walk_entries.simps [of _ _ _ p] split: if_splits)
      from less.hyps [OF _ this] False one show ?thesis by auto
    next
      case ne: False
      with less.prems step False one show ?thesis
        by (auto simp: walk_entries.simps [of _ _ _ p] split: if_splits)
    qed
  qed
qed

lemma dma_regions_live:
  "qcom_iommu_generate_dma_regions alloc dev (rs, h) = (ret, rs', h') \<Longrightarrow>
     live h' - int (length rs') = live h - int (length rs)"
  by (auto simp: qcom_iommu_generate_dma_regions_def of_property_walk_each_entry_def Let_def
           dest: walk_insert_live split: option.splits if_splits)

lemma invert_gaps_live:
  "invert_gaps alloc prev rest acc h = (ok, acc', h') \<Longrightarrow>
     live h' - int (length acc') = live h - int (length acc)"
proof (induction alloc prev rest acc h rule: invert_gaps.induct)
  case (1 alloc prev acc h)
  then show ?case by simp
next
  case (2 alloc prev cur rest acc h)
  then show ?case
    by (auto simp: Let_def alloc_resv_region_def split: if_splits)
qed

lemma invert_ends_live:
  "invert_begin alloc first acc h = (ok, acc', h') \<Longrightarrow>
     live h' - int (length acc') = live h - int (length acc)"
  "invert_end alloc first acc h = (ok, acc', h') \<Longrightarrow>
     live h' - int (length acc') = live h - int (length acc)"
  by (auto simp: invert_begin_def invert_end_def Let_def alloc_resv_region_def split: if_splits)

lemma invert_regions_live:
  assumes "invert_regions alloc head [] h = (ret, acc, h')"
  shows "live h' = live h + (if ret = 0 then int (length acc) else 0)"
  using assms
  by (fastforce simp: invert_regions_def invert_out_err_def free_regions_def
        split: list.splits prod.splits bool.splits
        dest: invert_gaps_live invert_ends_live)

section \<open>Success when the entries are disjoint\<close>

definition disjoint_regions :: "iommu_resv_region list \<Rightarrow> bool" where
  "disjoint_regions rs \<longleftrightarrow> sorted_wrt (\<lambda>a b. addrs a \<inter> addrs b = {}) rs"

lemma walk_insert_total:
  assumes "wf_regions rs" and "\<forall>x \<in> set (pool_entries naddr nsize p). wf_region x"
    and "disjoint_regions (pool_entries naddr nsize p)"
    and "\<forall>r \<in> set rs. \<forall>x \<in> set (pool_entries naddr nsize p). addrs r \<inter> addrs x = {}"
    and "\<forall>n. alloc n"
  shows "fst (walk_entries (insert_range alloc) naddr nsize p (rs, h)) = 0"
  using assms(1-4)
proof (induction "length p" arbitrary: p rs h rule: less_induct)
  case less
  show ?case
  proof (cases "p = [] \<or> naddr + nsize = 0")
    case True
    then show ?thesis by (simp add: walk_entries.simps [of _ _ _ p])
  next
    case False
    let ?x = "pool_entry naddr nsize p" and ?q = "drop (naddr + nsize) p"
    have entries: "pool_entries naddr nsize p = ?x # pool_entries naddr nsize ?q"
      using False by (simp add: pool_entries.simps [of _ _ p])
    have x: "wf_region ?x" using less.prems(2) entries by simp
    have "\<not> (\<exists>r \<in> set rs. addrs r \<inter> addrs ?x \<noteq> {})" using less.prems(4) entries by simp
    with insert_region_cases [OF less.prems(1) x, of alloc h] assms(5)
    obtain rs1 h1 where step: "insert_range alloc p naddr nsize (rs, h) = (0, rs1, h1)"
      by (simp add: insert_range_entry)
    then have "wf_regions rs1 \<and> mset rs1 = add_mset ?x (mset rs)"
      using insert_region_wf [OF less.prems(1) x] by (simp add: insert_range_entry)
    then have one: "wf_regions rs1" "set rs1 = insert ?x (set rs)"
      by (simp, metis set_mset_add_mset_insert set_mset_mset)
    have "length ?q < length p" using False by auto
    from less.hyps [OF this one(1)] less.prems entries one(2)
    have "fst (walk_entries (insert_range alloc) naddr nsize ?q (rs1, h1)) = 0"
      by (auto simp: disjoint_regions_def)
    with False step show ?thesis by (auto simp: walk_entries.simps [of _ _ _ p])
  qed
qed

lemma invert_total: "\<forall>n. alloc n \<Longrightarrow> head \<noteq> [] \<Longrightarrow> fst (invert_regions alloc head acc h) = 0"
proof -
  assume a: "\<forall>n. alloc n" and "head \<noteq> []"
  have "fst (invert_gaps alloc prev rest acc h)" for prev rest acc h
    using a by (induction alloc prev rest acc h rule: invert_gaps.induct)
      (auto simp: Let_def alloc_resv_region_def)
  moreover have "fst (invert_begin alloc prev acc h)" "fst (invert_end alloc prev acc h)"
    for prev acc h
    using a by (auto simp: invert_begin_def invert_end_def Let_def alloc_resv_region_def)
  ultimately show ?thesis
    using \<open>head \<noteq> []\<close>
    by (auto simp: invert_regions_def split: list.splits prod.splits bool.splits)
      (metis fst_conv)+
qed

text \<open>A pool property the driver accepts: whole entries, none empty or wrapping, none overlapping.\<close>

definition good_pool :: "iova_device \<Rightarrow> iommu_resv_region list \<Rightarrow> bool" where
  "good_pool dev es \<longleftrightarrow>
     (case qcom_iommu_group_parse_phandle dev of
        None \<Rightarrow> False
      | Some np \<Rightarrow>
          addr_cells np \<noteq> 0 \<and> size_cells np \<noteq> 0 \<and>
          (case node_property np ''qcom,iommu-dma-addr-pool'' of
             None \<Rightarrow> False
           | Some p \<Rightarrow> length p mod (addr_cells np + size_cells np) = 0 \<and>
               es = pool_entries (addr_cells np) (size_cells np) p)) \<and>
     es \<noteq> [] \<and> (\<forall>x \<in> set es. wf_region x) \<and> disjoint_regions es"

lemma dma_regions_good_pool:
  assumes "good_pool dev es" and "\<forall>n. alloc n"
  shows "\<exists>rs h'. qcom_iommu_generate_dma_regions alloc dev ([], h) = (0, rs, h')
           \<and> wf_regions rs \<and> mset rs = mset es"
proof -
  obtain np p where np: "qcom_iommu_group_parse_phandle dev = Some np" "addr_cells np \<noteq> 0"
      "size_cells np \<noteq> 0" "node_property np ''qcom,iommu-dma-addr-pool'' = Some p"
      "length p mod (addr_cells np + size_cells np) = 0"
      "es = pool_entries (addr_cells np) (size_cells np) p"
    using assms(1) by (auto simp: good_pool_def split: option.splits)
  have gen: "qcom_iommu_generate_dma_regions alloc dev ([], h)
          = walk_entries (insert_range alloc) (addr_cells np) (size_cells np) p ([], h)"
    using np by (simp add: qcom_iommu_generate_dma_regions_def of_property_walk_each_entry_def)
  have wf: "\<forall>x \<in> set (pool_entries (addr_cells np) (size_cells np) p). wf_region x"
    using assms(1) np(6) by (simp add: good_pool_def)
  have "fst (walk_entries (insert_range alloc) (addr_cells np) (size_cells np) p ([], h)) = 0"
    using assms np(6) wf by (intro walk_insert_total) (simp_all add: good_pool_def)
  then obtain rs h' where
    w: "walk_entries (insert_range alloc) (addr_cells np) (size_cells np) p ([], h) = (0, rs, h')"
    by (metis prod.collapse)
  with walk_insert_success [OF w _ wf] gen np(6) show ?thesis by auto
qed

lemma resv_complement:
  assumes pool: "good_pool dev es" and alloc: "\<forall>n. alloc n"
  shows "\<exists>resv h'. qcom_iommu_generate_resv_regions alloc dev head h = (resv @ head, h')
     \<and> wf_regions resv
     \<and> covered resv = {..< 18446744073709551616} - covered es
         - (if Max (rend ` set es) = 18446744073709551615 then {18446744073709551615} else {})"
proof -
  from dma_regions_good_pool [OF assms] obtain rs h1 where
    gen: "qcom_iommu_generate_dma_regions alloc dev ([], h) = (0, rs, h1)"
      and wf: "wf_regions rs" and ms: "mset rs = mset es" by blast
  from ms pool have ne: "rs \<noteq> []" by (auto simp: good_pool_def)
  then obtain first rest where rs: "rs = first # rest" by (cases rs) auto
  obtain resv h2 where inv: "invert_regions alloc rs [] h1 = (0, resv, h2)"
    using invert_total [OF alloc ne] by (metis prod.collapse)
  from invert_regions_success [OF inv [unfolded rs] wf [unfolded rs]]
  have res: "wf_regions resv" "covered resv = {..< 18446744073709551616} - covered rs
      - (if rend (last rs) = 18446744073709551615 then {18446744073709551615} else {})"
    by (simp_all add: rs)
  have "set rs = set es" using ms by (rule mset_eq_setD)
  moreover have "Max (rend ` set rs) = rend (last rs)"
  proof (rule Max_eqI)
    show "x \<le> rend (last rs)" if "x \<in> rend ` set rs" for x
    proof -
      from that obtain r where r: "r \<in> set rs" "x = rend r" by auto
      then obtain xs ys where "rs = xs @ r # ys" by (meson split_list)
      with wf have "wf_regions (r # ys)" "last rs = last (r # ys)" by simp_all
      with wf_regions_last [of r ys] r(2) show ?thesis by simp
    qed
  qed (use ne in auto)
  ultimately have "covered resv = {..< 18446744073709551616} - covered es
      - (if Max (rend ` set es) = 18446744073709551615 then {18446744073709551615} else {})"
    using res(2) covered_mset [OF ms] by simp
  with res(1) gen inv show ?thesis
    by (auto simp: qcom_iommu_generate_resv_regions_def Let_def)
qed

section \<open>Properties\<close>

text \<open>C8: The regions reserved for a device are exactly the complement of its DMA address pool.
  For every pool property of whole, non-empty, pairwise disjoint entries and a region allocator
  that does not fail, the driver succeeds and prepends to the caller's list a sorted list of
  pairwise separate regions that cover every 64-bit address outside the pool and no address of
  the pool. The only address that can be missing is the last one of the address space, when the
  pool ends just before it.\<close>

theorem resv_regions_complement:
  assumes "good_pool dev es" "\<forall>n. alloc n"
  shows "\<exists>resv h'. qcom_iommu_generate_resv_regions alloc dev head h = (resv @ head, h')
     \<and> wf_regions resv
     \<and> covered resv = {..< 18446744073709551616} - covered es
         - (if Max (rend ` set es) = 18446744073709551615 then {18446744073709551615} else {})"
  using assms by (rule resv_complement)

definition example_node :: device_node where
  "example_node = \<lparr>addr_cells = 2, size_cells = 2,
     node_property = (\<lambda>_. Some [0, 0x4000, 0, 0x2000, 0, 0x1000, 0, 0x1000])\<rparr>"

definition example_dev :: iova_device where
  "example_dev = \<lparr>of_node = Some example_node, iommu_group_phandle = None\<rparr>"

definition example_pool :: "iommu_resv_region list" where
  "example_pool = [\<lparr>rstart = 0x4000, rlength = 0x2000\<rparr>, \<lparr>rstart = 0x1000, rlength = 0x1000\<rparr>]"

lemma example_pool_good: "good_pool example_dev example_pool"
  by (simp add: good_pool_def example_dev_def example_node_def example_pool_def
      qcom_iommu_group_parse_phandle_def pool_entries.simps pool_entry_def of_read_number_def
      wf_region_def rend_def disjoint_regions_def addrs_def)

theorem resv_regions_complement_witness:
  "\<exists>resv h'. qcom_iommu_generate_resv_regions (\<lambda>_. True) example_dev []
       \<lparr>attempts = 0, live = 0\<rparr> = (resv @ [], h')
     \<and> wf_regions resv
     \<and> covered resv = {..< 18446744073709551616} - covered example_pool
         - (if Max (rend ` set example_pool) = 18446744073709551615
            then {18446744073709551615} else {})"
  by (rule resv_regions_complement [OF example_pool_good]) simp

text \<open>Inserting one pool entry keeps the list sorted and disjoint and is exact about errors.
  For a well-formed list and a well-formed entry the code returns -EINVAL exactly when the entry
  overlaps a region of the list (the scan stops early but misses no overlap) and -ENOMEM exactly
  when the allocation fails; in both cases the list is unchanged. Otherwise it returns 0 and the
  new list is sorted, disjoint, and has the old regions and the new one as its elements.\<close>

theorem insert_range_correct:
  assumes "wf_regions rs" and "wf_region (pool_entry naddr nsize p)"
  shows "case insert_range alloc p naddr nsize (rs, h) of (ret, rs', h') \<Rightarrow>
     (ret = - EINVAL \<longleftrightarrow> (\<exists>r \<in> set rs. addrs r \<inter> addrs (pool_entry naddr nsize p) \<noteq> {}))
     \<and> (ret = - ENOMEM \<longleftrightarrow> \<not> (\<exists>r \<in> set rs. addrs r \<inter> addrs (pool_entry naddr nsize p) \<noteq> {})
                            \<and> \<not> alloc (attempts h))
     \<and> (if ret = 0 then wf_regions rs' \<and> mset rs' = add_mset (pool_entry naddr nsize p) (mset rs)
        else rs' = rs \<and> (ret = - EINVAL \<or> ret = - ENOMEM))"
proof -
  let ?ov = "\<exists>r \<in> set rs. addrs r \<inter> addrs (pool_entry naddr nsize p) \<noteq> {}"
  note cases = insert_region_cases [OF assms, of alloc h, folded insert_range_entry]
  show ?thesis
  proof (cases "?ov \<or> \<not> alloc (attempts h)")
    case True
    with cases show ?thesis by (auto simp del: Int_iff disjoint_iff_not_equal)
  next
    case False
    with cases obtain rs' h' where r: "insert_range alloc p naddr nsize (rs, h) = (0, rs', h')"
      by simp
    with insert_region_wf [OF assms, of alloc h rs' h', folded insert_range_entry] False
    show ?thesis by simp
  qed
qed

theorem insert_range_correct_witness:
  "case insert_range (\<lambda>_. True) [0x3000, 0x1000] 1 1 (rev example_pool, \<lparr>attempts = 0, live = 0\<rparr>)
   of (ret, rs', h') \<Rightarrow>
     (ret = - EINVAL \<longleftrightarrow> (\<exists>r \<in> set (rev example_pool).
        addrs r \<inter> addrs (pool_entry 1 1 [0x3000, 0x1000]) \<noteq> {}))
     \<and> (ret = - ENOMEM \<longleftrightarrow> \<not> (\<exists>r \<in> set (rev example_pool).
            addrs r \<inter> addrs (pool_entry 1 1 [0x3000, 0x1000]) \<noteq> {}) \<and> \<not> True)
     \<and> (if ret = 0 then wf_regions rs'
            \<and> mset rs' = add_mset (pool_entry 1 1 [0x3000, 0x1000]) (mset (rev example_pool))
        else rs' = rev example_pool \<and> (ret = - EINVAL \<or> ret = - ENOMEM))"
proof -
  have wf: "wf_regions (rev example_pool)" "wf_region (pool_entry 1 1 [0x3000, 0x1000])"
    by (simp_all add: example_pool_def wf_region_def rend_def before_def pool_entry_def
        of_read_number_def)
  show ?thesis by (rule insert_range_correct [OF wf, of "\<lambda>_. True"])
qed

text \<open>Region allocations are accounted for, on every path. However the allocator behaves, the
  regions still allocated after generating the reserved regions are those handed to the caller,
  plus, when reading the pool property fails half way, the regions already parsed: that path
  returns without releasing them.\<close>

theorem resv_regions_ledger:
  "case qcom_iommu_generate_dma_regions alloc dev ([], h) of (ret, dma_regions, h1) \<Rightarrow>
     case qcom_iommu_generate_resv_regions alloc dev head h of (head', h') \<Rightarrow>
       live h' = live h + (int (length head') - int (length head))
                 + (if ret \<noteq> 0 then int (length dma_regions) else 0)
       \<and> (ret = 0 \<or> head' = head)"
proof -
  obtain ret dma h1 where gen: "qcom_iommu_generate_dma_regions alloc dev ([], h) = (ret, dma, h1)"
    by (cases "qcom_iommu_generate_dma_regions alloc dev ([], h)")
  obtain ret' resv h2 where inv: "invert_regions alloc dma [] h1 = (ret', resv, h2)"
    by (cases "invert_regions alloc dma [] h1")
  from dma_regions_live [OF gen] invert_regions_live [OF inv] gen inv show ?thesis
    by (auto simp: qcom_iommu_generate_resv_regions_def free_regions_def Let_def)
qed

end
