(* ===== verification/IovaBitmap.thy ===== *)
theory IovaBitmap
  imports Uapi
begin

text \<open>
  Model of the page-granular IOVA allocator of \<open>drivers/kiumd.c\<close>: the two 3 GB bitmaps
  \<open>global_map\<close> and \<open>perprocess_map\<close>, \<open>get_map_offset\<close> and \<open>clear_map_iova\<close>.
  A bitmap is the set of its set bits. The kernel's search \<open>bitmap_find_next_zero_area\<close> is a
  parameter with its documented contract, the locale \<open>zero_area_search\<close>; a write outside the
  bitmap is the outcome \<open>None\<close>. The locale \<open>area_allocator\<close> is what the callers rely on: fresh
  areas, exact marking, exact release. It is derived from the search contract for both tables.
\<close>

section \<open>Data\<close>

abbreviation (input) PAGE_SHIFT :: nat where "PAGE_SHIFT \<equiv> 12"

definition KGSL_PT_MEM_PAGES :: nat where "KGSL_PT_MEM_PAGES = 0xC0000"

definition KGSL_GLOBAL_PT_BASE_IOVA :: u64 where "KGSL_GLOBAL_PT_BASE_IOVA = 0xFFFFFF8000000000"
definition KGSL_PER_PROCESS_PT_BASE_IOVA :: u64 where "KGSL_PER_PROCESS_PT_BASE_IOVA = 0x60000000"


type_synonym bitmap = "nat set"

record pt_maps =
  global_map :: bitmap
  perprocess_map :: bitmap
  last_offset_global :: u64
  last_offset_perprocess :: u64

definition init_maps :: pt_maps where
  "init_maps = \<lparr>global_map = {}, perprocess_map = {}, last_offset_global = 0,
                last_offset_perprocess = 0\<rparr>"

text \<open>
  \<open>bitmap_set\<close> and \<open>bitmap_clear\<close> take 32-bit positions and lengths; touching a bit outside
  the array of \<open>KGSL_PT_MEM_PAGES\<close> bits is memory corruption.
\<close>

definition bitmap_set :: "bitmap \<Rightarrow> u32 \<Rightarrow> u32 \<Rightarrow> bitmap option" where
  "bitmap_set m start nbits =
     (if unat nbits = 0 then Some m
      else if unat start + unat nbits \<le> KGSL_PT_MEM_PAGES
      then Some (m \<union> {unat start ..< unat start + unat nbits}) else None)"

definition bitmap_clear :: "bitmap \<Rightarrow> u32 \<Rightarrow> u32 \<Rightarrow> bitmap option" where
  "bitmap_clear m start nbits =
     (if unat nbits = 0 then Some m
      else if unat start + unat nbits \<le> KGSL_PT_MEM_PAGES
      then Some (m - {unat start ..< unat start + unat nbits}) else None)"

section \<open>Operations\<close>

type_synonym zero_area = "bitmap \<Rightarrow> u64 \<Rightarrow> u64 \<Rightarrow> u32 \<Rightarrow> u64"

text \<open>The common tail of \<open>get_map_offset\<close>: set the bits, compute the offset, advance the hint.\<close>

definition take_area :: "bitmap \<Rightarrow> u64 \<Rightarrow> u64 \<Rightarrow> (int \<times> bitmap \<times> u64) option" where
  "take_area m bitno sz =
     (case bitmap_set m (ucast bitno) (ucast (drop_bit PAGE_SHIFT sz)) of
        None \<Rightarrow> None
      | Some m' \<Rightarrow>
          Some (sint (push_bit PAGE_SHIFT bitno), m',
                (bitno + drop_bit PAGE_SHIFT sz) mod of_nat KGSL_PT_MEM_PAGES))"

definition find_and_take :: "zero_area \<Rightarrow> bitmap \<Rightarrow> u64 \<Rightarrow> u64 \<Rightarrow> (int \<times> bitmap \<times> u64) option" where
  "find_and_take bitmap_find_next_zero_area m last_offset sz =
     (if sz = 0 \<or> drop_bit PAGE_SHIFT sz = 0 then Some (- EINVAL, m, last_offset)
      else
        let pages = of_nat KGSL_PT_MEM_PAGES;
            nr = ucast (drop_bit PAGE_SHIFT sz);
            bitno = bitmap_find_next_zero_area m pages last_offset nr in
        if bitno + drop_bit PAGE_SHIFT sz \<ge> pages then
          (let bitno = bitmap_find_next_zero_area m pages 0 nr in
           if bitno \<ge> pages then Some (- ENOSPC, m, last_offset)
           else take_area m bitno sz)
        else take_area m bitno sz)"

definition get_map_offset :: "zero_area \<Rightarrow> u64 \<Rightarrow> int \<Rightarrow> pt_maps \<Rightarrow> (int \<times> pt_maps) option" where
  "get_map_offset search sz sel s =
     (if sel \<noteq> KGSL_GLOBAL_PT \<and> sel \<noteq> KGSL_PER_PROCESS_PT then Some (- EINVAL, s)
      else if sel = KGSL_GLOBAL_PT then
        (case find_and_take search (global_map s) (last_offset_global s) sz of
           None \<Rightarrow> None
         | Some (r, m', last') \<Rightarrow> Some (r, s\<lparr>global_map := m', last_offset_global := last'\<rparr>))
      else
        (case find_and_take search (perprocess_map s) (last_offset_perprocess s) sz of
           None \<Rightarrow> None
         | Some (r, m', last') \<Rightarrow>
             Some (r, s\<lparr>perprocess_map := m', last_offset_perprocess := last'\<rparr>)))"

definition clear_map_iova :: "u64 \<Rightarrow> u64 \<Rightarrow> int \<Rightarrow> pt_maps \<Rightarrow> pt_maps option" where
  "clear_map_iova iova sz sel s =
     (if sel = KGSL_GLOBAL_PT then
        (let bitno = drop_bit PAGE_SHIFT (iova AND NOT KGSL_GLOBAL_PT_BASE_IOVA) in
         case bitmap_clear (global_map s) (ucast bitno) (ucast (drop_bit PAGE_SHIFT sz)) of
           None \<Rightarrow> None | Some m' \<Rightarrow> Some (s\<lparr>global_map := m'\<rparr>))
      else if sel = KGSL_PER_PROCESS_PT then
        (let bitno = drop_bit PAGE_SHIFT (iova - KGSL_PER_PROCESS_PT_BASE_IOVA) in
         case bitmap_clear (perprocess_map s) (ucast bitno) (ucast (drop_bit PAGE_SHIFT sz)) of
           None \<Rightarrow> None | Some m' \<Rightarrow> Some (s\<lparr>perprocess_map := m'\<rparr>))
      else Some s)"

text \<open>The address \<open>set_map_iova\<close> programs for an offset of a valid page table.\<close>

definition map_iova :: "u64 \<Rightarrow> int \<Rightarrow> u64" where
  "map_iova offset sel =
     (if sel = KGSL_GLOBAL_PT then KGSL_GLOBAL_PT_BASE_IOVA + offset
      else KGSL_PER_PROCESS_PT_BASE_IOVA + offset)"

section \<open>The contract of the search\<close>

definition area :: "nat \<Rightarrow> nat \<Rightarrow> nat set" where
  "area start n = {start ..< start + n}"

text \<open>
  \<open>bitmap_find_next_zero_area map size start nr 0\<close> returns the first position from \<open>start\<close> at
  which \<open>nr\<close> clear bits lie inside \<open>size\<close>, and otherwise the end of the window that did
  not fit, which is beyond \<open>size\<close> by at most \<open>nr\<close>.
\<close>

locale zero_area_search =
  fixes search :: zero_area
  assumes found: "0 < nr \<Longrightarrow> unat (search m sz st nr) < unat sz \<Longrightarrow>
      unat st \<le> unat (search m sz st nr)
      \<and> unat (search m sz st nr) + unat nr \<le> unat sz
      \<and> area (unat (search m sz st nr)) (unat nr) \<inter> m = {}"
    and complete: "0 < nr \<Longrightarrow> unat st \<le> b \<Longrightarrow> b + unat nr \<le> unat sz \<Longrightarrow> area b (unat nr) \<inter> m = {} \<Longrightarrow>
      unat (search m sz st nr) < unat sz"
    and overshoot: "unat (search m sz st nr) \<le> unat sz + unat nr"

text \<open>A reference search with that contract, and its executable form.\<close>

function scan_area :: "bitmap \<Rightarrow> nat \<Rightarrow> nat \<Rightarrow> nat \<Rightarrow> nat" where
  "scan_area m sz b nr =
     (if b + nr \<le> sz
      then (if area b nr \<inter> m = {} then b else scan_area m sz (Suc b) nr)
      else sz + nr)"
  by pat_completeness auto
termination
  by (relation "measure (\<lambda>(m, sz, b, nr). Suc sz - b)") auto

declare scan_area.simps [simp del]

definition reference_search :: zero_area where
  "reference_search m sz st nr =
     of_nat (min (scan_area m (unat sz) (unat st) (unat nr)) 18446744073709551615)"

lemma scan_area_found:
  "scan_area m sz b nr < sz + nr \<Longrightarrow>
     b \<le> scan_area m sz b nr \<and> scan_area m sz b nr + nr \<le> sz \<and> area (scan_area m sz b nr) nr \<inter> m = {}"
proof (induction m sz b nr rule: scan_area.induct)
  case (1 m sz b nr)
  then show ?case
    by (subst (asm) (3) scan_area.simps, subst (1 2 3) scan_area.simps) (auto split: if_splits)
qed

lemma scan_area_complete:
  "b \<le> b' \<Longrightarrow> b' + nr \<le> sz \<Longrightarrow> area b' nr \<inter> m = {} \<Longrightarrow> scan_area m sz b nr \<le> b'"
proof (induction m sz b nr rule: scan_area.induct)
  case (1 m sz b nr)
  show ?case
  proof (cases "area b nr \<inter> m = {}")
    case True
    with "1.prems" show ?thesis by (subst scan_area.simps) auto
  next
    case False
    with "1.prems" have "Suc b \<le> b'" by (metis Suc_leI le_neq_implies_less)
    with "1.IH" "1.prems" False show ?thesis by (subst scan_area.simps) auto
  qed
qed

lemma scan_area_bound: "scan_area m sz b nr \<le> sz + nr"
proof (induction m sz b nr rule: scan_area.induct)
  case (1 m sz b nr)
  then show ?case by (subst scan_area.simps) auto
qed

lemma unat_of_nat_u64: "unat (of_nat n :: u64) = n mod 18446744073709551616"
  by (simp add: unat_of_nat)

lemma unat_reference_search:
  assumes "unat sz + unat nr < 18446744073709551616"
  shows "unat (reference_search m sz st nr) = scan_area m (unat sz) (unat st) (unat nr)"
  using scan_area_bound [of m "unat sz" "unat st" "unat nr"] assms
  by (simp add: reference_search_def unat_of_nat_u64)

lemma reference_search_capped:
  assumes "\<not> unat sz + unat nr < 18446744073709551616"
  shows "unat (reference_search m sz st nr)
           = min (scan_area m (unat sz) (unat st) (unat nr)) 18446744073709551615"
  by (simp add: reference_search_def unat_of_nat_u64)

lemma unat_reference_search_min:
  "unat (reference_search m sz st nr)
     = min (scan_area m (unat sz) (unat st) (unat nr)) 18446744073709551615"
  using unat_reference_search [of sz nr m st] reference_search_capped [of sz nr m st]
    scan_area_bound [of m "unat sz" "unat st" "unat nr"]
  by (cases "unat sz + unat nr < 18446744073709551616") simp_all

interpretation ref: zero_area_search reference_search
proof
  fix nr :: u32 and m st and sz :: u64
  assume nr: "0 < nr" and lt: "unat (reference_search m sz st nr) < unat sz"
  let ?r = "scan_area m (unat sz) (unat st) (unat nr)"
  from lt have r: "unat (reference_search m sz st nr) = ?r"
    by (auto simp: unat_reference_search_min min_def not_le split: if_splits)
  with lt have "?r < unat sz + unat nr" by simp
  from scan_area_found [OF this] r
  show "unat st \<le> unat (reference_search m sz st nr)
      \<and> unat (reference_search m sz st nr) + unat nr \<le> unat sz
      \<and> area (unat (reference_search m sz st nr)) (unat nr) \<inter> m = {}" by simp
next
  fix nr :: u32 and m b and st sz :: u64
  assume nr: "0 < nr" and b: "unat st \<le> b" "b + unat nr \<le> unat sz" "area b (unat nr) \<inter> m = {}"
  have "0 < unat nr" using nr by (simp add: word_less_unat)
  with scan_area_complete [OF b] b(2) show "unat (reference_search m sz st nr) < unat sz"
    by (simp add: unat_reference_search_min)
next
  fix nr :: u32 and m and st sz :: u64
  show "unat (reference_search m sz st nr) \<le> unat sz + unat nr"
    using scan_area_bound [of m "unat sz" "unat st" "unat nr"]
    by (simp add: unat_reference_search_min)
qed

section \<open>What an allocation does\<close>

definition pt_map :: "int \<Rightarrow> pt_maps \<Rightarrow> bitmap" where
  "pt_map sel s = (if sel = KGSL_GLOBAL_PT then global_map s else perprocess_map s)"

definition pt_last :: "int \<Rightarrow> pt_maps \<Rightarrow> u64" where
  "pt_last sel s =
     (if sel = KGSL_GLOBAL_PT then last_offset_global s else last_offset_perprocess s)"

definition page_count :: "u64 \<Rightarrow> nat" where
  "page_count sz = unat sz div 4096"

lemma unat_pages: "unat (drop_bit 12 (sz :: u64)) = page_count sz"
  by (simp add: page_count_def drop_bit_eq_div unat_div)

lemma unat_pages_u32:
  assumes "page_count sz < 4294967296"
  shows "unat (ucast (drop_bit 12 sz) :: u32) = page_count sz"
  using assms by (simp add: unsigned_ucast_eq unat_pages take_bit_eq_mod)

lemma sint_page_address:
  assumes "unat (b :: u64) < 4503599627370496 div 2"
  shows "sint (push_bit 12 b) = int (unat b * 4096)"
proof -
  have u: "unat (push_bit 12 b) = unat b * 4096"
    using assms by (simp add: push_bit_eq_mult unat_word_ariths)
  then have "unat (push_bit 12 b) < 9223372036854775808" using assms by simp
  from sint_u64_small [OF this] u show ?thesis by simp
qed

lemma take_area_in_range:
  assumes "unat b + page_count sz \<le> KGSL_PT_MEM_PAGES"
  shows "take_area m b sz = Some (int (unat b * 4096), m \<union> area (unat b) (page_count sz),
      (b + drop_bit 12 sz) mod 0xC0000)"
proof -
  have "page_count sz < 4294967296" using assms by (simp add: KGSL_PT_MEM_PAGES_def)
  then have n: "unat (ucast (drop_bit 12 sz) :: u32) = page_count sz" by (rule unat_pages_u32)
  have b: "unat (ucast b :: u32) = unat b"
    using assms by (simp add: KGSL_PT_MEM_PAGES_def unsigned_ucast_eq take_bit_eq_mod)
  have "sint (push_bit 12 b) = int (unat b * 4096)"
    using assms by (intro sint_page_address) (simp add: KGSL_PT_MEM_PAGES_def)
  with n b assms show ?thesis
    by (auto simp: take_area_def bitmap_set_def area_def KGSL_PT_MEM_PAGES_def)
qed

lemma hint_in_range: "unat ((x :: u64) mod 0xC0000) < KGSL_PT_MEM_PAGES"
  by (simp add: unat_mod KGSL_PT_MEM_PAGES_def)

context zero_area_search
begin

text \<open>The search bounds, for the sizes the callers pass after the zero check.\<close>

lemma search_hit:
  assumes "0 < n" "n < 4294967296" "unat (nr :: u32) = n" "unat (search m 0xC0000 st nr) < KGSL_PT_MEM_PAGES"
  shows "unat (search m 0xC0000 st nr) + n \<le> KGSL_PT_MEM_PAGES
           \<and> area (unat (search m 0xC0000 st nr)) n \<inter> m = {}"
proof -
  have "0 < nr" using assms by (simp add: word_less_unat)
  from found [OF this, of m "0xC0000" st] assms show ?thesis by (simp add: KGSL_PT_MEM_PAGES_def)
qed

lemma search_miss:
  assumes "0 < n" "unat (nr :: u32) = n" "\<not> unat (search m 0xC0000 0 nr) < KGSL_PT_MEM_PAGES"
    and "b + n \<le> KGSL_PT_MEM_PAGES" "area b n \<inter> m = {}"
  shows False
proof -
  have "0 < nr" using assms by (simp add: word_less_unat)
  from complete [OF this, of 0 b "0xC0000" m] assms show False by (simp add: KGSL_PT_MEM_PAGES_def)
qed

lemma find_and_take_exact:
  assumes n: "0 < page_count sz" "page_count sz < 4294967296"
  shows "(\<exists>b r' last'. find_and_take search m lst sz
            = Some (int (b * 4096), m \<union> area b (page_count sz), last')
            \<and> b + page_count sz \<le> KGSL_PT_MEM_PAGES \<and> area b (page_count sz) \<inter> m = {}
            \<and> unat last' < KGSL_PT_MEM_PAGES)
       \<or> find_and_take search m lst sz = Some (- ENOSPC, m, lst)
         \<and> \<not> (\<exists>b. b + page_count sz \<le> KGSL_PT_MEM_PAGES \<and> area b (page_count sz) \<inter> m = {})"
proof -
  let ?n = "page_count sz" and ?nr = "ucast (drop_bit 12 sz) :: u32"
  have nr: "unat ?nr = ?n" using n(2) by (rule unat_pages_u32)
  have nz: "\<not> (sz = 0 \<or> drop_bit 12 sz = 0)"
    using n(1) by (auto simp: unat_eq_0_u64 unat_pages page_count_def)
  have pages: "(of_nat KGSL_PT_MEM_PAGES :: u64) = 0xC0000" by (simp add: KGSL_PT_MEM_PAGES_def)
  have sum: "unat (search m 0xC0000 st ?nr + drop_bit 12 sz)
      = unat (search m 0xC0000 st ?nr) + ?n" for st
  proof -
    have "unat (search m 0xC0000 st ?nr) \<le> 0xC0000 + ?n"
      using overshoot [of m "0xC0000" st ?nr] nr by simp
    with n(2) show ?thesis by (simp add: unat_add_u64 unat_pages)
  qed
  have take: "take_area m b sz = Some (int (unat b * 4096), m \<union> area (unat b) ?n,
        (b + drop_bit 12 sz) mod 0xC0000)" if "unat b + ?n \<le> KGSL_PT_MEM_PAGES" for b
    using that by (rule take_area_in_range)
  show ?thesis
  proof (cases "0xC0000 \<le> search m 0xC0000 lst ?nr + drop_bit 12 sz")
    case False
    let ?b = "search m 0xC0000 lst ?nr"
    have lt: "unat ?b + ?n < KGSL_PT_MEM_PAGES"
      using False sum by (simp add: word_less_unat KGSL_PT_MEM_PAGES_def)
    then have "unat ?b < KGSL_PT_MEM_PAGES" by simp
    note hit = search_hit [OF n nr this]
    have "find_and_take search m lst sz = Some (int (unat ?b * 4096), m \<union> area (unat ?b) ?n,
        (?b + drop_bit 12 sz) mod 0xC0000)"
      unfolding find_and_take_def Let_def pages if_not_P [OF nz] if_not_P [OF False]
      by (rule take) (use hit in simp)
    with hit hint_in_range show ?thesis by blast
  next
    case True
    let ?b = "search m 0xC0000 0 ?nr"
    show ?thesis
    proof (cases "unat ?b < KGSL_PT_MEM_PAGES")
      case hit: True
      then have "\<not> 0xC0000 \<le> ?b" by (simp add: word_less_unat KGSL_PT_MEM_PAGES_def)
      then have "find_and_take search m lst sz = take_area m ?b sz"
        unfolding find_and_take_def Let_def pages if_not_P [OF nz] if_P [OF True] by simp
      also have "\<dots> = Some (int (unat ?b * 4096), m \<union> area (unat ?b) ?n,
          (?b + drop_bit 12 sz) mod 0xC0000)"
        using search_hit [OF n nr hit] by (intro take) simp
      finally show ?thesis using search_hit [OF n nr hit] hint_in_range by blast
    next
      case miss: False
      then have "0xC0000 \<le> ?b" by (simp add: word_less_unat KGSL_PT_MEM_PAGES_def)
      then have "find_and_take search m lst sz = Some (- ENOSPC, m, lst)"
        unfolding find_and_take_def Let_def pages if_not_P [OF nz] if_P [OF True] by simp
      with search_miss [OF n(1) nr miss] show ?thesis by blast
    qed
  qed
qed

end

section \<open>The allocator the mapping code relies on\<close>

text \<open>A client's history: it allocates by byte size and frees the areas it holds.\<close>

datatype area_op = Alloc u64 | Free nat

fun area_step :: "(u64 \<Rightarrow> 's \<Rightarrow> (int \<times> 's) option) \<Rightarrow> (u64 \<Rightarrow> u64 \<Rightarrow> 's \<Rightarrow> 's option) \<Rightarrow> area_op
    \<Rightarrow> (nat \<times> u64) list \<times> 's \<Rightarrow> ((nat \<times> u64) list \<times> 's) option" where
  "area_step alloc release (Alloc sz) (held, s) =
     (case alloc sz s of
        None \<Rightarrow> None
      | Some (r, s') \<Rightarrow> Some (if r < 0 then held else (nat r div 4096, sz) # held, s'))"
| "area_step alloc release (Free i) (held, s) =
     (if i < length held
      then (case release (of_nat (fst (held ! i) * 4096)) (snd (held ! i)) s of
              None \<Rightarrow> None
            | Some s' \<Rightarrow> Some (take i held @ drop (Suc i) held, s'))
      else Some (held, s))"

fun area_run :: "(u64 \<Rightarrow> 's \<Rightarrow> (int \<times> 's) option) \<Rightarrow> (u64 \<Rightarrow> u64 \<Rightarrow> 's \<Rightarrow> 's option) \<Rightarrow> area_op list
    \<Rightarrow> (nat \<times> u64) list \<times> 's \<Rightarrow> ((nat \<times> u64) list \<times> 's) option" where
  "area_run alloc release [] st = Some st"
| "area_run alloc release (x # ops) st =
     (case area_step alloc release x st of None \<Rightarrow> None | Some st' \<Rightarrow> area_run alloc release ops st')"

fun small_op :: "area_op \<Rightarrow> bool" where
  "small_op (Alloc sz) = (page_count sz < 4294967296)"
| "small_op (Free i) = True"

definition held_area :: "nat \<times> u64 \<Rightarrow> nat set" where
  "held_area a = area (fst a) (page_count (snd a))"

definition held_ok :: "(nat \<times> u64) list \<Rightarrow> nat set \<Rightarrow> bool" where
  "held_ok held u \<longleftrightarrow>
     (\<forall>a \<in> set held. 0 < page_count (snd a) \<and> fst a + page_count (snd a) \<le> KGSL_PT_MEM_PAGES)
     \<and> sorted_wrt (\<lambda>a b. held_area a \<inter> held_area b = {}) held
     \<and> u = (\<Union>a \<in> set held. held_area a)"

lemma held_ok_Nil [simp]: "held_ok [] u \<longleftrightarrow> u = {}"
  by (simp add: held_ok_def)

lemma held_ok_add:
  assumes "held_ok held u" "0 < page_count sz" "b + page_count sz \<le> KGSL_PT_MEM_PAGES"
    and "area b (page_count sz) \<inter> u = {}"
  shows "held_ok ((b, sz) # held) (u \<union> area b (page_count sz))"
  using assms by (auto simp: held_ok_def held_area_def)

lemma held_ok_remove:
  assumes "held_ok held u" "i < length held"
  shows "held_ok (take i held @ drop (Suc i) held) (u - held_area (held ! i))"
proof -
  let ?a = "held ! i" and ?xs = "take i held" and ?ys = "drop (Suc i) held"
  have held: "held = ?xs @ ?a # ?ys" using assms(2) by (rule id_take_nth_drop)
  then have "sorted_wrt (\<lambda>a b. held_area a \<inter> held_area b = {}) (?xs @ ?a # ?ys)"
    using assms(1) unfolding held_ok_def by metis
  then have dis: "\<forall>x \<in> set ?xs \<union> set ?ys. held_area x \<inter> held_area ?a = {}"
    and srt: "sorted_wrt (\<lambda>a b. held_area a \<inter> held_area b = {}) (?xs @ ?ys)"
    unfolding sorted_wrt_append by auto
  have "set held = insert ?a (set ?xs \<union> set ?ys)" by (subst held) auto
  then have "u = held_area ?a \<union> (\<Union>x \<in> set (?xs @ ?ys). held_area x)"
    using assms(1) by (auto simp: held_ok_def)
  with dis have "u - held_area ?a = (\<Union>x \<in> set (?xs @ ?ys). held_area x)" by auto
  with srt assms(1) show ?thesis
    unfolding held_ok_def by (auto dest: in_set_takeD in_set_dropD)
qed

lemma nat_page [simp]: "nat (int b * 4096) div 4096 = b"
proof -
  have "nat (int b * 4096) = b * 4096" by (simp add: nat_mult_distrib)
  then show ?thesis by simp
qed

locale area_allocator =
  fixes alloc :: "u64 \<Rightarrow> 's \<Rightarrow> (int \<times> 's) option"
    and release :: "u64 \<Rightarrow> u64 \<Rightarrow> 's \<Rightarrow> 's option"
    and used :: "'s \<Rightarrow> nat set"
  assumes alloc_ok: "page_count sz < 4294967296 \<Longrightarrow> \<exists>r s'. alloc sz s = Some (r, s') \<and>
      (if r < 0 then used s' = used s
       else \<exists>b. r = int (b * 4096) \<and> 0 < page_count sz \<and> b + page_count sz \<le> KGSL_PT_MEM_PAGES
              \<and> area b (page_count sz) \<inter> used s = {}
              \<and> used s' = used s \<union> area b (page_count sz))"
    and release_ok: "0 < page_count sz \<Longrightarrow> b + page_count sz \<le> KGSL_PT_MEM_PAGES \<Longrightarrow>
      \<exists>s'. release (of_nat (b * 4096)) sz s = Some s' \<and> used s' = used s - area b (page_count sz)"
begin

lemma step_ok:
  assumes "held_ok held (used s)" "small_op x"
  shows "\<exists>held' s'. area_step alloc release x (held, s) = Some (held', s') \<and> held_ok held' (used s')"
proof (cases x)
  case (Alloc sz)
  then obtain r s' where a: "alloc sz s = Some (r, s')"
      "if r < 0 then used s' = used s
       else \<exists>b. r = int (b * 4096) \<and> 0 < page_count sz \<and> b + page_count sz \<le> KGSL_PT_MEM_PAGES
              \<and> area b (page_count sz) \<inter> used s = {} \<and> used s' = used s \<union> area b (page_count sz)"
    using alloc_ok [of sz s] assms(2) by auto
  show ?thesis
  proof (cases "r < 0")
    case True
    then show ?thesis using a Alloc assms(1) by simp
  next
    case False
    with a obtain b where b: "nat r div 4096 = b" "0 < page_count sz"
        "b + page_count sz \<le> KGSL_PT_MEM_PAGES" "area b (page_count sz) \<inter> used s = {}"
        "used s' = used s \<union> area b (page_count sz)" by auto
    with held_ok_add [OF assms(1) b(2-4)] a(1) Alloc False show ?thesis by simp
  qed
next
  case (Free i)
  show ?thesis
  proof (cases "i < length held")
    case True
    with assms(1) have "0 < page_count (snd (held ! i))
        \<and> fst (held ! i) + page_count (snd (held ! i)) \<le> KGSL_PT_MEM_PAGES"
      by (simp add: held_ok_def)
    with release_ok obtain s' where
      "release (of_nat (fst (held ! i) * 4096)) (snd (held ! i)) s = Some s'"
      "used s' = used s - held_area (held ! i)"
      unfolding held_area_def by blast
    with held_ok_remove [OF assms(1) True] Free True show ?thesis by simp
  qed (use Free assms(1) in simp)
qed

lemma run_ok:
  assumes "held_ok held (used s)" "\<forall>x \<in> set ops. small_op x"
  shows "\<exists>held' s'. area_run alloc release ops (held, s) = Some (held', s') \<and> held_ok held' (used s')"
  using assms
proof (induction ops arbitrary: held s)
  case (Cons x ops)
  then obtain held1 s1 where "area_step alloc release x (held, s) = Some (held1, s1)"
      "held_ok held1 (used s1)"
    using step_ok by fastforce
  with Cons show ?case by simp
qed simp

end

section \<open>Both page tables are such allocators\<close>

lemma get_map_offset_select:
  "get_map_offset search sz KGSL_GLOBAL_PT s =
     map_option (\<lambda>(r, m', l). (r, s\<lparr>global_map := m', last_offset_global := l\<rparr>))
       (find_and_take search (global_map s) (last_offset_global s) sz)"
  "get_map_offset search sz KGSL_PER_PROCESS_PT s =
     map_option (\<lambda>(r, m', l). (r, s\<lparr>perprocess_map := m', last_offset_perprocess := l\<rparr>))
       (find_and_take search (perprocess_map s) (last_offset_perprocess s) sz)"
  by (auto simp: get_map_offset_def split: option.splits)

lemma find_and_take_zero:
  "page_count sz = 0 \<Longrightarrow> find_and_take search m l sz = Some (- EINVAL, m, l)"
  by (simp add: find_and_take_def unat_eq_0_u64 unat_pages)

lemma unat_page_address:
  assumes "b \<le> KGSL_PT_MEM_PAGES"
  shows "unat (of_nat (b * 4096) :: u64) = b * 4096"
proof -
  have "b * 4096 < 18446744073709551616" using assms by (simp add: KGSL_PT_MEM_PAGES_def)
  then show ?thesis unfolding unat_of_nat_u64 by simp
qed

lemma global_base_mask:
  "NOT KGSL_GLOBAL_PT_BASE_IOVA = mask 39" "unat KGSL_GLOBAL_PT_BASE_IOVA = 18446743523953737728"
  by (simp_all add: KGSL_GLOBAL_PT_BASE_IOVA_def mask_eq_exp_minus_1)

lemma global_offset:
  assumes "unat x < 549755813888"
  shows "(KGSL_GLOBAL_PT_BASE_IOVA + x) AND NOT KGSL_GLOBAL_PT_BASE_IOVA = x"
proof -
  have "unat (KGSL_GLOBAL_PT_BASE_IOVA + x) = 18446743523953737728 + unat x"
    using assms by (simp add: unat_add_u64 global_base_mask(2))
  then have "unat (take_bit 39 (KGSL_GLOBAL_PT_BASE_IOVA + x))
      = (18446743523953737728 + unat x) mod 549755813888"
    unfolding unsigned_take_bit_eq by (simp add: take_bit_eq_mod)
  also have "\<dots> = (unat x + 33554431 * 549755813888) mod 549755813888"
    by (simp add: add.commute)
  also have "\<dots> = unat x" using assms by (simp only: mod_mult_self1 mod_less)
  finally have "take_bit 39 (KGSL_GLOBAL_PT_BASE_IOVA + x) = x" by (simp only: word_unat_eq_iff)
  then show ?thesis by (simp only: global_base_mask(1) take_bit_eq_mask)
qed

lemma clear_offset:
  assumes "0 < page_count sz" "b + page_count sz \<le> KGSL_PT_MEM_PAGES"
    and "sel = KGSL_GLOBAL_PT \<or> sel = KGSL_PER_PROCESS_PT"
  shows "clear_map_iova (map_iova (of_nat (b * 4096)) sel) sz sel s =
     Some (if sel = KGSL_GLOBAL_PT
           then s\<lparr>global_map := global_map s - area b (page_count sz)\<rparr>
           else s\<lparr>perprocess_map := perprocess_map s - area b (page_count sz)\<rparr>)"
proof -
  let ?a = "of_nat (b * 4096) :: u64"
  have b: "b < 4294967296" "page_count sz < 4294967296"
    using assms by (simp_all add: KGSL_PT_MEM_PAGES_def)
  have a: "unat ?a = b * 4096" using assms by (intro unat_page_address) simp
  have bit: "unat (ucast (drop_bit 12 ?a) :: u32) = b"
    using b a by (subst unat_pages_u32) (simp_all add: page_count_def)
  have g: "(KGSL_GLOBAL_PT_BASE_IOVA + ?a) AND NOT KGSL_GLOBAL_PT_BASE_IOVA = ?a"
    using assms a by (intro global_offset) (simp add: KGSL_PT_MEM_PAGES_def)
  have p: "KGSL_PER_PROCESS_PT_BASE_IOVA + ?a - KGSL_PER_PROCESS_PT_BASE_IOVA = ?a" by simp
  have "bitmap_clear m (ucast (drop_bit 12 ?a)) (ucast (drop_bit 12 sz))
      = Some (m - area b (page_count sz))" for m
    using assms bit unat_pages_u32 [OF b(2)] by (auto simp: bitmap_clear_def area_def)
  with assms(3) g p show ?thesis
    by (auto simp: clear_map_iova_def map_iova_def simp del: of_nat_mult)
qed

sublocale zero_area_search \<subseteq> gpt: area_allocator "\<lambda>sz. get_map_offset search sz KGSL_GLOBAL_PT"
    "\<lambda>off sz. clear_map_iova (map_iova off KGSL_GLOBAL_PT) sz KGSL_GLOBAL_PT" global_map
proof
  fix sz s
  assume "page_count sz < 4294967296"
  with find_and_take_exact [of sz "global_map s" "last_offset_global s"] find_and_take_zero [of sz]
  show "\<exists>r s'. get_map_offset search sz KGSL_GLOBAL_PT s = Some (r, s') \<and>
      (if r < 0 then global_map s' = global_map s
       else \<exists>b. r = int (b * 4096) \<and> 0 < page_count sz \<and> b + page_count sz \<le> KGSL_PT_MEM_PAGES
              \<and> area b (page_count sz) \<inter> global_map s = {}
              \<and> global_map s' = global_map s \<union> area b (page_count sz))"
    by (cases "page_count sz = 0") (fastforce simp: get_map_offset_select)+
qed (simp add: clear_offset del: of_nat_mult)

sublocale zero_area_search \<subseteq> ppt: area_allocator "\<lambda>sz. get_map_offset search sz KGSL_PER_PROCESS_PT"
    "\<lambda>off sz. clear_map_iova (map_iova off KGSL_PER_PROCESS_PT) sz KGSL_PER_PROCESS_PT" perprocess_map
proof
  fix sz s
  assume "page_count sz < 4294967296"
  with find_and_take_exact [of sz "perprocess_map s" "last_offset_perprocess s"]
    find_and_take_zero [of sz]
  show "\<exists>r s'. get_map_offset search sz KGSL_PER_PROCESS_PT s = Some (r, s') \<and>
      (if r < 0 then perprocess_map s' = perprocess_map s
       else \<exists>b. r = int (b * 4096) \<and> 0 < page_count sz \<and> b + page_count sz \<le> KGSL_PT_MEM_PAGES
              \<and> area b (page_count sz) \<inter> perprocess_map s = {}
              \<and> perprocess_map s' = perprocess_map s \<union> area b (page_count sz))"
    by (cases "page_count sz = 0") (fastforce simp: get_map_offset_select)+
qed (simp add: clear_offset del: of_nat_mult)

context zero_area_search
begin

lemma pt_run_ok:
  assumes "sel = KGSL_GLOBAL_PT \<or> sel = KGSL_PER_PROCESS_PT" "\<forall>x \<in> set ops. small_op x"
  shows "\<exists>held s'. area_run (\<lambda>sz. get_map_offset search sz sel)
        (\<lambda>off sz. clear_map_iova (map_iova off sel) sz sel) ops ([], init_maps) = Some (held, s')
     \<and> held_ok held (pt_map sel s')"
  using assms(1)
proof
  assume "sel = KGSL_GLOBAL_PT"
  with gpt.run_ok [OF _ assms(2), of "[]" init_maps] show ?thesis
    by (simp add: init_maps_def pt_map_def)
next
  assume "sel = KGSL_PER_PROCESS_PT"
  with ppt.run_ok [OF _ assms(2), of "[]" init_maps] show ?thesis
    by (simp add: init_maps_def pt_map_def)
qed

end

section \<open>Properties\<close>

definition has_free_area :: "bitmap \<Rightarrow> nat \<Rightarrow> bool" where
  "has_free_area m n \<longleftrightarrow> (\<exists>b. b + n \<le> KGSL_PT_MEM_PAGES \<and> area b n \<inter> m = {})"

lemma get_map_offset_exact:
  assumes "zero_area_search search" and "sel = KGSL_GLOBAL_PT \<or> sel = KGSL_PER_PROCESS_PT"
    and "0 < page_count sz" "page_count sz < 4294967296"
  shows "if has_free_area (pt_map sel s) (page_count sz)
     then \<exists>b s'. get_map_offset search sz sel s = Some (int (b * 4096), s')
            \<and> b + page_count sz \<le> KGSL_PT_MEM_PAGES
            \<and> area b (page_count sz) \<inter> pt_map sel s = {}
            \<and> pt_map sel s' = pt_map sel s \<union> area b (page_count sz)
            \<and> unat (pt_last sel s') < KGSL_PT_MEM_PAGES
            \<and> pt_map (3 - sel) s' = pt_map (3 - sel) s \<and> pt_last (3 - sel) s' = pt_last (3 - sel) s
     else get_map_offset search sz sel s = Some (- ENOSPC, s)"
proof -
  note exact = zero_area_search.find_and_take_exact [OF assms(1,3,4), folded has_free_area_def]
  from assms(2) show ?thesis
  proof
    assume "sel = KGSL_GLOBAL_PT"
    with exact [of "global_map s" "last_offset_global s"] show ?thesis
      by (fastforce simp: get_map_offset_select pt_map_def pt_last_def has_free_area_def)
  next
    assume "sel = KGSL_PER_PROCESS_PT"
    with exact [of "perprocess_map s" "last_offset_perprocess s"] show ?thesis
      by (fastforce simp: get_map_offset_select pt_map_def pt_last_def has_free_area_def)
  qed
qed

text \<open>C30: \<open>get_map_offset\<close> finds a free area whenever there is one. For either page table, any
  hint left by earlier calls and every size of at least one page and less than \<open>2^32\<close> pages,
  no bit outside the bitmap is written, and: if some run of free pages of that length exists, the
  result is the byte offset of such a run, exactly these pages become used, the hint stays inside
  the table and the other table is untouched; otherwise the result is -ENOSPC and nothing
  changes.\<close>

theorem get_map_offset_correct:
  assumes "zero_area_search search" and "sel = KGSL_GLOBAL_PT \<or> sel = KGSL_PER_PROCESS_PT"
    and "0 < page_count sz" "page_count sz < 4294967296"
  shows "if has_free_area (pt_map sel s) (page_count sz)
     then \<exists>b s'. get_map_offset search sz sel s = Some (int (b * 4096), s')
            \<and> b + page_count sz \<le> KGSL_PT_MEM_PAGES
            \<and> area b (page_count sz) \<inter> pt_map sel s = {}
            \<and> pt_map sel s' = pt_map sel s \<union> area b (page_count sz)
            \<and> unat (pt_last sel s') < KGSL_PT_MEM_PAGES
            \<and> pt_map (3 - sel) s' = pt_map (3 - sel) s \<and> pt_last (3 - sel) s' = pt_last (3 - sel) s
     else get_map_offset search sz sel s = Some (- ENOSPC, s)"
  using assms by (rule get_map_offset_exact)

text \<open>C9: Pages handed out to live mappings never overlap. Start from empty tables and allocate
  and free areas of one page table in any order and of any sizes below \<open>2^44\<close> bytes, each free
  passing back the address and size of a live area. No call writes outside the bitmap, the live
  areas stay pairwise disjoint and inside the table, and the set bits are exactly their pages, so
  a freed page is always available again.\<close>

theorem pt_areas_disjoint:
  assumes "zero_area_search search" and "sel = KGSL_GLOBAL_PT \<or> sel = KGSL_PER_PROCESS_PT"
    and "\<forall>x \<in> set ops. small_op x"
  shows "\<exists>held s'. area_run (\<lambda>sz. get_map_offset search sz sel)
        (\<lambda>off sz. clear_map_iova (map_iova off sel) sz sel) ops ([], init_maps) = Some (held, s')
     \<and> held_ok held (pt_map sel s')"
  using assms by (rule zero_area_search.pt_run_ok)

lemma clear_after_get:
  assumes "zero_area_search search" and "page_count sz < 4294967296"
    and "get_map_offset search sz sel s = Some (r, s')" "0 \<le> r"
  shows "\<exists>s''. clear_map_iova (map_iova (of_int r) sel) sz sel s' = Some s''
     \<and> global_map s'' = global_map s \<and> perprocess_map s'' = perprocess_map s"
proof -
  have sel: "sel = KGSL_GLOBAL_PT \<or> sel = KGSL_PER_PROCESS_PT"
    using assms(3,4) by (auto simp: get_map_offset_def split: if_splits)
  then have "0 < page_count sz"
    using assms(3,4) find_and_take_zero [of sz] by (auto simp: get_map_offset_select intro: ccontr)
  from get_map_offset_exact [OF assms(1) sel this assms(2), of s] assms(3,4)
  obtain b where b: "r = int (b * 4096)" "b + page_count sz \<le> KGSL_PT_MEM_PAGES"
      "area b (page_count sz) \<inter> pt_map sel s = {}"
      "pt_map sel s' = pt_map sel s \<union> area b (page_count sz)" "pt_map (3 - sel) s' = pt_map (3 - sel) s"
    by (auto split: if_splits)
  have "of_int r = (of_nat (b * 4096) :: u64)" using b(1) by (simp only: of_int_of_nat_eq)
  with clear_offset [OF \<open>0 < page_count sz\<close> b(2) sel, of s'] sel b(3-5) show ?thesis
    by (auto simp: pt_map_def)
qed

text \<open>Freeing undoes allocating. When \<open>get_map_offset\<close> succeeds, passing the address that
  \<open>set_map_iova\<close> programs for the result, with the same size, to \<open>clear_map_iova\<close> restores both
  bitmaps to what they were, whatever they contained.\<close>

theorem clear_undoes_get:
  assumes "zero_area_search search" and "page_count sz < 4294967296"
    and "get_map_offset search sz sel s = Some (r, s')" "0 \<le> r"
  shows "\<exists>s''. clear_map_iova (map_iova (of_int r) sel) sz sel s' = Some s''
     \<and> global_map s'' = global_map s \<and> perprocess_map s'' = perprocess_map s"
  using assms by (rule clear_after_get)

definition one_page_used :: pt_maps where
  "one_page_used = init_maps\<lparr>perprocess_map := {0}, last_offset_perprocess := 0xBFFFF\<rparr>"

lemma page_counts [simp]: "page_count 0x3000 = 3" "page_count 0x1000 = 1"
  by (simp_all add: page_count_def)

theorem get_map_offset_correct_witness:
  "if has_free_area (pt_map 2 one_page_used) (page_count 0x3000)
     then \<exists>b s'. get_map_offset reference_search 0x3000 2 one_page_used = Some (int (b * 4096), s')
            \<and> b + page_count 0x3000 \<le> KGSL_PT_MEM_PAGES
            \<and> area b (page_count 0x3000) \<inter> pt_map 2 one_page_used = {}
            \<and> pt_map 2 s' = pt_map 2 one_page_used \<union> area b (page_count 0x3000)
            \<and> unat (pt_last 2 s') < KGSL_PT_MEM_PAGES
            \<and> pt_map (3 - 2) s' = pt_map (3 - 2) one_page_used
            \<and> pt_last (3 - 2) s' = pt_last (3 - 2) one_page_used
     else get_map_offset reference_search 0x3000 2 one_page_used = Some (- ENOSPC, one_page_used)"
  by (rule get_map_offset_correct [OF ref.zero_area_search_axioms]) simp_all

theorem pt_areas_disjoint_witness:
  "\<exists>held s'. area_run (\<lambda>sz. get_map_offset reference_search sz 1)
        (\<lambda>off sz. clear_map_iova (map_iova off 1) sz 1)
        [Alloc 0x3000, Alloc 0x1000, Free 1, Alloc 0x1000] ([], init_maps) = Some (held, s')
     \<and> held_ok held (pt_map 1 s')"
  by (rule pt_areas_disjoint [OF ref.zero_area_search_axioms]) simp_all

lemma get_map_offset_example:
  "get_map_offset reference_search 0x3000 1 init_maps
     = Some (0, init_maps\<lparr>global_map := {0 ..< 3}, last_offset_global := 3\<rparr>)"
  by (simp add: get_map_offset_select(1) find_and_take_def reference_search_def init_maps_def
      scan_area.simps take_area_def bitmap_set_def KGSL_PT_MEM_PAGES_def)

theorem clear_undoes_get_witness:
  "\<exists>s''. clear_map_iova (map_iova (of_int 0) 1) 0x3000 1
        (init_maps\<lparr>global_map := {0 ..< 3}, last_offset_global := 3\<rparr>) = Some s''
     \<and> global_map s'' = global_map init_maps \<and> perprocess_map s'' = perprocess_map init_maps"
  by (rule clear_undoes_get [OF ref.zero_area_search_axioms _ get_map_offset_example]) simp_all

section \<open>Sizes the 32-bit positions cannot hold\<close>

text \<open>A size of \<open>2^44\<close> bytes has \<open>2^32\<close> pages, which the 32-bit length arguments cut to zero:
  the call succeeds and reserves nothing.\<close>

lemma get_map_offset_truncates:
  "get_map_offset reference_search 0x100000000000 1 init_maps
     = Some (0, init_maps\<lparr>last_offset_global := 0x40000\<rparr>)"
  by (simp add: get_map_offset_select(1) find_and_take_def reference_search_def init_maps_def
      scan_area.simps take_area_def bitmap_set_def KGSL_PT_MEM_PAGES_def area_def)

text \<open>The address given to an unmap reaches \<open>clear_map_iova\<close> unchecked: one page past the
  window clears a bit outside the bitmap.\<close>

lemma clear_map_iova_out_of_bounds:
  "clear_map_iova 0x120000000 0x1000 2 s = None"
  by (simp add: clear_map_iova_def bitmap_clear_def KGSL_PT_MEM_PAGES_def
      KGSL_PER_PROCESS_PT_BASE_IOVA_def)

end
