(* ===== verification/KiumdHandles.thy ===== *)
theory KiumdHandles
  imports Uapi
begin

text \<open>
  Model of the dma-buf handle table of \<open>drivers/kiumd.c\<close>: \<open>kiumd_fd_dmabuf_handler\<close> with its
  three requests, and the part of \<open>kiumd_close\<close> that releases the table. The xarray is the list
  of its entries in ascending index order, which is the order \<open>xa_for_each\<close> visits them. The
  state counts, for every dma-buf, the references this context holds, and the handle structures
  allocated. Answers of the kernel (\<open>dma_buf_get\<close>, \<open>xa_alloc\<close>, ...) are fields of \<open>fd_env\<close>.
\<close>

section \<open>Data\<close>

record dma_buf_handle =
  dmabuf :: ptr
  handle_refcount :: int

type_synonym xarray = "(u32 \<times> dma_buf_handle) list"

record handle_ctx =
  kiumd_xa :: xarray
  kiumd_xa_mutex :: bool
  dmabuf_refs :: "ptr \<Rightarrow> int"
  handle_objs :: int

record fd_env =
  env_dma_buf_get :: ptr
  env_kzalloc :: bool
  env_xa_alloc :: "xarray \<Rightarrow> int \<times> u32"
  env_dma_buf_fd :: "ptr \<Rightarrow> int"
  env_copy_to_user :: bool

definition empty_handle_ctx :: handle_ctx where
  "empty_handle_ctx = \<lparr>kiumd_xa = [], kiumd_xa_mutex = False, dmabuf_refs = (\<lambda>_. 0),
     handle_objs = 0\<rparr>"

section \<open>Primitives\<close>

definition lock_xa :: "'a handle_ctx_scheme \<Rightarrow> 'a handle_ctx_scheme" where
  "lock_xa s = s\<lparr>kiumd_xa_mutex := True\<rparr>"

definition unlock_xa :: "'a handle_ctx_scheme \<Rightarrow> 'a handle_ctx_scheme" where
  "unlock_xa s = s\<lparr>kiumd_xa_mutex := False\<rparr>"

definition add_refs :: "ptr \<Rightarrow> int \<Rightarrow> 'a handle_ctx_scheme \<Rightarrow> 'a handle_ctx_scheme" where
  "add_refs p n s = s\<lparr>dmabuf_refs := (dmabuf_refs s)(p := dmabuf_refs s p + n)\<rparr>"

text \<open>\<open>dma_buf_get\<close> gives a reference, or an error pointer and none; \<open>dma_buf_put\<close> of an error
  pointer reads its \<open>file\<close> field, which crashes.\<close>

definition do_dma_buf_get :: "ptr \<Rightarrow> 'a handle_ctx_scheme \<Rightarrow> 'a handle_ctx_scheme" where
  "do_dma_buf_get p s = (if IS_ERR_OR_NULL p then s else add_refs p 1 s)"

definition dma_buf_put :: "ptr \<Rightarrow> 'a handle_ctx_scheme \<Rightarrow> 'a handle_ctx_scheme option" where
  "dma_buf_put p s =
     (if p = 0 then Some s else if IS_ERR p then None else Some (add_refs p (- 1) s))"

fun xa_find_dmabuf :: "xarray \<Rightarrow> ptr \<Rightarrow> u32 option" where
  "xa_find_dmabuf [] p = None"
| "xa_find_dmabuf ((i, h) # xa) p = (if dmabuf h = p then Some i else xa_find_dmabuf xa p)"

definition xa_load :: "xarray \<Rightarrow> u32 \<Rightarrow> dma_buf_handle option" where
  "xa_load xa i = map_of xa i"

definition xa_erase :: "xarray \<Rightarrow> u32 \<Rightarrow> xarray" where
  "xa_erase xa i = filter (\<lambda>(j, h). j \<noteq> i) xa"

fun xa_insert :: "xarray \<Rightarrow> u32 \<Rightarrow> dma_buf_handle \<Rightarrow> xarray" where
  "xa_insert [] i h = [(i, h)]"
| "xa_insert ((j, g) # xa) i h = (if i < j then (i, h) # (j, g) # xa else (j, g) # xa_insert xa i h)"

definition add_refcount :: "xarray \<Rightarrow> u32 \<Rightarrow> int \<Rightarrow> xarray" where
  "add_refcount xa i n =
     map (\<lambda>(j, h). (j, if j = i then h\<lparr>handle_refcount := wrap32 (handle_refcount h + n)\<rparr> else h)) xa"

section \<open>The three requests\<close>

definition fd_to_handle ::
  "fd_env \<Rightarrow> kiumd_user \<Rightarrow> 'a handle_ctx_scheme \<Rightarrow> ((int + kiumd_user) \<times> 'a handle_ctx_scheme) option"
  where
  "fd_to_handle e u s =
     (if dma_buf_fd u < 0 then Some (Inl (- EBADF), s)
      else
        let s = lock_xa s; p = env_dma_buf_get e in
        if p = 0 then Some (Inl (- EINVAL), unlock_xa s)
        else
          let s = do_dma_buf_get p s in
          case xa_find_dmabuf (kiumd_xa s) p of
            Some i \<Rightarrow>
              Some (Inr (u\<lparr>handle := i\<rparr>),
                    unlock_xa (s\<lparr>kiumd_xa := add_refcount (kiumd_xa s) i 1\<rparr>))
          | None \<Rightarrow>
              if \<not> env_kzalloc e then
                (case dma_buf_put p s of None \<Rightarrow> None | Some s \<Rightarrow> Some (Inl (- ENOMEM), unlock_xa s))
              else
                let s = s\<lparr>handle_objs := handle_objs s + 1\<rparr>; (err, i) = env_xa_alloc e (kiumd_xa s) in
                if err < 0 then
                  (case dma_buf_put p s of
                     None \<Rightarrow> None
                   | Some s \<Rightarrow> Some (Inl err, unlock_xa (s\<lparr>handle_objs := handle_objs s - 1\<rparr>)))
                else
                  Some (Inr (u\<lparr>handle := i\<rparr>),
                    unlock_xa (s\<lparr>kiumd_xa := xa_insert (kiumd_xa s) i
                                                \<lparr>dmabuf = p, handle_refcount = 1\<rparr>\<rparr>)))"

text \<open>A successful \<open>dma_buf_fd\<close> moves a reference into the new file descriptor, and
  \<open>get_dma_buf\<close> takes one back.\<close>

definition handle_to_fd ::
  "fd_env \<Rightarrow> kiumd_user \<Rightarrow> 'a handle_ctx_scheme \<Rightarrow> ((int + kiumd_user) \<times> 'a handle_ctx_scheme) option"
  where
  "handle_to_fd e u s =
     (let s = lock_xa s in
      case xa_load (kiumd_xa s) (handle u) of
        None \<Rightarrow> Some (Inl (- EINVAL), unlock_xa s)
      | Some h \<Rightarrow>
          let p = dmabuf h;
              fd = (if IS_ERR_OR_NULL p then dma_buf_fd u else env_dma_buf_fd e p);
              s = (if \<not> IS_ERR_OR_NULL p \<and> 0 \<le> fd then add_refs p (- 1) s else s) in
          if fd < 0 then Some (Inl (- EBADF), unlock_xa s)
          else Some (Inr (u\<lparr>dma_buf_fd := fd\<rparr>), unlock_xa (add_refs p 1 s)))"

text \<open>The structure is freed only under \<open>!dmabuf_handle\<close>, which cannot hold here.\<close>

definition close_handle ::
  "kiumd_user \<Rightarrow> 'a handle_ctx_scheme \<Rightarrow> ((int + kiumd_user) \<times> 'a handle_ctx_scheme) option" where
  "close_handle u s =
     (let s = lock_xa s; i = handle u in
      case xa_load (kiumd_xa s) i of
        None \<Rightarrow> Some (Inl (- EINVAL), unlock_xa s)
      | Some h \<Rightarrow>
          let p = dmabuf h;
              s = s\<lparr>kiumd_xa := add_refcount (kiumd_xa s) i (- 1)\<rparr>;
              s = (if IS_ERR_OR_NULL p then s else add_refs p (- 1) s);
              s = (if wrap32 (handle_refcount h - 1) = 0
                   then s\<lparr>kiumd_xa := xa_erase (kiumd_xa s) i\<rparr> else s)
          in Some (Inr (u\<lparr>dma_buf_fd := 0\<rparr>), unlock_xa s))"

text \<open>The handler: a request that matches none of the three copies the structure back unchanged.
  The second component is what user space reads back, if anything.\<close>

definition kiumd_fd_dmabuf_handler ::
  "fd_env \<Rightarrow> kiumd_user option \<Rightarrow> 'a handle_ctx_scheme
     \<Rightarrow> (int \<times> kiumd_user option \<times> 'a handle_ctx_scheme) option" where
  "kiumd_fd_dmabuf_handler e arg s =
     (case arg of
        None \<Rightarrow> Some (- EFAULT, None, s)
      | Some u \<Rightarrow>
          (case (if handle u = FD_TO_HANDLE then fd_to_handle e u s
                 else if dma_buf_fd u = HANDLE_TO_FD then handle_to_fd e u s
                 else if dma_buf_fd u = CLOSE_HANDLE then close_handle u s
                 else Some (Inr u, s)) of
             None \<Rightarrow> None
           | Some (Inl err, s) \<Rightarrow> Some (err, None, s)
           | Some (Inr u', s) \<Rightarrow>
               if env_copy_to_user e then Some (0, Some u', s) else Some (- EFAULT, None, s)))"

section \<open>Closing the context\<close>

fun put_times :: "nat \<Rightarrow> ptr \<Rightarrow> 'a handle_ctx_scheme \<Rightarrow> 'a handle_ctx_scheme option" where
  "put_times 0 p s = Some s"
| "put_times (Suc n) p s = (case dma_buf_put p s of None \<Rightarrow> None | Some s' \<Rightarrow> put_times n p s')"

fun release_entries :: "xarray \<Rightarrow> 'a handle_ctx_scheme \<Rightarrow> 'a handle_ctx_scheme option" where
  "release_entries [] s = Some s"
| "release_entries ((i, h) # xa) s =
     (case (if IS_ERR_OR_NULL (dmabuf h) then Some s
            else put_times (nat (handle_refcount h)) (dmabuf h) s) of
        None \<Rightarrow> None
      | Some s' \<Rightarrow> release_entries xa (s'\<lparr>handle_objs := handle_objs s' - 1\<rparr>))"

definition release_handles :: "'a handle_ctx_scheme \<Rightarrow> 'a handle_ctx_scheme option" where
  "release_handles s =
     (let s = lock_xa s in
      if kiumd_xa s = [] then Some (unlock_xa s)
      else map_option (\<lambda>s. unlock_xa (s\<lparr>kiumd_xa := []\<rparr>)) (release_entries (kiumd_xa s) s))"

section \<open>Runs\<close>

fun handle_run :: "(fd_env \<times> kiumd_user option) list \<Rightarrow> 'a handle_ctx_scheme \<Rightarrow> 'a handle_ctx_scheme option"
  where
  "handle_run [] s = Some s"
| "handle_run ((e, arg) # ops) s =
     (case kiumd_fd_dmabuf_handler e arg s of
        None \<Rightarrow> None
      | Some (ret, out, s') \<Rightarrow> handle_run ops s')"

section \<open>The contract of the index allocator\<close>

locale xa_allocator =
  fixes xa_alloc :: "xarray \<Rightarrow> int \<times> u32"
  assumes fresh: "0 \<le> fst (xa_alloc xa) \<Longrightarrow> snd (xa_alloc xa) \<notin> fst ` set xa"
begin

lemma alloc_cases:
  obtains (fail) err i where "xa_alloc xa = (err, i)" "err < 0"
  | (new) err i where "xa_alloc xa = (err, i)" "0 \<le> err" "i \<notin> fst ` set xa"
  using fresh [of xa] by (cases "xa_alloc xa") (metis fst_conv snd_conv linorder_not_le)

end

text \<open>A reference allocator: the least index above all used ones, until the indices run out.\<close>

definition xa_alloc_next :: "xarray \<Rightarrow> int \<times> u32" where
  "xa_alloc_next xa =
     (if xa = [] then (0, 0)
      else let m = Max (set (map fst xa)) in if m = - 1 then (- EBUSY, 0) else (0, m + 1))"

interpretation next_index: xa_allocator xa_alloc_next
proof
  fix xa :: xarray
  assume ok: "0 \<le> fst (xa_alloc_next xa)"
  show "snd (xa_alloc_next xa) \<notin> fst ` set xa"
  proof (cases "xa = []")
    case False
    let ?m = "Max (fst ` set xa)"
    from ok False have m: "?m \<noteq> - 1" by (auto simp: xa_alloc_next_def Let_def)
    then have "?m + 1 \<noteq> 0" by (simp add: eq_neg_iff_add_eq_0)
    then have "?m < ?m + 1" using unatSuc [of ?m] by (simp add: word_less_nat_alt add.commute)
    moreover have "i \<le> ?m" if "i \<in> fst ` set xa" for i using that by simp
    ultimately show ?thesis using m False by (force simp: xa_alloc_next_def Let_def)
  qed simp
qed

definition fd_env_ok :: "fd_env \<Rightarrow> bool" where
  "fd_env_ok e \<longleftrightarrow> xa_allocator (env_xa_alloc e)
     \<and> (IS_ERR (env_dma_buf_get e) \<longrightarrow> env_kzalloc e \<and> (\<forall>xa. 0 \<le> fst (env_xa_alloc e xa)))"

section \<open>The table as a list with one changed entry\<close>

lemma xa_load_split:
  assumes "xa_load xa i = Some h" "distinct (map fst xa)"
  obtains ys zs where "xa = ys @ (i, h) # zs" "i \<notin> fst ` set ys" "i \<notin> fst ` set zs"
proof -
  have "(i, h) \<in> set xa" using assms(1) by (simp add: xa_load_def map_of_SomeD)
  then obtain ys zs where "xa = ys @ (i, h) # zs" by (meson split_list)
  with assms(2) that show thesis by auto
qed

lemma add_refcount_absent [simp]: "i \<notin> fst ` set xa \<Longrightarrow> add_refcount xa i n = xa"
  by (induction xa) (auto simp: add_refcount_def)

lemma add_refcount_split:
  "i \<notin> fst ` set ys \<Longrightarrow> i \<notin> fst ` set zs \<Longrightarrow> add_refcount (ys @ (i, h) # zs) i n =
     ys @ (i, h\<lparr>handle_refcount := wrap32 (handle_refcount h + n)\<rparr>) # zs"
  using add_refcount_absent [of i ys n] add_refcount_absent [of i zs n]
  by (simp add: add_refcount_def)

lemma xa_erase_absent [simp]: "i \<notin> fst ` set xa \<Longrightarrow> xa_erase xa i = xa"
  by (induction xa) (auto simp: xa_erase_def)

lemma xa_erase_split:
  "i \<notin> fst ` set ys \<Longrightarrow> i \<notin> fst ` set zs \<Longrightarrow> xa_erase (ys @ (i, h) # zs) i = ys @ zs"
  using xa_erase_absent [of i ys] xa_erase_absent [of i zs] by (simp add: xa_erase_def)

lemma xa_insert_split:
  obtains ys zs where "xa = ys @ zs" "xa_insert xa i h = ys @ (i, h) # zs"
    "\<forall>k \<in> fst ` set ys. k \<le> i" "zs \<noteq> [] \<Longrightarrow> i < fst (hd zs)"
proof (induction xa arbitrary: thesis)
  case Nil
  from Nil [of "[]" "[]"] show ?case by simp
next
  case (Cons a xa)
  show ?case
  proof (cases "i < fst a")
    case True
    from Cons.prems [of "[]" "a # xa"] True show ?thesis by (cases a) auto
  next
    case False
    from Cons.IH obtain ys zs where "xa = ys @ zs" "xa_insert xa i h = ys @ (i, h) # zs"
        "\<forall>k \<in> fst ` set ys. k \<le> i" "zs \<noteq> [] \<Longrightarrow> i < fst (hd zs)" by blast
    with Cons.prems [of "a # ys" zs] False show ?thesis by (cases a) auto
  qed
qed

lemma xa_find_dmabuf_Some:
  "xa_find_dmabuf xa p = Some i \<Longrightarrow> \<exists>h. (i, h) \<in> set xa \<and> dmabuf h = p"
  by (induction xa p rule: xa_find_dmabuf.induct) (auto split: if_splits)

lemma xa_find_dmabuf_None:
  "xa_find_dmabuf xa p = None \<longleftrightarrow> p \<notin> (dmabuf \<circ> snd) ` set xa"
  by (induction xa p rule: xa_find_dmabuf.induct) auto

section \<open>The invariant of the table\<close>

definition entry_refs :: "xarray \<Rightarrow> ptr \<Rightarrow> int" where
  "entry_refs xa p = (if IS_ERR_OR_NULL p then 0
     else sum_list (map (\<lambda>(i, h). if dmabuf h = p then handle_refcount h else 0) xa))"

lemma entry_refs_Nil [simp]: "entry_refs [] = (\<lambda>_. 0)"
  by (auto simp: entry_refs_def)

lemma entry_refs_append: "entry_refs (ys @ zs) p = entry_refs ys p + entry_refs zs p"
  by (simp add: entry_refs_def)

lemma entry_refs_Cons: "entry_refs ((i, h) # zs) p =
    (if dmabuf h = p \<and> \<not> IS_ERR_OR_NULL p then handle_refcount h else 0) + entry_refs zs p"
  by (simp add: entry_refs_def)

text \<open>\<open>n\<close> bounds the reference counts by the number of requests served so far.\<close>

definition handles_inv :: "nat \<Rightarrow> 'a handle_ctx_scheme \<Rightarrow> bool" where
  "handles_inv n s \<longleftrightarrow>
     sorted_wrt (<) (map fst (kiumd_xa s))
     \<and> distinct (map (dmabuf \<circ> snd) (kiumd_xa s))
     \<and> (\<forall>(i, h) \<in> set (kiumd_xa s). 1 \<le> handle_refcount h \<and> handle_refcount h \<le> int n \<and> dmabuf h \<noteq> 0)
     \<and> dmabuf_refs s = entry_refs (kiumd_xa s)
     \<and> \<not> kiumd_xa_mutex s
     \<and> int (length (kiumd_xa s)) \<le> handle_objs s"

lemma handles_inv_empty [simp]: "handles_inv 0 empty_handle_ctx"
  by (simp add: handles_inv_def empty_handle_ctx_def)

lemma handles_inv_mono: "handles_inv n s \<Longrightarrow> n \<le> m \<Longrightarrow> handles_inv m s"
  by (fastforce simp: handles_inv_def)

lemma handles_inv_keys: "handles_inv n s \<Longrightarrow> distinct (map fst (kiumd_xa s))"
  by (simp add: handles_inv_def strict_sorted_iff)

lemmas handle_ctx_defs = lock_xa_def unlock_xa_def add_refs_def do_dma_buf_get_def Let_def

lemma handles_inv_split:
  assumes "handles_inv n s" "xa_load (kiumd_xa s) i = Some h"
  obtains ys zs where "kiumd_xa s = ys @ (i, h) # zs" "i \<notin> fst ` set ys" "i \<notin> fst ` set zs"
    "dmabuf h \<noteq> 0" "1 \<le> handle_refcount h" "handle_refcount h \<le> int n"
    "dmabuf_refs s = entry_refs (kiumd_xa s)"
proof -
  obtain ys zs where xa: "kiumd_xa s = ys @ (i, h) # zs" "i \<notin> fst ` set ys" "i \<notin> fst ` set zs"
    by (rule xa_load_split [OF assms(2) handles_inv_keys [OF assms(1)]])
  with assms(1) that show thesis unfolding handles_inv_def by force
qed

definition entries_ok :: "nat \<Rightarrow> xarray \<Rightarrow> bool" where
  "entries_ok n xa \<longleftrightarrow>
     (\<forall>(i, h) \<in> set xa. 1 \<le> handle_refcount h \<and> handle_refcount h \<le> int n \<and> dmabuf h \<noteq> 0)"

lemma entries_ok_simps [simp]:
  "entries_ok n []"
  "entries_ok n ((i, h) # zs) \<longleftrightarrow>
     1 \<le> handle_refcount h \<and> handle_refcount h \<le> int n \<and> dmabuf h \<noteq> 0 \<and> entries_ok n zs"
  "entries_ok n (ys @ zs) \<longleftrightarrow> entries_ok n ys \<and> entries_ok n zs"
  by (auto simp: entries_ok_def)

lemma entries_ok_mono: "entries_ok n xa \<Longrightarrow> n \<le> m \<Longrightarrow> entries_ok m xa"
  by (fastforce simp: entries_ok_def)

lemma handles_invI:
  assumes "sorted_wrt (<) (map fst (kiumd_xa s))" "distinct (map (dmabuf \<circ> snd) (kiumd_xa s))"
    and "entries_ok n (kiumd_xa s)" "dmabuf_refs s = entry_refs (kiumd_xa s)"
    and "\<not> kiumd_xa_mutex s" "int (length (kiumd_xa s)) \<le> handle_objs s"
  shows "handles_inv n s"
  using assms unfolding handles_inv_def entries_ok_def by blast

lemma handles_invD:
  assumes "handles_inv n s"
  shows "sorted_wrt (<) (map fst (kiumd_xa s))" "distinct (map (dmabuf \<circ> snd) (kiumd_xa s))"
    and "entries_ok n (kiumd_xa s)" "dmabuf_refs s = entry_refs (kiumd_xa s)"
    and "\<not> kiumd_xa_mutex s" "int (length (kiumd_xa s)) \<le> handle_objs s"
  using assms unfolding handles_inv_def entries_ok_def by blast+

text \<open>Changing one reference count by \<open>d\<close>, and its dma-buf's references by as much.\<close>

lemma handles_inv_count:
  assumes inv: "handles_inv n s" and load: "xa_load (kiumd_xa s) i = Some h"
    and d: "1 \<le> handle_refcount h + d" "handle_refcount h + d \<le> int m" "n \<le> m" "m < 2147483648"
  shows "handles_inv m (unlock_xa (s\<lparr>kiumd_xa_mutex := True,
           kiumd_xa := add_refcount (kiumd_xa s) i d,
           dmabuf_refs := (\<lambda>p. dmabuf_refs s p + (if p = dmabuf h \<and> \<not> IS_ERR_OR_NULL p then d else 0))\<rparr>))"
proof -
  obtain ys zs where xa: "kiumd_xa s = ys @ (i, h) # zs" "i \<notin> fst ` set ys" "i \<notin> fst ` set zs"
    by (rule xa_load_split [OF load handles_inv_keys [OF inv]])
  have "wrap32 (handle_refcount h + d) = handle_refcount h + d" using d by simp
  then have new: "add_refcount (kiumd_xa s) i d
      = ys @ (i, h\<lparr>handle_refcount := handle_refcount h + d\<rparr>) # zs"
    using xa by (simp add: add_refcount_split)
  note old = handles_invD [OF inv, unfolded xa(1)]
  show ?thesis
    unfolding new unlock_xa_def
  proof (rule handles_invI, goal_cases)
    case 1 show ?case using old(1) by simp
  next
    case 2 show ?case using old(2) by simp
  next
    case 3 show ?case using entries_ok_mono [OF old(3) d(3)] d(1,2) by simp
  next
    case 4 show ?case
      by (simp add: fun_eq_iff old(4) entry_refs_append entry_refs_Cons)
  next
    case 5 show ?case by simp
  next
    case 6 show ?case using old(6) by simp
  qed
qed

lemma handles_inv_erase:
  assumes inv: "handles_inv n s" and load: "xa_load (kiumd_xa s) i = Some h" "handle_refcount h = 1"
  shows "handles_inv n (unlock_xa (s\<lparr>kiumd_xa_mutex := True,
           kiumd_xa := xa_erase (kiumd_xa s) i,
           dmabuf_refs := (\<lambda>p. dmabuf_refs s p + (if p = dmabuf h \<and> \<not> IS_ERR_OR_NULL p then - 1 else 0))\<rparr>))"
proof -
  obtain ys zs where xa: "kiumd_xa s = ys @ (i, h) # zs" "i \<notin> fst ` set ys" "i \<notin> fst ` set zs"
    by (rule xa_load_split [OF load(1) handles_inv_keys [OF inv]])
  then have new: "xa_erase (kiumd_xa s) i = ys @ zs" by (simp add: xa_erase_split)
  note old = handles_invD [OF inv, unfolded xa(1)]
  show ?thesis
    unfolding new unlock_xa_def
  proof (rule handles_invI, goal_cases)
    case 1 show ?case using old(1) by (simp add: sorted_wrt_append)
  next
    case 2 show ?case using old(2) by simp
  next
    case 3 show ?case using old(3) by simp
  next
    case 4 show ?case
      using load(2) by (simp add: fun_eq_iff old(4) entry_refs_append entry_refs_Cons)
  next
    case 5 show ?case by simp
  next
    case 6 show ?case using old(6) by simp
  qed
qed

lemma handles_inv_insert:
  assumes inv: "handles_inv n s" and i: "i \<notin> fst ` set (kiumd_xa s)"
    and p: "p \<noteq> 0" "p \<notin> (dmabuf \<circ> snd) ` set (kiumd_xa s)"
  shows "handles_inv (Suc n) (unlock_xa (s\<lparr>kiumd_xa_mutex := True,
           kiumd_xa := xa_insert (kiumd_xa s) i \<lparr>dmabuf = p, handle_refcount = 1\<rparr>,
           dmabuf_refs := (\<lambda>q. dmabuf_refs s q + (if q = p \<and> \<not> IS_ERR_OR_NULL q then 1 else 0)),
           handle_objs := handle_objs s + 1\<rparr>))"
proof -
  obtain ys zs where xa: "kiumd_xa s = ys @ zs"
      "xa_insert (kiumd_xa s) i \<lparr>dmabuf = p, handle_refcount = 1\<rparr>
        = ys @ (i, \<lparr>dmabuf = p, handle_refcount = 1\<rparr>) # zs"
      "\<forall>k \<in> fst ` set ys. k \<le> i" "zs \<noteq> [] \<longrightarrow> i < fst (hd zs)"
    using xa_insert_split [of "kiumd_xa s" i "\<lparr>dmabuf = p, handle_refcount = 1\<rparr>"] by metis
  from inv have sorted: "sorted_wrt (<) (map fst ys @ map fst zs)"
    by (simp add: handles_inv_def xa(1))
  have "i < k" if "k \<in> fst ` set zs" for k
    using that xa(4) sorted by (cases zs) (auto simp: sorted_wrt_append)
  moreover have "k < i" if "k \<in> fst ` set ys" for k
    using that xa(1,3) i by (metis image_Un Un_iff le_neq_trans set_append)
  ultimately have srt: "sorted_wrt (<) (map fst ys @ i # map fst zs)"
    using sorted by (auto simp: sorted_wrt_append)
  note old = handles_invD [OF inv, unfolded xa(1)]
  show ?thesis
    unfolding xa(2) unlock_xa_def
  proof (rule handles_invI, goal_cases)
    case 1 show ?case using srt by simp
  next
    case 2 show ?case using old(2) p(2) xa(1) by (auto simp: comp_def)
  next
    case 3 show ?case using entries_ok_mono [OF old(3), of "Suc n"] p(1) by simp
  next
    case 4 show ?case by (simp add: fun_eq_iff old(4) entry_refs_append entry_refs_Cons)
  next
    case 5 show ?case by simp
  next
    case 6 show ?case using old(6) by simp
  qed
qed

lemma handles_inv_lock:
  "handles_inv n s \<Longrightarrow> n \<le> m \<Longrightarrow> handles_inv m (unlock_xa (s\<lparr>kiumd_xa_mutex := True\<rparr>))"
  using handles_inv_mono [of n s m] by (simp add: handles_inv_def unlock_xa_def)

section \<open>Every request preserves the invariant\<close>

lemma get_ref_eq: "do_dma_buf_get p s = s\<lparr>dmabuf_refs :=
    (\<lambda>q. dmabuf_refs s q + (if q = p \<and> \<not> IS_ERR_OR_NULL q then 1 else 0))\<rparr>"
  by (cases s) (auto simp: do_dma_buf_get_def add_refs_def)

lemma drop_ref_eq: "(if IS_ERR_OR_NULL p then s else add_refs p (- 1) s) = s\<lparr>dmabuf_refs :=
    (\<lambda>q. dmabuf_refs s q + (if q = p \<and> \<not> IS_ERR_OR_NULL q then - 1 else 0))\<rparr>"
  by (cases s) (auto simp: add_refs_def)

lemma put_after_get:
  "\<not> IS_ERR p \<Longrightarrow> p \<noteq> 0 \<Longrightarrow> dma_buf_put p (do_dma_buf_get p s) = Some s"
  by (cases s) (auto simp: dma_buf_put_def do_dma_buf_get_def IS_ERR_OR_NULL_def add_refs_def)

lemma get_ref_fields [simp]:
  "kiumd_xa (do_dma_buf_get p s) = kiumd_xa s" "handle_objs (do_dma_buf_get p s) = handle_objs s"
  "kiumd_xa (lock_xa s) = kiumd_xa s"
  by (simp_all add: get_ref_eq lock_xa_def)

lemma put_after_get_objs:
  "\<not> IS_ERR p \<Longrightarrow> p \<noteq> 0 \<Longrightarrow>
     dma_buf_put p (do_dma_buf_get p s\<lparr>handle_objs := k\<rparr>) = Some (s\<lparr>handle_objs := k\<rparr>)"
  by (cases s) (auto simp: dma_buf_put_def do_dma_buf_get_def IS_ERR_OR_NULL_def add_refs_def)

lemma unlock_objs: "unlock_xa (lock_xa s\<lparr>handle_objs := handle_objs s\<rparr>) = unlock_xa (lock_xa s)"
  by (cases s) (simp add: lock_xa_def unlock_xa_def)

text \<open>The outcomes of opening a handle, as one equation per case of the code.\<close>

lemma fd_to_handle_found:
  assumes "0 \<le> dma_buf_fd u" "env_dma_buf_get e = p" "p \<noteq> 0" "xa_find_dmabuf (kiumd_xa s) p = Some i"
  shows "fd_to_handle e u s = Some (Inr (u\<lparr>handle := i\<rparr>),
     unlock_xa (s\<lparr>kiumd_xa_mutex := True, kiumd_xa := add_refcount (kiumd_xa s) i 1,
        dmabuf_refs := (\<lambda>q. dmabuf_refs s q + (if q = p \<and> \<not> IS_ERR_OR_NULL q then 1 else 0))\<rparr>))"
  using assms by (cases s) (simp add: fd_to_handle_def get_ref_eq lock_xa_def)

lemma fd_to_handle_new:
  assumes "0 \<le> dma_buf_fd u" "env_dma_buf_get e = p" "p \<noteq> 0" "xa_find_dmabuf (kiumd_xa s) p = None"
    and "env_kzalloc e" "env_xa_alloc e (kiumd_xa s) = (err, i)" "0 \<le> err"
  shows "fd_to_handle e u s = Some (Inr (u\<lparr>handle := i\<rparr>),
     unlock_xa (s\<lparr>kiumd_xa_mutex := True,
        kiumd_xa := xa_insert (kiumd_xa s) i \<lparr>dmabuf = p, handle_refcount = 1\<rparr>,
        dmabuf_refs := (\<lambda>q. dmabuf_refs s q + (if q = p \<and> \<not> IS_ERR_OR_NULL q then 1 else 0)),
        handle_objs := handle_objs s + 1\<rparr>))"
  using assms by (cases s) (simp add: fd_to_handle_def get_ref_eq lock_xa_def)

lemma fd_to_handle_fail:
  assumes "p = env_dma_buf_get e" "\<not> IS_ERR p"
    and "dma_buf_fd u < 0 \<or> p = 0 \<or> xa_find_dmabuf (kiumd_xa s) p = None
         \<and> (\<not> env_kzalloc e \<or> fst (env_xa_alloc e (kiumd_xa s)) < 0)"
  shows "\<exists>err. fd_to_handle e u s = Some (Inl err, if dma_buf_fd u < 0 then s else unlock_xa (lock_xa s))"
proof (cases "dma_buf_fd u < 0 \<or> p = 0")
  case True
  then show ?thesis using assms(1) by (auto simp: fd_to_handle_def)
next
  case False
  with assms(3) have none: "xa_find_dmabuf (kiumd_xa s) p = None" by auto
  show ?thesis
  proof (cases "env_kzalloc e")
    case False
    with assms(1,2) none \<open>\<not> (dma_buf_fd u < 0 \<or> p = 0)\<close> show ?thesis
      by (simp add: fd_to_handle_def put_after_get)
  next
    case True
    obtain err i where "env_xa_alloc e (kiumd_xa s) = (err, i)" by fastforce
    with True False assms none show ?thesis
      by (auto simp: fd_to_handle_def put_after_get_objs unlock_objs)
  qed
qed

lemma fd_to_handle_inv:
  assumes inv: "handles_inv n s" and n: "Suc n < 2147483648" and e: "fd_env_ok e"
  shows "\<exists>r s'. fd_to_handle e u s = Some (r, s') \<and> handles_inv (Suc n) s'"
proof -
  let ?p = "env_dma_buf_get e"
  from e have alloc: "xa_allocator (env_xa_alloc e)" by (simp add: fd_env_ok_def)
  consider (fail) "\<not> IS_ERR ?p" "dma_buf_fd u < 0 \<or> ?p = 0 \<or> xa_find_dmabuf (kiumd_xa s) ?p = None
         \<and> (\<not> env_kzalloc e \<or> fst (env_xa_alloc e (kiumd_xa s)) < 0)"
    | (neg) "dma_buf_fd u < 0"
    | (found) i where "0 \<le> dma_buf_fd u" "?p \<noteq> 0" "xa_find_dmabuf (kiumd_xa s) ?p = Some i"
    | (new) "0 \<le> dma_buf_fd u" "?p \<noteq> 0" "xa_find_dmabuf (kiumd_xa s) ?p = None" "env_kzalloc e"
        "0 \<le> fst (env_xa_alloc e (kiumd_xa s))"
    using e by (fastforce simp: fd_env_ok_def)
  then show ?thesis
  proof cases
    case fail
    from fd_to_handle_fail [OF refl this] obtain err where
      f: "fd_to_handle e u s = Some (Inl err, if dma_buf_fd u < 0 then s else unlock_xa (lock_xa s))"
      by blast
    show ?thesis
      unfolding f using handles_inv_lock [OF inv, of "Suc n"] handles_inv_mono [OF inv, of "Suc n"]
      by (simp add: lock_xa_def)
  next
    case neg
    then have "fd_to_handle e u s = Some (Inl (- EBADF), s)" by (simp add: fd_to_handle_def)
    with handles_inv_mono [OF inv, of "Suc n"] show ?thesis by simp
  next
    case found
    from xa_find_dmabuf_Some [OF found(3)] obtain h where h: "(i, h) \<in> set (kiumd_xa s)" "dmabuf h = ?p"
      by blast
    with handles_inv_keys [OF inv] have load: "xa_load (kiumd_xa s) i = Some h"
      by (simp add: xa_load_def)
    have "1 \<le> handle_refcount h \<and> handle_refcount h \<le> int n"
      using handles_invD(3) [OF inv] h(1) by (auto simp: entries_ok_def)
    with handles_inv_count [OF inv load, of 1 "Suc n"] n h(2) fd_to_handle_found [OF found(1) refl found(2,3)]
    show ?thesis by simp
  next
    case new
    obtain err i where xa: "env_xa_alloc e (kiumd_xa s) = (err, i)" by fastforce
    with new have "0 \<le> err" "i \<notin> fst ` set (kiumd_xa s)"
      using xa_allocator.fresh [OF alloc, of "kiumd_xa s"] by auto
    with handles_inv_insert [OF inv _ new(2), of i] fd_to_handle_new [OF new(1) refl new(2-4) xa]
      new(3) [unfolded xa_find_dmabuf_None]
    show ?thesis by blast
  qed
qed

lemma add_refs_cancel [simp]: "add_refs p 1 (add_refs p (- 1) s) = s"
  by (cases s) (simp add: add_refs_def)

lemma handle_to_fd_eq:
  assumes "dma_buf_fd u < 0"
  shows "handle_to_fd e u s = Some
    ((case xa_load (kiumd_xa s) (handle u) of
        None \<Rightarrow> Inl (- EINVAL)
      | Some h \<Rightarrow> if IS_ERR_OR_NULL (dmabuf h) \<or> env_dma_buf_fd e (dmabuf h) < 0 then Inl (- EBADF)
                  else Inr (u\<lparr>dma_buf_fd := env_dma_buf_fd e (dmabuf h)\<rparr>)),
     unlock_xa (lock_xa s))"
  using assms by (auto simp: handle_to_fd_def Let_def split: option.splits)

lemma close_handle_keep:
  assumes "xa_load (kiumd_xa s) (handle u) = Some h" "wrap32 (handle_refcount h - 1) \<noteq> 0"
  shows "close_handle u s = Some (Inr (u\<lparr>dma_buf_fd := 0\<rparr>),
    unlock_xa (s\<lparr>kiumd_xa_mutex := True, kiumd_xa := add_refcount (kiumd_xa s) (handle u) (- 1),
       dmabuf_refs := (\<lambda>q. dmabuf_refs s q + (if q = dmabuf h \<and> \<not> IS_ERR_OR_NULL q then - 1 else 0))\<rparr>))"
  using assms by (cases s) (simp add: close_handle_def Let_def lock_xa_def drop_ref_eq)

lemma xa_erase_add_refcount [simp]: "xa_erase (add_refcount xa i n) i = xa_erase xa i"
  by (induction xa) (auto simp: xa_erase_def add_refcount_def)

lemma close_handle_last:
  assumes "xa_load (kiumd_xa s) (handle u) = Some h" "wrap32 (handle_refcount h - 1) = 0"
  shows "close_handle u s = Some (Inr (u\<lparr>dma_buf_fd := 0\<rparr>),
    unlock_xa (s\<lparr>kiumd_xa_mutex := True, kiumd_xa := xa_erase (kiumd_xa s) (handle u),
       dmabuf_refs := (\<lambda>q. dmabuf_refs s q + (if q = dmabuf h \<and> \<not> IS_ERR_OR_NULL q then - 1 else 0))\<rparr>))"
  using assms by (cases s) (simp add: close_handle_def Let_def lock_xa_def drop_ref_eq)

lemma close_handle_inv:
  assumes inv: "handles_inv n s" and n: "Suc n < 2147483648"
  shows "\<exists>r s'. close_handle u s = Some (r, s') \<and> handles_inv (Suc n) s'"
proof (cases "xa_load (kiumd_xa s) (handle u)")
  case None
  with handles_inv_lock [OF inv, of "Suc n"] show ?thesis
    by (simp add: close_handle_def Let_def lock_xa_def)
next
  case (Some h)
  have h: "1 \<le> handle_refcount h" "handle_refcount h \<le> int n"
    using handles_invD(3) [OF inv] Some by (auto simp: entries_ok_def xa_load_def dest: map_of_SomeD)
  show ?thesis
  proof (cases "handle_refcount h = 1")
    case True
    with handles_inv_mono [OF handles_inv_erase [OF inv Some], of "Suc n"] close_handle_last [OF Some]
    show ?thesis by simp
  next
    case False
    with h n have "wrap32 (handle_refcount h - 1) \<noteq> 0" by simp
    with handles_inv_count [OF inv Some, of "- 1" "Suc n"] close_handle_keep [OF Some] False h n
    show ?thesis by simp
  qed
qed

lemma handler_step:
  assumes "handles_inv n s" "Suc n < 2147483648" "fd_env_ok e"
  shows "\<exists>ret out s'. kiumd_fd_dmabuf_handler e arg s = Some (ret, out, s') \<and> handles_inv (Suc n) s'"
proof (cases arg)
  case None
  then show ?thesis
    using handles_inv_mono [OF assms(1), of "Suc n"] by (simp add: kiumd_fd_dmabuf_handler_def)
next
  case (Some u)
  let ?f = "if handle u = FD_TO_HANDLE then fd_to_handle e u s
            else if dma_buf_fd u = HANDLE_TO_FD then handle_to_fd e u s
            else if dma_buf_fd u = CLOSE_HANDLE then close_handle u s else Some (Inr u, s)"
  have "\<exists>r s'. ?f = Some (r, s') \<and> handles_inv (Suc n) s'"
    using fd_to_handle_inv [OF assms, of u] close_handle_inv [OF assms(1,2), of u]
      handle_to_fd_eq [of u e s] handles_inv_lock [OF assms(1), of "Suc n"]
      handles_inv_mono [OF assms(1), of "Suc n"]
    by (simp add: lock_xa_def)
  then obtain r s' where "?f = Some (r, s')" "handles_inv (Suc n) s'" by blast
  then show ?thesis
    by (cases r) (simp_all add: kiumd_fd_dmabuf_handler_def Some)
qed

lemma handle_run_inv:
  assumes "handles_inv n s" "n + length ops < 2147483648" "\<forall>(e, arg) \<in> set ops. fd_env_ok e"
  shows "\<exists>s'. handle_run ops s = Some s' \<and> handles_inv (n + length ops) s'"
  using assms
proof (induction ops arbitrary: n s)
  case (Cons a ops)
  obtain e arg where a: "a = (e, arg)" by (cases a)
  from Cons.prems a have "Suc n < 2147483648" "fd_env_ok e" by auto
  from handler_step [OF Cons.prems(1) this, of arg] obtain ret out s1 where
    s1: "kiumd_fd_dmabuf_handler e arg s = Some (ret, out, s1)" "handles_inv (Suc n) s1" by blast
  with Cons.IH [OF s1(2)] Cons.prems(2,3) show ?case by (simp add: a)
qed simp

section \<open>Release\<close>

lemma put_times_eq:
  assumes "\<not> IS_ERR_OR_NULL p"
  shows "put_times n p s = Some (add_refs p (- int n) s)"
proof (induction n arbitrary: s)
  case 0
  show ?case by (cases s) (simp add: add_refs_def)
next
  case (Suc n)
  have "dma_buf_put p s = Some (add_refs p (- 1) s)"
    using assms by (simp add: dma_buf_put_def IS_ERR_OR_NULL_def)
  with Suc show ?case by (cases s) (simp add: add_refs_def algebra_simps)
qed

lemma release_entries_eq:
  "entries_ok n xa \<Longrightarrow> release_entries xa s =
     Some (s\<lparr>dmabuf_refs := (\<lambda>p. dmabuf_refs s p - entry_refs xa p),
             handle_objs := handle_objs s - int (length xa)\<rparr>)"
proof (induction xa s rule: release_entries.induct)
  case (1 s)
  then show ?case by (cases s) simp
next
  case (2 i h xa s)
  let ?s = "s\<lparr>dmabuf_refs := (\<lambda>p. dmabuf_refs s p -
      (if dmabuf h = p \<and> \<not> IS_ERR_OR_NULL p then handle_refcount h else 0))\<rparr>"
  have "(if IS_ERR_OR_NULL (dmabuf h) then Some s
         else put_times (nat (handle_refcount h)) (dmabuf h) s) = Some ?s"
    using 2(2) by (cases s) (auto simp: put_times_eq add_refs_def fun_eq_iff)
  with 2 show ?case by (simp add: entry_refs_Cons algebra_simps)
qed

lemma release_handles_eq:
  assumes "handles_inv n s"
  shows "release_handles s = Some (s\<lparr>kiumd_xa := [], dmabuf_refs := (\<lambda>_. 0),
     handle_objs := handle_objs s - int (length (kiumd_xa s))\<rparr>)"
proof -
  note inv = handles_invD [OF assms]
  show ?thesis
  proof (cases "kiumd_xa s = []")
    case True
    with inv show ?thesis
      by (cases s) (simp add: release_handles_def Let_def lock_xa_def unlock_xa_def)
  next
    case False
    with inv release_entries_eq [OF inv(3), of "lock_xa s"] show ?thesis
      by (cases s) (simp add: release_handles_def Let_def lock_xa_def unlock_xa_def)
  qed
qed

section \<open>A handle keeps its dma-buf until it is closed\<close>

definition handle_dmabuf :: "'a handle_ctx_scheme \<Rightarrow> u32 \<Rightarrow> ptr option" where
  "handle_dmabuf s i = map_option dmabuf (xa_load (kiumd_xa s) i)"

fun closes :: "u32 \<Rightarrow> kiumd_user option \<Rightarrow> bool" where
  "closes i None = False"
| "closes i (Some u) = (handle u = i \<and> handle u \<noteq> FD_TO_HANDLE \<and> dma_buf_fd u = CLOSE_HANDLE)"

lemma load_add_refcount:
  "map_option dmabuf (xa_load (add_refcount xa i n) j) = map_option dmabuf (xa_load xa j)"
  by (induction xa) (auto simp: add_refcount_def xa_load_def)

lemma load_add_refcount_ex:
  "(\<exists>z. xa_load (add_refcount xa i n) j = Some z \<and> dmabuf z = q)
     \<longleftrightarrow> (\<exists>z. xa_load xa j = Some z \<and> dmabuf z = q)"
  using load_add_refcount [of xa i n j] by (cases "xa_load xa j") auto

lemma load_erase: "j \<noteq> i \<Longrightarrow> xa_load (xa_erase xa i) j = xa_load xa j"
  by (induction xa) (auto simp: xa_erase_def xa_load_def)

lemma load_insert:
  "i \<notin> fst ` set xa \<Longrightarrow> xa_load (xa_insert xa i h) j = (if j = i then Some h else xa_load xa j)"
  by (induction xa i h rule: xa_insert.induct) (auto simp: xa_load_def)

lemma load_key: "xa_load xa j = Some h \<Longrightarrow> j \<in> fst ` set xa"
  by (force simp: xa_load_def dest: map_of_SomeD)

lemma unlock_xa_fields [simp]: "kiumd_xa (unlock_xa s) = kiumd_xa s"
  by (simp add: unlock_xa_def)

lemma fd_to_handle_dmabuf:
  assumes "fd_to_handle e u s = Some (r, s')" "xa_allocator (env_xa_alloc e)"
    and "handle_dmabuf s j = Some p"
  shows "handle_dmabuf s' j = Some p"
proof -
  obtain err i where xa: "env_xa_alloc e (kiumd_xa s) = (err, i)" by fastforce
  have fresh: "0 \<le> err \<Longrightarrow> i \<noteq> j"
    using xa_allocator.fresh [OF assms(2), of "kiumd_xa s"] xa assms(3)
    by (auto simp: handle_dmabuf_def dest: load_key)
  have ins: "0 \<le> err \<Longrightarrow> xa_load (xa_insert (kiumd_xa s) i h) j = xa_load (kiumd_xa s) j" for h
    using fresh load_insert [of i "kiumd_xa s" h j] xa_allocator.fresh [OF assms(2), of "kiumd_xa s"] xa
    by auto
  from assms(1,3) xa ins show ?thesis
    by (auto simp: fd_to_handle_def Let_def dma_buf_put_def add_refs_def handle_dmabuf_def
        load_add_refcount load_add_refcount_ex not_less split: if_splits option.splits)
qed

lemma close_handle_dmabuf:
  "close_handle u s = Some (r, s') \<Longrightarrow> handle u \<noteq> j \<Longrightarrow> handle_dmabuf s' j = handle_dmabuf s j"
  by (auto simp: close_handle_def Let_def handle_dmabuf_def drop_ref_eq load_add_refcount load_erase
      split: option.splits if_splits)

lemma handler_dmabuf:
  assumes "kiumd_fd_dmabuf_handler e arg s = Some (ret, out, s')" "fd_env_ok e"
    and "handle_dmabuf s j = Some p" "\<not> closes j arg"
  shows "handle_dmabuf s' j = Some p"
proof (cases arg)
  case (Some u)
  have step: "\<exists>r. (if handle u = FD_TO_HANDLE then fd_to_handle e u s
      else if dma_buf_fd u = HANDLE_TO_FD then handle_to_fd e u s
      else if dma_buf_fd u = CLOSE_HANDLE then close_handle u s else Some (Inr u, s)) = Some (r, s')"
    using assms(1) by (auto simp: kiumd_fd_dmabuf_handler_def Some split: option.splits sum.splits
        if_splits)
  have "xa_allocator (env_xa_alloc e)" using assms(2) by (simp add: fd_env_ok_def)
  with step assms(3,4) fd_to_handle_dmabuf [of e u s _ s' j p] close_handle_dmabuf [of u s _ s' j]
    handle_to_fd_eq [of u e s]
  show ?thesis by (auto simp: Some handle_dmabuf_def split: if_splits)
qed (use assms in \<open>simp add: kiumd_fd_dmabuf_handler_def\<close>)

lemma handle_run_dmabuf:
  assumes "handle_run ops s = Some s'" "handle_dmabuf s j = Some p"
    and "\<forall>(e, arg) \<in> set ops. fd_env_ok e \<and> \<not> closes j arg"
  shows "handle_dmabuf s' j = Some p"
  using assms
proof (induction ops arbitrary: s)
  case (Cons a ops)
  then show ?case
    by (cases a) (auto split: option.splits prod.splits dest: handler_dmabuf)
qed simp

lemma opened_handle_dmabuf:
  assumes "kiumd_fd_dmabuf_handler e (Some u) s = Some (0, Some u', s')" "handle u = FD_TO_HANDLE"
    and "fd_env_ok e" "handles_inv n s"
  shows "handle_dmabuf s' (handle u') = Some (env_dma_buf_get e)"
proof -
  obtain err i where xa: "env_xa_alloc e (kiumd_xa s) = (err, i)" by fastforce
  have ins: "0 \<le> err \<Longrightarrow> xa_load (xa_insert (kiumd_xa s) i h) i = Some h" for h
    using load_insert [of i "kiumd_xa s" h i] xa_allocator.fresh [of "env_xa_alloc e" "kiumd_xa s"] xa
      assms(3) by (auto simp: fd_env_ok_def)
  have found: "map_option dmabuf (xa_load (kiumd_xa s) j) = Some q"
    if "xa_find_dmabuf (kiumd_xa s) q = Some j" for j q
    using xa_find_dmabuf_Some [OF that] handles_inv_keys [OF assms(4)] by (auto simp: xa_load_def)
  from assms(1,2) xa ins found show ?thesis
    by (auto simp: kiumd_fd_dmabuf_handler_def fd_to_handle_def Let_def dma_buf_put_def
        handle_dmabuf_def load_add_refcount load_add_refcount_ex not_less
        split: if_splits option.splits sum.splits prod.splits)
qed

section \<open>Properties\<close>

text \<open>C14: The references a context holds are exactly those its handles stand for. Any sequence of
  fewer than \<open>2^31\<close> handle requests, whatever user space passes and however the kernel's calls
  answer (provided \<open>xa_alloc\<close> gives unused indices and no allocation fails for a file descriptor
  that \<open>dma_buf_get\<close> refused), runs without a crash and leaves the table consistent: indices
  ascending, one entry per dma-buf, every count positive, the references held on each dma-buf
  equal to the count of its handle, the mutex released, and a structure behind every entry.\<close>

theorem handle_refs_exact:
  assumes "length ops < 2147483648" "\<forall>(e, arg) \<in> set ops. fd_env_ok e"
  shows "\<exists>s. handle_run ops empty_handle_ctx = Some s \<and> handles_inv (length ops) s"
  using handle_run_inv [OF handles_inv_empty, of ops] assms by simp

text \<open>Closing the device releases every reference. After any such sequence the release code
  drops each dma-buf's references to exactly zero, whatever handles the user left open, empties
  the table and leaves the mutex free.\<close>

theorem handle_release_complete:
  assumes "length ops < 2147483648" "\<forall>(e, arg) \<in> set ops. fd_env_ok e"
  shows "\<exists>s s'. handle_run ops empty_handle_ctx = Some s \<and> release_handles s = Some s'
     \<and> (\<forall>p. dmabuf_refs s' p = 0) \<and> kiumd_xa s' = [] \<and> \<not> kiumd_xa_mutex s'"
proof -
  from handle_run_inv [OF handles_inv_empty, of ops] assms obtain s where
    s: "handle_run ops empty_handle_ctx = Some s" "handles_inv (length ops) s" by auto
  with release_handles_eq [OF s(2)] handles_invD(5) [OF s(2)] show ?thesis by simp
qed

text \<open>A handle names its dma-buf until it is closed. Take a handle returned for a file
  descriptor of a dma-buf, and let the context serve any requests that do not close this handle.
  Asking for a file descriptor of the handle then either returns the descriptor that \<open>dma_buf_fd\<close>
  creates for that same dma-buf, or -EBADF when \<open>dma_buf_fd\<close> fails.\<close>

theorem handle_stays_valid:
  assumes "handles_inv n s" "fd_env_ok e" "handle u = FD_TO_HANDLE"
    and "kiumd_fd_dmabuf_handler e (Some u) s = Some (0, Some u', s1)"
    and "\<forall>(e, arg) \<in> set ops. fd_env_ok e \<and> \<not> closes (handle u') arg"
    and "handle_run ops s1 = Some s2"
    and "v = u2\<lparr>handle := handle u', dma_buf_fd := HANDLE_TO_FD\<rparr>" "handle u' \<noteq> FD_TO_HANDLE"
    and "\<not> IS_ERR_OR_NULL (env_dma_buf_get e)" "env_copy_to_user e2"
  shows "kiumd_fd_dmabuf_handler e2 (Some v) s2 =
    (let fd = env_dma_buf_fd e2 (env_dma_buf_get e) in
     Some (if fd < 0 then (- EBADF, None, unlock_xa (lock_xa s2))
           else (0, Some (v\<lparr>dma_buf_fd := fd\<rparr>), unlock_xa (lock_xa s2))))"
proof -
  have "handle_dmabuf s2 (handle u') = Some (env_dma_buf_get e)"
    using handle_run_dmabuf [OF assms(6) opened_handle_dmabuf [OF assms(4,3,2,1)] assms(5)] .
  then obtain h where "xa_load (kiumd_xa s2) (handle u') = Some h" "dmabuf h = env_dma_buf_get e"
    by (auto simp: handle_dmabuf_def)
  with assms(7-10) handle_to_fd_eq [of v e2 s2] show ?thesis
    by (simp add: kiumd_fd_dmabuf_handler_def Let_def)
qed

definition example_env :: "ptr \<Rightarrow> fd_env" where
  "example_env p = \<lparr>env_dma_buf_get = p, env_kzalloc = True,
     env_xa_alloc = xa_alloc_next, env_dma_buf_fd = (\<lambda>_. 7), env_copy_to_user = True\<rparr>"

lemma example_env_ok: "fd_env_ok (example_env 0x1000)"
  by (simp add: fd_env_ok_def example_env_def next_index.xa_allocator_axioms IS_ERR_def)

definition open_req :: kiumd_user where
  "open_req = user0\<lparr>dma_buf_fd := 5, handle := FD_TO_HANDLE\<rparr>"

definition example_ops :: "(fd_env \<times> kiumd_user option) list" where
  "example_ops = [(example_env 0x1000, Some open_req), (example_env 0x1000, Some open_req),
     (example_env 0x1000, Some (open_req\<lparr>handle := 0, dma_buf_fd := CLOSE_HANDLE\<rparr>))]"

lemma example_ops_ok: "\<forall>(e, arg) \<in> set example_ops. fd_env_ok e"
  by (simp add: example_ops_def example_env_ok)

theorem handle_refs_exact_witness:
  "\<exists>s. handle_run example_ops empty_handle_ctx = Some s \<and> handles_inv (length example_ops) s"
  by (rule handle_refs_exact [OF _ example_ops_ok]) (simp add: example_ops_def)

theorem handle_release_complete_witness:
  "\<exists>s s'. handle_run example_ops empty_handle_ctx = Some s \<and> release_handles s = Some s'
     \<and> (\<forall>p. dmabuf_refs s' p = 0) \<and> kiumd_xa s' = [] \<and> \<not> kiumd_xa_mutex s'"
  by (rule handle_release_complete [OF _ example_ops_ok]) (simp add: example_ops_def)

definition opened_ctx :: handle_ctx where
  "opened_ctx = \<lparr>kiumd_xa = [(0, \<lparr>dmabuf = 0x1000, handle_refcount = 1\<rparr>)], kiumd_xa_mutex = False,
     dmabuf_refs = (\<lambda>_. 0)(0x1000 := 1), handle_objs = 1\<rparr>"

lemma open_example:
  "kiumd_fd_dmabuf_handler (example_env 0x1000) (Some open_req) empty_handle_ctx
     = Some (0, Some (open_req\<lparr>handle := 0\<rparr>), opened_ctx)"
  by (simp add: kiumd_fd_dmabuf_handler_def fd_to_handle_def open_req_def example_env_def
      empty_handle_ctx_def opened_ctx_def handle_ctx_defs IS_ERR_OR_NULL_def IS_ERR_def
      xa_alloc_next_def)

theorem handle_stays_valid_witness:
  "kiumd_fd_dmabuf_handler (example_env 0x2000)
      (Some (user0\<lparr>handle := handle (open_req\<lparr>handle := 0\<rparr>), dma_buf_fd := HANDLE_TO_FD\<rparr>)) opened_ctx =
    (let fd = env_dma_buf_fd (example_env 0x2000) (env_dma_buf_get (example_env 0x1000)) in
     Some (if fd < 0 then (- EBADF, None, unlock_xa (lock_xa opened_ctx))
           else (0, Some (user0\<lparr>handle := handle (open_req\<lparr>handle := 0\<rparr>), dma_buf_fd := HANDLE_TO_FD\<rparr>
                            \<lparr>dma_buf_fd := fd\<rparr>), unlock_xa (lock_xa opened_ctx))))"
  by (rule handle_stays_valid [OF handles_inv_empty example_env_ok _ open_example, of "[]"])
    (simp_all add: open_req_def example_env_def IS_ERR_OR_NULL_def IS_ERR_def)

section \<open>What the error paths do\<close>

text \<open>A bad file descriptor makes \<open>dma_buf_get\<close> return an error pointer, which passes the test for
  NULL: the request succeeds and the error pointer is entered under a handle.\<close>

lemma bad_fd_gets_handle:
  "kiumd_fd_dmabuf_handler (example_env (ERR_PTR (- EBADF))) (Some open_req) empty_handle_ctx
     = Some (0, Some (open_req\<lparr>handle := 0\<rparr>),
         empty_handle_ctx\<lparr>kiumd_xa := [(0, \<lparr>dmabuf = ERR_PTR (- EBADF), handle_refcount = 1\<rparr>)],
                          handle_objs := 1\<rparr>)"
  by (simp add: kiumd_fd_dmabuf_handler_def fd_to_handle_def open_req_def example_env_def
      empty_handle_ctx_def handle_ctx_defs IS_ERR_OR_NULL_def IS_ERR_def ERR_PTR_def
      xa_alloc_next_def)

text \<open>If in addition the allocation fails, the error pointer is passed to \<open>dma_buf_put\<close>.\<close>

lemma bad_fd_crash:
  "kiumd_fd_dmabuf_handler ((example_env (ERR_PTR (- EBADF)))\<lparr>env_kzalloc := False\<rparr>) (Some open_req)
     empty_handle_ctx = None"
  by (simp add: kiumd_fd_dmabuf_handler_def fd_to_handle_def open_req_def example_env_def
      empty_handle_ctx_def handle_ctx_defs IS_ERR_OR_NULL_def IS_ERR_def ERR_PTR_def dma_buf_put_def)

text \<open>Closing the last reference erases the entry and leaks its structure.\<close>

lemma close_last_leaks:
  assumes "xa_load (kiumd_xa s) (handle u) = Some h" "handle_refcount h = 1"
  shows "\<exists>r s'. close_handle u s = Some (r, s') \<and> xa_load (kiumd_xa s') (handle u) = None
     \<and> handle_objs s' = handle_objs s"
proof -
  have "xa_load (xa_erase xa i) i = None" for xa i
    by (auto simp: xa_load_def xa_erase_def map_of_eq_None_iff)
  with close_handle_last [OF assms(1)] assms(2) show ?thesis by (simp add: unlock_xa_def)
qed

end
