(* ===== verification/KiumdVfio.thy ===== *)
theory KiumdVfio
  imports IovaBitmap KiumdHandles
begin

text \<open>
  Model of the lookup chain of \<open>drivers/kiumd.c\<close>: from a file descriptor to the VFIO device, its
  IOMMU domain and the domain's DMA cookie, and of the operations that set the cookie. The kernel
  objects are read only; \<open>world\<close> holds one function per field that the driver follows, from the
  address of the object to the content of the field. The state counts the file references held
  and keeps every cookie.
\<close>

section \<open>Data\<close>

record world =
  w_fget :: "int \<Rightarrow> ptr"
  w_vfio_file_is_valid :: "ptr \<Rightarrow> bool"
  w_private_data :: "ptr \<Rightarrow> ptr"
  w_device :: "ptr \<Rightarrow> ptr"
  w_dev :: "ptr \<Rightarrow> ptr"
  w_iommu_group :: "ptr \<Rightarrow> ptr"
  w_default_domain :: "ptr \<Rightarrow> ptr"
  w_iova_cookie :: "ptr \<Rightarrow> ptr"

datatype iommu_dma_cookie_type = IOMMU_DMA_IOVA_COOKIE | IOMMU_DMA_MSI_COOKIE

text \<open>The union of the cookie: \<open>msi_iova\<close> shares its storage with the first word of \<open>iovad\<close>.\<close>

record kiumd_iommu_dma_cookie =
  ctype :: iommu_dma_cookie_type
  msi_iova :: u64
  cookie_mutex :: bool

datatype kiumd_iova_addr_type =
  KGSL_SMMU_GLOBALPT_FIXED_ADDR_SET | KGSL_SMMU_GLOBALPT_FIXED_ADDR_CLEAR | OTHER_IOVA_FLAG

record kiumd_iova =
  iu_vfio_fd :: int
  iova_flag :: kiumd_iova_addr_type
  iu_iova :: u64

record vfio_st = handle_ctx +
  file_refs :: "ptr \<Rightarrow> int"
  cookies :: "ptr \<Rightarrow> kiumd_iommu_dma_cookie"

section \<open>Lookups\<close>

definition do_fget :: "world \<Rightarrow> int \<Rightarrow> 'a vfio_st_scheme \<Rightarrow> ptr \<times> 'a vfio_st_scheme" where
  "do_fget w fd s =
     (let f = w_fget w fd in
      (f, if f = 0 then s else s\<lparr>file_refs := (file_refs s)(f := file_refs s f + 1)\<rparr>))"

definition fput :: "ptr \<Rightarrow> 'a vfio_st_scheme \<Rightarrow> 'a vfio_st_scheme" where
  "fput f s = s\<lparr>file_refs := (file_refs s)(f := file_refs s f - 1)\<rparr>"

definition kiumd_iommu_get_dma_domain :: "world \<Rightarrow> ptr \<Rightarrow> ptr option" where
  "kiumd_iommu_get_dma_domain w dev =
     (if dev = 0 then None
      else Some (if w_iommu_group w dev = 0 then 0 else w_default_domain w (w_iommu_group w dev)))"

definition kiumd_iommu_group_default_domain :: "world \<Rightarrow> ptr \<Rightarrow> ptr" where
  "kiumd_iommu_group_default_domain w grp = (if grp = 0 then 0 else w_default_domain w grp)"

definition kiumd_get_vfio_device :: "world \<Rightarrow> int \<Rightarrow> 'a vfio_st_scheme \<Rightarrow> ptr \<times> 'a vfio_st_scheme"
  where
  "kiumd_get_vfio_device w fd s =
     (if fd < 0 then (0, s)
      else case do_fget w fd s of
        (file, s) \<Rightarrow>
          if file = 0 then (0, s)
          else if \<not> w_vfio_file_is_valid w file then (0, fput file s)
          else let df = w_private_data w file in
            if df = 0 then (0, fput file s) else (w_device w df, fput file s))"

definition kiumd_get_dma_cookie :: "world \<Rightarrow> ptr \<Rightarrow> ptr option" where
  "kiumd_get_dma_cookie w vfio_dev =
     (if vfio_dev = 0 \<or> w_dev w vfio_dev = 0 then Some 0
      else case kiumd_iommu_get_dma_domain w (w_dev w vfio_dev) of
        None \<Rightarrow> None
      | Some domain \<Rightarrow> Some (if domain = 0 then 0 else w_iova_cookie w domain))"

definition kiumd_get_iommu_domain :: "world \<Rightarrow> int \<Rightarrow> 'a vfio_st_scheme \<Rightarrow> (ptr \<times> 'a vfio_st_scheme) option"
  where
  "kiumd_get_iommu_domain w fd s =
     (case kiumd_get_vfio_device w fd s of
        (vfio_dev, s) \<Rightarrow>
          if vfio_dev = 0 then Some (0, s)
          else case kiumd_iommu_get_dma_domain w (w_dev w vfio_dev) of
            None \<Rightarrow> None
          | Some domain \<Rightarrow> Some (domain, s))"

text \<open>The SMMU domain contains the IOMMU domain; both are named by the address of the latter.\<close>

definition kiumd_get_smmu_domain :: "world \<Rightarrow> int \<Rightarrow> 'a vfio_st_scheme \<Rightarrow> (ptr \<times> 'a vfio_st_scheme) option"
  where
  "kiumd_get_smmu_domain w fd s =
     (case kiumd_get_iommu_domain w fd s of
        None \<Rightarrow> None
      | Some (iommu_dom, s) \<Rightarrow> Some (iommu_dom, s))"

text \<open>
  The prologue of the handlers that look the file up themselves, without asking whether it is a
  VFIO file: the file stays referenced when a device is found. Reading the device through a NULL
  \<open>private_data\<close> crashes. \<open>err\<close> is the handler's error for a NULL device.
\<close>

definition vfio_file_device ::
  "world \<Rightarrow> int \<Rightarrow> int \<Rightarrow> 'a vfio_st_scheme \<Rightarrow> ((int + ptr \<times> ptr) \<times> 'a vfio_st_scheme) option" where
  "vfio_file_device w err fd s =
     (if fd < 0 then Some (Inl (- EBADF), s)
      else case do_fget w fd s of
        (file, s) \<Rightarrow>
          if file = 0 then Some (Inl (- EBADF), s)
          else let df = w_private_data w file in
            if df = 0 then None
            else let vfio_dev = w_device w df in
              if vfio_dev = 0 then Some (Inl (- err), fput file s)
              else Some (Inr (file, vfio_dev), s))"

section \<open>Setting the cookie\<close>

definition kiumd_set_dma_cookie ::
  "ptr \<Rightarrow> iommu_dma_cookie_type \<Rightarrow> u64 \<Rightarrow> 'a vfio_st_scheme \<Rightarrow> int \<times> 'a vfio_st_scheme" where
  "kiumd_set_dma_cookie cookie ty iova s =
     (if cookie = 0 then (- EINVAL, s)
      else (0, s\<lparr>cookies := (cookies s)(cookie := (cookies s cookie)\<lparr>ctype := ty, msi_iova := iova\<rparr>)\<rparr>))"

definition set_cookie_mutex :: "ptr \<Rightarrow> bool \<Rightarrow> 'a vfio_st_scheme \<Rightarrow> 'a vfio_st_scheme" where
  "set_cookie_mutex cookie b s =
     s\<lparr>cookies := (cookies s)(cookie := (cookies s cookie)\<lparr>cookie_mutex := b\<rparr>)\<rparr>"

definition kiumd_set_dma_cookie_unlocked ::
  "ptr \<Rightarrow> iommu_dma_cookie_type \<Rightarrow> u64 \<Rightarrow> 'a vfio_st_scheme \<Rightarrow> int \<times> 'a vfio_st_scheme" where
  "kiumd_set_dma_cookie_unlocked cookie ty iova s =
     (if cookie = 0 then (- EINVAL, s)
      else case kiumd_set_dma_cookie cookie ty iova (set_cookie_mutex cookie True s) of
        (ret, s) \<Rightarrow> (ret, set_cookie_mutex cookie False s))"

text \<open>\<open>set_map_iova\<close> leaves \<open>iova\<close> uninitialised for another page table; \<open>garbage\<close> is its value.\<close>

definition set_map_iova ::
  "world \<Rightarrow> u64 \<Rightarrow> u64 \<Rightarrow> ptr \<Rightarrow> int \<Rightarrow> 'a vfio_st_scheme \<Rightarrow> (int \<times> 'a vfio_st_scheme) option" where
  "set_map_iova w garbage offset vfio_dev sel s =
     (let iova = (if sel = KGSL_GLOBAL_PT \<or> sel = KGSL_PER_PROCESS_PT then map_iova offset sel
                  else garbage) in
      case kiumd_get_dma_cookie w vfio_dev of
        None \<Rightarrow> None
      | Some cookie \<Rightarrow>
          if cookie = 0 then Some (- EINVAL, s)
          else Some (kiumd_set_dma_cookie_unlocked cookie IOMMU_DMA_MSI_COOKIE iova s))"

definition kiumd_iova_ctrl ::
  "world \<Rightarrow> kiumd_iova option \<Rightarrow> 'a vfio_st_scheme \<Rightarrow> (int \<times> 'a vfio_st_scheme) option" where
  "kiumd_iova_ctrl w arg s =
     (case arg of
        None \<Rightarrow> Some (- EFAULT, s)
      | Some u \<Rightarrow>
          let ty = (if iova_flag u = KGSL_SMMU_GLOBALPT_FIXED_ADDR_CLEAR then IOMMU_DMA_IOVA_COOKIE
                    else IOMMU_DMA_MSI_COOKIE);
              iova = (if iova_flag u = KGSL_SMMU_GLOBALPT_FIXED_ADDR_SET then iu_iova u else 0) in
          case kiumd_get_vfio_device w (iu_vfio_fd u) s of
            (vfio_dev, s) \<Rightarrow>
              if vfio_dev = 0 then Some (- EINVAL, s)
              else case kiumd_get_dma_cookie w vfio_dev of
                None \<Rightarrow> None
              | Some cookie \<Rightarrow>
                  if cookie = 0 then Some (- EINVAL, s)
                  else Some (kiumd_set_dma_cookie_unlocked cookie ty iova s))"

section \<open>Lemmas\<close>

lemma fput_fget [simp]: "f \<noteq> 0 \<Longrightarrow> fput f (s\<lparr>file_refs := (file_refs s)(f := file_refs s f + 1)\<rparr>) = s"
  by (cases s) (simp add: fput_def)

lemma get_vfio_device_state [simp]: "snd (kiumd_get_vfio_device w fd s) = s"
  by (auto simp: kiumd_get_vfio_device_def do_fget_def Let_def)

definition vfio_device_of :: "world \<Rightarrow> int \<Rightarrow> ptr" where
  "vfio_device_of w fd =
     (if fd < 0 \<or> w_fget w fd = 0 \<or> \<not> w_vfio_file_is_valid w (w_fget w fd)
        \<or> w_private_data w (w_fget w fd) = 0 then 0
      else w_device w (w_private_data w (w_fget w fd)))"

lemma get_vfio_device_eq: "kiumd_get_vfio_device w fd s = (vfio_device_of w fd, s)"
  by (auto simp: kiumd_get_vfio_device_def vfio_device_of_def do_fget_def Let_def)

definition cookie_of :: "world \<Rightarrow> ptr \<Rightarrow> ptr" where
  "cookie_of w vfio_dev =
     (if vfio_dev = 0 \<or> w_dev w vfio_dev = 0 \<or> w_iommu_group w (w_dev w vfio_dev) = 0
        \<or> w_default_domain w (w_iommu_group w (w_dev w vfio_dev)) = 0 then 0
      else w_iova_cookie w (w_default_domain w (w_iommu_group w (w_dev w vfio_dev))))"

lemma get_dma_cookie_eq: "kiumd_get_dma_cookie w vfio_dev = Some (cookie_of w vfio_dev)"
  by (auto simp: kiumd_get_dma_cookie_def cookie_of_def kiumd_iommu_get_dma_domain_def)

lemma cookie_update_all [simp]:
  "(c :: kiumd_iommu_dma_cookie)\<lparr>ctype := t, msi_iova := i, cookie_mutex := m\<rparr>
     = \<lparr>ctype = t, msi_iova = i, cookie_mutex = m\<rparr>"
  by (cases c) simp

lemma set_cookie_eq:
  "kiumd_set_dma_cookie_unlocked cookie ty iova s =
     (if cookie = 0 then (- EINVAL, s)
      else (0, s\<lparr>cookies := (cookies s)(cookie := \<lparr>ctype = ty, msi_iova = iova, cookie_mutex = False\<rparr>)\<rparr>))"
  by (cases s) (simp add: kiumd_set_dma_cookie_unlocked_def kiumd_set_dma_cookie_def
      set_cookie_mutex_def)

section \<open>Properties\<close>

text \<open>The cookie request programs exactly the cookie of the device's default domain. For every
  request and every object graph, it never crashes, keeps the file references, and either fails
  without a change (-EFAULT when the structure cannot be read, -EINVAL when no VFIO device or no
  cookie is found) or sets the cookie of the device behind the descriptor: to the IOVA allocator
  with address 0 for a clear request, to the fixed address given for a set request, to fixed
  address 0 for any other flag; the cookie's mutex is free again and no other cookie changes.\<close>

theorem iova_ctrl_correct:
  "kiumd_iova_ctrl w arg s = Some
     (case arg of
        None \<Rightarrow> (- EFAULT, s)
      | Some u \<Rightarrow>
          let cookie = cookie_of w (vfio_device_of w (iu_vfio_fd u)) in
          if cookie = 0 then (- EINVAL, s)
          else (0, s\<lparr>cookies := (cookies s)(cookie :=
                  (case iova_flag u of
                     KGSL_SMMU_GLOBALPT_FIXED_ADDR_CLEAR \<Rightarrow>
                       \<lparr>ctype = IOMMU_DMA_IOVA_COOKIE, msi_iova = 0, cookie_mutex = False\<rparr>
                   | KGSL_SMMU_GLOBALPT_FIXED_ADDR_SET \<Rightarrow>
                       \<lparr>ctype = IOMMU_DMA_MSI_COOKIE, msi_iova = iu_iova u, cookie_mutex = False\<rparr>
                   | OTHER_IOVA_FLAG \<Rightarrow>
                       \<lparr>ctype = IOMMU_DMA_MSI_COOKIE, msi_iova = 0, cookie_mutex = False\<rparr>))\<rparr>))"
  by (auto simp: kiumd_iova_ctrl_def get_vfio_device_eq get_dma_cookie_eq set_cookie_eq Let_def
      cookie_of_def split: option.splits kiumd_iova_addr_type.splits)

end
