(* ===== verification/SmmuRegs.thy ===== *)
theory SmmuRegs
  imports KiumdVfio
begin

text \<open>
  Model of the SMMU programming of \<open>drivers/kiumd.c\<close> and of the register layout it takes from
  \<open>drivers/arm-smmu.h\<close>: writing a context bank, enabling translation through TTBR0 or TTBR1, and
  the requests that allocate, install and free per-process page tables. The state holds every
  SMMU domain, the shadow copies of the context banks, the page tables that are allocated and the
  log of register writes. Page tables and domains are named by address; using a page table that is
  not allocated crashes.
\<close>

section \<open>Registers\<close>

abbreviation (input) ARM_SMMU_TCR_EPD1 :: u32 where "ARM_SMMU_TCR_EPD1 \<equiv> BIT_U32 23"
abbreviation (input) ARM_SMMU_TCR_A1 :: u32 where "ARM_SMMU_TCR_A1 \<equiv> BIT_U32 22"
abbreviation (input) ARM_SMMU_TCR_EPD0 :: u32 where "ARM_SMMU_TCR_EPD0 \<equiv> BIT_U32 7"

abbreviation (input) ARM_SMMU_CB_SCTLR :: nat where "ARM_SMMU_CB_SCTLR \<equiv> 0x0"
abbreviation (input) ARM_SMMU_CB_TCR2 :: nat where "ARM_SMMU_CB_TCR2 \<equiv> 0x10"
abbreviation (input) ARM_SMMU_CB_TTBR0 :: nat where "ARM_SMMU_CB_TTBR0 \<equiv> 0x20"
abbreviation (input) ARM_SMMU_CB_TTBR1 :: nat where "ARM_SMMU_CB_TTBR1 \<equiv> 0x28"
abbreviation (input) ARM_SMMU_CB_TCR :: nat where "ARM_SMMU_CB_TCR \<equiv> 0x30"
abbreviation (input) ARM_SMMU_CB_S1_MAIR0 :: nat where "ARM_SMMU_CB_S1_MAIR0 \<equiv> 0x38"
abbreviation (input) ARM_SMMU_CB_S1_MAIR1 :: nat where "ARM_SMMU_CB_S1_MAIR1 \<equiv> 0x3c"
abbreviation (input) ARM_SMMU_GR1_CBAR :: "nat \<Rightarrow> nat" where "ARM_SMMU_GR1_CBAR n \<equiv> n * 4"
abbreviation (input) ARM_SMMU_GR1_CBA2R :: "nat \<Rightarrow> nat" where "ARM_SMMU_GR1_CBA2R n \<equiv> 0x800 + n * 4"

datatype arm_smmu_cbar_type =
  CBAR_TYPE_S2_TRANS | CBAR_TYPE_S1_TRANS_S2_BYPASS | CBAR_TYPE_S1_TRANS_S2_FAULT
  | CBAR_TYPE_S1_TRANS_S2_TRANS

fun cbar_code :: "arm_smmu_cbar_type \<Rightarrow> u32" where
  "cbar_code CBAR_TYPE_S2_TRANS = 0"
| "cbar_code CBAR_TYPE_S1_TRANS_S2_BYPASS = 1"
| "cbar_code CBAR_TYPE_S1_TRANS_S2_FAULT = 2"
| "cbar_code CBAR_TYPE_S1_TRANS_S2_TRANS = 3"

datatype arm_smmu_context_fmt =
  ARM_SMMU_CTX_FMT_NONE | ARM_SMMU_CTX_FMT_AARCH64 | ARM_SMMU_CTX_FMT_AARCH32_L
  | ARM_SMMU_CTX_FMT_AARCH32_S

text \<open>One register write, or one call of the hook \<open>smmu->impl->write_sctlr\<close>, which the driver makes
  without checking that it is there. The \<open>asid\<close> and \<open>vmid\<close> of a configuration share their storage.\<close>

datatype reg_write =
  Gr1Write ptr nat u32 | CbWrite ptr nat nat u32 | CbWriteq ptr nat nat u64 | WriteSctlr ptr nat u32

section \<open>Data\<close>

record arm_smmu_cfg =
  cbndx :: nat
  asid :: u16
  cbar :: arm_smmu_cbar_type
  fmt :: arm_smmu_context_fmt

record arm_smmu_cb =
  cb_ttbr0 :: u64
  cb_ttbr1 :: u64
  cb_tcr0 :: u32
  cb_tcr1 :: u32
  cb_mair0 :: u32
  cb_mair1 :: u32
  cb_cfg :: arm_smmu_cfg

record arm_smmu_device =
  cbs :: "nat \<Rightarrow> arm_smmu_cb"
  feat_vmid16 :: bool

record lpae_tcr =
  tg :: u32
  sh :: u32
  orgn :: u32
  irgn :: u32
  tsz :: u32

record io_pgtable_cfg =
  quirk_arm_ttbr1 :: bool
  other_quirks :: u64
  kgsl_tlb_ops :: bool
  s1_ttbr :: u64
  s1_tcr :: lpae_tcr

record arm_smmu_domain =
  dom_smmu :: ptr
  pgtbl_ops :: ptr
  dom_cfg :: arm_smmu_cfg
  aperture_start :: u64
  aperture_end :: u64

record smmu_st = vfio_st +
  domains :: "ptr \<Rightarrow> arm_smmu_domain"
  smmus :: "ptr \<Rightarrow> arm_smmu_device"
  pgtbls :: "ptr \<Rightarrow> io_pgtable_cfg option"
  pgtable :: "ptr option"
  reg_writes :: "reg_write list"

text \<open>The answers of one invocation: \<open>alloc_io_pgtable_ops\<close> returns an address, or 0, and
  completes the configuration; the aperture call may be made twice.\<close>

record smmu_env =
  e_alloc_ops :: "io_pgtable_cfg \<Rightarrow> ptr \<times> io_pgtable_cfg"
  e_aperture :: "int \<times> int"
  e_copy_to_user :: bool

section \<open>Programming a context bank\<close>

definition arm_smmu_lpae_tcr :: "io_pgtable_cfg \<Rightarrow> u32" where
  "arm_smmu_lpae_tcr cfg =
     (let t = s1_tcr cfg;
          tcr = FIELD_PREP 15 14 (tg t) OR FIELD_PREP 13 12 (sh t) OR FIELD_PREP 11 10 (orgn t)
                OR FIELD_PREP 9 8 (irgn t) OR FIELD_PREP 5 0 (tsz t) in
      if quirk_arm_ttbr1 cfg
      then (push_bit 16 tcr AND NOT ARM_SMMU_TCR_A1) OR ARM_SMMU_TCR_EPD0
      else tcr OR ARM_SMMU_TCR_EPD1)"

definition log_write :: "reg_write \<Rightarrow> 'a smmu_st_scheme \<Rightarrow> 'a smmu_st_scheme" where
  "log_write r s = s\<lparr>reg_writes := reg_writes s @ [r]\<rparr>"

definition cbar_value :: "bool \<Rightarrow> arm_smmu_cfg \<Rightarrow> u32" where
  "cbar_value vmid16 cfg =
     (FIELD_PREP 17 16 (cbar_code (cbar cfg)) OR
      (if cbar cfg \<noteq> CBAR_TYPE_S2_TRANS then FIELD_PREP 9 8 3 OR FIELD_PREP 15 12 0xf
       else if \<not> vmid16 then FIELD_PREP 7 0 (ucast (asid cfg)) else 0))"

definition SCTLR_value :: u32 where
  "SCTLR_value = BIT_U32 6 OR BIT_U32 5 OR BIT_U32 2 OR BIT_U32 1 OR BIT_U32 0 OR BIT_U32 12"

definition kiumd_smmuv2_write_context_bank :: "ptr \<Rightarrow> nat \<Rightarrow> 'a smmu_st_scheme \<Rightarrow> 'a smmu_st_scheme"
  where
  "kiumd_smmuv2_write_context_bank smmu idx s =
     (let cb = cbs (smmus s smmu) idx; cfg = cb_cfg cb;
          stage1 = (cbar cfg \<noteq> CBAR_TYPE_S2_TRANS);
          s = log_write (Gr1Write smmu (ARM_SMMU_GR1_CBA2R idx)
                (if fmt cfg = ARM_SMMU_CTX_FMT_AARCH64 then BIT_U32 0 else 0)) s;
          s = log_write (Gr1Write smmu (ARM_SMMU_GR1_CBAR idx)
                (cbar_value (feat_vmid16 (smmus s smmu)) cfg)) s;
          s = (if stage1 then log_write (CbWrite smmu idx ARM_SMMU_CB_TCR2 (cb_tcr1 cb)) s else s);
          s = log_write (CbWrite smmu idx ARM_SMMU_CB_TCR (cb_tcr0 cb)) s;
          s = log_write (CbWriteq smmu idx ARM_SMMU_CB_TTBR0 (cb_ttbr0 cb)) s;
          s = (if stage1 then log_write (CbWriteq smmu idx ARM_SMMU_CB_TTBR1 (cb_ttbr1 cb)) s else s);
          s = log_write (CbWrite smmu idx ARM_SMMU_CB_S1_MAIR0 (cb_mair0 cb)) s;
          s = log_write (CbWrite smmu idx ARM_SMMU_CB_S1_MAIR1 (cb_mair1 cb)) s
      in log_write (WriteSctlr smmu idx SCTLR_value) s)"

definition put_cb :: "ptr \<Rightarrow> nat \<Rightarrow> arm_smmu_cb \<Rightarrow> 'a smmu_st_scheme \<Rightarrow> 'a smmu_st_scheme" where
  "put_cb smmu idx cb s =
     s\<lparr>smmus := (smmus s)(smmu := (smmus s smmu)\<lparr>cbs := (cbs (smmus s smmu))(idx := cb)\<rparr>)\<rparr>"

definition kiumd_smmuv2_set_ttbr0_cfg ::
  "ptr \<Rightarrow> io_pgtable_cfg \<Rightarrow> 'a smmu_st_scheme \<Rightarrow> int \<times> 'a smmu_st_scheme" where
  "kiumd_smmuv2_set_ttbr0_cfg sd pgtbl_cfg s =
     (let smmu = dom_smmu (domains s sd); idx = cbndx (dom_cfg (domains s sd));
          cb = cbs (smmus s smmu) idx; tcr = cb_tcr0 cb in
      if cb_tcr0 cb AND ARM_SMMU_TCR_EPD0 = 0 then (- EINVAL, s)
      else
        let tcr = tcr OR arm_smmu_lpae_tcr pgtbl_cfg;
            tcr = tcr AND NOT (ARM_SMMU_TCR_EPD0 OR ARM_SMMU_TCR_EPD1);
            cb = cb\<lparr>cb_tcr0 := tcr, cb_ttbr0 := s1_ttbr pgtbl_cfg OR
                    FIELD_PREP 63 48 (ucast (asid (cb_cfg cb)))\<rparr>
        in (0, kiumd_smmuv2_write_context_bank smmu (cbndx (cb_cfg cb)) (put_cb smmu idx cb s)))"

definition kiumd_smmuv2_set_ttbr1_cfg ::
  "ptr \<Rightarrow> io_pgtable_cfg \<Rightarrow> 'a smmu_st_scheme \<Rightarrow> int \<times> 'a smmu_st_scheme" where
  "kiumd_smmuv2_set_ttbr1_cfg sd pgtbl_cfg s =
     (let smmu = dom_smmu (domains s sd); idx = cbndx (dom_cfg (domains s sd));
          cb = cbs (smmus s smmu) idx; tcr = cb_tcr0 cb in
      if cb_tcr0 cb AND ARM_SMMU_TCR_EPD1 = 0 then (- EINVAL, s)
      else
        let tcr = tcr OR arm_smmu_lpae_tcr pgtbl_cfg;
            tcr = tcr AND NOT (ARM_SMMU_TCR_EPD0 OR ARM_SMMU_TCR_EPD1);
            cb = cb\<lparr>cb_tcr0 := tcr, cb_ttbr1 := s1_ttbr pgtbl_cfg OR
                    FIELD_PREP 63 48 (ucast (asid (cb_cfg cb)))\<rparr>
        in (0, kiumd_smmuv2_write_context_bank smmu (cbndx (cb_cfg cb)) (put_cb smmu idx cb s)))"

section \<open>Page tables and contexts\<close>

text \<open>\<open>io_pgtable_ops_to_pgtable\<close> and its inverse are pointer arithmetic; a page table and its
  operations are one object here, named by the address of the operations. The static \<open>pgtable\<close> is
  \<open>None\<close> for NULL. Copying the configuration of a table that is not allocated crashes.\<close>

definition alloc_io_pgtable_ops ::
  "smmu_env \<Rightarrow> io_pgtable_cfg \<Rightarrow> 'a smmu_st_scheme \<Rightarrow> ptr \<times> io_pgtable_cfg \<times> 'a smmu_st_scheme" where
  "alloc_io_pgtable_ops e cfg s =
     (case e_alloc_ops e cfg of (ops, cfg') \<Rightarrow>
        if ops = 0 then (0, cfg', s) else (ops, cfg', s\<lparr>pgtbls := (pgtbls s)(ops \<mapsto> cfg')\<rparr>))"

definition free_io_pgtable_ops :: "ptr \<Rightarrow> 'a smmu_st_scheme \<Rightarrow> 'a smmu_st_scheme option" where
  "free_io_pgtable_ops ops s =
     (case pgtbls s ops of None \<Rightarrow> None | Some cfg \<Rightarrow> Some (s\<lparr>pgtbls := (pgtbls s)(ops := None)\<rparr>))"

definition set_pgtbl_ops :: "ptr \<Rightarrow> ptr \<Rightarrow> 'a smmu_st_scheme \<Rightarrow> 'a smmu_st_scheme" where
  "set_pgtbl_ops sd ops s = s\<lparr>domains := (domains s)(sd := (domains s sd)\<lparr>pgtbl_ops := ops\<rparr>)\<rparr>"

definition kiumd_set_pgtble_ttbr1_context ::
  "smmu_env \<Rightarrow> ptr \<Rightarrow> 'a smmu_st_scheme \<Rightarrow> (int \<times> 'a smmu_st_scheme) option" where
  "kiumd_set_pgtble_ttbr1_context e sd s =
     (if pgtbl_ops (domains s sd) = 0 then Some (- EINVAL, s)
      else case pgtbls s (pgtbl_ops (domains s sd)) of
        None \<Rightarrow> None
      | Some cfg \<Rightarrow>
          let cfg = cfg\<lparr>quirk_arm_ttbr1 := True, kgsl_tlb_ops := True\<rparr>;
              s = s\<lparr>domains := (domains s)(sd := (domains s sd)
                     \<lparr>aperture_start := push_bit 48 (- 1), aperture_end := - 1\<rparr>)\<rparr> in
          case alloc_io_pgtable_ops e cfg s of
            (ops, cfg, s) \<Rightarrow>
              if ops = 0 then Some (- EINVAL, s)
              else case kiumd_smmuv2_set_ttbr1_cfg sd cfg (set_pgtbl_ops sd ops s) of
                (ret, s) \<Rightarrow>
                  if ret < 0 then map_option (\<lambda>s. (- EINVAL, s)) (free_io_pgtable_ops ops s)
                  else Some (0, s))"

definition kiumd_set_pgtble_ttbr0_context ::
  "smmu_env \<Rightarrow> ptr \<Rightarrow> 'a smmu_st_scheme \<Rightarrow> (int \<times> 'a smmu_st_scheme) option" where
  "kiumd_set_pgtble_ttbr0_context e sd s =
     (if pgtbl_ops (domains s sd) = 0 then Some (- EINVAL, s)
      else
        let s = (if pgtable s = None then s\<lparr>pgtable := Some (pgtbl_ops (domains s sd))\<rparr> else s) in
        case Option.bind (pgtable s) (pgtbls s) of
          None \<Rightarrow> None
        | Some cfg \<Rightarrow>
            let cfg = cfg\<lparr>quirk_arm_ttbr1 := False, kgsl_tlb_ops := True\<rparr> in
            case alloc_io_pgtable_ops e cfg s of
              (ops, cfg, s) \<Rightarrow>
                if ops = 0 then Some (- ENOMEM, s)
                else case kiumd_smmuv2_set_ttbr0_cfg sd cfg s of
                  (_, s) \<Rightarrow>
                    let ret = (if fst (e_aperture e) = - EBUSY then snd (e_aperture e)
                               else fst (e_aperture e)) in
                    if ret \<noteq> 0 then map_option (\<lambda>s. (ret, s)) (free_io_pgtable_ops ops s)
                    else Some (0, s))"

section \<open>The requests\<close>

definition kiumd_set_pgtbl_context ::
  "world \<Rightarrow> smmu_env \<Rightarrow> kiumd_smmu_user option \<Rightarrow> 'a smmu_st_scheme
     \<Rightarrow> (int \<times> 'a smmu_st_scheme) option" where
  "kiumd_set_pgtbl_context w e arg s =
     (case arg of
        None \<Rightarrow> Some (- EFAULT, s)
      | Some u \<Rightarrow>
          if su_vfio_fd u < 0 then Some (- EBADF, s)
          else case kiumd_get_vfio_device w (su_vfio_fd u) s of
            (vfio_dev, s) \<Rightarrow>
              if vfio_dev = 0 then Some (- EINVAL, s)
              else case kiumd_iommu_get_dma_domain w (w_dev w vfio_dev) of
                None \<Rightarrow> None
              | Some iommu_dom \<Rightarrow>
                  if iommu_dom = 0 then Some (- EINVAL, s)
                  else if su_flags u = KIUMD_SMMU_SET_TTBR0_CONFIG
                    then kiumd_set_pgtble_ttbr0_context e iommu_dom s
                  else if su_flags u = KIUMD_SMMU_SET_TTBR1_CONFIG
                    then kiumd_set_pgtble_ttbr1_context e iommu_dom s
                  else Some (- ENOTTY, s))"

text \<open>The requests below look the file up themselves and drop it on every path that returns.\<close>

definition kiumd_perprocess_pt_alloc ::
  "world \<Rightarrow> smmu_env \<Rightarrow> kiumd_smmu_user option \<Rightarrow> 'a smmu_st_scheme
     \<Rightarrow> (int \<times> kiumd_smmu_user option \<times> 'a smmu_st_scheme) option" where
  "kiumd_perprocess_pt_alloc w e arg s =
     (case arg of
        None \<Rightarrow> Some (- EFAULT, None, s)
      | Some u \<Rightarrow>
          (case vfio_file_device w EINVAL (su_vfio_fd u) s of
             None \<Rightarrow> None
           | Some (Inl err, s) \<Rightarrow> Some (err, None, s)
           | Some (Inr (file, vfio_dev), s) \<Rightarrow>
               (case kiumd_iommu_get_dma_domain w (w_dev w vfio_dev) of
                  None \<Rightarrow> None
                | Some iommu_dom \<Rightarrow>
                    if iommu_dom = 0 \<or> pgtbl_ops (domains s iommu_dom) = 0
                    then Some (- EINVAL, None, fput file s)
                    else case Option.bind (pgtable s) (pgtbls s) of
                      None \<Rightarrow> None
                    | Some cfg \<Rightarrow>
                        let cfg = cfg\<lparr>quirk_arm_ttbr1 := False, kgsl_tlb_ops := True\<rparr> in
                        case alloc_io_pgtable_ops e cfg s of
                          (ops, cfg, s) \<Rightarrow>
                            let u = u\<lparr>su_asid := asid (dom_cfg (domains s iommu_dom)),
                                      pgtbl_ops_ptr := ops\<rparr> in
                            if ops = 0 then Some (- EINVAL, None, fput file s)
                            else let u = u\<lparr>ttbr0 := s1_ttbr cfg\<rparr>; s = fput file s in
                              if e_copy_to_user e then Some (0, Some u, s)
                              else Some (- EFAULT, None, s))))"

definition kiumd_global_pgtble_set ::
  "world \<Rightarrow> kiumd_smmu_user option \<Rightarrow> 'a smmu_st_scheme \<Rightarrow> (int \<times> 'a smmu_st_scheme) option" where
  "kiumd_global_pgtble_set w arg s =
     (case arg of
        None \<Rightarrow> Some (- EFAULT, s)
      | Some u \<Rightarrow>
          (case vfio_file_device w ENOTTY (su_vfio_fd u) s of
             None \<Rightarrow> None
           | Some (Inl err, s) \<Rightarrow> Some (err, s)
           | Some (Inr (file, vfio_dev), s) \<Rightarrow>
               (case kiumd_iommu_get_dma_domain w (w_dev w vfio_dev) of
                  None \<Rightarrow> None
                | Some iommu_dom \<Rightarrow>
                    if iommu_dom = 0 then Some (- ENOMEM, fput file s)
                    else
                      let s = (if pgtable s = None
                               then s\<lparr>pgtable := Some (pgtbl_ops (domains s iommu_dom))\<rparr> else s);
                          ki_pgtbl_ops = the (pgtable s)
                      in if ki_pgtbl_ops = 0 then Some (- ENOMEM, fput file s)
                         else Some (0, fput file (set_pgtbl_ops iommu_dom ki_pgtbl_ops s)))))"

definition kiumd_perprocess_pgtble_set ::
  "world \<Rightarrow> kiumd_smmu_user option \<Rightarrow> 'a smmu_st_scheme \<Rightarrow> (int \<times> 'a smmu_st_scheme) option" where
  "kiumd_perprocess_pgtble_set w arg s =
     (case arg of
        None \<Rightarrow> Some (- EFAULT, s)
      | Some u \<Rightarrow>
          (case vfio_file_device w EINVAL (su_vfio_fd u) s of
             None \<Rightarrow> None
           | Some (Inl err, s) \<Rightarrow> Some (err, s)
           | Some (Inr (file, vfio_dev), s) \<Rightarrow>
               (case kiumd_iommu_get_dma_domain w (w_dev w vfio_dev) of
                  None \<Rightarrow> None
                | Some iommu_dom \<Rightarrow>
                    if iommu_dom = 0 then Some (- EINVAL, fput file s)
                    else Some (0, fput file (set_pgtbl_ops iommu_dom (pgtbl_ops_ptr u) s)))))"

definition kiumd_perprocess_pgtble_free ::
  "world \<Rightarrow> kiumd_smmu_user option \<Rightarrow> 'a smmu_st_scheme \<Rightarrow> (int \<times> 'a smmu_st_scheme) option" where
  "kiumd_perprocess_pgtble_free w arg s =
     (case arg of
        None \<Rightarrow> Some (- EFAULT, s)
      | Some u \<Rightarrow>
          (case vfio_file_device w EINVAL (su_vfio_fd u) s of
             None \<Rightarrow> None
           | Some (Inl err, s) \<Rightarrow> Some (err, s)
           | Some (Inr (file, vfio_dev), s) \<Rightarrow>
               if pgtbl_ops_ptr u = 0 then Some (- EINVAL, fput file s)
               else map_option (\<lambda>s. (0, fput file s)) (free_io_pgtable_ops (pgtbl_ops_ptr u) s)))"

section \<open>Control register values\<close>

text \<open>The translation control value carries the page table's parameters. For a TTBR0 table each
  field of \<open>arm_smmu_lpae_tcr\<close> reads back as the parameter cut to the width of its field and the
  TTBR1 walk is disabled; for a TTBR1 table the same fields sit 16 bits higher, the ASID is
  taken from TTBR0 (A1 clear) and the TTBR0 walk is disabled.\<close>

theorem lpae_tcr_fields:
  "let t = s1_tcr cfg; r = arm_smmu_lpae_tcr cfg; d = (if quirk_arm_ttbr1 cfg then 16 else 0) in
     FIELD_GET (5 + d) d r = take_bit 6 (tsz t) \<and> FIELD_GET (9 + d) (8 + d) r = take_bit 2 (irgn t)
     \<and> FIELD_GET (11 + d) (10 + d) r = take_bit 2 (orgn t)
     \<and> FIELD_GET (13 + d) (12 + d) r = take_bit 2 (sh t)
     \<and> FIELD_GET (15 + d) (14 + d) r = take_bit 2 (tg t)
     \<and> bit r 7 = quirk_arm_ttbr1 cfg \<and> bit r 23 = (\<not> quirk_arm_ttbr1 cfg) \<and> \<not> bit r 22"
proof -
  show ?thesis
    by (auto simp: Let_def arm_smmu_lpae_tcr_def bit_simps intro!: bit_word_eqI)
qed

section \<open>What the hardware sees\<close>

fun cb_write_at :: "ptr \<Rightarrow> nat \<Rightarrow> nat \<Rightarrow> reg_write \<Rightarrow> u64 option" where
  "cb_write_at smmu idx off (Gr1Write m r v) = None"
| "cb_write_at smmu idx off (CbWrite m i r v) =
     (if m = smmu \<and> i = idx \<and> r = off then Some (ucast v) else None)"
| "cb_write_at smmu idx off (CbWriteq m i r v) =
     (if m = smmu \<and> i = idx \<and> r = off then Some v else None)"
| "cb_write_at smmu idx off (WriteSctlr m i v) = None"

text \<open>The content of a context bank register after a sequence of writes, if it was written.\<close>

definition cb_reg :: "reg_write list \<Rightarrow> ptr \<Rightarrow> nat \<Rightarrow> nat \<Rightarrow> u64 option" where
  "cb_reg ws smmu idx off =
     foldl (\<lambda>v r. case cb_write_at smmu idx off r of None \<Rightarrow> v | Some x \<Rightarrow> Some x) None ws"

definition bank_programmed :: "reg_write list \<Rightarrow> ptr \<Rightarrow> nat \<Rightarrow> arm_smmu_cb \<Rightarrow> bool" where
  "bank_programmed ws smmu idx cb \<longleftrightarrow>
     cb_reg ws smmu idx ARM_SMMU_CB_TCR = Some (ucast (cb_tcr0 cb))
     \<and> cb_reg ws smmu idx ARM_SMMU_CB_TTBR0 = Some (cb_ttbr0 cb)
     \<and> cb_reg ws smmu idx ARM_SMMU_CB_S1_MAIR0 = Some (ucast (cb_mair0 cb))
     \<and> cb_reg ws smmu idx ARM_SMMU_CB_S1_MAIR1 = Some (ucast (cb_mair1 cb))
     \<and> (cbar (cb_cfg cb) \<noteq> CBAR_TYPE_S2_TRANS \<longrightarrow>
          cb_reg ws smmu idx ARM_SMMU_CB_TCR2 = Some (ucast (cb_tcr1 cb))
          \<and> cb_reg ws smmu idx ARM_SMMU_CB_TTBR1 = Some (cb_ttbr1 cb))"

lemma log_write_fields [simp]:
  "domains (log_write r s) = domains s" "smmus (log_write r s) = smmus s"
  "pgtbls (log_write r s) = pgtbls s" "pgtable (log_write r s) = pgtable s"
  "file_refs (log_write r s) = file_refs s" "cookies (log_write r s) = cookies s"
  "reg_writes (log_write r s) = reg_writes s @ [r]"
  by (simp_all add: log_write_def)

lemma write_context_bank_fields [simp]:
  "domains (kiumd_smmuv2_write_context_bank m i s) = domains s"
  "smmus (kiumd_smmuv2_write_context_bank m i s) = smmus s"
  "pgtbls (kiumd_smmuv2_write_context_bank m i s) = pgtbls s"
  "pgtable (kiumd_smmuv2_write_context_bank m i s) = pgtable s"
  "file_refs (kiumd_smmuv2_write_context_bank m i s) = file_refs s"
  by (simp_all add: kiumd_smmuv2_write_context_bank_def Let_def)

lemma write_context_bank_programs:
  "bank_programmed (reg_writes (kiumd_smmuv2_write_context_bank m i s)) m i (cbs (smmus s m) i)"
  by (simp add: bank_programmed_def cb_reg_def kiumd_smmuv2_write_context_bank_def Let_def)

lemma write_context_bank_last:
  "last (reg_writes (kiumd_smmuv2_write_context_bank m i s)) = WriteSctlr m i SCTLR_value"
  by (simp add: kiumd_smmuv2_write_context_bank_def Let_def)

lemma put_cb_fields [simp]:
  "domains (put_cb m i cb s) = domains s" "pgtbls (put_cb m i cb s) = pgtbls s"
  "pgtable (put_cb m i cb s) = pgtable s" "file_refs (put_cb m i cb s) = file_refs s"
  "reg_writes (put_cb m i cb s) = reg_writes s"
  by (simp_all add: put_cb_def)

lemma put_cb_at: "cbs (smmus (put_cb m i cb s) m') i' =
    (if m' = m \<and> i' = i then cb else cbs (smmus s m') i')"
  by (simp add: put_cb_def)

text \<open>The context bank of a domain.\<close>

definition bank :: "ptr \<Rightarrow> 'a smmu_st_scheme \<Rightarrow> arm_smmu_cb" where
  "bank sd s = cbs (smmus s (dom_smmu (domains s sd))) (cbndx (dom_cfg (domains s sd)))"

definition bank_of_domain :: "ptr \<Rightarrow> 'a smmu_st_scheme \<Rightarrow> bool" where
  "bank_of_domain sd s \<longleftrightarrow> cb_cfg (bank sd s) = dom_cfg (domains s sd)"

lemma epd_test: "tcr AND BIT_U32 n = 0 \<longleftrightarrow> \<not> (n < 32 \<and> bit tcr n)"
  by (auto simp: bit_eq_iff [of "tcr AND BIT_U32 n"] bit_simps)

section \<open>Properties of the programming\<close>

text \<open>C35: Enabling TTBR0 programs the bank completely and touches nothing else. When TTBR0 walks are
  already enabled the call returns -EINVAL and changes nothing. Otherwise it returns 0, both walk
  disables are cleared, every other bit of the control register is the old one or the page
  table's, TTBR0 holds the table's base with the domain's ASID in its top 16 bits, the rest of the
  bank and all other banks keep their shadow values, the last value written to each of these
  registers of the bank is its shadow value, and the call of the hook that enables translation
  comes last.\<close>

theorem set_ttbr0_correct:
  assumes "bank_of_domain sd s"
  shows "let cb = bank sd s; m = dom_smmu (domains s sd); i = cbndx (dom_cfg (domains s sd)) in
     case kiumd_smmuv2_set_ttbr0_cfg sd cfg s of (ret, s') \<Rightarrow>
       if \<not> bit (cb_tcr0 cb) 7 then ret = - EINVAL \<and> s' = s
       else ret = 0
          \<and> (\<forall>n. bit (cb_tcr0 (bank sd s')) n \<longleftrightarrow>
               n \<noteq> 7 \<and> n \<noteq> 23 \<and> (bit (cb_tcr0 cb) n \<or> bit (arm_smmu_lpae_tcr cfg) n))
          \<and> cb_ttbr0 (bank sd s') =
               s1_ttbr cfg OR push_bit 48 (ucast (asid (dom_cfg (domains s sd))))
          \<and> bank sd s' = cb\<lparr>cb_tcr0 := cb_tcr0 (bank sd s'), cb_ttbr0 := cb_ttbr0 (bank sd s')\<rparr>
          \<and> (\<forall>m' i'. (m', i') \<noteq> (m, i) \<longrightarrow> cbs (smmus s' m') i' = cbs (smmus s m') i')
          \<and> bank_programmed (reg_writes s') m i (bank sd s')
          \<and> last (reg_writes s') = WriteSctlr m i SCTLR_value
          \<and> domains s' = domains s \<and> pgtbls s' = pgtbls s \<and> file_refs s' = file_refs s"
proof -
  let ?m = "dom_smmu (domains s sd)" and ?i = "cbndx (dom_cfg (domains s sd))"
  have cfg: "cb_cfg (cbs (smmus s ?m) ?i) = dom_cfg (domains s sd)"
    using assms by (simp add: bank_of_domain_def bank_def)
  have asid: "FIELD_PREP 63 48 (ucast a :: u64) = push_bit 48 (ucast a)" for a :: u16
    by (rule bit_word_eqI) (auto simp: bit_simps)
  show ?thesis
  proof (cases "bit (cb_tcr0 (bank sd s)) 7")
    case False
    then show ?thesis
      by (simp add: Let_def kiumd_smmuv2_set_ttbr0_cfg_def epd_test bank_def)
  next
    case True
    define cb' where "cb' = (bank sd s)\<lparr>cb_tcr0 := (cb_tcr0 (bank sd s) OR arm_smmu_lpae_tcr cfg)
        AND NOT (ARM_SMMU_TCR_EPD0 OR ARM_SMMU_TCR_EPD1),
        cb_ttbr0 := s1_ttbr cfg OR push_bit 48 (ucast (asid (dom_cfg (domains s sd))))\<rparr>"
    have step: "kiumd_smmuv2_set_ttbr0_cfg sd cfg s
        = (0, kiumd_smmuv2_write_context_bank ?m ?i (put_cb ?m ?i cb' s))"
      using True by (simp add: kiumd_smmuv2_set_ttbr0_cfg_def Let_def epd_test bank_def cb'_def cfg asid)
    have bank': "bank sd (kiumd_smmuv2_write_context_bank ?m ?i (put_cb ?m ?i cb' s)) = cb'"
      by (simp add: bank_def put_cb_at)
    have tcr: "bit (cb_tcr0 cb') n \<longleftrightarrow> n \<noteq> 7 \<and> n \<noteq> 23
        \<and> (bit (cb_tcr0 (bank sd s)) n \<or> bit (arm_smmu_lpae_tcr cfg) n)" for n
      by (auto simp: cb'_def bit_simps dest: bit_imp_le_length)
    have prog: "bank_programmed (reg_writes (kiumd_smmuv2_write_context_bank ?m ?i (put_cb ?m ?i cb' s)))
        ?m ?i cb'"
      using write_context_bank_programs [of ?m ?i "put_cb ?m ?i cb' s"] by (simp add: put_cb_at)
    show ?thesis
      unfolding step Let_def using True tcr prog
      by (simp add: bank' write_context_bank_last put_cb_at) (simp add: cb'_def)
  qed
qed

section \<open>Runs of requests\<close>

datatype smmu_op =
  SetContext smmu_env "kiumd_smmu_user option"
| PtAlloc smmu_env "kiumd_smmu_user option"
| GlobalSet "kiumd_smmu_user option"
| PerProcessSet "kiumd_smmu_user option"
| PtFree "kiumd_smmu_user option"

fun smmu_step :: "world \<Rightarrow> smmu_op \<Rightarrow> 'a smmu_st_scheme \<Rightarrow> 'a smmu_st_scheme option" where
  "smmu_step w (SetContext e arg) s = map_option snd (kiumd_set_pgtbl_context w e arg s)"
| "smmu_step w (PtAlloc e arg) s =
     map_option (\<lambda>(ret, out, s). s) (kiumd_perprocess_pt_alloc w e arg s)"
| "smmu_step w (GlobalSet arg) s = map_option snd (kiumd_global_pgtble_set w arg s)"
| "smmu_step w (PerProcessSet arg) s = map_option snd (kiumd_perprocess_pgtble_set w arg s)"
| "smmu_step w (PtFree arg) s = map_option snd (kiumd_perprocess_pgtble_free w arg s)"

fun smmu_run :: "world \<Rightarrow> smmu_op list \<Rightarrow> 'a smmu_st_scheme \<Rightarrow> 'a smmu_st_scheme option" where
  "smmu_run w [] s = Some s"
| "smmu_run w (x # ops) s = (case smmu_step w x s of None \<Rightarrow> None | Some s' \<Rightarrow> smmu_run w ops s')"

lemma set_ttbr_fields:
  "kiumd_smmuv2_set_ttbr0_cfg sd cfg s = (r, s') \<Longrightarrow>
     file_refs s' = file_refs s \<and> pgtbls s' = pgtbls s \<and> domains s' = domains s \<and> pgtable s' = pgtable s"
  "kiumd_smmuv2_set_ttbr1_cfg sd cfg s = (r, s') \<Longrightarrow>
     file_refs s' = file_refs s \<and> pgtbls s' = pgtbls s \<and> domains s' = domains s \<and> pgtable s' = pgtable s"
  by (auto simp: kiumd_smmuv2_set_ttbr0_cfg_def kiumd_smmuv2_set_ttbr1_cfg_def Let_def split: if_splits)

lemma alloc_fields:
  "alloc_io_pgtable_ops e cfg s = (ops, cfg', s') \<Longrightarrow>
     file_refs s' = file_refs s \<and> domains s' = domains s \<and> pgtable s' = pgtable s \<and> smmus s' = smmus s
     \<and> (ops, cfg') = e_alloc_ops e cfg
     \<and> pgtbls s' = (if ops = 0 then pgtbls s else (pgtbls s)(ops \<mapsto> cfg'))"
  by (auto simp: alloc_io_pgtable_ops_def split: prod.splits if_splits)

lemma free_fields:
  "free_io_pgtable_ops ops s = Some s' \<Longrightarrow>
     file_refs s' = file_refs s \<and> domains s' = domains s \<and> pgtable s' = pgtable s \<and> smmus s' = smmus s
     \<and> pgtbls s' = (pgtbls s)(ops := None)"
  by (auto simp: free_io_pgtable_ops_def split: option.splits)

lemma set_pgtbl_ops_fields [simp]:
  "file_refs (set_pgtbl_ops sd ops s) = file_refs s" "pgtbls (set_pgtbl_ops sd ops s) = pgtbls s"
  "pgtable (set_pgtbl_ops sd ops s) = pgtable s" "smmus (set_pgtbl_ops sd ops s) = smmus s"
  "domains (set_pgtbl_ops sd ops s) = (domains s)(sd := (domains s sd)\<lparr>pgtbl_ops := ops\<rparr>)"
  by (simp_all add: set_pgtbl_ops_def)

lemma fput_fields [simp]:
  "domains (fput f s) = domains s" "pgtbls (fput f s) = pgtbls s" "pgtable (fput f s) = pgtable s"
  "smmus (fput f s) = smmus s" "file_refs (fput f s) = (file_refs s)(f := file_refs s f - 1)"
  by (simp_all add: fput_def)

lemma vfio_file_device_fields:
  "vfio_file_device w err fd s = Some (Inl x, s') \<Longrightarrow> s' = s"
  "vfio_file_device w err fd s = Some (Inr (f, d), s') \<Longrightarrow>
     s' = s\<lparr>file_refs := (file_refs s)(f := file_refs s f + 1)\<rparr>"
  by (auto simp: vfio_file_device_def do_fget_def Let_def split: if_splits)

lemmas smmu_request_defs = kiumd_set_pgtbl_context_def get_vfio_device_eq
  kiumd_perprocess_pt_alloc_def kiumd_global_pgtble_set_def kiumd_perprocess_pgtble_set_def
  kiumd_perprocess_pgtble_free_def

lemma set_context_refs:
  "kiumd_set_pgtble_ttbr0_context e sd s = Some (r, s') \<Longrightarrow> file_refs s' = file_refs s"
  "kiumd_set_pgtble_ttbr1_context e sd s = Some (r, s') \<Longrightarrow> file_refs s' = file_refs s"
  by (fastforce simp: kiumd_set_pgtble_ttbr0_context_def kiumd_set_pgtble_ttbr1_context_def Let_def
      split: if_splits option.splits prod.splits bind_splits
      dest: alloc_fields set_ttbr_fields free_fields)+

lemma fput_undo [simp]:
  "((file_refs s)(f := file_refs s f + 1))(f := ((file_refs s)(f := file_refs s f + 1)) f - 1)
     = file_refs s"
  by simp

lemma smmu_step_refs:
  assumes "smmu_step w x s = Some s'"
  shows "file_refs s' = file_refs s"
proof (cases x)
  case (SetContext e arg)
  with assms show ?thesis
    by (auto simp: kiumd_set_pgtbl_context_def get_vfio_device_eq split: option.splits if_splits
        dest: set_context_refs)
next
  case (PtAlloc e arg)
  with assms show ?thesis
    by (auto simp: kiumd_perprocess_pt_alloc_def Let_def
        split: option.splits if_splits sum.splits prod.splits
        dest!: vfio_file_device_fields alloc_fields)
next
  case (GlobalSet arg)
  with assms show ?thesis
    by (auto simp: kiumd_global_pgtble_set_def Let_def
        split: option.splits if_splits sum.splits prod.splits dest!: vfio_file_device_fields)
next
  case (PerProcessSet arg)
  with assms show ?thesis
    by (auto simp: kiumd_perprocess_pgtble_set_def Let_def
        split: option.splits if_splits sum.splits prod.splits dest!: vfio_file_device_fields)
next
  case (PtFree arg)
  with assms show ?thesis
    by (auto simp: kiumd_perprocess_pgtble_free_def Let_def
        split: option.splits if_splits sum.splits prod.splits
        dest!: vfio_file_device_fields free_fields)
qed

text \<open>A bank whose walks are both enabled is never programmed again.\<close>

definition walks_enabled :: "arm_smmu_cb \<Rightarrow> bool" where
  "walks_enabled cb \<longleftrightarrow> \<not> bit (cb_tcr0 cb) 7 \<and> \<not> bit (cb_tcr0 cb) 23"

lemma set_ttbr_locked:
  "kiumd_smmuv2_set_ttbr0_cfg sd cfg s = (r, s') \<Longrightarrow>
     walks_enabled (cbs (smmus s m) i) \<longrightarrow> cbs (smmus s' m) i = cbs (smmus s m) i"
  "kiumd_smmuv2_set_ttbr1_cfg sd cfg s = (r, s') \<Longrightarrow>
     walks_enabled (cbs (smmus s m) i) \<longrightarrow> cbs (smmus s' m) i = cbs (smmus s m) i"
  by (auto simp: kiumd_smmuv2_set_ttbr0_cfg_def kiumd_smmuv2_set_ttbr1_cfg_def Let_def epd_test
      walks_enabled_def put_cb_at split: if_splits)

lemma set_context_locked:
  assumes "walks_enabled (cbs (smmus s m) i)"
  shows "kiumd_set_pgtble_ttbr0_context e sd s = Some (r, s') \<Longrightarrow> cbs (smmus s' m) i = cbs (smmus s m) i"
    and "kiumd_set_pgtble_ttbr1_context e sd s = Some (r, s') \<Longrightarrow> cbs (smmus s' m) i = cbs (smmus s m) i"
  using assms
  by (auto simp: kiumd_set_pgtble_ttbr0_context_def kiumd_set_pgtble_ttbr1_context_def Let_def
      split: if_splits option.splits prod.splits bind_splits
      dest!: alloc_fields free_fields set_ttbr_locked [where m = m and i = i])

lemma smmu_step_locked:
  assumes "smmu_step w x s = Some s'" "walks_enabled (cbs (smmus s m) i)"
  shows "cbs (smmus s' m) i = cbs (smmus s m) i"
proof (cases x)
  case (SetContext e arg)
  with assms show ?thesis
    by (auto simp: kiumd_set_pgtbl_context_def get_vfio_device_eq split: option.splits if_splits
        dest: set_context_locked)
next
  case (PtAlloc e arg)
  with assms show ?thesis
    by (auto simp: kiumd_perprocess_pt_alloc_def Let_def
        split: option.splits if_splits sum.splits prod.splits
        dest!: vfio_file_device_fields alloc_fields)
next
  case (GlobalSet arg)
  with assms show ?thesis
    by (auto simp: kiumd_global_pgtble_set_def Let_def
        split: option.splits if_splits sum.splits prod.splits dest!: vfio_file_device_fields)
next
  case (PerProcessSet arg)
  with assms show ?thesis
    by (auto simp: kiumd_perprocess_pgtble_set_def Let_def
        split: option.splits if_splits sum.splits prod.splits dest!: vfio_file_device_fields)
next
  case (PtFree arg)
  with assms show ?thesis
    by (auto simp: kiumd_perprocess_pgtble_free_def Let_def
        split: option.splits if_splits sum.splits prod.splits
        dest!: vfio_file_device_fields free_fields)
qed

section \<open>Lifetime of page tables\<close>

text \<open>Every page table a domain or the driver points to is allocated.\<close>

definition tables_alive :: "'a smmu_st_scheme \<Rightarrow> bool" where
  "tables_alive s \<longleftrightarrow> pgtbls s 0 = None
     \<and> (\<forall>sd. pgtbl_ops (domains s sd) = 0 \<or> pgtbls s (pgtbl_ops (domains s sd)) \<noteq> None)
     \<and> (\<forall>p. pgtable s = Some p \<longrightarrow> pgtbls s p \<noteq> None)"

definition request_domain :: "world \<Rightarrow> int \<Rightarrow> ptr" where
  "request_domain w fd =
     (let dev = w_dev w (vfio_device_of w fd) in
      if w_iommu_group w dev = 0 then 0 else w_default_domain w (w_iommu_group w dev))"

definition fresh_table :: "smmu_env \<Rightarrow> 'a smmu_st_scheme \<Rightarrow> bool" where
  "fresh_table e s \<longleftrightarrow> (\<forall>cfg. pgtbls s (fst (e_alloc_ops e cfg)) = None)"

text \<open>
  What the driver leaves to its user: pass only pointers to tables that are allocated, free no
  table that is installed, enable TTBR1 only while it is disabled, and set a context before the
  requests that need one.
\<close>

fun disciplined :: "world \<Rightarrow> smmu_op \<Rightarrow> 'a smmu_st_scheme \<Rightarrow> bool" where
  "disciplined w (SetContext e arg) s \<longleftrightarrow> fresh_table e s
     \<and> (\<forall>u. arg = Some u \<and> su_flags u = KIUMD_SMMU_SET_TTBR1_CONFIG \<longrightarrow>
            bit (cb_tcr0 (bank (request_domain w (su_vfio_fd u)) s)) 23)"
| "disciplined w (PtAlloc e arg) s \<longleftrightarrow> fresh_table e s \<and> pgtable s \<noteq> None"
| "disciplined w (GlobalSet arg) s \<longleftrightarrow> pgtable s \<noteq> None"
| "disciplined w (PerProcessSet arg) s \<longleftrightarrow> (\<forall>u. arg = Some u \<longrightarrow> pgtbls s (pgtbl_ops_ptr u) \<noteq> None)"
| "disciplined w (PtFree arg) s \<longleftrightarrow> (\<forall>u. arg = Some u \<longrightarrow>
       pgtbls s (pgtbl_ops_ptr u) \<noteq> None \<and> pgtable s \<noteq> Some (pgtbl_ops_ptr u)
       \<and> (\<forall>sd. pgtbl_ops (domains s sd) \<noteq> pgtbl_ops_ptr u))"

fun disciplined_run :: "world \<Rightarrow> smmu_op list \<Rightarrow> 'a smmu_st_scheme \<Rightarrow> bool" where
  "disciplined_run w [] s = True"
| "disciplined_run w (x # ops) s =
     (disciplined w x s \<and>
      (case smmu_step w x s of None \<Rightarrow> True | Some s' \<Rightarrow> disciplined_run w ops s'))"

definition vfio_world :: "world \<Rightarrow> bool" where
  "vfio_world w \<longleftrightarrow> (\<forall>f. w_private_data w f \<noteq> 0) \<and> (\<forall>v. w_dev w v \<noteq> 0)"

lemma set_ttbr0_context_alive:
  assumes "tables_alive s" "fresh_table e s"
  shows "\<exists>r s'. kiumd_set_pgtble_ttbr0_context e sd s = Some (r, s') \<and> tables_alive s'"
proof (cases "pgtbl_ops (domains s sd) = 0")
  case False
  define s0 where "s0 = (if pgtable s = None then s\<lparr>pgtable := Some (pgtbl_ops (domains s sd))\<rparr> else s)"
  have s0: "tables_alive s0" "pgtbls s0 = pgtbls s" "domains s0 = domains s"
    using assms(1) False by (auto simp: tables_alive_def s0_def)
  have "pgtable s0 \<noteq> None" by (simp add: s0_def)
  then obtain p where p: "pgtable s0 = Some p" by blast
  with s0(1) obtain cfg where cfg: "pgtbls s0 p = Some cfg" by (fastforce simp: tables_alive_def)
  define cfg1 where "cfg1 = cfg\<lparr>quirk_arm_ttbr1 := False, kgsl_tlb_ops := True\<rparr>"
  obtain q cfg2 s1 where al: "alloc_io_pgtable_ops e cfg1 s0 = (q, cfg2, s1)"
    by (metis prod_cases3)
  obtain r s2 where set: "kiumd_smmuv2_set_ttbr0_cfg sd cfg2 s1 = (r, s2)" by fastforce
  from alloc_fields [OF al] assms(2) s0(2) have fresh: "pgtbls s q = None"
    by (metis fresh_table_def fst_conv)
  have unfold: "kiumd_set_pgtble_ttbr0_context e sd s =
      (if q = 0 then Some (- ENOMEM, s1)
       else let ret = (if fst (e_aperture e) = - EBUSY then snd (e_aperture e) else fst (e_aperture e))
         in if ret \<noteq> 0 then map_option (\<lambda>s. (ret, s)) (free_io_pgtable_ops q s2) else Some (0, s2))"
    using False p cfg al set
    unfolding kiumd_set_pgtble_ttbr0_context_def s0_def [symmetric] cfg1_def by (simp add: Let_def)
  have alive2: "tables_alive s1 \<and> tables_alive s2 \<and> pgtbls s2 = pgtbls s1"
    using s0(1) alloc_fields [OF al] set_ttbr_fields(1) [OF set]
    by (auto simp: tables_alive_def)
  show ?thesis
  proof (cases "q = 0")
    case True
    with alive2 unfold show ?thesis by simp
  next
    case ne: False
    have free: "free_io_pgtable_ops q s2 = Some (s2\<lparr>pgtbls := (pgtbls s2)(q := None)\<rparr>)"
      using alive2 alloc_fields [OF al] ne by (simp add: free_io_pgtable_ops_def)
    have "tables_alive (s2\<lparr>pgtbls := (pgtbls s2)(q := None)\<rparr>)"
      using s0 fresh alloc_fields [OF al] set_ttbr_fields(1) [OF set] ne
      by (auto simp: tables_alive_def)
    with alive2 unfold free ne show ?thesis by (simp add: Let_def)
  qed
qed (use assms in \<open>simp add: kiumd_set_pgtble_ttbr0_context_def\<close>)

lemma set_ttbr1_context_alive:
  assumes "tables_alive s" "fresh_table e s" and epd1: "bit (cb_tcr0 (bank sd s)) 23"
  shows "\<exists>r s'. kiumd_set_pgtble_ttbr1_context e sd s = Some (r, s') \<and> tables_alive s'"
proof (cases "pgtbl_ops (domains s sd) = 0")
  case False
  with assms(1) obtain cfg where cfg: "pgtbls s (pgtbl_ops (domains s sd)) = Some cfg" by (auto simp: tables_alive_def)
  define s0 where "s0 = s\<lparr>domains := (domains s)(sd := (domains s sd)
                   \<lparr>aperture_start := push_bit 48 (- 1), aperture_end := - 1\<rparr>)\<rparr>"
  define cfg1 where "cfg1 = cfg\<lparr>quirk_arm_ttbr1 := True, kgsl_tlb_ops := True\<rparr>"
  obtain q cfg2 s1 where al: "alloc_io_pgtable_ops e cfg1 s0 = (q, cfg2, s1)"
    by (metis prod_cases3)
  obtain r s2 where set: "kiumd_smmuv2_set_ttbr1_cfg sd cfg2 (set_pgtbl_ops sd q s1) = (r, s2)"
    by fastforce
  have "bit (cb_tcr0 (bank sd (set_pgtbl_ops sd q s1))) 23"
    using epd1 alloc_fields [OF al] by (simp add: bank_def s0_def)
  then have r: "r = 0"
    using set by (auto simp: kiumd_smmuv2_set_ttbr1_cfg_def Let_def epd_test bank_def split: if_splits)
  have "kiumd_set_pgtble_ttbr1_context e sd s = (if q = 0 then Some (- EINVAL, s1) else Some (0, s2))"
    using False cfg al set r
    unfolding kiumd_set_pgtble_ttbr1_context_def Let_def cfg1_def s0_def by simp
  moreover have "tables_alive s0" using assms(1) by (auto simp: tables_alive_def s0_def)
  then have "tables_alive s1 \<and> (q \<noteq> 0 \<longrightarrow> tables_alive s2)"
    using alloc_fields [OF al] set_ttbr_fields(2) [OF set] by (auto simp: tables_alive_def)
  ultimately show ?thesis by simp
qed (use assms in \<open>simp add: kiumd_set_pgtble_ttbr1_context_def\<close>)

lemma smmu_step_alive:
  assumes "tables_alive s" "vfio_world w" "disciplined w x s"
  shows "\<exists>s'. smmu_step w x s = Some s' \<and> tables_alive s'"
proof -
  note world = assms(2) [unfolded vfio_world_def]
  have refs: "tables_alive (fput f s) = tables_alive s"
    "tables_alive (s\<lparr>file_refs := r\<rparr>) = tables_alive s" for f r and s :: "'a smmu_st_scheme"
    by (simp_all add: tables_alive_def)
  show ?thesis
  proof (cases x)
    case (SetContext e arg)
    show ?thesis
    proof (cases arg)
      case (Some u)
      let ?d = "request_domain w (su_vfio_fd u)"
      have dd: "kiumd_iommu_get_dma_domain w (w_dev w (vfio_device_of w (su_vfio_fd u))) = Some ?d"
        using world by (simp add: kiumd_iommu_get_dma_domain_def request_domain_def Let_def)
      have "fresh_table e s" using assms(3) SetContext by simp
      note alive = set_ttbr0_context_alive [OF assms(1) this, of ?d]
        set_ttbr1_context_alive [OF assms(1) this, of ?d]
      from alive assms(1,3) dd SetContext Some show ?thesis
        by (auto simp: kiumd_set_pgtbl_context_def get_vfio_device_eq)
    qed (use assms SetContext in \<open>simp add: kiumd_set_pgtbl_context_def\<close>)
  next
    case (PtAlloc e arg)
    with assms world show ?thesis
      by (auto simp: kiumd_perprocess_pt_alloc_def vfio_file_device_def do_fget_def Let_def
          kiumd_iommu_get_dma_domain_def alloc_io_pgtable_ops_def tables_alive_def fput_def
          split: option.splits prod.splits)
  next
    case (GlobalSet arg)
    with assms world show ?thesis
      by (auto simp: kiumd_global_pgtble_set_def vfio_file_device_def do_fget_def Let_def
          kiumd_iommu_get_dma_domain_def tables_alive_def split: option.splits)
  next
    case (PerProcessSet arg)
    with assms world show ?thesis
      by (auto simp: kiumd_perprocess_pgtble_set_def vfio_file_device_def do_fget_def Let_def
          kiumd_iommu_get_dma_domain_def tables_alive_def split: option.splits)
  next
    case (PtFree arg)
    with assms world show ?thesis
      by (auto simp: kiumd_perprocess_pgtble_free_def vfio_file_device_def do_fget_def Let_def
          free_io_pgtable_ops_def tables_alive_def split: option.splits)
  qed
qed

lemma smmu_run_alive:
  assumes "tables_alive s" "vfio_world w" "disciplined_run w ops s"
  shows "\<exists>s'. smmu_run w ops s = Some s' \<and> tables_alive s'"
  using assms
proof (induction ops arbitrary: s)
  case (Cons x ops)
  then have "disciplined w x s" by simp
  from smmu_step_alive [OF Cons.prems(1,2) this] obtain s1 where
    "smmu_step w x s = Some s1" "tables_alive s1" by blast
  with Cons show ?case by simp
qed simp

lemma smmu_run_fields:
  assumes "smmu_run w ops s = Some s'"
  shows "file_refs s' = file_refs s"
    and "walks_enabled (cbs (smmus s m) i) \<Longrightarrow> cbs (smmus s' m) i = cbs (smmus s m) i"
  using assms
proof (induction ops arbitrary: s)
  case Nil
  { case 1 then show ?case by simp next case 2 then show ?case by simp }
next
  case (Cons x ops)
  { case 1
    then obtain s1 where "smmu_step w x s = Some s1" "smmu_run w ops s1 = Some s'"
      by (auto split: option.splits)
    with Cons.IH(1) smmu_step_refs show ?case by metis
  next
    case 2
    then obtain s1 where "smmu_step w x s = Some s1" "smmu_run w ops s1 = Some s'"
      by (auto split: option.splits)
    with Cons.IH(2) smmu_step_locked 2(1) show ?case by metis }
qed

lemma set_ttbr_enables:
  "kiumd_smmuv2_set_ttbr0_cfg sd cfg s = (0, s') \<Longrightarrow> walks_enabled (bank sd s')"
  "kiumd_smmuv2_set_ttbr1_cfg sd cfg s = (0, s') \<Longrightarrow> walks_enabled (bank sd s')"
  by (auto simp: kiumd_smmuv2_set_ttbr0_cfg_def kiumd_smmuv2_set_ttbr1_cfg_def Let_def bank_def
      put_cb_at walks_enabled_def bit_simps split: if_splits)

section \<open>Properties of the requests\<close>

text \<open>C20: Page tables stay valid as long as user space keeps its side. Start with every installed
  page table allocated and let user space issue any requests that follow the discipline above.
  Then no request crashes, in particular none copies or frees a page table that is not
  allocated, and at the end every page table that a domain or the driver points to is
  allocated.\<close>

theorem page_tables_stay_valid:
  assumes "tables_alive s" "vfio_world w" "disciplined_run w ops s"
  shows "\<exists>s'. smmu_run w ops s = Some s' \<and> tables_alive s'"
  using assms by (rule smmu_run_alive)

text \<open>Translation is configured once. After a TTBR0 or TTBR1 configuration has succeeded on the
  bank of a domain, no sequence of page-table requests by any user changes the translation
  control, base or attribute registers of this bank again; each of these requests also drops the
  file reference it took.\<close>

theorem translation_config_locked:
  assumes "kiumd_smmuv2_set_ttbr0_cfg sd cfg s = (0, s1)
           \<or> kiumd_smmuv2_set_ttbr1_cfg sd cfg s = (0, s1)"
    and "smmu_run w ops s1 = Some s2"
  shows "cbs (smmus s2 (dom_smmu (domains s1 sd))) (cbndx (dom_cfg (domains s1 sd))) = bank sd s1
     \<and> file_refs s2 = file_refs s1"
  using smmu_run_fields [OF assms(2)] assms(1) set_ttbr_enables
  unfolding bank_def by blast

definition example_world :: world where
  "example_world = \<lparr>w_fget = (\<lambda>fd. if fd = 3 then 0x100 else 0), w_vfio_file_is_valid = (\<lambda>_. True),
     w_private_data = (\<lambda>_. 0x200), w_device = (\<lambda>_. 0x300), w_dev = (\<lambda>_. 0x400),
     w_iommu_group = (\<lambda>_. 0x500), w_default_domain = (\<lambda>_. 0x600), w_iova_cookie = (\<lambda>_. 0x700)\<rparr>"

lemma example_vfio_world: "vfio_world example_world"
  by (simp add: vfio_world_def example_world_def)

definition example_cfg :: io_pgtable_cfg where
  "example_cfg = \<lparr>quirk_arm_ttbr1 = False, other_quirks = 0, kgsl_tlb_ops = False,
     s1_ttbr = 0x80000000, s1_tcr = \<lparr>tg = 0, sh = 3, orgn = 1, irgn = 1, tsz = 25\<rparr>\<rparr>"

definition example_domain_cfg :: arm_smmu_cfg where
  "example_domain_cfg = \<lparr>cbndx = 1, asid = 5, cbar = CBAR_TYPE_S1_TRANS_S2_BYPASS,
     fmt = ARM_SMMU_CTX_FMT_AARCH64\<rparr>"

definition example_smmu :: smmu_st where
  "example_smmu = \<lparr>kiumd_xa = [], kiumd_xa_mutex = False, dmabuf_refs = (\<lambda>_. 0), handle_objs = 0,
     file_refs = (\<lambda>_. 1),
     cookies = (\<lambda>_. \<lparr>ctype = IOMMU_DMA_IOVA_COOKIE, msi_iova = 0, cookie_mutex = False\<rparr>),
     domains = (\<lambda>_. \<lparr>dom_smmu = 0x800, pgtbl_ops = 0x900, dom_cfg = example_domain_cfg,
                     aperture_start = 0, aperture_end = 0\<rparr>),
     smmus = (\<lambda>_. \<lparr>cbs = (\<lambda>_. \<lparr>cb_ttbr0 = 0, cb_ttbr1 = 0, cb_tcr0 = 0x800080, cb_tcr1 = 0,
                     cb_mair0 = 0, cb_mair1 = 0, cb_cfg = example_domain_cfg\<rparr>), feat_vmid16 = True\<rparr>),
     pgtbls = [0x900 \<mapsto> example_cfg], pgtable = None, reg_writes = []\<rparr>"

definition example_smmu_env :: "ptr \<Rightarrow> smmu_env" where
  "example_smmu_env p = \<lparr>e_alloc_ops = (\<lambda>cfg. (p, cfg)), e_aperture = (0, 0), e_copy_to_user = True\<rparr>"

definition example_request :: "u32 \<Rightarrow> ptr \<Rightarrow> kiumd_smmu_user option" where
  "example_request fl p =
     Some \<lparr>su_vfio_fd = 3, pgtbl_ops_ptr = p, ttbr0 = 0, su_asid = 0, su_flags = fl\<rparr>"

definition example_smmu_ops :: "smmu_op list" where
  "example_smmu_ops = [SetContext (example_smmu_env 0xA00) (example_request 11 0),
     PtAlloc (example_smmu_env 0xB00) (example_request 0 0), PerProcessSet (example_request 0 0xB00)]"

lemma example_disciplined:
  "disciplined_run example_world example_smmu_ops example_smmu"
proof -
  let ?s1 = "snd (the (kiumd_set_pgtble_ttbr0_context (example_smmu_env 0xA00) 0x600 example_smmu))"
  have "kiumd_set_pgtble_ttbr0_context (example_smmu_env 0xA00) 0x600 example_smmu = Some (0, ?s1)"
    "pgtable ?s1 = Some 0x900" "domains ?s1 = domains example_smmu"
    "pgtbls ?s1 = [0x900 \<mapsto> example_cfg, 0xA00 \<mapsto> example_cfg\<lparr>kgsl_tlb_ops := True\<rparr>]"
    by (simp_all add: kiumd_set_pgtble_ttbr0_context_def example_smmu_def example_smmu_env_def
        alloc_io_pgtable_ops_def Let_def kiumd_smmuv2_set_ttbr0_cfg_def epd_test bit_simps
        example_domain_cfg_def example_cfg_def)
  then obtain s1 where
    set: "kiumd_set_pgtble_ttbr0_context (example_smmu_env 0xA00) 0x600 example_smmu = Some (0, s1)"
    and s1: "pgtable s1 = Some 0x900" "domains s1 = domains example_smmu"
    "pgtbls s1 = [0x900 \<mapsto> example_cfg, 0xA00 \<mapsto> example_cfg\<lparr>kgsl_tlb_ops := True\<rparr>]"
    by blast
  have step1: "smmu_step example_world (SetContext (example_smmu_env 0xA00) (example_request 11 0))
      example_smmu = Some s1"
    by (simp add: kiumd_set_pgtbl_context_def get_vfio_device_eq example_request_def
        vfio_device_of_def example_world_def kiumd_iommu_get_dma_domain_def set)
  have dom1: "pgtbl_ops (domains s1 0x600) = 0x900" by (simp add: s1 example_smmu_def)
  have "disciplined_run example_world [PtAlloc (example_smmu_env 0xB00) (example_request 0 0),
      PerProcessSet (example_request 0 0xB00)] s1"
    using s1 dom1
    by (simp add: fresh_table_def example_smmu_env_def example_request_def kiumd_perprocess_pt_alloc_def
        vfio_file_device_def do_fget_def example_world_def kiumd_iommu_get_dma_domain_def Let_def
        alloc_io_pgtable_ops_def split: option.splits)
  with step1 show ?thesis
    unfolding example_smmu_ops_def
    by (simp del: smmu_step.simps)
      (simp add: fresh_table_def example_smmu_env_def example_request_def example_smmu_def)
qed

theorem page_tables_stay_valid_witness:
  "\<exists>s'. smmu_run example_world example_smmu_ops example_smmu = Some s' \<and> tables_alive s'"
  by (rule page_tables_stay_valid [OF _ example_vfio_world example_disciplined])
    (simp add: tables_alive_def example_smmu_def)

theorem set_ttbr0_correct_witness:
  "case kiumd_smmuv2_set_ttbr0_cfg 0x600 example_cfg example_smmu of (ret, s') \<Rightarrow>
     ret = 0 \<and> \<not> bit (cb_tcr0 (bank 0x600 s')) 7
     \<and> cb_ttbr0 (bank 0x600 s') = s1_ttbr example_cfg OR push_bit 48 5
     \<and> cbs (smmus s' 0x800) 2 = cbs (smmus example_smmu 0x800) 2
     \<and> last (reg_writes s') = WriteSctlr 0x800 1 SCTLR_value"
proof -
  have b: "bank_of_domain 0x600 example_smmu" by (simp add: bank_of_domain_def bank_def example_smmu_def)
  have e: "bit (cb_tcr0 (bank 0x600 example_smmu)) 7"
    by (simp add: bank_def example_smmu_def bit_simps)
  have d: "dom_smmu (domains example_smmu 0x600) = 0x800" "cbndx (dom_cfg (domains example_smmu 0x600)) = 1"
    "asid (dom_cfg (domains example_smmu 0x600)) = 5"
    by (simp_all add: example_smmu_def example_domain_cfg_def)
  show ?thesis
    using set_ttbr0_correct [OF b, of example_cfg] e by (auto simp: d Let_def)
qed

definition configured_smmu :: smmu_st where
  "configured_smmu = snd (kiumd_smmuv2_set_ttbr0_cfg 0x600 example_cfg example_smmu)"

theorem translation_config_locked_witness:
  "\<exists>s2. smmu_run example_world [PerProcessSet (example_request 0 0xB00)] configured_smmu = Some s2
     \<and> cbs (smmus s2 (dom_smmu (domains configured_smmu 0x600)))
           (cbndx (dom_cfg (domains configured_smmu 0x600))) = bank 0x600 configured_smmu
     \<and> file_refs s2 = file_refs configured_smmu"
proof -
  have set: "kiumd_smmuv2_set_ttbr0_cfg 0x600 example_cfg example_smmu = (0, configured_smmu)"
    by (simp add: configured_smmu_def kiumd_smmuv2_set_ttbr0_cfg_def Let_def epd_test example_smmu_def
        bit_simps)
  obtain s2 where "smmu_run example_world [PerProcessSet (example_request 0 0xB00)] configured_smmu = Some s2"
    by (auto simp: kiumd_perprocess_pgtble_set_def example_request_def vfio_file_device_def do_fget_def
        Let_def example_world_def kiumd_iommu_get_dma_domain_def)
  with translation_config_locked [OF disjI1 [OF set] this] show ?thesis by blast
qed

section \<open>What the driver does not check\<close>

text \<open>Any pointer user space passes becomes the domain's page table, and freeing one that is not
  a page table crashes.\<close>

lemma perprocess_set_unchecked:
  "map_option (\<lambda>(r, s). (r, pgtbl_ops (domains s 0x600)))
     (kiumd_perprocess_pgtble_set example_world (example_request 0 p) example_smmu) = Some (0, p)"
  by (simp add: kiumd_perprocess_pgtble_set_def example_request_def vfio_file_device_def do_fget_def
      Let_def example_world_def kiumd_iommu_get_dma_domain_def)

lemma perprocess_free_unchecked:
  assumes "p \<noteq> 0" "p \<noteq> 0x900"
  shows "kiumd_perprocess_pgtble_free example_world (example_request 0 p) example_smmu = None"
  using assms by (simp add: kiumd_perprocess_pgtble_free_def example_request_def vfio_file_device_def
      do_fget_def Let_def example_world_def free_io_pgtable_ops_def example_smmu_def)

text \<open>Allocating a table before any context was set reads through the NULL \<open>pgtable\<close>.\<close>

lemma pt_alloc_before_context:
  "kiumd_perprocess_pt_alloc example_world (example_smmu_env 0xB00) (example_request 0 0) example_smmu
     = None"
  by (simp add: kiumd_perprocess_pt_alloc_def example_request_def vfio_file_device_def do_fget_def
      Let_def example_world_def kiumd_iommu_get_dma_domain_def example_smmu_def)

text \<open>When TTBR1 is already enabled the request fails, but it leaves the domain pointing to the
  page table it freed.\<close>

lemma ttbr1_failure_dangles:
  assumes "pgtbls s (pgtbl_ops (domains s sd)) = Some cfg" "pgtbl_ops (domains s sd) \<noteq> 0"
    and "\<not> bit (cb_tcr0 (bank sd s)) 23" "e_alloc_ops e = (\<lambda>cfg. (q, cfg))" "q \<noteq> 0"
  shows "\<exists>s'. kiumd_set_pgtble_ttbr1_context e sd s = Some (- EINVAL, s')
     \<and> pgtbl_ops (domains s' sd) = q \<and> pgtbls s' q = None"
  using assms
  by (simp add: kiumd_set_pgtble_ttbr1_context_def Let_def alloc_io_pgtable_ops_def epd_test bank_def
      kiumd_smmuv2_set_ttbr1_cfg_def free_io_pgtable_ops_def)

end
