(* ===== verification/KiumdFault.thy ===== *)
theory KiumdFault
  imports SmmuRegs
begin

text \<open>
  Model of the SMMU fault reporting of \<open>drivers/kiumd.c\<close>: the list of registered devices, the
  handler that records the first fault of a device, the sysfs file that reads and clears it, and
  the requests that register and deregister a device. A kernel object is a number; the state maps
  the live ones to their names, so that following a freed object is a crash (\<open>None\<close>). The IOMMU
  keeps, per domain, the object whose name the handler gets as its token.
\<close>

section \<open>Data\<close>

record smmu_device_obj =
  kobj :: nat
  smmu_fsr :: u32
  smmu_iova :: u32
  flag :: bool

record fault_st = smmu_st +
  smmu_list :: "smmu_device_obj list"
  kobj_names :: "nat \<Rightarrow> string option"
  next_kobj :: nat
  device_obj :: "nat option"
  handler_token :: "ptr \<Rightarrow> nat option"
  notified :: "nat list"

text \<open>The answers of the kernel to one registration.\<close>

record reg_env =
  r_kobject_create :: bool
  r_sysfs_create_file :: int
  r_kzalloc :: bool

section \<open>Operations\<close>

text \<open>The walks over the list compare the name of each entry's object; a freed object crashes.\<close>

fun show_walk :: "(nat \<Rightarrow> string option) \<Rightarrow> string \<Rightarrow> smmu_device_obj list
    \<Rightarrow> (u32 \<times> u32 \<times> smmu_device_obj list) option" where
  "show_walk names nm [] = Some (0, 0, [])"
| "show_walk names nm (temp # rest) =
     (case names (kobj temp) of
        None \<Rightarrow> None
      | Some n \<Rightarrow>
          if n = nm
          then Some (smmu_fsr temp, smmu_iova temp,
                     temp\<lparr>smmu_fsr := 0, smmu_iova := 0, flag := False\<rparr> # rest)
          else map_option (\<lambda>(f, i, rest'). (f, i, temp # rest')) (show_walk names nm rest))"

text \<open>\<open>fsr_iova_show\<close> returns the two numbers that it prints in hexadecimal.\<close>

definition fsr_iova_show ::
  "string \<Rightarrow> 'a fault_st_scheme \<Rightarrow> ((u32 \<times> u32) \<times> 'a fault_st_scheme) option" where
  "fsr_iova_show nm s =
     map_option (\<lambda>(f, i, l). ((f, i), s\<lparr>smmu_list := l\<rparr>)) (show_walk (kobj_names s) nm (smmu_list s))"

fun fault_walk :: "(nat \<Rightarrow> string option) \<Rightarrow> string option \<Rightarrow> u32 \<Rightarrow> u64 \<Rightarrow> smmu_device_obj list
    \<Rightarrow> (nat option \<times> smmu_device_obj list) option" where
  "fault_walk names tok fsr iova [] = Some (None, [])"
| "fault_walk names tok fsr iova (temp # rest) =
     (case (names (kobj temp), tok) of
        (Some n, Some nm) \<Rightarrow>
          if n = nm \<and> \<not> flag temp
          then Some (Some (kobj temp),
                     temp\<lparr>smmu_fsr := fsr, smmu_iova := ucast iova, flag := True\<rparr> # rest)
          else map_option (\<lambda>(k, rest'). (k, temp # rest')) (fault_walk names tok fsr iova rest)
      | _ \<Rightarrow> None)"

text \<open>\<open>pgtbl_ok\<close>: the SMMU domain has page table operations; \<open>fsr\<close> is the register read.\<close>

definition kiumd_smmu_fault_handler ::
  "bool \<Rightarrow> u32 \<Rightarrow> nat \<Rightarrow> u64 \<Rightarrow> 'a fault_st_scheme \<Rightarrow> (int \<times> 'a fault_st_scheme) option" where
  "kiumd_smmu_fault_handler pgtbl_ok fsr token iova s =
     (if \<not> pgtbl_ok then Some (- EINVAL, s)
      else
        map_option (\<lambda>(k, l). (0, s\<lparr>smmu_list := l,
             notified := (case k of None \<Rightarrow> notified s | Some k \<Rightarrow> notified s @ [k])\<rparr>))
          (fault_walk (kobj_names s) (kobj_names s token) fsr iova (smmu_list s)))"

text \<open>A fault of a domain calls the handler that was set for it, if any.\<close>

definition domain_fault ::
  "ptr \<Rightarrow> bool \<Rightarrow> u32 \<Rightarrow> u64 \<Rightarrow> 'a fault_st_scheme \<Rightarrow> 'a fault_st_scheme option" where
  "domain_fault dm pgtbl_ok fsr iova s =
     (case handler_token s dm of
        None \<Rightarrow> Some s
      | Some token \<Rightarrow> map_option snd (kiumd_smmu_fault_handler pgtbl_ok fsr token iova s))"

fun remove_walk :: "(nat \<Rightarrow> string option) \<Rightarrow> string \<Rightarrow> smmu_device_obj list
    \<Rightarrow> (nat option \<times> smmu_device_obj list) option" where
  "remove_walk names nm [] = Some (None, [])"
| "remove_walk names nm (temp # rest) =
     (case names (kobj temp) of
        None \<Rightarrow> None
      | Some n \<Rightarrow>
          if n = nm then Some (Some (kobj temp), rest)
          else map_option (\<lambda>(k, rest'). (k, temp # rest')) (remove_walk names nm rest))"

text \<open>When the device is not in the list the code prints a format with a string directive and no
  argument, which is undefined: \<open>None\<close>, as a crash. A handle without a device is dereferenced, or
  its list is empty and it is not found.\<close>

definition kiumd_smmu_fault_handler_deregister ::
  "world \<Rightarrow> (ptr \<Rightarrow> string) \<Rightarrow> kiumd_user option \<Rightarrow> 'a fault_st_scheme
     \<Rightarrow> (int \<times> 'a fault_st_scheme) option" where
  "kiumd_smmu_fault_handler_deregister w dev_name arg s =
     (case arg of
        None \<Rightarrow> Some (- EFAULT, s)
      | Some u \<Rightarrow>
          (case kiumd_get_vfio_device w (vfio_fd u) s of
             (vfio_dev, s) \<Rightarrow>
               if vfio_dev = 0 then Some (- ENOTTY, s)
               else if w_dev w vfio_dev = 0 then None
               else case remove_walk (kobj_names s) (dev_name (w_dev w vfio_dev)) (smmu_list s) of
                 None \<Rightarrow> None
               | Some (None, _) \<Rightarrow> None
               | Some (Some k, l) \<Rightarrow>
                   Some (0, s\<lparr>smmu_list := l, kobj_names := (kobj_names s)(k := None)\<rparr>)))"

definition kiumd_smmu_fault_handler_register ::
  "world \<Rightarrow> (ptr \<Rightarrow> string) \<Rightarrow> reg_env \<Rightarrow> kiumd_user option \<Rightarrow> 'a fault_st_scheme
     \<Rightarrow> (int \<times> 'a fault_st_scheme) option" where
  "kiumd_smmu_fault_handler_register w dev_name e arg s =
     (case arg of
        None \<Rightarrow> Some (- EFAULT, s)
      | Some u \<Rightarrow>
          (case kiumd_get_vfio_device w (vfio_fd u) s of
             (vfio_dev, s) \<Rightarrow>
               if vfio_dev = 0 then Some (- ENOTTY, s)
               else case kiumd_iommu_get_dma_domain w (w_dev w vfio_dev) of
                 None \<Rightarrow> None
               | Some dm \<Rightarrow>
                   if dm = 0 then Some (- EINVAL, s)
                   else if \<not> r_kobject_create e then Some (- ENOMEM, s\<lparr>device_obj := None\<rparr>)
                   else
                     let k = next_kobj s;
                         s = s\<lparr>kobj_names := (kobj_names s)(k \<mapsto> dev_name (w_dev w vfio_dev)),
                               next_kobj := Suc k, device_obj := Some k\<rparr> in
                     if r_sysfs_create_file e \<noteq> 0 then Some (r_sysfs_create_file e, s)
                     else if \<not> r_kzalloc e then Some (- ENOMEM, s)
                     else Some (0, s\<lparr>smmu_list := smmu_list s @
                              [\<lparr>kobj = k, smmu_fsr = 0, smmu_iova = 0, flag = False\<rparr>],
                            handler_token := (handler_token s)(dm \<mapsto> k)\<rparr>)))"

section \<open>Runs\<close>

datatype fault_op =
  Register reg_env "kiumd_user option"
| Deregister "kiumd_user option"
| Fault ptr bool u32 u64
| Show string

fun fault_step :: "world \<Rightarrow> (ptr \<Rightarrow> string) \<Rightarrow> fault_op \<Rightarrow> 'a fault_st_scheme \<Rightarrow> 'a fault_st_scheme option"
  where
  "fault_step w dn (Register e arg) s = map_option snd (kiumd_smmu_fault_handler_register w dn e arg s)"
| "fault_step w dn (Deregister arg) s = map_option snd (kiumd_smmu_fault_handler_deregister w dn arg s)"
| "fault_step w dn (Fault dm ok fsr iova) s = domain_fault dm ok fsr iova s"
| "fault_step w dn (Show nm) s = map_option snd (fsr_iova_show nm s)"

fun fault_run :: "world \<Rightarrow> (ptr \<Rightarrow> string) \<Rightarrow> fault_op list \<Rightarrow> 'a fault_st_scheme \<Rightarrow> 'a fault_st_scheme option"
  where
  "fault_run w dn [] s = Some s"
| "fault_run w dn (x # ops) s =
     (case fault_step w dn x s of None \<Rightarrow> None | Some s' \<Rightarrow> fault_run w dn ops s')"

text \<open>Sysfs refuses a second object of the same name under one parent.\<close>

fun sysfs_ok :: "world \<Rightarrow> (ptr \<Rightarrow> string) \<Rightarrow> fault_op \<Rightarrow> 'a fault_st_scheme \<Rightarrow> bool" where
  "sysfs_ok w dn (Register e arg) s \<longleftrightarrow> (\<forall>u. arg = Some u \<and> r_kobject_create e \<longrightarrow>
     Some (dn (w_dev w (vfio_device_of w (vfio_fd u)))) \<notin> range (kobj_names s))"
| "sysfs_ok w dn x s \<longleftrightarrow> True"

section \<open>The invariant\<close>

definition fault_inv :: "'a fault_st_scheme \<Rightarrow> bool" where
  "fault_inv s \<longleftrightarrow>
     (\<forall>x \<in> set (smmu_list s). kobj_names s (kobj x) \<noteq> None)
     \<and> distinct (map kobj (smmu_list s))
     \<and> (\<forall>k. next_kobj s \<le> k \<longrightarrow> kobj_names s k = None)
     \<and> (\<forall>k l n. kobj_names s k = Some n \<and> kobj_names s l = Some n \<longrightarrow> k = l)
     \<and> (\<forall>x \<in> set (smmu_list s). \<not> flag x \<longrightarrow> smmu_fsr x = 0 \<and> smmu_iova x = 0)"


section \<open>The mailbox of a device\<close>

text \<open>
  The abstract view: a device is not registered (\<open>None\<close>), registered with no fault recorded
  (\<open>Some None\<close>), or holds the registers of one fault.
\<close>

fun mbox :: "(nat \<Rightarrow> string option) \<Rightarrow> smmu_device_obj list \<Rightarrow> string \<Rightarrow> (u32 \<times> u32) option option" where
  "mbox names [] nm = None"
| "mbox names (x # l) nm =
     (if names (kobj x) = Some nm
      then Some (if flag x then Some (smmu_fsr x, smmu_iova x) else None)
      else mbox names l nm)"

definition mailbox :: "'a fault_st_scheme \<Rightarrow> string \<Rightarrow> (u32 \<times> u32) option option" where
  "mailbox s = mbox (kobj_names s) (smmu_list s)"

definition latch :: "u32 \<times> u32 \<Rightarrow> (u32 \<times> u32) option \<Rightarrow> (u32 \<times> u32) option" where
  "latch v old = (case old of None \<Rightarrow> Some v | Some w \<Rightarrow> Some w)"

definition content :: "(u32 \<times> u32) option option \<Rightarrow> u32 \<times> u32" where
  "content m = (case m of Some (Some v) \<Rightarrow> v | _ \<Rightarrow> (0, 0))"

lemma listed_distinct:
  assumes "fault_inv s"
  shows "distinct (map (kobj_names s \<circ> kobj) (smmu_list s))"
proof -
  have "inj_on (kobj_names s) (kobj ` set (smmu_list s))"
    using assms unfolding fault_inv_def inj_on_def by (metis (no_types, opaque_lifting) imageE not_None_eq)
  moreover have "distinct (map kobj (smmu_list s))" using assms by (simp add: fault_inv_def)
  ultimately have "distinct (map (kobj_names s) (map kobj (smmu_list s)))"
    by (subst distinct_map) (simp add: distinct_map)
  then show ?thesis by simp
qed

lemma mbox_absent: "Some nm \<notin> set (map (names \<circ> kobj) l) \<Longrightarrow> mbox names l nm = None"
  by (induction l) auto

lemma show_walk_spec:
  assumes "\<forall>x \<in> set l. names (kobj x) \<noteq> None" "distinct (map (names \<circ> kobj) l)"
    and "\<forall>x \<in> set l. \<not> flag x \<longrightarrow> smmu_fsr x = 0 \<and> smmu_iova x = 0"
  shows "\<exists>l'. show_walk names nm l = Some (fst (content (mbox names l nm)), snd (content (mbox names l nm)), l')
     \<and> mbox names l' = (mbox names l)(nm := map_option (\<lambda>_. None) (mbox names l nm))
     \<and> map kobj l' = map kobj l
     \<and> (\<forall>x \<in> set l'. \<not> flag x \<longrightarrow> smmu_fsr x = 0 \<and> smmu_iova x = 0)"
  using assms
proof (induction names nm l rule: show_walk.induct)
  case (2 names nm x l)
  then obtain n where n: "names (kobj x) = Some n" by auto
  show ?case
  proof (cases "n = nm")
    case True
    with n 2(3) have "mbox names l nm = None" by (intro mbox_absent) auto
    with True n 2(4) show ?thesis by (auto simp: fun_eq_iff content_def)
  next
    case False
    have prems: "\<forall>x \<in> set l. names (kobj x) \<noteq> None" "distinct (map (names \<circ> kobj) l)"
      "\<forall>x \<in> set l. \<not> flag x \<longrightarrow> smmu_fsr x = 0 \<and> smmu_iova x = 0"
      using 2(2-4) by (auto simp: comp_def)
    from 2(1) [OF n False prems] obtain l' where l':
      "show_walk names nm l = Some (fst (content (mbox names l nm)), snd (content (mbox names l nm)), l')"
      "mbox names l' = (mbox names l)(nm := map_option (\<lambda>_. None) (mbox names l nm))"
      "map kobj l' = map kobj l" "\<forall>x \<in> set l'. \<not> flag x \<longrightarrow> smmu_fsr x = 0 \<and> smmu_iova x = 0"
      by blast
    with False n 2(4) show ?thesis
      by (intro exI [of _ "x # l'"]) (simp add: fun_eq_iff)
  qed
qed (auto simp: content_def fun_eq_iff)

lemma fault_walk_full:
  "\<forall>x \<in> set l. names (kobj x) \<noteq> None \<Longrightarrow> Some nm \<notin> set (map (names \<circ> kobj) l) \<Longrightarrow>
     fault_walk names (Some nm) fsr iova l = Some (None, l)"
  by (induction l) auto

lemma fault_walk_spec:
  assumes "\<forall>x \<in> set l. names (kobj x) \<noteq> None" "distinct (map (names \<circ> kobj) l)"
    and "\<forall>x \<in> set l. \<not> flag x \<longrightarrow> smmu_fsr x = 0 \<and> smmu_iova x = 0"
  shows "\<exists>k l'. fault_walk names (Some nm) fsr iova l = Some (k, l')
     \<and> mbox names l' = (mbox names l)(nm := map_option (latch (fsr, ucast iova)) (mbox names l nm))
     \<and> map kobj l' = map kobj l
     \<and> (\<forall>x \<in> set l'. \<not> flag x \<longrightarrow> smmu_fsr x = 0 \<and> smmu_iova x = 0)"
  using assms
proof (induction l)
  case (Cons x l)
  then obtain n where n: "names (kobj x) = Some n" by auto
  show ?case
  proof (cases "n = nm")
    case True
    with n Cons.prems have none: "mbox names l nm = None"
      "fault_walk names (Some nm) fsr iova l = Some (None, l)"
      by (auto intro!: mbox_absent fault_walk_full)
    with True n Cons.prems(3) show ?thesis by (auto simp: fun_eq_iff latch_def)
  next
    case False
    have prems: "\<forall>x \<in> set l. names (kobj x) \<noteq> None" "distinct (map (names \<circ> kobj) l)"
      "\<forall>x \<in> set l. \<not> flag x \<longrightarrow> smmu_fsr x = 0 \<and> smmu_iova x = 0"
      using Cons.prems by (auto simp: comp_def)
    from Cons.IH [OF prems] obtain k l' where l':
      "fault_walk names (Some nm) fsr iova l = Some (k, l')"
      "mbox names l' = (mbox names l)(nm := map_option (latch (fsr, ucast iova)) (mbox names l nm))"
      "map kobj l' = map kobj l" "\<forall>x \<in> set l'. \<not> flag x \<longrightarrow> smmu_fsr x = 0 \<and> smmu_iova x = 0"
      by blast
    with False n Cons.prems(3) show ?thesis
      by (intro exI [of _ k] exI [of _ "x # l'"]) (simp add: fun_eq_iff)
  qed
qed (auto simp: fun_eq_iff)


section \<open>One step\<close>

lemma fault_invD:
  assumes "fault_inv s"
  shows "\<forall>x \<in> set (smmu_list s). kobj_names s (kobj x) \<noteq> None"
    and "distinct (map (kobj_names s \<circ> kobj) (smmu_list s))"
    and "\<forall>x \<in> set (smmu_list s). \<not> flag x \<longrightarrow> smmu_fsr x = 0 \<and> smmu_iova x = 0"
  using assms listed_distinct [OF assms] by (simp_all add: fault_inv_def)

text \<open>Changing recorded faults, but not the objects of the list, keeps the invariant.\<close>

lemma fault_inv_list:
  assumes "fault_inv s" "map kobj l = map kobj (smmu_list s)"
    and "\<forall>x \<in> set l. \<not> flag x \<longrightarrow> smmu_fsr x = 0 \<and> smmu_iova x = 0"
  shows "fault_inv (s\<lparr>smmu_list := l\<rparr>)" "fault_inv (s\<lparr>smmu_list := l, notified := ns\<rparr>)"
proof -
  have "kobj ` set l = kobj ` set (smmu_list s)" using assms(2) by (metis list.set_map)
  then have "\<forall>x \<in> set l. kobj_names s (kobj x) \<noteq> None"
    using fault_invD(1) [OF assms(1)] by (metis imageE imageI)
  with assms show "fault_inv (s\<lparr>smmu_list := l\<rparr>)" "fault_inv (s\<lparr>smmu_list := l, notified := ns\<rparr>)"
    by (simp_all add: fault_inv_def)
qed

lemma show_step:
  assumes "fault_inv s"
  shows "\<exists>s'. fsr_iova_show nm s = Some (content (mailbox s nm), s') \<and> fault_inv s'
     \<and> mailbox s' = (mailbox s)(nm := map_option (\<lambda>_. None) (mailbox s nm))"
proof -
  from show_walk_spec [OF fault_invD [OF assms], of nm] obtain l' where
    l': "show_walk (kobj_names s) nm (smmu_list s)
           = Some (fst (content (mailbox s nm)), snd (content (mailbox s nm)), l')"
      "mbox (kobj_names s) l' = (mailbox s)(nm := map_option (\<lambda>_. None) (mailbox s nm))"
      "map kobj l' = map kobj (smmu_list s)"
      "\<forall>x \<in> set l'. \<not> flag x \<longrightarrow> smmu_fsr x = 0 \<and> smmu_iova x = 0"
    unfolding mailbox_def by blast
  with fault_inv_list(1) [OF assms l'(3,4)] show ?thesis
    by (simp add: fsr_iova_show_def mailbox_def)
qed

lemma fault_handler_step:
  assumes "fault_inv s" "kobj_names s k = Some nm"
  shows "\<exists>s'. kiumd_smmu_fault_handler True fsr k iova s = Some (0, s') \<and> fault_inv s'
     \<and> mailbox s' = (mailbox s)(nm := map_option (latch (fsr, ucast iova)) (mailbox s nm))"
proof -
  from fault_walk_spec [OF fault_invD [OF assms(1)], of nm fsr iova] obtain k' l' where
    l': "fault_walk (kobj_names s) (Some nm) fsr iova (smmu_list s) = Some (k', l')"
      "mbox (kobj_names s) l' = (mailbox s)(nm := map_option (latch (fsr, ucast iova)) (mailbox s nm))"
      "map kobj l' = map kobj (smmu_list s)"
      "\<forall>x \<in> set l'. \<not> flag x \<longrightarrow> smmu_fsr x = 0 \<and> smmu_iova x = 0"
    unfolding mailbox_def by blast
  with fault_inv_list(2) [OF assms(1) l'(3,4)] assms(2) show ?thesis
    by (simp add: kiumd_smmu_fault_handler_def mailbox_def)
qed




section \<open>Properties\<close>

text \<open>C7: The fault report is a mailbox that keeps the first fault until it is read. In every
  reachable registry, reading a device's sysfs file never crashes, returns the fault status and
  the low 32 bits of the address of the recorded fault (zeros when there is none) and empties
  that device's mailbox; a fault delivered with a live token fills the mailbox of the device of
  that name if it is registered and empty, and changes nothing otherwise; other devices are
  never affected.\<close>

theorem fault_mailbox_refinement:
  assumes "fault_inv s"
  shows "(\<exists>s'. fsr_iova_show nm s = Some (content (mailbox s nm), s') \<and> fault_inv s'
            \<and> mailbox s' = (mailbox s)(nm := map_option (\<lambda>_. None) (mailbox s nm)))
     \<and> (kobj_names s k = Some nm \<longrightarrow>
          (\<exists>s'. kiumd_smmu_fault_handler True fsr k iova s = Some (0, s') \<and> fault_inv s'
            \<and> mailbox s' = (mailbox s)(nm := map_option (latch (fsr, ucast iova)) (mailbox s nm))))"
  using show_step [OF assms] fault_handler_step [OF assms] by blast


definition example_registry :: fault_st where
  "example_registry = \<lparr>kiumd_xa = [], kiumd_xa_mutex = False, dmabuf_refs = (\<lambda>_. 0), handle_objs = 0,
     file_refs = (\<lambda>_. 0),
     cookies = (\<lambda>_. \<lparr>ctype = IOMMU_DMA_IOVA_COOKIE, msi_iova = 0, cookie_mutex = False\<rparr>),
     domains = domains example_smmu, smmus = smmus example_smmu, pgtbls = pgtbls example_smmu,
     pgtable = None, reg_writes = [],
     smmu_list = [\<lparr>kobj = 0, smmu_fsr = 0, smmu_iova = 0, flag = False\<rparr>,
                  \<lparr>kobj = 1, smmu_fsr = 2, smmu_iova = 0x1000, flag = True\<rparr>],
     kobj_names = [0 \<mapsto> ''gpu'', 1 \<mapsto> ''ipa''], next_kobj = 2, device_obj = Some 1,
     handler_token = [0x600 \<mapsto> 0, 0x680 \<mapsto> 1], notified = [1]\<rparr>"

lemma example_registry_inv: "fault_inv example_registry"
  by (auto simp: fault_inv_def example_registry_def split: if_splits)

theorem fault_mailbox_refinement_witness:
  "(\<exists>s'. fsr_iova_show ''gpu'' example_registry
        = Some (content (mailbox example_registry ''gpu''), s') \<and> fault_inv s'
      \<and> mailbox s' = (mailbox example_registry)
          (''gpu'' := map_option (\<lambda>_. None) (mailbox example_registry ''gpu'')))
   \<and> (\<exists>s'. kiumd_smmu_fault_handler True 0x402 0 0xFFFF00001000 example_registry = Some (0, s')
        \<and> fault_inv s' \<and> mailbox s' = (mailbox example_registry)
          (''gpu'' := map_option (latch (0x402, ucast (0xFFFF00001000 :: u64)))
             (mailbox example_registry ''gpu'')))"
proof -
  have "kobj_names example_registry 0 = Some ''gpu''" by (simp add: example_registry_def)
  with fault_mailbox_refinement [OF example_registry_inv, where nm = "''gpu''" and k = 0 and fsr = "0x402"
      and iova = "0xFFFF00001000"]
  show ?thesis by blast
qed


lemma unregistered_deregister:
  "fault_step example_world (\<lambda>_. ''npu'') (Deregister (Some (user0\<lparr>vfio_fd := 3\<rparr>))) example_registry = None"
  by (simp add: kiumd_smmu_fault_handler_deregister_def get_vfio_device_eq vfio_device_of_def
      example_world_def example_registry_def user0_def)

section \<open>What a deregistration and a failed registration leave behind\<close>

text \<open>Deregistering does not reset the domain's fault handler: the next fault of that domain reads
  the name of the freed object.\<close>

lemma fault_after_deregister:
  "fault_run example_world (\<lambda>_. ''gpu'')
     [Deregister (Some (user0\<lparr>vfio_fd := 3\<rparr>)), Fault 0x600 True 2 0x2000] example_registry = None"
  by (simp add: kiumd_smmu_fault_handler_deregister_def get_vfio_device_eq vfio_device_of_def
      example_world_def example_registry_def user0_def domain_fault_def
      kiumd_smmu_fault_handler_def)

text \<open>A registration that fails after creating its object never releases it, so the name stays
  taken and, as sysfs refuses duplicates, the device cannot be registered any more.\<close>

lemma failed_register_leaks:
  assumes "w_dev w (vfio_device_of w (vfio_fd u)) \<noteq> 0" "vfio_device_of w (vfio_fd u) \<noteq> 0"
    and "w_iommu_group w (w_dev w (vfio_device_of w (vfio_fd u))) \<noteq> 0"
    and "w_default_domain w (w_iommu_group w (w_dev w (vfio_device_of w (vfio_fd u)))) \<noteq> 0"
    and "r_kobject_create e" "r_sysfs_create_file e \<noteq> 0"
  shows "\<exists>s'. kiumd_smmu_fault_handler_register w dn e (Some u) s = Some (r_sysfs_create_file e, s')
     \<and> smmu_list s' = smmu_list s
     \<and> (\<forall>e'. sysfs_ok w dn (Register e' (Some u)) s' \<longrightarrow> \<not> r_kobject_create e')"
  using assms
  by (auto simp: kiumd_smmu_fault_handler_register_def get_vfio_device_eq Let_def
      kiumd_iommu_get_dma_domain_def image_iff)

end
