(* ===== verification/KiumdTable.thy ===== *)
theory KiumdTable
  imports KPrelude "HOL-Library.Multiset"
begin

text \<open>
  Model of the hash table \<open>smmu_table\<close> of a device context of \<open>drivers/kiumd.c\<close>, in which the map
  requests record their mappings under a numeric id and the unmap requests find them. A table
  gives the list of entries of each of the \<open>2^SMMU_MAPTABLE_SIZE\<close> buckets; an entry is a kernel
  object, told apart by \<open>sm_node\<close> even when ids repeat. The kernel's hash is a parameter. The
  locale \<open>id_table\<close> states what the requests rely on, and the client lemmas on lookups are proved
  from it once; the bucket table provides it for every hash into the table's range.
\<close>

section \<open>Data\<close>

definition SMMU_MAPTABLE_SIZE :: nat where "SMMU_MAPTABLE_SIZE = 10"

record kiumd_smmu_mmio_ctx =
  mc_dev :: ptr
  mc_iova :: u64
  mc_size :: u64

record smmu_map_data =
  sm_id :: int
  sgt_ptr :: ptr
  dmabuf_ptr :: ptr
  dmabufattach :: ptr
  dma_dir :: int
  sm_ptselect :: int
  sm_is_iova_zero :: int
  sm_vfio_dev :: ptr
  sm_context :: "kiumd_smmu_mmio_ctx option"
  sm_node :: nat

type_synonym smmu_table = "nat \<Rightarrow> smmu_map_data list"

definition empty_table :: smmu_table where
  "empty_table = (\<lambda>_. [])"

section \<open>Operations\<close>

definition hash_add :: "(int \<Rightarrow> nat) \<Rightarrow> smmu_map_data \<Rightarrow> smmu_table \<Rightarrow> smmu_table" where
  "hash_add hash x t = t(hash (sm_id x) := x # t (hash (sm_id x)))"

definition hash_del :: "nat \<Rightarrow> smmu_table \<Rightarrow> smmu_table" where
  "hash_del n t = (\<lambda>b. filter (\<lambda>x. sm_node x \<noteq> n) (t b))"

definition hash_find :: "(int \<Rightarrow> nat) \<Rightarrow> (smmu_map_data \<Rightarrow> bool) \<Rightarrow> int \<Rightarrow> smmu_table
    \<Rightarrow> smmu_map_data option" where
  "hash_find hash P i t = find (\<lambda>x. sm_id x = i \<and> P x) (t (hash i))"

definition hash_entries :: "smmu_table \<Rightarrow> smmu_map_data list" where
  "hash_entries t = concat (map t [0 ..< 2 ^ SMMU_MAPTABLE_SIZE])"

section \<open>The contract\<close>

lemma distinct_map_mset: "mset xs = mset ys \<Longrightarrow> distinct (map f xs) \<longleftrightarrow> distinct (map f ys)"
  by (metis mset_eq_imp_distinct_iff mset_map)

locale id_table =
  fixes good :: "'t \<Rightarrow> bool"
    and add :: "smmu_map_data \<Rightarrow> 't \<Rightarrow> 't"
    and del :: "nat \<Rightarrow> 't \<Rightarrow> 't"
    and lookup :: "(smmu_map_data \<Rightarrow> bool) \<Rightarrow> int \<Rightarrow> 't \<Rightarrow> smmu_map_data option"
    and entries :: "'t \<Rightarrow> smmu_map_data list"
  assumes good_add: "good t \<Longrightarrow> good (add x t)"
    and good_del: "good t \<Longrightarrow> good (del n t)"
    and entries_add: "mset (entries (add x t)) = add_mset x (mset (entries t))"
    and entries_del: "mset (entries (del n t)) = filter_mset (\<lambda>x. sm_node x \<noteq> n) (mset (entries t))"
    and lookup_sound: "good t \<Longrightarrow> lookup P i t = Some x \<Longrightarrow> x \<in> set (entries t) \<and> sm_id x = i \<and> P x"
    and lookup_complete: "good t \<Longrightarrow> x \<in> set (entries t) \<Longrightarrow> sm_id x = i \<Longrightarrow> P x \<Longrightarrow>
      lookup P i t \<noteq> None"
begin

definition unique_ids :: "'t \<Rightarrow> bool" where
  "unique_ids t \<longleftrightarrow> good t \<and> distinct (map sm_id (entries t)) \<and> distinct (map sm_node (entries t))"

lemma set_add [simp]: "set (entries (add x t)) = insert x (set (entries t))"
  using entries_add [of x t] by (metis set_mset_add_mset_insert set_mset_mset)

lemma set_del: "set (entries (del n t)) = {x \<in> set (entries t). sm_node x \<noteq> n}"
  using entries_del [of n t] by (metis set_mset_filter set_mset_mset)

lemma lookup_None: "good t \<Longrightarrow>
    lookup P i t = None \<longleftrightarrow> (\<forall>x \<in> set (entries t). sm_id x = i \<longrightarrow> \<not> P x)"
  using lookup_sound [of t P i] lookup_complete [of t _ i P]
  by (cases "lookup P i t") fastforce+

lemma lookup_unique:
  assumes "unique_ids t" "x \<in> set (entries t)" "P x"
  shows "lookup P (sm_id x) t = Some x"
proof -
  have good: "good t" using assms(1) by (simp add: unique_ids_def)
  with assms lookup_complete obtain y where y: "lookup P (sm_id x) t = Some y" by blast
  with lookup_sound [OF good y] assms have "y = x"
    unfolding unique_ids_def distinct_map by (metis inj_onD)
  with y show ?thesis by simp
qed

lemma unique_add:
  assumes "unique_ids t" "sm_id x \<notin> sm_id ` set (entries t)" "sm_node x \<notin> sm_node ` set (entries t)"
  shows "unique_ids (add x t)"
proof -
  have m: "mset (entries (add x t)) = mset (x # entries t)" by (simp add: entries_add)
  show ?thesis
    using assms distinct_map_mset [OF m, of sm_id] distinct_map_mset [OF m, of sm_node]
    by (simp add: unique_ids_def good_add)
qed

lemma unique_del:
  assumes "unique_ids t"
  shows "unique_ids (del n t)"
proof -
  have m: "mset (entries (del n t)) = mset (filter (\<lambda>x. sm_node x \<noteq> n) (entries t))"
    by (simp add: entries_del)
  show ?thesis
    using assms distinct_map_mset [OF m, of sm_id] distinct_map_mset [OF m, of sm_node]
    by (simp add: unique_ids_def good_del distinct_map_filter)
qed

lemma lookup_del:
  assumes "unique_ids t" "x \<in> set (entries t)"
  shows "lookup P (sm_id x) (del (sm_node x) t) = None"
proof -
  have "good (del (sm_node x) t)" using assms(1) by (simp add: unique_ids_def good_del)
  moreover have "sm_id y \<noteq> sm_id x" if "y \<in> set (entries t)" "sm_node y \<noteq> sm_node x" for y
    using assms that unfolding unique_ids_def distinct_map by (metis inj_onD)
  ultimately show ?thesis by (auto simp: lookup_None set_del)
qed

lemma del_add:
  assumes "sm_node x \<notin> sm_node ` set (entries t)"
  shows "mset (entries (del (sm_node x) (add x t))) = mset (entries t)"
proof -
  have "filter_mset (\<lambda>y. sm_node y \<noteq> sm_node x) (mset (entries t)) = mset (entries t)"
    using assms by (auto simp: filter_mset_eq_conv image_iff)
  then show ?thesis by (simp add: entries_del entries_add)
qed

end

section \<open>The bucket table\<close>

locale table_hash =
  fixes hash :: "int \<Rightarrow> nat"
  assumes hash_range: "hash i < 2 ^ SMMU_MAPTABLE_SIZE"

definition table_ok :: "(int \<Rightarrow> nat) \<Rightarrow> smmu_table \<Rightarrow> bool" where
  "table_ok hash t \<longleftrightarrow> (\<forall>b. \<forall>x \<in> set (t b). hash (sm_id x) = b)"

lemma table_ok_empty [simp]: "table_ok hash empty_table"
  by (simp add: table_ok_def empty_table_def)

lemma mset_concat_upd:
  "b \<in> set bs \<Longrightarrow> distinct bs \<Longrightarrow>
     mset (concat (map (t(b := x # t b)) bs)) = add_mset x (mset (concat (map t bs)))"
proof (induction bs)
  case (Cons c bs)
  show ?case
  proof (cases "b = c")
    case True
    with Cons.prems have "map (t(b := x # t b)) bs = map t bs" by auto
    with True show ?thesis by (simp del: fun_upd_apply map_eq_conv add: fun_upd_same)
  next
    case False
    with Cons show ?thesis by simp
  qed
qed simp

context table_hash
begin

lemma bucket_in_entries:
  assumes "table_ok hash t"
  shows "x \<in> set (hash_entries t) \<longleftrightarrow> x \<in> set (t (hash (sm_id x)))"
proof -
  have "x \<in> set (hash_entries t) \<longleftrightarrow> (\<exists>b < 2 ^ SMMU_MAPTABLE_SIZE. x \<in> set (t b))"
    by (auto simp: hash_entries_def)
  also have "\<dots> \<longleftrightarrow> x \<in> set (t (hash (sm_id x)))"
    using assms hash_range [of "sm_id x"] unfolding table_ok_def by metis
  finally show ?thesis .
qed

end

sublocale table_hash \<subseteq> buckets: id_table "table_ok hash" "hash_add hash" hash_del "hash_find hash" hash_entries
proof
  fix t x
  assume "table_ok hash t"
  then show "table_ok hash (hash_add hash x t)" by (auto simp: table_ok_def hash_add_def)
next
  fix t n
  assume "table_ok hash t"
  then show "table_ok hash (hash_del n t)" by (auto simp: table_ok_def hash_del_def)
next
  fix x t
  show "mset (hash_entries (hash_add hash x t)) = add_mset x (mset (hash_entries t))"
    unfolding hash_entries_def hash_add_def
    by (rule mset_concat_upd) (simp_all add: hash_range)
next
  fix n t
  show "mset (hash_entries (hash_del n t)) = filter_mset (\<lambda>x. sm_node x \<noteq> n) (mset (hash_entries t))"
    by (simp add: hash_entries_def hash_del_def filter_concat comp_def flip: mset_filter)
next
  fix t P i x
  assume "table_ok hash t" "hash_find hash P i t = Some x"
  then show "x \<in> set (hash_entries t) \<and> sm_id x = i \<and> P x"
    using bucket_in_entries [of t x] by (auto simp: hash_find_def find_Some_iff)
next
  fix t x i and P :: "smmu_map_data \<Rightarrow> bool"
  assume "table_ok hash t" "x \<in> set (hash_entries t)" "sm_id x = i" "P x"
  then show "hash_find hash P i t \<noteq> None"
    using bucket_in_entries [of t x] by (auto simp: hash_find_def find_None_iff)
qed

text \<open>A hash for the examples.\<close>

definition mod_hash :: "int \<Rightarrow> nat" where
  "mod_hash i = nat (i mod 1024)"

interpretation mod_table: table_hash mod_hash
  by unfold_locales (simp add: mod_hash_def SMMU_MAPTABLE_SIZE_def nat_less_iff)

end
