(* ===== verification/KiumdMap.thy ===== *)
theory KiumdMap
  imports KiumdFault KiumdTable
begin

text \<open>
  Model of the buffer mapping requests of \<open>drivers/kiumd.c\<close>: mapping and unmapping a dma-buf for a
  VFIO device and mapping and unmapping a device's registers. Each successful request enters an
  entry in the context's table. The ledger \<open>held\<close> counts, for every kind of resource, what the
  driver has acquired and not released: dma-buf references, attachments, mappings and allocated
  structures. A failing path of the code is a branch of the model that releases what the code
  releases there and nothing else.
\<close>

section \<open>Data\<close>

datatype resource =
  DmaBufRef ptr | Attachment ptr | AttachMap ptr ptr | SgMap ptr | IovaZeroMap ptr
| MmioMap ptr u64 | SmapObj | MmioObj | RegName | VmidList | PermList | VmPermList

record map_st = fault_st +
  ctx_id :: int
  smmu_table :: smmu_table
  next_node :: nat
  pt :: pt_maps
  held :: "resource \<Rightarrow> int"

text \<open>The answers of the kernel to one map request, and to one unmap request.\<close>

record map_env =
  m_kzalloc1 :: bool
  m_dma_buf_get :: ptr
  m_attach :: ptr
  m_priv :: ptr
  m_table :: ptr
  m_dma_map_sgtable :: int
  m_attach_dmabuf :: ptr
  m_map_attachment :: ptr
  m_kzalloc2 :: bool
  m_sg_dma_address :: u64
  m_copy_to_user :: bool

record unmap_env =
  u_priv :: ptr
  u_table :: ptr
  u_iommu_unmap :: u64

record mmio_env =
  x_kzalloc_smap :: bool
  x_kzalloc_ctx :: bool
  x_strndup_user :: bool
  x_is_platform :: bool
  x_resource :: "(u64 \<times> u64) option"
  x_dma_map_resource :: u64
  x_mapping_error :: int
  x_uninitialised :: int
  x_copy_to_user :: bool

abbreviation (input) DMA_BIDIRECTIONAL :: int where "DMA_BIDIRECTIONAL \<equiv> 0"
abbreviation (input) DMA_TO_DEVICE :: int where "DMA_TO_DEVICE \<equiv> 1"
abbreviation (input) DMA_NONE :: int where "DMA_NONE \<equiv> 3"
abbreviation (input) DMA_ATTR_PRIVILEGED :: int where "DMA_ATTR_PRIVILEGED \<equiv> 512"

section \<open>The ledger\<close>

definition acquire :: "resource \<Rightarrow> 'a map_st_scheme \<Rightarrow> 'a map_st_scheme" where
  "acquire r s = s\<lparr>held := (held s)(r := held s r + 1)\<rparr>"

definition release :: "resource \<Rightarrow> 'a map_st_scheme \<Rightarrow> 'a map_st_scheme" where
  "release r s = s\<lparr>held := (held s)(r := held s r - 1)\<rparr>"

section \<open>Mapping a buffer\<close>

text \<open>The cleanup labels of the map requests.\<close>

definition fail_fput :: "ptr \<Rightarrow> int \<Rightarrow> 'a map_st_scheme \<Rightarrow> (int \<times> kiumd_user option \<times> 'a map_st_scheme) option"
  where
  "fail_fput file ret s = Some (ret, None, fput file s)"

definition fail_put ::
  "ptr \<Rightarrow> ptr \<Rightarrow> int \<Rightarrow> 'a map_st_scheme \<Rightarrow> (int \<times> kiumd_user option \<times> 'a map_st_scheme) option" where
  "fail_put file p ret s = fail_fput file ret (release (DmaBufRef p) s)"

definition fail_detach ::
  "ptr \<Rightarrow> ptr \<Rightarrow> ptr \<Rightarrow> int \<Rightarrow> 'a map_st_scheme \<Rightarrow> (int \<times> kiumd_user option \<times> 'a map_st_scheme) option"
  where
  "fail_detach file p a ret s = fail_put file p ret (release (Attachment a) s)"

text \<open>The fixed address of a GPU page table; a negative result ends the request.\<close>

definition map_set_iova ::
  "world \<Rightarrow> zero_area \<Rightarrow> u64 \<Rightarrow> kiumd_user \<Rightarrow> ptr \<Rightarrow> 'a map_st_scheme \<Rightarrow> (int \<times> 'a map_st_scheme) option"
  where
  "map_set_iova w search sz u vfio_dev s =
     (if ptselect u = KGSL_GLOBAL_PT \<or> ptselect u = KGSL_PER_PROCESS_PT then
        (case get_map_offset search sz (ptselect u) (pt s) of
           None \<Rightarrow> None
         | Some (offset, m) \<Rightarrow>
             if offset < 0 then Some (offset, s\<lparr>pt := m\<rparr>)
             else set_map_iova w 0 (of_int offset) vfio_dev (ptselect u) (s\<lparr>pt := m\<rparr>))
      else Some (0, s))"

datatype map_exit = Fail_detach int | Fail_fput int | Return int | Mapped ptr

text \<open>The size that \<open>iommu_map_sg\<close> returns is unsigned, so its check for a negative value never
  fires and the mapping at address zero always counts as made.\<close>

definition map_sg ::
  "world \<Rightarrow> map_env \<Rightarrow> kiumd_user \<Rightarrow> ptr \<Rightarrow> ptr \<Rightarrow> 'a map_st_scheme \<Rightarrow> (map_exit \<times> 'a map_st_scheme) option"
  where
  "map_sg w e u vfio_dev a s =
     (if dma_attr u = DMA_ATTR_PRIVILEGED \<and> is_iova_zero u \<noteq> FIXED_IOVA_AT_ZERO then
        (if m_priv e = 0 then Some (Fail_detach (- EINVAL), s)
         else if m_table e = 0 then Some (Fail_detach (- EINVAL), s)
         else if m_dma_map_sgtable e \<noteq> 0 then Some (Fail_detach (m_dma_map_sgtable e), s)
         else Some (Mapped (m_table e), acquire (SgMap (m_table e)) s))
      else if IS_ERR_OR_NULL (m_attach_dmabuf e) then Some (Return (- EINVAL), s)
      else
        let sgt = m_map_attachment e in
        if IS_ERR_OR_NULL sgt
        then Some (Fail_detach (if sgt = 0 then - EINVAL else PTR_ERR sgt), s)
        else
          let s = acquire (AttachMap a sgt) s in
          if is_iova_zero u = FIXED_IOVA_AT_ZERO then
            (case kiumd_iommu_get_dma_domain w (w_dev w vfio_dev) of
               None \<Rightarrow> None
             | Some dm \<Rightarrow>
                 if dm = 0 then Some (Fail_fput (- EINVAL), s)
                 else Some (Mapped sgt, acquire (IovaZeroMap dm) s))
          else Some (Mapped sgt, s))"

definition map_entry :: "kiumd_user \<Rightarrow> ptr \<Rightarrow> ptr \<Rightarrow> ptr \<Rightarrow> ptr \<Rightarrow> int \<Rightarrow> 'a map_st_scheme \<Rightarrow> smmu_map_data" where
  "map_entry u vfio_dev p a sgt dir s =
     \<lparr>sm_id = ctx_id s, sgt_ptr = sgt, dmabuf_ptr = p, dmabufattach = a, dma_dir = dir,
      sm_ptselect = ptselect u, sm_is_iova_zero = is_iova_zero u, sm_vfio_dev = vfio_dev,
      sm_context = None, sm_node = next_node s\<rparr>"

definition add_entry :: "(int \<Rightarrow> nat) \<Rightarrow> smmu_map_data \<Rightarrow> 'a map_st_scheme \<Rightarrow> 'a map_st_scheme" where
  "add_entry hash x s = s\<lparr>ctx_id := wrap32 (ctx_id s + 1), next_node := Suc (next_node s),
     smmu_table := hash_add hash x (smmu_table s)\<rparr>"

definition map_record ::
  "(int \<Rightarrow> nat) \<Rightarrow> map_env \<Rightarrow> kiumd_user \<Rightarrow> ptr \<Rightarrow> ptr \<Rightarrow> ptr \<Rightarrow> ptr \<Rightarrow> ptr \<Rightarrow> int \<Rightarrow> 'a map_st_scheme
     \<Rightarrow> (int \<times> kiumd_user option \<times> 'a map_st_scheme) option" where
  "map_record hash e u file vfio_dev p a sgt dir s =
     (if \<not> m_kzalloc2 e then fail_fput file (- ENOMEM) s
      else
        let smap = map_entry u vfio_dev p a sgt dir s;
            s = add_entry hash smap (acquire SmapObj s);
            u = u\<lparr>uid := sm_id smap,
                  dma_addr := (if is_iova_zero u = FIXED_IOVA_AT_ZERO then 0 else m_sg_dma_address e)\<rparr> in
        if \<not> m_copy_to_user e
        then fail_detach file p a (- EFAULT) (release (AttachMap a sgt) s)
        else Some (0, Some u, fput file s))"

text \<open>The request from \<open>dma_buf_attach\<close> on, with the buffer \<open>p\<close> of the device found.\<close>

definition map_attached ::
  "world \<Rightarrow> (int \<Rightarrow> nat) \<Rightarrow> map_env \<Rightarrow> kiumd_user \<Rightarrow> ptr \<Rightarrow> ptr \<Rightarrow> ptr \<Rightarrow> 'a map_st_scheme
     \<Rightarrow> (int \<times> kiumd_user option \<times> 'a map_st_scheme) option" where
  "map_attached w hash e u file vfio_dev p s =
     (let a = m_attach e in
      if IS_ERR a then fail_put file p (PTR_ERR a) s
      else let s = acquire (Attachment a) s in
        if dma_direction u < DMA_BIDIRECTIONAL \<or> dma_direction u > DMA_NONE
        then fail_detach file p a (- EINVAL) s
        else
          let dir = (if dma_direction u = DMA_TO_DEVICE then dma_direction u else DMA_BIDIRECTIONAL) in
          (case map_sg w e u vfio_dev a s of
             None \<Rightarrow> None
           | Some (Fail_detach ret, s) \<Rightarrow> fail_detach file p a ret s
           | Some (Fail_fput ret, s) \<Rightarrow> fail_fput file ret s
           | Some (Return ret, s) \<Rightarrow> Some (ret, None, s)
           | Some (Mapped sgt, s) \<Rightarrow> map_record hash e u file vfio_dev p a sgt dir s))"

definition map_found ::
  "world \<Rightarrow> (int \<Rightarrow> nat) \<Rightarrow> zero_area \<Rightarrow> (ptr \<Rightarrow> u64) \<Rightarrow> map_env \<Rightarrow> kiumd_user \<Rightarrow> ptr \<Rightarrow> ptr
     \<Rightarrow> 'a map_st_scheme \<Rightarrow> (int \<times> kiumd_user option \<times> 'a map_st_scheme) option" where
  "map_found w hash search dmabuf_size e u file vfio_dev s =
     (let p = m_dma_buf_get e in
      if IS_ERR_OR_NULL p then
        (if w_dev w vfio_dev = 0 then None
         else fail_fput file (if p = 0 then - EINVAL else PTR_ERR p) s)
      else
        (case map_set_iova w search (dmabuf_size p) u vfio_dev (acquire (DmaBufRef p) s) of
           None \<Rightarrow> None
         | Some (ret, s) \<Rightarrow>
             if ret < 0 then fail_put file p ret s
             else if w_dev w vfio_dev = 0 then fail_put file p (- ENODEV) s
             else map_attached w hash e u file vfio_dev p s))"

text \<open>The first allocation, at the top of the function, is never used or freed.\<close>

definition kiumd_dmabuf_vfio_map ::
  "world \<Rightarrow> (int \<Rightarrow> nat) \<Rightarrow> zero_area \<Rightarrow> (ptr \<Rightarrow> u64) \<Rightarrow> map_env \<Rightarrow> kiumd_user option \<Rightarrow> 'a map_st_scheme
     \<Rightarrow> (int \<times> kiumd_user option \<times> 'a map_st_scheme) option" where
  "kiumd_dmabuf_vfio_map w hash search dmabuf_size e arg s =
     (if \<not> m_kzalloc1 e then Some (- ENOMEM, None, s)
      else
        let s = acquire SmapObj s in
        case arg of
          None \<Rightarrow> Some (- EFAULT, None, s)
        | Some u \<Rightarrow>
            (case vfio_file_device w EINVAL (vfio_fd u) s of
               None \<Rightarrow> None
             | Some (Inl err, s) \<Rightarrow> Some (err, None, s)
             | Some (Inr (file, vfio_dev), s) \<Rightarrow>
                 map_found w hash search dmabuf_size e u file vfio_dev s))"

section \<open>Unmapping a buffer\<close>

definition unmap_clear ::
  "u64 \<Rightarrow> kiumd_user \<Rightarrow> 'a map_st_scheme \<Rightarrow> 'a map_st_scheme option" where
  "unmap_clear sz u s =
     (if ptselect u = KGSL_GLOBAL_PT \<or> ptselect u = KGSL_PER_PROCESS_PT
      then map_option (\<lambda>m. s\<lparr>pt := m\<rparr>) (clear_map_iova (dma_addr u) sz (ptselect u) (pt s))
      else Some s)"

definition unmap_sg ::
  "world \<Rightarrow> u64 \<Rightarrow> unmap_env \<Rightarrow> kiumd_user \<Rightarrow> smmu_map_data \<Rightarrow> 'a map_st_scheme
     \<Rightarrow> (int \<times> 'a map_st_scheme) option" where
  "unmap_sg w sz e u smap s =
     (if dma_attr u = DMA_ATTR_PRIVILEGED \<and> is_iova_zero u \<noteq> FIXED_IOVA_AT_ZERO then
        (case do_fget w (vfio_fd u) s of
           (file, s) \<Rightarrow>
             if file = 0 then Some (- EINVAL, s)
             else if w_private_data w file = 0 then None
             else if w_device w (w_private_data w file) = 0 then Some (- EINVAL, fput file s)
             else if u_priv e = 0 then Some (- EINVAL, fput file s)
             else if u_table e = 0 then Some (- EINVAL, fput file s)
             else Some (0, fput file (release (SgMap (u_table e)) s)))
      else if sgt_ptr smap = 0 then Some (- EINVAL, s)
      else
        let s = release (AttachMap (dmabufattach smap) (sgt_ptr smap)) s in
        if is_iova_zero u = FIXED_IOVA_AT_ZERO then
          (case kiumd_get_iommu_domain w (vfio_fd u) s of
             None \<Rightarrow> None
           | Some (dm, s) \<Rightarrow>
               if dm = 0 then Some (- EINVAL, s)
               else if u_iommu_unmap e \<noteq> sz then Some (- EINVAL, s)
               else Some (0, release (IovaZeroMap dm) s))
        else Some (0, s))"

definition unmap_flush ::
  "world \<Rightarrow> kiumd_user \<Rightarrow> 'a map_st_scheme \<Rightarrow> (int \<times> 'a map_st_scheme) option" where
  "unmap_flush w u s =
     (if ptselect u = KGSL_GLOBAL_PT \<or> ptselect u = KGSL_PER_PROCESS_PT \<or> ptselect u = KGSL_DEFAULT_PT
      then (case kiumd_get_iommu_domain w (vfio_fd u) s of
              None \<Rightarrow> None
            | Some (dm, s) \<Rightarrow> if dm = 0 then Some (- EINVAL, s) else Some (0, s))
      else Some (0, s))"

definition del_entry :: "smmu_map_data \<Rightarrow> 'a map_st_scheme \<Rightarrow> 'a map_st_scheme" where
  "del_entry smap s = release SmapObj (s\<lparr>smmu_table := hash_del (sm_node smap) (smmu_table s)\<rparr>)"

definition kiumd_dmabuf_vfio_unmap ::
  "world \<Rightarrow> (int \<Rightarrow> nat) \<Rightarrow> (ptr \<Rightarrow> u64) \<Rightarrow> unmap_env \<Rightarrow> kiumd_user option \<Rightarrow> 'a map_st_scheme
     \<Rightarrow> (int \<times> 'a map_st_scheme) option" where
  "kiumd_dmabuf_vfio_unmap w hash dmabuf_size e arg s =
     (case arg of
        None \<Rightarrow> Some (- EFAULT, s)
      | Some u \<Rightarrow>
          if uid u < 0 then Some (- EFAULT, s)
          else (case hash_find hash (\<lambda>_. True) (uid u) (smmu_table s) of
            None \<Rightarrow> Some (- ENOENT, s)
          | Some smap \<Rightarrow>
              let p = dmabuf_ptr smap; a = dmabufattach smap; sz = dmabuf_size p in
              if p = 0 then Some (- EINVAL, s)
              else if a = 0 then Some (- EINVAL, s)
              else (case unmap_clear sz u s of
                None \<Rightarrow> None
              | Some s \<Rightarrow>
                  (case unmap_sg w sz e u smap s of
                     None \<Rightarrow> None
                   | Some (ret, s) \<Rightarrow>
                       if ret \<noteq> 0 then Some (ret, s)
                       else (case unmap_flush w u s of
                         None \<Rightarrow> None
                       | Some (ret, s) \<Rightarrow>
                           if ret \<noteq> 0 then Some (ret, s)
                           else Some (0, release (DmaBufRef p) (release (Attachment a)
                                           (del_entry smap s))))))))"

section \<open>Mapping registers\<close>

definition iova_in_use :: "kiumd_smmu_mmio_map \<Rightarrow> smmu_table \<Rightarrow> bool" where
  "iova_in_use m t \<longleftrightarrow> list_ex (\<lambda>x. case sm_context x of None \<Rightarrow> False
     | Some c \<Rightarrow> fixed_iova m \<noteq> 0 \<and> mc_iova c = mm_iova m) (hash_entries t)"

definition mmio_entry :: "kiumd_smmu_mmio_ctx \<Rightarrow> 'a map_st_scheme \<Rightarrow> smmu_map_data" where
  "mmio_entry c s =
     \<lparr>sm_id = ctx_id s, sgt_ptr = 0, dmabuf_ptr = 0, dmabufattach = 0, dma_dir = 0, sm_ptselect = 0,
      sm_is_iova_zero = 0, sm_vfio_dev = 0, sm_context = Some c, sm_node = next_node s\<rparr>"

text \<open>\<open>reg_free\<close>: the name and the entry are freed; \<open>smap->context\<close> is still NULL, so the
  register context allocated before is not.\<close>

definition reg_free :: "int \<Rightarrow> 'a map_st_scheme \<Rightarrow> (int \<times> kiumd_smmu_mmio_map option \<times> 'a map_st_scheme) option"
  where
  "reg_free ret s = Some (ret, None, release SmapObj (release RegName s))"

definition mmio_finish ::
  "(int \<Rightarrow> nat) \<Rightarrow> mmio_env \<Rightarrow> kiumd_smmu_mmio_map \<Rightarrow> ptr \<Rightarrow> u64 \<Rightarrow> 'a map_st_scheme
     \<Rightarrow> (int \<times> kiumd_smmu_mmio_map option \<times> 'a map_st_scheme) option" where
  "mmio_finish hash e m dev sz s =
     (let iova = x_dma_map_resource e;
          smap = mmio_entry \<lparr>mc_dev = dev, mc_iova = iova, mc_size = sz\<rparr> s;
          m = m\<lparr>mm_iova := iova, reg_len := sz, mm_id := sm_id smap\<rparr>;
          s = add_entry hash smap s in
      if \<not> x_copy_to_user e
      then Some (- EFAULT, None,
                 del_entry smap (release MmioObj (release RegName (release (MmioMap dev iova) s))))
      else Some (0, Some m, release RegName s))"

text \<open>Mapping the resource, at the fixed address if the request has one.\<close>

definition mmio_dma_map ::
  "mmio_env \<Rightarrow> kiumd_smmu_mmio_map \<Rightarrow> ptr \<Rightarrow> ptr \<Rightarrow> 'a map_st_scheme \<Rightarrow> 'a map_st_scheme" where
  "mmio_dma_map e m cookie dev s =
     (let s = (if fixed_iova m \<noteq> 0
               then snd (kiumd_set_dma_cookie cookie IOMMU_DMA_MSI_COOKIE (mm_iova m)
                           (set_cookie_mutex cookie True s))
               else s);
          s = (if x_mapping_error e = 0 then acquire (MmioMap dev (x_dma_map_resource e)) s else s)
      in if fixed_iova m \<noteq> 0
         then set_cookie_mutex cookie False (snd (kiumd_set_dma_cookie cookie IOMMU_DMA_IOVA_COOKIE 0 s))
         else s)"

definition kiumd_mmio_smmu_map ::
  "world \<Rightarrow> (int \<Rightarrow> nat) \<Rightarrow> mmio_env \<Rightarrow> kiumd_smmu_mmio_map option \<Rightarrow> 'a map_st_scheme
     \<Rightarrow> (int \<times> kiumd_smmu_mmio_map option \<times> 'a map_st_scheme) option" where
  "kiumd_mmio_smmu_map w hash e arg s =
     (case arg of
        None \<Rightarrow> Some (- EFAULT, None, s)
      | Some m \<Rightarrow>
          (case kiumd_get_vfio_device w (mm_vfio_fd m) s of
             (vfio_dev, s) \<Rightarrow>
               if vfio_dev = 0 then Some (- EINVAL, None, s)
               else (case kiumd_get_dma_cookie w vfio_dev of
                 None \<Rightarrow> None
               | Some cookie \<Rightarrow>
                   if cookie = 0 then Some (- EINVAL, None, s)
                   else if iova_in_use m (smmu_table s) then Some (- EINVAL, None, s)
                   else if \<not> x_kzalloc_smap e then Some (- ENOMEM, None, s)
                   else let s = acquire SmapObj s in
                     if \<not> x_kzalloc_ctx e then Some (- ENOMEM, None, release SmapObj s)
                     else let s = acquire MmioObj s in
                       if \<not> x_strndup_user e then Some (- EINVAL, None, release SmapObj s)
                       else let s = acquire RegName s in
                         if \<not> x_is_platform e then reg_free (x_uninitialised e) s
                         else (case x_resource e of
                           None \<Rightarrow> reg_free (- EINVAL) s
                         | Some (addr, sz) \<Rightarrow>
                             let ret = x_mapping_error e; s = mmio_dma_map e m cookie (w_dev w vfio_dev) s in
                             if ret \<noteq> 0 then reg_free ret s
                             else mmio_finish hash e m (w_dev w vfio_dev) sz s))))"

definition kiumd_mmio_smmu_unmap ::
  "(int \<Rightarrow> nat) \<Rightarrow> kiumd_smmu_mmio_map option \<Rightarrow> 'a map_st_scheme \<Rightarrow> int \<times> 'a map_st_scheme" where
  "kiumd_mmio_smmu_unmap hash arg s =
     (case arg of
        None \<Rightarrow> (- EFAULT, s)
      | Some m \<Rightarrow>
          if mm_id m < 0 then (- EFAULT, s)
          else (case hash_find hash (\<lambda>x. sm_context x \<noteq> None) (mm_id m) (smmu_table s) of
            None \<Rightarrow> (- ENOENT, s)
          | Some smap \<Rightarrow>
              (case sm_context smap of
                 None \<Rightarrow> (- EINVAL, s)
               | Some c \<Rightarrow> (0, release MmioObj (del_entry smap (release (MmioMap (mc_dev c) (mc_iova c)) s))))))"

section \<open>Closing the context\<close>

text \<open>
  One entry of the loop in \<open>kiumd_close\<close>; \<open>e_unmap\<close> is what \<open>iommu_unmap\<close> returns, which the code
  cuts to an \<open>int\<close>. An entry without a device crashes. A \<open>continue\<close> leaves the entry in the table, unfreed.
\<close>

definition close_entry ::
  "world \<Rightarrow> (ptr \<Rightarrow> u64) \<Rightarrow> (ptr \<Rightarrow> u64) \<Rightarrow> smmu_map_data \<Rightarrow> 'a map_st_scheme \<Rightarrow> 'a map_st_scheme option"
  where
  "close_entry w dmabuf_size e_unmap smap s =
     (let s = (case sm_context smap of
                 None \<Rightarrow> s
               | Some c \<Rightarrow> release MmioObj (release (MmioMap (mc_dev c) (mc_iova c)) s));
          p = dmabuf_ptr smap in
      if p = 0 then Some (del_entry smap s)
      else if sm_vfio_dev smap = 0 then None
      else
        (case kiumd_iommu_get_dma_domain w (w_dev w (sm_vfio_dev smap)) of
           None \<Rightarrow> None
         | Some dm \<Rightarrow>
             if dm = 0 then Some s
             else if sm_ptselect smap = KGSL_GLOBAL_PT \<or> sm_ptselect smap = KGSL_PER_PROCESS_PT
               \<or> sm_ptselect smap = KGSL_DEFAULT_PT then Some s
             else
               let s = (if dmabufattach smap \<noteq> 0 \<and> sgt_ptr smap \<noteq> 0
                        then release (AttachMap (dmabufattach smap) (sgt_ptr smap)) s else s) in
               if sm_is_iova_zero smap = FIXED_IOVA_AT_ZERO
                  \<and> scast (ucast (e_unmap p) :: u32) \<noteq> dmabuf_size p then Some s
               else
                 let s = (if sm_is_iova_zero smap = FIXED_IOVA_AT_ZERO
                          then release (IovaZeroMap dm) s else s) in
                 Some (del_entry smap (release (DmaBufRef p) (release (Attachment (dmabufattach smap)) s)))))"

fun close_entries ::
  "world \<Rightarrow> (ptr \<Rightarrow> u64) \<Rightarrow> (ptr \<Rightarrow> u64) \<Rightarrow> smmu_map_data list \<Rightarrow> 'a map_st_scheme \<Rightarrow> 'a map_st_scheme option"
  where
  "close_entries w dmabuf_size e_unmap [] s = Some s"
| "close_entries w dmabuf_size e_unmap (x # xs) s =
     (case close_entry w dmabuf_size e_unmap x s of
        None \<Rightarrow> None | Some s' \<Rightarrow> close_entries w dmabuf_size e_unmap xs s')"

definition kiumd_close_table ::
  "world \<Rightarrow> (ptr \<Rightarrow> u64) \<Rightarrow> (ptr \<Rightarrow> u64) \<Rightarrow> 'a map_st_scheme \<Rightarrow> 'a map_st_scheme option" where
  "kiumd_close_table w dmabuf_size e_unmap s =
     close_entries w dmabuf_size e_unmap (hash_entries (smmu_table s)) s"

section \<open>Field lemmas\<close>

lemma ledger_fields [simp]:
  "held (acquire r s) x = held s x + (if x = r then 1 else 0)"
  "held (release r s) x = held s x - (if x = r then 1 else 0)"
  "file_refs (acquire r s) = file_refs s" "file_refs (release r s) = file_refs s"
  "smmu_table (acquire r s) = smmu_table s" "smmu_table (release r s) = smmu_table s"
  "ctx_id (acquire r s) = ctx_id s" "ctx_id (release r s) = ctx_id s"
  "next_node (acquire r s) = next_node s" "next_node (release r s) = next_node s"
  "pt (acquire r s) = pt s" "pt (release r s) = pt s"
  "cookies (acquire r s) = cookies s" "cookies (release r s) = cookies s"
  by (simp_all add: acquire_def release_def)

lemma fput_map_fields [simp]:
  "held (fput f s) = held s" "smmu_table (fput f s) = smmu_table s" "ctx_id (fput f s) = ctx_id s"
  "next_node (fput f s) = next_node s" "pt (fput f s) = pt s" "cookies (fput f s) = cookies s"
  by (simp_all add: fput_def)

lemma entry_fields [simp]:
  "held (add_entry h x s) = held s" "file_refs (add_entry h x s) = file_refs s"
  "pt (add_entry h x s) = pt s" "cookies (add_entry h x s) = cookies s"
  "smmu_table (add_entry h x s) = hash_add h x (smmu_table s)"
  "ctx_id (add_entry h x s) = wrap32 (ctx_id s + 1)" "next_node (add_entry h x s) = Suc (next_node s)"
  "held (del_entry x s) r = held s r - (if r = SmapObj then 1 else 0)"
  "file_refs (del_entry x s) = file_refs s" "pt (del_entry x s) = pt s"
  "cookies (del_entry x s) = cookies s" "smmu_table (del_entry x s) = hash_del (sm_node x) (smmu_table s)"
  "ctx_id (del_entry x s) = ctx_id s" "next_node (del_entry x s) = next_node s"
  by (simp_all add: add_entry_def del_entry_def)

lemma set_cookie_fields [simp]:
  "held (set_cookie_mutex c b s) = held s" "file_refs (set_cookie_mutex c b s) = file_refs s"
  "smmu_table (set_cookie_mutex c b s) = smmu_table s" "ctx_id (set_cookie_mutex c b s) = ctx_id s"
  "next_node (set_cookie_mutex c b s) = next_node s" "pt (set_cookie_mutex c b s) = pt s"
  "held (snd (kiumd_set_dma_cookie c ty i s)) = held s"
  "file_refs (snd (kiumd_set_dma_cookie c ty i s)) = file_refs s"
  "smmu_table (snd (kiumd_set_dma_cookie c ty i s)) = smmu_table s"
  "ctx_id (snd (kiumd_set_dma_cookie c ty i s)) = ctx_id s"
  "next_node (snd (kiumd_set_dma_cookie c ty i s)) = next_node s"
  "pt (snd (kiumd_set_dma_cookie c ty i s)) = pt s"
  by (simp_all add: set_cookie_mutex_def kiumd_set_dma_cookie_def)

lemma mmio_dma_map_fields [simp]:
  "smmu_table (mmio_dma_map e m c d s) = smmu_table s" "ctx_id (mmio_dma_map e m c d s) = ctx_id s"
  "next_node (mmio_dma_map e m c d s) = next_node s" "file_refs (mmio_dma_map e m c d s) = file_refs s"
  "held (mmio_dma_map e m c d s) r =
     held s r + (if x_mapping_error e = 0 \<and> r = MmioMap d (x_dma_map_resource e) then 1 else 0)"
  "cookies (mmio_dma_map e m c d s) = (if fixed_iova m \<noteq> 0 \<and> c \<noteq> 0
     then (cookies s)(c := \<lparr>ctype = IOMMU_DMA_IOVA_COOKIE, msi_iova = 0, cookie_mutex = False\<rparr>)
     else if fixed_iova m \<noteq> 0 then (cookies s)(c := (cookies s c)\<lparr>cookie_mutex := False\<rparr>) else cookies s)"
  by (auto simp: mmio_dma_map_def Let_def kiumd_set_dma_cookie_def set_cookie_mutex_def)

text \<open>What the address step of a map request leaves alone.\<close>

lemma map_set_iova_fields:
  assumes "map_set_iova w search sz u v s = Some (ret, s')"
  shows "held s' = held s \<and> file_refs s' = file_refs s \<and> smmu_table s' = smmu_table s
     \<and> ctx_id s' = ctx_id s \<and> next_node s' = next_node s"
  using assms
  by (auto simp: map_set_iova_def set_map_iova_def get_dma_cookie_eq set_cookie_eq Let_def
      split: if_splits option.splits prod.splits)

lemma vfio_device_map_fields:
  "vfio_file_device w err fd s = Some (Inl x, s') \<Longrightarrow> s' = s"
  "vfio_file_device w err fd s = Some (Inr (f, d), s') \<Longrightarrow>
     held s' = held s \<and> smmu_table s' = smmu_table s \<and> ctx_id s' = ctx_id s \<and> next_node s' = next_node s
     \<and> pt s' = pt s \<and> cookies s' = cookies s \<and> file_refs s' = (file_refs s)(f := file_refs s f + 1)"
  by (auto simp: vfio_file_device_def do_fget_def Let_def split: if_splits)

lemma map_sg_fields:
  assumes "map_sg w e u v a s = Some (x, s')"
  shows "file_refs s' = file_refs s \<and> smmu_table s' = smmu_table s \<and> ctx_id s' = ctx_id s
     \<and> next_node s' = next_node s \<and> pt s' = pt s \<and> cookies s' = cookies s"
  using assms
  by (auto simp: map_sg_def Let_def split: if_splits option.splits)

section \<open>Failing map requests\<close>

text \<open>The answers under which every failure of a map request takes a cleanup label that undoes all
  it has done: the attachment names a buffer, the device has a domain for a mapping at address
  zero, the entry can be allocated and the result copied out.\<close>

definition clean_env :: "world \<Rightarrow> map_env \<Rightarrow> kiumd_user option \<Rightarrow> bool" where
  "clean_env w e arg \<longleftrightarrow> \<not> IS_ERR_OR_NULL (m_attach_dmabuf e) \<and> m_kzalloc2 e \<and> m_copy_to_user e
     \<and> (\<forall>u v. arg = Some u \<and> is_iova_zero u = FIXED_IOVA_AT_ZERO \<longrightarrow>
          kiumd_iommu_get_dma_domain w (w_dev w v) \<noteq> Some 0)"

lemma map_sg_clean:
  assumes "map_sg w e u v a s = Some (x, s')" "clean_env w e (Some u)"
  shows "(\<exists>sgt. x = Mapped sgt) \<or> (\<exists>ret. x = Fail_detach ret \<and> held s' = held s)"
  using assms
  by (auto simp: map_sg_def clean_env_def Let_def split: if_splits option.splits)

lemma map_attached_failure:
  assumes "map_attached w hash e u f v p s = Some (ret, out, s')" "ret \<noteq> 0" "clean_env w e (Some u)"
  shows "held s' r = held s r - (if r = DmaBufRef p then 1 else 0)
     \<and> file_refs s' = (file_refs s)(f := file_refs s f - 1) \<and> smmu_table s' = smmu_table s"
proof -
  let ?a = "m_attach e" and ?s1 = "acquire (Attachment (m_attach e)) s"
  show ?thesis
  proof (cases "IS_ERR ?a \<or> dma_direction u < DMA_BIDIRECTIONAL \<or> dma_direction u > DMA_NONE")
    case True
    with assms(1) show ?thesis
      by (auto simp: map_attached_def Let_def fail_detach_def fail_put_def fail_fput_def
          split: if_splits)
  next
    case False
    with assms(1) obtain x s2 where sg: "map_sg w e u v ?a ?s1 = Some (x, s2)"
      by (auto simp: map_attached_def Let_def split: option.splits)
    from map_sg_clean [OF sg assms(3)] show ?thesis
    proof
      assume "\<exists>sgt. x = Mapped sgt"
      with assms sg False show ?thesis
        by (auto simp: map_attached_def Let_def map_record_def clean_env_def)
    next
      assume "\<exists>ret. x = Fail_detach ret \<and> held s2 = held ?s1"
      with assms(1) sg False map_sg_fields [OF sg] show ?thesis
        by (auto simp: map_attached_def Let_def fail_detach_def fail_put_def fail_fput_def)
    qed
  qed
qed

lemma map_found_failure:
  assumes "map_found w hash search dsz e u f v s = Some (ret, out, s')" "ret \<noteq> 0"
    and "clean_env w e (Some u)"
  shows "held s' r = held s r
     \<and> file_refs s' = (file_refs s)(f := file_refs s f - 1) \<and> smmu_table s' = smmu_table s"
proof (cases "IS_ERR_OR_NULL (m_dma_buf_get e)")
  case True
  with assms(1) show ?thesis by (auto simp: map_found_def fail_fput_def Let_def split: if_splits)
next
  case False
  let ?p = "m_dma_buf_get e"
  from False assms(1) obtain r1 s1 where
    iova: "map_set_iova w search (dsz ?p) u v (acquire (DmaBufRef ?p) s) = Some (r1, s1)"
    by (auto simp: map_found_def Let_def split: option.splits)
  note fields = map_set_iova_fields [OF iova]
  show ?thesis
  proof (cases "r1 < 0 \<or> w_dev w v = 0")
    case True
    with False assms(1) iova fields show ?thesis
      by (auto simp: map_found_def Let_def fail_put_def fail_fput_def split: if_splits)
  next
    case ok: False
    with False assms(1) iova have "map_attached w hash e u f v ?p s1 = Some (ret, out, s')"
      by (simp add: map_found_def Let_def)
    from map_attached_failure [OF this assms(2,3), of r] fields show ?thesis by simp
  qed
qed

lemma map_failure_ledger:
  assumes run: "kiumd_dmabuf_vfio_map w hash search dsz e arg s = Some (ret, out, s')"
    and "ret \<noteq> 0" "m_kzalloc1 e" "clean_env w e arg"
  shows "held s' r = held s r + (if r = SmapObj then 1 else 0) \<and> file_refs s' = file_refs s
     \<and> smmu_table s' = smmu_table s"
proof (cases arg)
  case (Some u)
  from run Some assms(3) obtain x s2 where
    r: "vfio_file_device w EINVAL (vfio_fd u) (acquire SmapObj s) = Some (x, s2)"
    by (auto simp: kiumd_dmabuf_vfio_map_def Let_def split: option.splits)
  show ?thesis
  proof (cases x)
    case (Inl err)
    with r run Some assms(3) have "s' = s2" by (simp add: kiumd_dmabuf_vfio_map_def Let_def)
    then have "s' = acquire SmapObj s" using vfio_device_map_fields(1) [OF r [unfolded Inl]] by simp
    then show ?thesis by simp
  next
    case (Inr fd)
    then obtain f v where x: "x = Inr (f, v)" by (cases fd) auto
    with run r Some assms(3) have "map_found w hash search dsz e u f v s2 = Some (ret, out, s')"
      by (simp add: kiumd_dmabuf_vfio_map_def Let_def)
    from map_found_failure [OF this assms(2), of r] assms(4) Some vfio_device_map_fields(2) [OF r [unfolded x]]
    show ?thesis by simp
  qed
qed (use run assms(3) in \<open>auto simp: kiumd_dmabuf_vfio_map_def\<close>)

section \<open>Successful map requests\<close>

definition privileged :: "kiumd_user \<Rightarrow> bool" where
  "privileged u \<longleftrightarrow> dma_attr u = DMA_ATTR_PRIVILEGED \<and> is_iova_zero u \<noteq> FIXED_IOVA_AT_ZERO"

definition device_domain :: "world \<Rightarrow> ptr \<Rightarrow> ptr" where
  "device_domain w v =
     (if w_iommu_group w (w_dev w v) = 0 then 0 else w_default_domain w (w_iommu_group w (w_dev w v)))"

lemma get_dma_domain_eq:
  "w_dev w v \<noteq> 0 \<Longrightarrow> kiumd_iommu_get_dma_domain w (w_dev w v) = Some (device_domain w v)"
  by (simp add: kiumd_iommu_get_dma_domain_def device_domain_def)

text \<open>What a successful map request of a device holds, besides its table entry.\<close>

definition map_resources :: "world \<Rightarrow> map_env \<Rightarrow> kiumd_user \<Rightarrow> ptr \<Rightarrow> resource list" where
  "map_resources w e u v =
     [DmaBufRef (m_dma_buf_get e), Attachment (m_attach e)] @
     (if privileged u then [SgMap (m_table e)]
      else AttachMap (m_attach e) (m_map_attachment e)
           # (if is_iova_zero u = FIXED_IOVA_AT_ZERO then [IovaZeroMap (device_domain w v)] else []))"

definition mapped_sgt :: "map_env \<Rightarrow> kiumd_user \<Rightarrow> ptr" where
  "mapped_sgt e u = (if privileged u then m_table e else m_map_attachment e)"

definition new_entry :: "map_env \<Rightarrow> kiumd_user \<Rightarrow> ptr \<Rightarrow> 'a map_st_scheme \<Rightarrow> smmu_map_data" where
  "new_entry e u v s = map_entry u v (m_dma_buf_get e) (m_attach e) (mapped_sgt e u)
     (if dma_direction u = DMA_TO_DEVICE then dma_direction u else DMA_BIDIRECTIONAL) s"

lemma vfio_file_device_err: "vfio_file_device w EINVAL fd s = Some (Inl err, s') \<Longrightarrow> err < 0"
  by (auto simp: vfio_file_device_def do_fget_def Let_def split: if_splits)

lemma vfio_file_device_ok:
  assumes "vfio_file_device w err fd s = Some (Inr (f, v), s')"
  shows "0 \<le> fd \<and> f = w_fget w fd \<and> w_fget w fd \<noteq> 0 \<and> w_private_data w (w_fget w fd) \<noteq> 0
     \<and> v = w_device w (w_private_data w (w_fget w fd)) \<and> w_device w (w_private_data w (w_fget w fd)) \<noteq> 0"
  using assms by (auto simp: vfio_file_device_def do_fget_def Let_def split: if_splits)

lemma map_sg_mapped:
  assumes "map_sg w e u v a s = Some (Mapped sgt, s')" "w_dev w v \<noteq> 0"
  shows "sgt = mapped_sgt e u \<and> sgt \<noteq> 0
    \<and> (\<not> privileged u \<longrightarrow> is_iova_zero u = FIXED_IOVA_AT_ZERO \<longrightarrow> device_domain w v \<noteq> 0)
    \<and> held s' = (\<lambda>r. held s r + int (count_list
        (if privileged u then [SgMap sgt] else AttachMap a sgt
           # (if is_iova_zero u = FIXED_IOVA_AT_ZERO then [IovaZeroMap (device_domain w v)] else [])) r))"
  using assms
  by (auto simp: map_sg_def privileged_def mapped_sgt_def get_dma_domain_eq Let_def fun_eq_iff
      IS_ERR_OR_NULL_def split: if_splits)

lemma map_sg_failed_neg:
  assumes "map_sg w e u v a s = Some (x, s')"
  shows "x = Fail_detach ret \<or> x = Fail_fput ret \<or> x = Return ret \<Longrightarrow> ret \<noteq> 0"
  using assms PTR_ERR_neg [of "m_map_attachment e"]
  by (auto simp: map_sg_def Let_def IS_ERR_OR_NULL_def split: if_splits option.splits)

lemma map_attached_success:
  assumes "map_attached w hash e u f v p s = Some (0, out, s')" "w_dev w v \<noteq> 0"
    and "p = m_dma_buf_get e"
  shows "held s' r = held s r + int (count_list (tl (map_resources w e u v)) r) + (if r = SmapObj then 1 else 0)
     \<and> out = Some (u\<lparr>uid := ctx_id s,
          dma_addr := (if is_iova_zero u = FIXED_IOVA_AT_ZERO then 0 else m_sg_dma_address e)\<rparr>)
     \<and> smmu_table s' = hash_add hash (new_entry e u v s) (smmu_table s)
     \<and> ctx_id s' = wrap32 (ctx_id s + 1) \<and> next_node s' = Suc (next_node s) \<and> pt s' = pt s
     \<and> cookies s' = cookies s \<and> file_refs s' = (file_refs s)(f := file_refs s f - 1)
     \<and> mapped_sgt e u \<noteq> 0"
proof -
  let ?a = "m_attach e" and ?s1 = "acquire (Attachment (m_attach e)) s"
  note exits = fail_detach_def fail_put_def fail_fput_def
  let ?dir = "if dma_direction u = DMA_TO_DEVICE then dma_direction u else DMA_BIDIRECTIONAL"
  have good: "\<not> IS_ERR ?a" "\<not> (dma_direction u < DMA_BIDIRECTIONAL \<or> dma_direction u > DMA_NONE)"
    using assms(1) PTR_ERR_neg [of ?a] unfolding map_attached_def Let_def exits
    by (simp_all split: if_splits)
  have att: "(case map_sg w e u v ?a ?s1 of
        None \<Rightarrow> None
      | Some (Fail_detach ret, s) \<Rightarrow> fail_detach f p ?a ret s
      | Some (Fail_fput ret, s) \<Rightarrow> fail_fput f ret s
      | Some (Return ret, s) \<Rightarrow> Some (ret, None, s)
      | Some (Mapped sgt, s) \<Rightarrow> map_record hash e u f v p ?a sgt ?dir s) = Some (0, out, s')"
    using assms(1) unfolding map_attached_def Let_def if_not_P [OF good(1)] if_not_P [OF good(2)] .
  then obtain x s2 where sg: "map_sg w e u v ?a ?s1 = Some (x, s2)"
    by (auto split: option.splits)
  obtain sgt where x: "x = Mapped sgt"
    using map_sg_failed_neg [OF sg, of 0] att unfolding sg exits by (cases x) simp_all
  have rec: "map_record hash e u f v p ?a sgt ?dir s2 = Some (0, out, s')"
    using att unfolding sg x by simp
  note mapped = map_sg_mapped [OF sg [unfolded x] assms(2)]
  have ok: "m_kzalloc2 e" "m_copy_to_user e"
    using rec unfolding map_record_def Let_def exits by (simp_all split: if_splits)
  have s': "s' = fput f (add_entry hash (map_entry u v p ?a sgt ?dir s2) (acquire SmapObj s2))"
    and out: "out = Some (u\<lparr>uid := ctx_id s2,
          dma_addr := (if is_iova_zero u = FIXED_IOVA_AT_ZERO then 0 else m_sg_dma_address e)\<rparr>)"
    using rec ok by (simp_all add: map_record_def Let_def map_entry_def)
  have entry: "map_entry u v p ?a sgt ?dir s2 = new_entry e u v s"
    using mapped map_sg_fields [OF sg] assms(3) by (simp add: new_entry_def map_entry_def)
  show ?thesis
    unfolding s' out entry using mapped map_sg_fields [OF sg]
    by (cases "privileged u") (auto simp: map_resources_def mapped_sgt_def)
qed

definition gpu_table :: "kiumd_user \<Rightarrow> bool" where
  "gpu_table u \<longleftrightarrow> ptselect u = KGSL_GLOBAL_PT \<or> ptselect u = KGSL_PER_PROCESS_PT"

text \<open>The address a map request reserved: the bitmap and the cookie of the device.\<close>

definition reserved_at :: "world \<Rightarrow> zero_area \<Rightarrow> u64 \<Rightarrow> kiumd_user \<Rightarrow> ptr \<Rightarrow> 'a map_st_scheme
    \<Rightarrow> 'a map_st_scheme \<Rightarrow> bool" where
  "reserved_at w search sz u v s s' \<longleftrightarrow>
     (if gpu_table u
      then \<exists>off. 0 \<le> off \<and> get_map_offset search sz (ptselect u) (pt s) = Some (off, pt s')
             \<and> cookie_of w v \<noteq> 0 \<and> msi_iova (cookies s' (cookie_of w v)) = map_iova (of_int off) (ptselect u)
      else pt s' = pt s \<and> cookies s' = cookies s)"

lemma reserved_at_cong:
  assumes "pt s = pt t" "cookies s = cookies t" "pt s' = pt t'" "cookies s' = cookies t'"
  shows "reserved_at w search sz u v s s' = reserved_at w search sz u v t t'"
  unfolding reserved_at_def assms ..

lemma map_set_iova_reserved:
  assumes "map_set_iova w search sz u v s = Some (ret, s')" "\<not> ret < 0"
  shows "reserved_at w search sz u v s s'"
  using assms
  by (auto simp: map_set_iova_def reserved_at_def gpu_table_def set_map_iova_def get_dma_cookie_eq
      set_cookie_eq Let_def split: if_splits option.splits)

lemma map_found_success:
  assumes "map_found w hash search dsz e u f v s = Some (0, out, s')"
  shows "w_dev w v \<noteq> 0 \<and> \<not> IS_ERR_OR_NULL (m_dma_buf_get e)
     \<and> held s' r = held s r + int (count_list (map_resources w e u v) r) + (if r = SmapObj then 1 else 0)
     \<and> out = Some (u\<lparr>uid := ctx_id s,
          dma_addr := (if is_iova_zero u = FIXED_IOVA_AT_ZERO then 0 else m_sg_dma_address e)\<rparr>)
     \<and> smmu_table s' = hash_add hash (new_entry e u v s) (smmu_table s)
     \<and> ctx_id s' = wrap32 (ctx_id s + 1) \<and> next_node s' = Suc (next_node s)
     \<and> reserved_at w search (dsz (m_dma_buf_get e)) u v s s'
     \<and> file_refs s' = (file_refs s)(f := file_refs s f - 1) \<and> mapped_sgt e u \<noteq> 0"
proof -
  let ?p = "m_dma_buf_get e"
  note exits = fail_detach_def fail_put_def fail_fput_def
  have p: "\<not> IS_ERR_OR_NULL ?p"
    using assms PTR_ERR_neg [of ?p] unfolding map_found_def Let_def exits IS_ERR_OR_NULL_def
    by (auto split: if_splits)
  with assms obtain r1 s1 where
    iova: "map_set_iova w search (dsz ?p) u v (acquire (DmaBufRef ?p) s) = Some (r1, s1)"
    by (auto simp: map_found_def Let_def split: option.splits)
  have ok: "\<not> r1 < 0" "w_dev w v \<noteq> 0"
    using assms p iova unfolding map_found_def Let_def exits by (simp_all split: if_splits)
  then have att: "map_attached w hash e u f v ?p s1 = Some (0, out, s')"
    using assms p iova by (simp add: map_found_def Let_def)
  note fields = map_set_iova_fields [OF iova]
  note res = map_attached_success [OF att ok(2) refl, of r]
  have "reserved_at w search (dsz ?p) u v s s'"
    using map_set_iova_reserved [OF iova ok(1)] res
      reserved_at_cong [of "acquire (DmaBufRef ?p) s" s s1 s' w search "dsz ?p" u v] by simp
  moreover have "new_entry e u v s1 = new_entry e u v s"
    using fields by (simp add: new_entry_def map_entry_def)
  ultimately show ?thesis
    using p ok(2) res fields by (auto simp: map_resources_def)
qed

lemma map_success:
  assumes "kiumd_dmabuf_vfio_map w hash search dsz e arg s = Some (0, out, s')"
  obtains u v where "arg = Some u" "0 \<le> vfio_fd u" "w_fget w (vfio_fd u) \<noteq> 0"
    "w_private_data w (w_fget w (vfio_fd u)) \<noteq> 0" "v = w_device w (w_private_data w (w_fget w (vfio_fd u)))"
    "v \<noteq> 0" "w_dev w v \<noteq> 0" "\<not> IS_ERR_OR_NULL (m_dma_buf_get e)"
    "\<And>r. held s' r = held s r + int (count_list (map_resources w e u v) r) + (if r = SmapObj then 2 else 0)"
    "out = Some (u\<lparr>uid := ctx_id s,
        dma_addr := (if is_iova_zero u = FIXED_IOVA_AT_ZERO then 0 else m_sg_dma_address e)\<rparr>)"
    "smmu_table s' = hash_add hash (new_entry e u v s) (smmu_table s)"
    "ctx_id s' = wrap32 (ctx_id s + 1)" "next_node s' = Suc (next_node s)"
    "reserved_at w search (dsz (m_dma_buf_get e)) u v s s'" "file_refs s' = file_refs s"
    "mapped_sgt e u \<noteq> 0"
proof -
  have ok: "m_kzalloc1 e" using assms by (auto simp: kiumd_dmabuf_vfio_map_def split: if_splits)
  with assms obtain u where u: "arg = Some u"
    by (auto simp: kiumd_dmabuf_vfio_map_def Let_def split: option.splits)
  with assms ok obtain x s2 where
    r: "vfio_file_device w EINVAL (vfio_fd u) (acquire SmapObj s) = Some (x, s2)"
    by (auto simp: kiumd_dmabuf_vfio_map_def Let_def split: option.splits)
  have "\<exists>f v. x = Inr (f, v)"
  proof (cases x)
    case (Inl err)
    with assms ok u r vfio_file_device_err [OF r [unfolded Inl]] show ?thesis
      by (simp add: kiumd_dmabuf_vfio_map_def Let_def)
  qed (metis surj_pair)
  then obtain f v where x: "x = Inr (f, v)" by blast
  with assms ok u r have found: "map_found w hash search dsz e u f v s2 = Some (0, out, s')"
    by (simp add: kiumd_dmabuf_vfio_map_def Let_def)
  note dev = vfio_file_device_ok [OF r [unfolded x]]
  note fields = vfio_device_map_fields(2) [OF r [unfolded x]]
  note res = map_found_success [OF found]
  have entry: "new_entry e u v s2 = new_entry e u v s"
    using fields by (simp add: new_entry_def map_entry_def)
  have reserved: "reserved_at w search (dsz (m_dma_buf_get e)) u v s s'"
    using res [of SmapObj] fields reserved_at_cong [of s2 s s' s' w search "dsz (m_dma_buf_get e)" u v]
    by simp
  show thesis
  proof (rule that [OF u, of v])
    show "held s' r = held s r + int (count_list (map_resources w e u v) r) + (if r = SmapObj then 2 else 0)" for r
      using res [of r] fields by simp
  qed (use dev fields res [of SmapObj] entry reserved in simp_all)
qed

section \<open>Unmapping\<close>

text \<open>What unmapping an entry gives back, besides its table entry.\<close>

definition unmap_resources :: "world \<Rightarrow> unmap_env \<Rightarrow> kiumd_user \<Rightarrow> smmu_map_data \<Rightarrow> ptr \<Rightarrow> resource list" where
  "unmap_resources w e u x v =
     [DmaBufRef (dmabuf_ptr x), Attachment (dmabufattach x)] @
     (if privileged u then [SgMap (u_table e)]
      else AttachMap (dmabufattach x) (sgt_ptr x)
           # (if is_iova_zero u = FIXED_IOVA_AT_ZERO then [IovaZeroMap (device_domain w v)] else []))"

text \<open>A descriptor that names a working device, and answers that let the unmap go through.\<close>

definition device_ready :: "world \<Rightarrow> int \<Rightarrow> ptr \<Rightarrow> bool" where
  "device_ready w fd v \<longleftrightarrow>
     vfio_device_of w fd = v \<and> v \<noteq> 0 \<and> w_dev w v \<noteq> 0 \<and> device_domain w v \<noteq> 0"

lemma device_ready_lookup:
  assumes "device_ready w fd v"
  shows "kiumd_get_iommu_domain w fd s = Some (device_domain w v, s)"
  using assms
  by (auto simp: device_ready_def kiumd_get_iommu_domain_def get_vfio_device_eq get_dma_domain_eq)

lemma device_ready_file:
  assumes "device_ready w fd v"
  shows "w_fget w fd \<noteq> 0 \<and> w_private_data w (w_fget w fd) \<noteq> 0
     \<and> w_device w (w_private_data w (w_fget w fd)) \<noteq> 0 \<and> device_domain w v \<noteq> 0"
  using assms by (auto simp: device_ready_def vfio_device_of_def split: if_splits)

definition unmap_env_ok :: "unmap_env \<Rightarrow> kiumd_user \<Rightarrow> u64 \<Rightarrow> bool" where
  "unmap_env_ok e u sz \<longleftrightarrow> (privileged u \<longrightarrow> u_priv e \<noteq> 0 \<and> u_table e \<noteq> 0)
     \<and> (is_iova_zero u = FIXED_IOVA_AT_ZERO \<longrightarrow> u_iommu_unmap e = sz)"

lemma fget_put_refs [simp]:
  "held (s\<lparr>file_refs := fr\<rparr>) = held s" "smmu_table (s\<lparr>file_refs := fr\<rparr>) = smmu_table s"
  "pt (s\<lparr>file_refs := fr\<rparr>) = pt s" "ctx_id (s\<lparr>file_refs := fr\<rparr>) = ctx_id s"
  "next_node (s\<lparr>file_refs := fr\<rparr>) = next_node s"
  by simp_all

lemma unmap_sg_ok:
  assumes "device_ready w (vfio_fd u) v" "unmap_env_ok e u sz" "\<not> privileged u \<longrightarrow> sgt_ptr x \<noteq> 0"
  shows "\<exists>s'. unmap_sg w sz e u x s = Some (0, s')
     \<and> held s' = (\<lambda>r. held s r - int (count_list (drop 2 (unmap_resources w e u x v)) r))
     \<and> smmu_table s' = smmu_table s \<and> ctx_id s' = ctx_id s \<and> next_node s' = next_node s
     \<and> pt s' = pt s \<and> file_refs s' = file_refs s"
proof (cases "privileged u")
  case True
  with assms(2) device_ready_file [OF assms(1)] show ?thesis
    by (auto simp: unmap_sg_def privileged_def unmap_env_ok_def do_fget_def Let_def
        unmap_resources_def fun_eq_iff)
next
  case False
  with assms(2,3) device_ready_file [OF assms(1)] show ?thesis
    by (auto simp: unmap_sg_def privileged_def unmap_env_ok_def Let_def unmap_resources_def fun_eq_iff
        device_ready_lookup [OF assms(1)])
qed

lemma unmap_success:
  assumes "hash_find hash (\<lambda>_. True) (uid u) (smmu_table s) = Some x" "0 \<le> uid u"
    and "dmabuf_ptr x \<noteq> 0" "dmabufattach x \<noteq> 0" "unmap_clear (dsz (dmabuf_ptr x)) u s = Some s1"
    and "device_ready w (vfio_fd u) v" "unmap_env_ok e u (dsz (dmabuf_ptr x))"
    and "\<not> privileged u \<longrightarrow> sgt_ptr x \<noteq> 0"
  shows "\<exists>s'. kiumd_dmabuf_vfio_unmap w hash dsz e (Some u) s = Some (0, s')
     \<and> (\<forall>r. held s' r = held s r - int (count_list (unmap_resources w e u x v) r)
            - (if r = SmapObj then 1 else 0))
     \<and> smmu_table s' = hash_del (sm_node x) (smmu_table s) \<and> pt s' = pt s1 \<and> file_refs s' = file_refs s"
proof -
  have s1: "held s1 = held s \<and> smmu_table s1 = smmu_table s \<and> file_refs s1 = file_refs s"
    using assms(5) by (auto simp: unmap_clear_def split: if_splits option.splits)
  from unmap_sg_ok [OF assms(6-8), of s1] obtain s2 where
    s2: "unmap_sg w (dsz (dmabuf_ptr x)) e u x s1 = Some (0, s2)"
      "held s2 = (\<lambda>r. held s1 r - int (count_list (drop 2 (unmap_resources w e u x v)) r))"
      "smmu_table s2 = smmu_table s1" "pt s2 = pt s1" "file_refs s2 = file_refs s1"
    by blast
  have flush: "unmap_flush w u s2 = Some (0, s2)"
    using device_ready_lookup [OF assms(6), of s2] device_ready_file [OF assms(6)]
    by (simp add: unmap_flush_def)
  have "kiumd_dmabuf_vfio_unmap w hash dsz e (Some u) s = Some (0,
      release (DmaBufRef (dmabuf_ptr x)) (release (Attachment (dmabufattach x)) (del_entry x s2)))"
    using assms(1-5) s2(1) flush by (simp add: kiumd_dmabuf_vfio_unmap_def Let_def)
  with s1 s2 show ?thesis by (simp add: unmap_resources_def)
qed

section \<open>Ids\<close>

definition entries_unique :: "(int \<Rightarrow> nat) \<Rightarrow> smmu_table \<Rightarrow> bool" where
  "entries_unique hash t \<longleftrightarrow> table_ok hash t
     \<and> distinct (map sm_id (hash_entries t)) \<and> distinct (map sm_node (hash_entries t))"

definition ids_inv :: "(int \<Rightarrow> nat) \<Rightarrow> 'a map_st_scheme \<Rightarrow> bool" where
  "ids_inv hash s \<longleftrightarrow> entries_unique hash (smmu_table s) \<and> 0 \<le> ctx_id s
     \<and> (\<forall>x \<in> set (hash_entries (smmu_table s)).
          0 \<le> sm_id x \<and> sm_id x < ctx_id s \<and> sm_node x < next_node s)"

context table_hash
begin

lemma unique_eq: "buckets.unique_ids t = entries_unique hash t"
  by (simp add: buckets.unique_ids_def entries_unique_def)

lemma ids_find:
  assumes "ids_inv hash s" "x \<in> set (hash_entries (smmu_table s))" "P x"
  shows "hash_find hash P (sm_id x) (smmu_table s) = Some x"
  using buckets.lookup_unique [of "smmu_table s" x P] assms by (simp add: unique_eq ids_inv_def)

lemma ids_add:
  assumes "ids_inv hash s" "ctx_id s < 2147483647" "sm_id x = ctx_id s" "sm_node x = next_node s"
    and "smmu_table s' = hash_add hash x (smmu_table s)" "ctx_id s' = wrap32 (ctx_id s + 1)"
    and "next_node s' = Suc (next_node s)"
  shows "ids_inv hash s'"
proof -
  have "entries_unique hash (hash_add hash x (smmu_table s))"
  proof (rule buckets.unique_add [unfolded unique_eq])
    show "entries_unique hash (smmu_table s)" using assms(1) by (simp add: ids_inv_def)
  qed (use assms(1,3,4) in \<open>fastforce simp: ids_inv_def\<close>)+
  with assms show ?thesis by (fastforce simp: ids_inv_def)
qed

lemma entries_hash_add:
  "set (hash_entries (hash_add hash x t)) = insert x (set (hash_entries t))"
  by simp

lemma ids_del:
  assumes "ids_inv hash s" "smmu_table s' = hash_del n (smmu_table s)" "ctx_id s' = ctx_id s"
    and "next_node s' = next_node s"
  shows "ids_inv hash s'"
  using buckets.unique_del [of "smmu_table s" n] assms
  by (simp add: unique_eq ids_inv_def buckets.set_del)

lemma add_del_entries:
  assumes "ids_inv hash s" "sm_node x = next_node s"
  shows "mset (hash_entries (hash_del (sm_node x) (hash_add hash x (smmu_table s))))
           = mset (hash_entries (smmu_table s))"
  using assms by (intro buckets.del_add) (auto simp: ids_inv_def)

end

section \<open>Mapping and unmapping again\<close>

lemma vfio_device_unique:
  assumes "device_ready w fd v"
  shows "w_device w (w_private_data w (w_fget w fd)) = v"
  using assms by (auto simp: device_ready_def vfio_device_of_def split: if_splits)

lemma reserved_cleared:
  assumes "reserved_at w search sz u v s s1" "zero_area_search search"
    and "page_count sz < 4294967296"
    and "gpu_table u \<longrightarrow> dma_addr u' = msi_iova (cookies s1 (cookie_of w v))" "ptselect u' = ptselect u"
  shows "\<exists>s2. unmap_clear sz u' s1 = Some s2 \<and> global_map (pt s2) = global_map (pt s)
     \<and> perprocess_map (pt s2) = perprocess_map (pt s)"
proof (cases "gpu_table u")
  case True
  with assms(1) obtain off where off: "0 \<le> off"
      "get_map_offset search sz (ptselect u) (pt s) = Some (off, pt s1)"
      "msi_iova (cookies s1 (cookie_of w v)) = map_iova (of_int off) (ptselect u)"
    by (auto simp: reserved_at_def)
  from clear_after_get [OF assms(2,3) off(2,1)] True assms(4,5) off(3) show ?thesis
    by (auto simp: unmap_clear_def gpu_table_def)
next
  case False
  with assms(1,5) show ?thesis by (simp add: unmap_clear_def gpu_table_def reserved_at_def)
qed

lemma map_unmap_restores:
  assumes hash: "table_hash hash" and search: "zero_area_search search"
    and inv: "ids_inv hash s" "ctx_id s < 2147483647"
    and run: "kiumd_dmabuf_vfio_map w hash search dsz e (Some u) s = Some (0, Some u', s1)"
    and small: "page_count (dsz (m_dma_buf_get e)) < 4294967296"
    and dev: "device_ready w (vfio_fd u) v" and att: "m_attach e \<noteq> 0"
    and iova: "gpu_table u \<longrightarrow> is_iova_zero u \<noteq> FIXED_IOVA_AT_ZERO
                \<and> m_sg_dma_address e = msi_iova (cookies s1 (cookie_of w v))"
    and env: "unmap_env_ok e2 u (dsz (m_dma_buf_get e))" "privileged u \<longrightarrow> u_table e2 = m_table e"
  shows "\<exists>s2. kiumd_dmabuf_vfio_unmap w hash dsz e2 (Some u') s1 = Some (0, s2)
     \<and> (\<forall>r. held s2 r = held s r + (if r = SmapObj then 1 else 0))
     \<and> mset (hash_entries (smmu_table s2)) = mset (hash_entries (smmu_table s))
     \<and> global_map (pt s2) = global_map (pt s) \<and> perprocess_map (pt s2) = perprocess_map (pt s)
     \<and> file_refs s2 = file_refs s"
proof -
  from map_success [OF run] vfio_device_unique [OF dev] obtain
    ok: "\<not> IS_ERR_OR_NULL (m_dma_buf_get e)"
      "\<And>r. held s1 r = held s r + int (count_list (map_resources w e u v) r) + (if r = SmapObj then 2 else 0)"
      "u' = u\<lparr>uid := ctx_id s,
        dma_addr := (if is_iova_zero u = FIXED_IOVA_AT_ZERO then 0 else m_sg_dma_address e)\<rparr>"
      "smmu_table s1 = hash_add hash (new_entry e u v s) (smmu_table s)"
      "ctx_id s1 = wrap32 (ctx_id s + 1)" "next_node s1 = Suc (next_node s)"
      "reserved_at w search (dsz (m_dma_buf_get e)) u v s s1" "file_refs s1 = file_refs s"
      "mapped_sgt e u \<noteq> 0"
    by (metis option.inject)
  let ?x = "new_entry e u v s" and ?p = "m_dma_buf_get e"
  have x: "sm_id ?x = ctx_id s" "sm_node ?x = next_node s" "dmabuf_ptr ?x = ?p"
    "dmabufattach ?x = m_attach e" "sgt_ptr ?x = mapped_sgt e u"
    by (simp_all add: new_entry_def map_entry_def)
  have u': "uid u' = ctx_id s" "ptselect u' = ptselect u" "vfio_fd u' = vfio_fd u"
    "privileged u' = privileged u" "is_iova_zero u' = is_iova_zero u"
    "gpu_table u \<longrightarrow> dma_addr u' = msi_iova (cookies s1 (cookie_of w v))"
    using ok(3) iova by (auto simp: privileged_def)
  have inv1: "ids_inv hash s1"
    by (rule table_hash.ids_add [OF hash inv x(1,2) ok(4-6)])
  have "?x \<in> set (hash_entries (smmu_table s1))"
    by (simp add: ok(4) table_hash.entries_hash_add [OF hash])
  from table_hash.ids_find [OF hash inv1 this, of "\<lambda>_. True"] u'(1) x(1)
  have find: "hash_find hash (\<lambda>_. True) (uid u') (smmu_table s1) = Some ?x" by simp
  from reserved_cleared [OF ok(7) search small u'(6,2)] obtain sc where
    sc: "unmap_clear (dsz (dmabuf_ptr ?x)) u' s1 = Some sc" "global_map (pt sc) = global_map (pt s)"
      "perprocess_map (pt sc) = perprocess_map (pt s)" by (auto simp: x)
  have pre: "0 \<le> uid u'" "dmabuf_ptr ?x \<noteq> 0" "dmabufattach ?x \<noteq> 0" "device_ready w (vfio_fd u') v"
    "unmap_env_ok e2 u' (dsz (dmabuf_ptr ?x))" "\<not> privileged u' \<longrightarrow> sgt_ptr ?x \<noteq> 0"
    using inv ok(1,9) att dev env(1) by (simp_all add: x u' ids_inv_def IS_ERR_OR_NULL_def unmap_env_ok_def)
  have same: "count_list (unmap_resources w e2 u' ?x v) r = count_list (map_resources w e u v) r" for r
    using env(2) by (simp add: unmap_resources_def map_resources_def x u' mapped_sgt_def)
  from unmap_success [where dsz = dsz, OF find pre(1-3) sc(1) pre(4-6)] sc(2,3) ok(2,8)
    table_hash.add_del_entries [OF hash inv(1) x(2)]
  show ?thesis by (auto simp: same ok(4))
qed

section \<open>How requests change the table\<close>

definition table_kept :: "'a map_st_scheme \<Rightarrow> 'a map_st_scheme \<Rightarrow> bool" where
  "table_kept s s' \<longleftrightarrow>
     smmu_table s' = smmu_table s \<and> ctx_id s' = ctx_id s \<and> next_node s' = next_node s"

definition table_added :: "(int \<Rightarrow> nat) \<Rightarrow> 'a map_st_scheme \<Rightarrow> 'a map_st_scheme \<Rightarrow> bool" where
  "table_added hash s s' \<longleftrightarrow> (\<exists>x. sm_id x = ctx_id s \<and> sm_node x = next_node s
     \<and> smmu_table s' = hash_add hash x (smmu_table s) \<and> ctx_id s' = wrap32 (ctx_id s + 1)
     \<and> next_node s' = Suc (next_node s))"

definition table_deleted :: "'a map_st_scheme \<Rightarrow> 'a map_st_scheme \<Rightarrow> bool" where
  "table_deleted s s' \<longleftrightarrow> (\<exists>n. smmu_table s' = hash_del n (smmu_table s) \<and> ctx_id s' = ctx_id s
     \<and> next_node s' = next_node s)"

lemmas table_change_defs = table_kept_def table_added_def table_deleted_def

lemma map_record_table:
  assumes "map_record hash e u f v p a sgt dir s = Some (ret, out, s')"
  shows "table_kept s s' \<or> table_added hash s s'"
proof (cases "m_kzalloc2 e")
  case True
  let ?x = "map_entry u v p a sgt dir s"
  have "sm_id ?x = ctx_id s" "sm_node ?x = next_node s"
    "map_entry u v p a sgt dir (acquire SmapObj s) = ?x"
    by (simp_all add: map_entry_def)
  with assms True show ?thesis
    unfolding table_change_defs
    by (auto simp: map_record_def Let_def fail_detach_def fail_put_def fail_fput_def split: if_splits)
next
  case False
  with assms show ?thesis by (auto simp: map_record_def fail_fput_def table_kept_def)
qed

lemma table_added_cong:
  assumes "table_kept s t" "table_kept t t' \<or> table_added hash t t'"
  shows "table_kept s t' \<or> table_added hash s t'"
  using assms by (auto simp: table_change_defs)

lemma map_attached_table:
  assumes "map_attached w hash e u f v p s = Some (ret, out, s')"
  shows "table_kept s s' \<or> table_added hash s s'"
proof (cases "map_sg w e u v (m_attach e) (acquire (Attachment (m_attach e)) s)")
  case (Some y)
  then obtain x s2 where sg: "map_sg w e u v (m_attach e) (acquire (Attachment (m_attach e)) s) = Some (x, s2)"
    by (cases y) auto
  have kept: "table_kept s s2" using map_sg_fields [OF sg] by (simp add: table_kept_def)
  note exits = fail_detach_def fail_put_def fail_fput_def
  show ?thesis
  proof (cases "\<exists>sgt. x = Mapped sgt \<and> \<not> IS_ERR (m_attach e)
      \<and> \<not> (dma_direction u < DMA_BIDIRECTIONAL \<or> dma_direction u > DMA_NONE)")
    case True
    with assms sg obtain sgt dir where "map_record hash e u f v p (m_attach e) sgt dir s2 = Some (ret, out, s')"
      by (auto simp: map_attached_def Let_def)
    from table_added_cong [OF kept map_record_table [OF this]] show ?thesis .
  next
    case False
    with assms sg kept have "table_kept s s'"
      by (auto simp: map_attached_def Let_def exits table_kept_def split: if_splits map_exit.splits)
    then show ?thesis ..
  qed
next
  case None
  with assms show ?thesis
    by (auto simp: map_attached_def Let_def fail_detach_def fail_put_def fail_fput_def table_kept_def
        split: if_splits)
qed

lemma map_found_table:
  assumes "map_found w hash search dsz e u f v s = Some (ret, out, s')"
  shows "table_kept s s' \<or> table_added hash s s'"
proof (cases "IS_ERR_OR_NULL (m_dma_buf_get e)")
  case True
  with assms show ?thesis
    by (auto simp: map_found_def Let_def fail_fput_def table_kept_def split: if_splits)
next
  case False
  with assms obtain r1 s1 where iova: "map_set_iova w search (dsz (m_dma_buf_get e)) u v
      (acquire (DmaBufRef (m_dma_buf_get e)) s) = Some (r1, s1)"
    by (auto simp: map_found_def Let_def split: option.splits)
  have kept: "table_kept s s1" using map_set_iova_fields [OF iova] by (simp add: table_kept_def)
  show ?thesis
  proof (cases "r1 < 0 \<or> w_dev w v = 0")
    case True
    with assms False iova kept have "table_kept s s'"
      by (auto simp: map_found_def Let_def fail_put_def fail_fput_def table_kept_def split: if_splits)
    then show ?thesis ..
  next
    case ok: False
    with assms False iova have "map_attached w hash e u f v (m_dma_buf_get e) s1 = Some (ret, out, s')"
      by (simp add: map_found_def Let_def)
    from table_added_cong [OF kept map_attached_table [OF this]] show ?thesis .
  qed
qed

lemma map_table:
  assumes "kiumd_dmabuf_vfio_map w hash search dsz e arg s = Some (ret, out, s')"
  shows "table_kept s s' \<or> table_added hash s s'"
proof (cases "m_kzalloc1 e \<and> arg \<noteq> None")
  case True
  then obtain u where u: "arg = Some u" by blast
  with assms True obtain x s1 where
    r: "vfio_file_device w EINVAL (vfio_fd u) (acquire SmapObj s) = Some (x, s1)"
    by (auto simp: kiumd_dmabuf_vfio_map_def Let_def split: option.splits)
  show ?thesis
  proof (cases x)
    case (Inl err)
    with assms True u r have "s' = s1" by (simp add: kiumd_dmabuf_vfio_map_def Let_def)
    with vfio_device_map_fields(1) [OF r [unfolded Inl]] show ?thesis
      by (simp add: table_kept_def)
  next
    case (Inr fd)
    then obtain f v where x: "x = Inr (f, v)" by (cases fd) auto
    with assms True u r have found: "map_found w hash search dsz e u f v s1 = Some (ret, out, s')"
      by (simp add: kiumd_dmabuf_vfio_map_def Let_def)
    have "table_kept s s1" using vfio_device_map_fields(2) [OF r [unfolded x]] by (simp add: table_kept_def)
    from table_added_cong [OF this map_found_table [OF found]] show ?thesis .
  qed
next
  case False
  with assms show ?thesis
    by (auto simp: kiumd_dmabuf_vfio_map_def table_kept_def split: if_splits option.splits)
qed

lemma iommu_domain_state: "kiumd_get_iommu_domain w fd s = Some (d, s') \<Longrightarrow> s' = s"
  by (auto simp: kiumd_get_iommu_domain_def get_vfio_device_eq split: if_splits option.splits)

lemma unmap_sg_table:
  "unmap_sg w sz e u x s = Some (ret, s') \<Longrightarrow> table_kept s s'"
  by (auto simp: unmap_sg_def do_fget_def Let_def table_kept_def
      split: if_splits option.splits dest!: iommu_domain_state)

lemma unmap_table:
  assumes "kiumd_dmabuf_vfio_unmap w hash dsz e arg s = Some (ret, s')"
  shows "table_kept s s' \<or> table_deleted s s'"
proof (cases "\<exists>u x s1 s2. arg = Some u \<and> hash_find hash (\<lambda>_. True) (uid u) (smmu_table s) = Some x
    \<and> unmap_clear (dsz (dmabuf_ptr x)) u s = Some s1
    \<and> unmap_sg w (dsz (dmabuf_ptr x)) e u x s1 = Some (0, s2)")
  case True
  then obtain u x s1 s2 where u: "arg = Some u"
    and x: "hash_find hash (\<lambda>_. True) (uid u) (smmu_table s) = Some x"
    and s1: "unmap_clear (dsz (dmabuf_ptr x)) u s = Some s1"
    and s2: "unmap_sg w (dsz (dmabuf_ptr x)) e u x s1 = Some (0, s2)" by blast
  have kept: "table_kept s s1"
    using s1 by (auto simp: unmap_clear_def table_kept_def split: if_splits)
  have flush: "unmap_flush w u s2 = Some (r, s3) \<Longrightarrow> s3 = s2" for r s3
    by (auto simp: unmap_flush_def split: if_splits option.splits dest: iommu_domain_state)
  have kept2: "table_kept s s2" using kept unmap_sg_table [OF s2] by (simp add: table_kept_def)
  have "s' = s \<or> s' = s2 \<or> s' = release (DmaBufRef (dmabuf_ptr x)) (release (Attachment (dmabufattach x))
      (del_entry x s2))"
    using assms u x s1 s2 flush unfolding kiumd_dmabuf_vfio_unmap_def Let_def
    by (auto split: if_splits option.splits)
  moreover have "table_deleted s (release (DmaBufRef (dmabuf_ptr x)) (release (Attachment (dmabufattach x))
      (del_entry x s2)))"
    using kept2 by (auto simp: table_kept_def table_deleted_def)
  ultimately show ?thesis using kept2 by (auto simp: table_kept_def)
next
  case False
  have s1: "unmap_clear sz u s = Some t \<Longrightarrow> table_kept s t" for sz u t
    by (auto simp: unmap_clear_def table_kept_def split: if_splits)
  from False assms show ?thesis
    unfolding kiumd_dmabuf_vfio_unmap_def Let_def
    by (auto simp: table_kept_def split: if_splits option.splits prod.splits
        dest!: s1 unmap_sg_table)
qed

lemma mmio_map_table:
  assumes "kiumd_mmio_smmu_map w hash e arg s = Some (ret, out, s')"
  shows "table_kept s s' \<or> table_added hash s s'
     \<or> (\<exists>t. table_added hash s t \<and> table_deleted t s')"
proof -
  have finish: "table_added hash s s' \<or> (\<exists>t. table_added hash s t \<and> table_deleted t s')"
    if "mmio_finish hash e m dev sz t = Some (ret, out, s')" "smmu_table t = smmu_table s"
      "ctx_id t = ctx_id s" "next_node t = next_node s" for m dev sz t
  proof -
    let ?x = "mmio_entry \<lparr>mc_dev = dev, mc_iova = x_dma_map_resource e, mc_size = sz\<rparr> t"
    have added: "table_added hash s (add_entry hash ?x t)"
      using that(2-4) unfolding table_change_defs by (intro exI [of _ ?x]) (simp add: mmio_entry_def)
    have "table_kept (add_entry hash ?x t) s' \<or> table_deleted (add_entry hash ?x t) s'"
      using that(1) unfolding table_change_defs
      by (auto simp: mmio_finish_def Let_def split: if_splits)
    then show ?thesis
    proof
      assume "table_kept (add_entry hash ?x t) s'"
      with added have "table_added hash s s'" by (simp add: table_added_def table_kept_def)
      then show ?thesis ..
    qed (use added in blast)
  qed
  show ?thesis
  proof (cases arg)
    case (Some m)
    with assms show ?thesis
      by (auto simp: kiumd_mmio_smmu_map_def get_vfio_device_eq get_dma_cookie_eq Let_def reg_free_def
          table_kept_def split: if_splits option.splits dest!: finish)
  qed (use assms in \<open>simp add: kiumd_mmio_smmu_map_def table_kept_def\<close>)
qed

lemma mmio_unmap_table:
  assumes "kiumd_mmio_smmu_unmap hash arg s = (ret, s')"
  shows "table_kept s s' \<or> table_deleted s s'"
  using assms
  by (auto simp: kiumd_mmio_smmu_unmap_def table_change_defs split: option.splits if_splits)

context table_hash
begin

lemma ids_changes:
  assumes "ids_inv hash s" "ctx_id s < 2147483647"
    and "table_kept s s' \<or> table_added hash s s' \<or> table_deleted s s'
         \<or> (\<exists>t. table_added hash s t \<and> table_deleted t s')"
  shows "ids_inv hash s' \<and> ctx_id s' \<le> ctx_id s + 1"
proof -
  have id: "wrap32 (ctx_id s + 1) = ctx_id s + 1"
    using assms(1,2) by (simp add: ids_inv_def)
  have added: "ids_inv hash t \<and> ctx_id t = ctx_id s + 1" if "table_added hash s t" for t
    using that ids_add [OF assms(1,2)] id unfolding table_added_def by metis
  have deleted: "ids_inv hash t' \<and> ctx_id t' = ctx_id t"
    if "table_deleted t t'" "ids_inv hash t" for t t'
    using that ids_del unfolding table_deleted_def by metis
  have kept: "ids_inv hash s' \<and> ctx_id s' = ctx_id s" if "table_kept s s'"
    using that assms(1) by (simp add: table_kept_def ids_inv_def)
  from assms(3) show ?thesis
    using kept added deleted assms(1) by (elim disjE exE conjE) fastforce+
qed

end

section \<open>Register mappings\<close>

text \<open>A request that gets past its checks and allocations, and one whose mapping then works.\<close>

definition mmio_reached :: "world \<Rightarrow> mmio_env \<Rightarrow> kiumd_smmu_mmio_map option \<Rightarrow> 'a map_st_scheme \<Rightarrow> bool" where
  "mmio_reached w e arg s \<longleftrightarrow> (\<exists>m. arg = Some m \<and> cookie_of w (vfio_device_of w (mm_vfio_fd m)) \<noteq> 0
     \<and> \<not> iova_in_use m (smmu_table s)) \<and> x_kzalloc_smap e \<and> x_kzalloc_ctx e"

definition mmio_works :: "mmio_env \<Rightarrow> bool" where
  "mmio_works e \<longleftrightarrow> x_strndup_user e \<and> x_is_platform e \<and> x_resource e \<noteq> None \<and> x_mapping_error e = 0"

definition mmio_held :: "mmio_env \<Rightarrow> ptr \<Rightarrow> resource \<Rightarrow> int" where
  "mmio_held e dev r = (if r = SmapObj \<or> r = MmioObj \<or> r = MmioMap dev (x_dma_map_resource e) then 1 else 0)"

lemma mmio_map_spec:
  "\<exists>ret out s'. kiumd_mmio_smmu_map w hash e arg s = Some (ret, out, s') \<and> file_refs s' = file_refs s
     \<and> (out \<noteq> None \<longleftrightarrow> mmio_reached w e arg s \<and> mmio_works e \<and> x_copy_to_user e)
     \<and> (\<forall>m'. out = Some m' \<longrightarrow> ret = 0 \<and> mm_id m' = ctx_id s \<and> mm_iova m' = x_dma_map_resource e
          \<and> (\<exists>m. arg = Some m \<and> (\<forall>r. held s' r = held s r +
                mmio_held e (w_dev w (vfio_device_of w (mm_vfio_fd m))) r)))
     \<and> (out = None \<longrightarrow> (\<forall>r. held s' r = held s r +
          (if r = MmioObj \<and> mmio_reached w e arg s \<and> \<not> mmio_works e then 1 else 0)))
     \<and> (\<forall>c. cookie_mutex (cookies s' c) \<longrightarrow> cookie_mutex (cookies s c))"
proof (cases arg)
  case (Some m)
  let ?v = "vfio_device_of w (mm_vfio_fd m)"
  show ?thesis
  proof (cases "mmio_reached w e arg s")
    case True
    then have ok: "cookie_of w ?v \<noteq> 0" "\<not> iova_in_use m (smmu_table s)" "x_kzalloc_smap e" "x_kzalloc_ctx e"
      by (auto simp: mmio_reached_def Some)
    then have v: "?v \<noteq> 0" by (auto simp: cookie_of_def split: if_splits)
    show ?thesis
    proof (cases "mmio_works e")
      case works: True
      with True ok v show ?thesis
        by (auto simp: kiumd_mmio_smmu_map_def get_vfio_device_eq get_dma_cookie_eq Let_def Some
            mmio_works_def mmio_finish_def mmio_entry_def mmio_held_def split: if_splits)
    next
      case False
      with True ok v show ?thesis
        by (auto simp: kiumd_mmio_smmu_map_def get_vfio_device_eq get_dma_cookie_eq Let_def Some
            mmio_works_def reg_free_def split: if_splits option.splits)
    qed
  next
    case False
    then show ?thesis
      by (auto simp: kiumd_mmio_smmu_map_def get_vfio_device_eq get_dma_cookie_eq Let_def Some
          mmio_reached_def cookie_of_def split: if_splits)
  qed
qed (simp add: kiumd_mmio_smmu_map_def mmio_reached_def)

section \<open>Closing\<close>

definition gpu_entry :: "smmu_map_data \<Rightarrow> bool" where
  "gpu_entry x \<longleftrightarrow> dmabuf_ptr x \<noteq> 0 \<and> (sm_ptselect x = KGSL_GLOBAL_PT
     \<or> sm_ptselect x = KGSL_PER_PROCESS_PT \<or> sm_ptselect x = KGSL_DEFAULT_PT)"

text \<open>What closing an entry gives back.\<close>

definition close_resources :: "world \<Rightarrow> smmu_map_data \<Rightarrow> resource list" where
  "close_resources w x = (if gpu_entry x then [] else SmapObj #
     (if dmabuf_ptr x = 0 then []
      else [DmaBufRef (dmabuf_ptr x), Attachment (dmabufattach x)]
        @ (if dmabufattach x \<noteq> 0 \<and> sgt_ptr x \<noteq> 0 then [AttachMap (dmabufattach x) (sgt_ptr x)] else [])
        @ (if sm_is_iova_zero x = FIXED_IOVA_AT_ZERO then [IovaZeroMap (device_domain w (sm_vfio_dev x))]
           else []))) @
     (case sm_context x of None \<Rightarrow> [] | Some c \<Rightarrow> [MmioObj, MmioMap (mc_dev c) (mc_iova c)])"

text \<open>The devices still exist, and \<open>iommu_unmap\<close> unmaps what it is asked to.\<close>

definition closable :: "world \<Rightarrow> (ptr \<Rightarrow> u64) \<Rightarrow> (ptr \<Rightarrow> u64) \<Rightarrow> smmu_map_data \<Rightarrow> bool" where
  "closable w dsz e_unmap x \<longleftrightarrow> dmabuf_ptr x = 0 \<or>
     sm_vfio_dev x \<noteq> 0 \<and> w_dev w (sm_vfio_dev x) \<noteq> 0 \<and> device_domain w (sm_vfio_dev x) \<noteq> 0
     \<and> (sm_is_iova_zero x = FIXED_IOVA_AT_ZERO \<longrightarrow>
          scast (ucast (e_unmap (dmabuf_ptr x)) :: u32) = dsz (dmabuf_ptr x))"

lemma hash_del_entries:
  "hash_entries (hash_del n t) = filter (\<lambda>x. sm_node x \<noteq> n) (hash_entries t)"
  by (simp add: hash_entries_def hash_del_def filter_concat comp_def)

definition close_mmio :: "smmu_map_data \<Rightarrow> 'a map_st_scheme \<Rightarrow> 'a map_st_scheme" where
  "close_mmio x s = (case sm_context x of None \<Rightarrow> s
     | Some c \<Rightarrow> release MmioObj (release (MmioMap (mc_dev c) (mc_iova c)) s))"

lemma close_mmio_fields [simp]:
  "file_refs (close_mmio x s) = file_refs s" "smmu_table (close_mmio x s) = smmu_table s"
  "held (close_mmio x s) r = held s r - int (count_list
     (case sm_context x of None \<Rightarrow> [] | Some c \<Rightarrow> [MmioObj, MmioMap (mc_dev c) (mc_iova c)]) r)"
  by (auto simp: close_mmio_def split: option.splits)

lemma close_entry_spec:
  assumes "closable w dsz e_unmap x"
  shows "\<exists>s'. close_entry w dsz e_unmap x s = Some s' \<and> file_refs s' = file_refs s
     \<and> (\<forall>r. held s' r = held s r - int (count_list (close_resources w x) r))
     \<and> smmu_table s' = (if gpu_entry x then smmu_table s else hash_del (sm_node x) (smmu_table s))"
proof -
  have eq: "close_entry w dsz e_unmap x s =
     (let s = close_mmio x s in if dmabuf_ptr x = 0 then Some (del_entry x s)
      else if sm_vfio_dev x = 0 then None
      else (case kiumd_iommu_get_dma_domain w (w_dev w (sm_vfio_dev x)) of
           None \<Rightarrow> None
         | Some dm \<Rightarrow>
             if dm = 0 \<or> gpu_entry x then Some s
             else
               let s = (if dmabufattach x \<noteq> 0 \<and> sgt_ptr x \<noteq> 0
                        then release (AttachMap (dmabufattach x) (sgt_ptr x)) s else s) in
               if sm_is_iova_zero x = FIXED_IOVA_AT_ZERO
                  \<and> scast (ucast (e_unmap (dmabuf_ptr x)) :: u32) \<noteq> dsz (dmabuf_ptr x) then Some s
               else
                 let s = (if sm_is_iova_zero x = FIXED_IOVA_AT_ZERO
                          then release (IovaZeroMap dm) s else s) in
                 Some (del_entry x (release (DmaBufRef (dmabuf_ptr x))
                   (release (Attachment (dmabufattach x)) s)))))"
    unfolding close_entry_def close_mmio_def [symmetric] Let_def
    by (cases "dmabuf_ptr x = 0 \<or> sm_vfio_dev x = 0"; cases "kiumd_iommu_get_dma_domain w (w_dev w (sm_vfio_dev x))")
      (simp_all add: gpu_entry_def)
  show ?thesis
  proof (cases "dmabuf_ptr x = 0")
    case True
    then show ?thesis by (simp add: eq Let_def close_resources_def gpu_entry_def)
  next
    case False
    with assms have dm: "sm_vfio_dev x \<noteq> 0" "w_dev w (sm_vfio_dev x) \<noteq> 0" "device_domain w (sm_vfio_dev x) \<noteq> 0"
      and whole: "sm_is_iova_zero x = FIXED_IOVA_AT_ZERO \<Longrightarrow>
        scast (ucast (e_unmap (dmabuf_ptr x)) :: u32) = dsz (dmabuf_ptr x)"
      by (auto simp: closable_def)
    show ?thesis
    proof (cases "gpu_entry x")
      case True
      with False dm show ?thesis
        by (simp add: eq Let_def close_resources_def get_dma_domain_eq)
    next
      case gpu: False
      with False dm whole show ?thesis
        by (cases "sm_is_iova_zero x = FIXED_IOVA_AT_ZERO")
          (simp_all add: eq Let_def close_resources_def get_dma_domain_eq)
    qed
  qed
qed

lemma close_entries_spec:
  assumes "\<forall>x \<in> set xs. closable w dsz e_unmap x"
  shows "\<exists>s'. close_entries w dsz e_unmap xs s = Some s' \<and> file_refs s' = file_refs s
     \<and> (\<forall>r. held s' r = held s r - int (\<Sum>x \<leftarrow> xs. count_list (close_resources w x) r))
     \<and> hash_entries (smmu_table s') =
         filter (\<lambda>y. \<forall>x \<in> set xs. gpu_entry x \<or> sm_node x \<noteq> sm_node y) (hash_entries (smmu_table s))"
  using assms
proof (induction xs arbitrary: s)
  case (Cons x xs)
  from Cons.prems close_entry_spec obtain s1 where
    s1: "close_entry w dsz e_unmap x s = Some s1" "file_refs s1 = file_refs s"
      "\<And>r. held s1 r = held s r - int (count_list (close_resources w x) r)"
      "smmu_table s1 = (if gpu_entry x then smmu_table s else hash_del (sm_node x) (smmu_table s))"
    by fastforce
  from Cons.IH [of s1] Cons.prems obtain s' where
    "close_entries w dsz e_unmap xs s1 = Some s'" "file_refs s' = file_refs s1"
    "\<And>r. held s' r = held s1 r - int (\<Sum>x \<leftarrow> xs. count_list (close_resources w x) r)"
    "hash_entries (smmu_table s') =
         filter (\<lambda>y. \<forall>x \<in> set xs. gpu_entry x \<or> sm_node x \<noteq> sm_node y) (hash_entries (smmu_table s1))"
    by auto
  with s1 show ?case
    by (auto simp: hash_del_entries intro!: filter_cong)
qed simp

end
