(* ===== verification/KiumdRequests.thy ===== *)
theory KiumdRequests
  imports KiumdMap
begin


section \<open>Runs of requests\<close>





lemma hash_entries_empty [simp]: "hash_entries empty_table = []"
  by (simp add: hash_entries_def empty_table_def)

lemma ids_inv_empty: "ctx_id s = 0 \<Longrightarrow> smmu_table s = empty_table \<Longrightarrow> ids_inv hash s"
  by (simp add: ids_inv_def entries_unique_def)



lemma close_table_spec:
  assumes "\<forall>x \<in> set (hash_entries (smmu_table s)). closable w dsz e_unmap x"
    and "distinct (map sm_node (hash_entries (smmu_table s)))"
  shows "\<exists>s'. kiumd_close_table w dsz e_unmap s = Some s' \<and> file_refs s' = file_refs s
     \<and> (\<forall>r. held s' r = held s r -
          int (\<Sum>x \<leftarrow> hash_entries (smmu_table s). count_list (close_resources w x) r))
     \<and> hash_entries (smmu_table s') = filter gpu_entry (hash_entries (smmu_table s))"
proof -
  from close_entries_spec [OF assms(1), of s] obtain s' where
    s': "kiumd_close_table w dsz e_unmap s = Some s'" "file_refs s' = file_refs s"
      "\<forall>r. held s' r = held s r - int (\<Sum>x \<leftarrow> hash_entries (smmu_table s). count_list (close_resources w x) r)"
      "hash_entries (smmu_table s') = filter (\<lambda>y. \<forall>x \<in> set (hash_entries (smmu_table s)).
          gpu_entry x \<or> sm_node x \<noteq> sm_node y) (hash_entries (smmu_table s))"
    by (auto simp: kiumd_close_table_def)
  have "(\<forall>x \<in> set (hash_entries (smmu_table s)). gpu_entry x \<or> sm_node x \<noteq> sm_node y) \<longleftrightarrow> gpu_entry y"
    if "y \<in> set (hash_entries (smmu_table s))" for y
    using that assms(2) by (auto simp: distinct_map inj_on_def)
  then have "hash_entries (smmu_table s') = filter gpu_entry (hash_entries (smmu_table s))"
    unfolding s'(4) by (intro filter_cong) auto
  with s' show ?thesis by blast
qed

text \<open>Closing the context releases what its entries hold. When every device still exists and
  \<open>iommu_unmap\<close> unmaps what it is asked to, the loop over the table never crashes, gives back exactly
  the buffers, attachments, mappings and structures of the entries, and leaves in the table only the
  entries of GPU page tables, of which it gives back nothing but a register mapping.\<close>

theorem close_releases_entries:
  assumes "\<forall>x \<in> set (hash_entries (smmu_table s)). closable w dsz e_unmap x"
    and "distinct (map sm_node (hash_entries (smmu_table s)))"
  shows "\<exists>s'. kiumd_close_table w dsz e_unmap s = Some s' \<and> file_refs s' = file_refs s
     \<and> (\<forall>r. held s' r = held s r -
          int (\<Sum>x \<leftarrow> hash_entries (smmu_table s). count_list (close_resources w x) r))
     \<and> hash_entries (smmu_table s') = filter gpu_entry (hash_entries (smmu_table s))"
  using assms by (rule close_table_spec)

section \<open>Examples\<close>

definition example_ctx :: map_st where
  "example_ctx = \<lparr>kiumd_xa = [], kiumd_xa_mutex = False, dmabuf_refs = (\<lambda>_. 0), handle_objs = 0,
     file_refs = (\<lambda>_. 0),
     cookies = (\<lambda>_. \<lparr>ctype = IOMMU_DMA_IOVA_COOKIE, msi_iova = 0, cookie_mutex = False\<rparr>),
     domains = domains example_smmu, smmus = smmus example_smmu, pgtbls = pgtbls example_smmu,
     pgtable = None, reg_writes = [], smmu_list = [], kobj_names = Map.empty, next_kobj = 0,
     device_obj = None, handler_token = Map.empty, notified = [], ctx_id = 0,
     smmu_table = empty_table, next_node = 0, pt = init_maps, held = (\<lambda>_. 0)\<rparr>"

definition example_map_env :: map_env where
  "example_map_env = \<lparr>m_kzalloc1 = True, m_dma_buf_get = 0x1000, m_attach = 0x2000, m_priv = 0,
     m_table = 0, m_dma_map_sgtable = 0, m_attach_dmabuf = 0x1000, m_map_attachment = 0x3000,
     m_kzalloc2 = True, m_sg_dma_address = 0x80000000, m_copy_to_user = True\<rparr>"

definition example_map_user :: kiumd_user where
  "example_map_user = user0\<lparr>vfio_fd := 3\<rparr>"

definition example_mapped :: "map_env \<Rightarrow> kiumd_user \<Rightarrow> (int \<times> kiumd_user option \<times> map_st) option" where
  "example_mapped e u = kiumd_dmabuf_vfio_map example_world mod_hash reference_search (\<lambda>_. 0x1000) e
     (Some u) example_ctx"

lemmas example_map_defs = example_mapped_def example_map_env_def example_map_user_def example_ctx_def
  example_world_def user0_def

lemmas map_eval = kiumd_dmabuf_vfio_map_def map_found_def map_set_iova_def map_attached_def map_sg_def
  map_record_def vfio_file_device_def do_fget_def fput_def add_entry_def map_entry_def acquire_def
  release_def fail_fput_def fail_put_def fail_detach_def IS_ERR_OR_NULL_def IS_ERR_def Let_def

lemma example_mapped_ok: "\<exists>u' s1. example_mapped example_map_env example_map_user = Some (0, Some u', s1)"
  by (simp add: example_map_defs map_eval)

lemma example_ids: "ids_inv mod_hash example_ctx"
  by (rule ids_inv_empty) (simp_all add: example_ctx_def)

text \<open>C3: Unmapping undoes mapping. After a successful map request, the unmap request that is given
  the returned structure succeeds and restores the ledger, the table, both GPU bitmaps and the file
  references, but for the structure that every map request allocates first and never uses; for a
  GPU page table this needs the address the IOMMU reports to be the one reserved.\<close>

theorem map_unmap_roundtrip:
  assumes "table_hash hash" "zero_area_search search" "ids_inv hash s" "ctx_id s < 2147483647"
    and "kiumd_dmabuf_vfio_map w hash search dsz e (Some u) s = Some (0, Some u', s1)"
    and "page_count (dsz (m_dma_buf_get e)) < 4294967296" "device_ready w (vfio_fd u) v" "m_attach e \<noteq> 0"
    and "gpu_table u \<longrightarrow> is_iova_zero u \<noteq> FIXED_IOVA_AT_ZERO
           \<and> m_sg_dma_address e = msi_iova (cookies s1 (cookie_of w v))"
    and "unmap_env_ok e2 u (dsz (m_dma_buf_get e))" "privileged u \<longrightarrow> u_table e2 = m_table e"
  shows "\<exists>s2. kiumd_dmabuf_vfio_unmap w hash dsz e2 (Some u') s1 = Some (0, s2)
     \<and> (\<forall>r. held s2 r = held s r + (if r = SmapObj then 1 else 0))
     \<and> mset (hash_entries (smmu_table s2)) = mset (hash_entries (smmu_table s))
     \<and> global_map (pt s2) = global_map (pt s) \<and> perprocess_map (pt s2) = perprocess_map (pt s)
     \<and> file_refs s2 = file_refs s"
  using assms by (rule map_unmap_restores)

definition example_unmap_env :: unmap_env where
  "example_unmap_env = \<lparr>u_priv = 1, u_table = 1, u_iommu_unmap = 0x1000\<rparr>"

theorem map_unmap_roundtrip_witness:
  "\<exists>u' s1 s2. example_mapped example_map_env example_map_user = Some (0, Some u', s1)
     \<and> kiumd_dmabuf_vfio_unmap example_world mod_hash (\<lambda>_. 0x1000) example_unmap_env (Some u') s1
          = Some (0, s2) \<and> (\<forall>r. held s2 r = (if r = SmapObj then 1 else 0))"
proof -
  obtain u' s1 where m: "example_mapped example_map_env example_map_user = Some (0, Some u', s1)"
    using example_mapped_ok by blast
  have "\<exists>s2. kiumd_dmabuf_vfio_unmap example_world mod_hash (\<lambda>_. 0x1000) example_unmap_env (Some u') s1
          = Some (0, s2)
     \<and> (\<forall>r. held s2 r = held example_ctx r + (if r = SmapObj then 1 else 0))
     \<and> mset (hash_entries (smmu_table s2)) = mset (hash_entries (smmu_table example_ctx))
     \<and> global_map (pt s2) = global_map (pt example_ctx)
     \<and> perprocess_map (pt s2) = perprocess_map (pt example_ctx)
     \<and> file_refs s2 = file_refs example_ctx"
    by (rule map_unmap_roundtrip [OF mod_table.table_hash_axioms ref.zero_area_search_axioms example_ids _
          m [unfolded example_mapped_def], where v = "0x300"])
      (simp_all add: example_map_defs example_unmap_env_def device_ready_def vfio_device_of_def
        device_domain_def gpu_table_def unmap_env_ok_def privileged_def page_count_def)
  with m show ?thesis by (auto simp: example_ctx_def)
qed



text \<open>A register mapping is all or nothing except for its context structure. For every request,
  state and answer of the kernel, the request never crashes; it succeeds exactly when its checks pass
  and every kernel call works, returns a fresh id and the mapped address, and holds exactly the entry,
  the context and the mapping; otherwise it holds nothing more than before, except the context
  structure when a step between its allocation and the mapping fails. No cookie stays locked.\<close>

theorem mmio_map_ledger:
  "\<exists>ret out s'. kiumd_mmio_smmu_map w hash e arg s = Some (ret, out, s') \<and> file_refs s' = file_refs s
     \<and> (out \<noteq> None \<longleftrightarrow> mmio_reached w e arg s \<and> mmio_works e \<and> x_copy_to_user e)
     \<and> (\<forall>m'. out = Some m' \<longrightarrow> ret = 0 \<and> mm_id m' = ctx_id s \<and> mm_iova m' = x_dma_map_resource e
          \<and> (\<exists>m. arg = Some m \<and> (\<forall>r. held s' r = held s r +
                mmio_held e (w_dev w (vfio_device_of w (mm_vfio_fd m))) r)))
     \<and> (out = None \<longrightarrow> (\<forall>r. held s' r = held s r +
          (if r = MmioObj \<and> mmio_reached w e arg s \<and> \<not> mmio_works e then 1 else 0)))
     \<and> (\<forall>c. cookie_mutex (cookies s' c) \<longrightarrow> cookie_mutex (cookies s c))"
  by (rule mmio_map_spec)

definition example_mmio_env :: mmio_env where
  "example_mmio_env = \<lparr>x_kzalloc_smap = True, x_kzalloc_ctx = True, x_strndup_user = True,
     x_is_platform = True, x_resource = Some (0x5000, 0x1000), x_dma_map_resource = 0xA000,
     x_mapping_error = 0, x_uninitialised = 7, x_copy_to_user = True\<rparr>"

definition example_mmio_user :: kiumd_smmu_mmio_map where
  "example_mmio_user = \<lparr>fixed_iova = 1, mm_vfio_fd = 3, mm_id = 0, mm_iova = 0xA000, reg_len = 0,
     reg_name = 0\<rparr>"

lemma example_reached: "mmio_reached example_world example_mmio_env (Some example_mmio_user) example_ctx"
  by (simp add: mmio_reached_def example_mmio_user_def example_mmio_env_def cookie_of_def
      vfio_device_of_def example_world_def iova_in_use_def example_ctx_def)

theorem mmio_map_ledger_witness:
  "\<exists>m' s'. kiumd_mmio_smmu_map example_world mod_hash example_mmio_env (Some example_mmio_user) example_ctx
       = Some (0, Some m', s')
     \<and> mm_iova m' = 0xA000 \<and> held s' (MmioMap 0x400 0xA000) = 1 \<and> held s' RegName = 0"
proof -
  from mmio_map_ledger [of example_world mod_hash example_mmio_env "Some example_mmio_user" example_ctx]
  obtain ret out s' where r: "kiumd_mmio_smmu_map example_world mod_hash example_mmio_env
        (Some example_mmio_user) example_ctx = Some (ret, out, s')"
      "out \<noteq> None \<longleftrightarrow> mmio_works example_mmio_env \<and> x_copy_to_user example_mmio_env"
    and r3: "\<And>m'. out = Some m' \<Longrightarrow> ret = 0 \<and> mm_iova m' = x_dma_map_resource example_mmio_env
          \<and> (\<forall>r. held s' r = held example_ctx r + mmio_held example_mmio_env
                (w_dev example_world (vfio_device_of example_world (mm_vfio_fd example_mmio_user))) r)"
    by (simp add: example_reached) blast
  have "mmio_works example_mmio_env" "x_copy_to_user example_mmio_env"
    by (simp_all add: example_mmio_env_def mmio_works_def)
  with r(2) obtain m' where m': "out = Some m'" by blast
  show ?thesis
    using r(1) r3 [OF m'] m'
    by (simp add: example_mmio_env_def mmio_held_def example_world_def vfio_device_of_def
        example_mmio_user_def example_ctx_def)
qed


theorem close_releases_entries_witness:
  "\<exists>u' s1 s2. example_mapped example_map_env example_map_user = Some (0, Some u', s1)
     \<and> kiumd_close_table example_world (\<lambda>_. 0x1000) (\<lambda>_. 0x1000) s1 = Some s2
     \<and> held s2 (DmaBufRef 0x1000) = 0 \<and> held s2 (Attachment 0x2000) = 0
     \<and> held s2 (AttachMap 0x2000 0x3000) = 0 \<and> hash_entries (smmu_table s2) = []"
proof -
  obtain u' s1 where m: "example_mapped example_map_env example_map_user = Some (0, Some u', s1)"
    using example_mapped_ok by blast
  let ?x = "new_entry example_map_env example_map_user 0x300 example_ctx"
  have "smmu_table s1 = hash_add mod_hash ?x empty_table
     \<and> (\<forall>r. held s1 r = int (count_list (map_resources example_world example_map_env example_map_user 0x300) r)
          + (if r = SmapObj then 2 else 0))"
  proof (rule map_success [OF m [unfolded example_mapped_def]])
    fix u v
    assume u: "Some example_map_user = Some u"
      and v: "v = w_device example_world (w_private_data example_world (w_fget example_world (vfio_fd u)))"
      and tbl: "smmu_table s1 = hash_add mod_hash (new_entry example_map_env u v example_ctx) (smmu_table example_ctx)"
      and res: "\<And>r. held s1 r = held example_ctx r + int (count_list (map_resources example_world example_map_env u v) r)
          + (if r = SmapObj then 2 else 0)"
    from v have "v = 0x300" by (simp add: example_world_def)
    with u tbl res show ?thesis by (simp add: example_ctx_def)
  qed
  then have s1: "smmu_table s1 = hash_add mod_hash ?x empty_table"
    "\<And>r. held s1 r = int (count_list (map_resources example_world example_map_env example_map_user 0x300) r)
          + (if r = SmapObj then 2 else 0)" by simp_all
  have es: "hash_entries (smmu_table s1) = [?x]"
    using mod_table.buckets.entries_add [of ?x empty_table] by (simp add: s1(1))
  have x: "closable example_world (\<lambda>_. 0x1000) (\<lambda>_. 0x1000) ?x" "\<not> gpu_entry ?x"
    by (simp_all add: closable_def device_domain_def gpu_entry_def new_entry_def map_entry_def
        example_map_defs)
  from close_releases_entries [of s1 example_world "\<lambda>_. 0x1000" "\<lambda>_. 0x1000"] x obtain s2 where
    "kiumd_close_table example_world (\<lambda>_. 0x1000) (\<lambda>_. 0x1000) s1 = Some s2"
    "\<And>r. held s2 r = held s1 r - int (count_list (close_resources example_world ?x) r)"
    "hash_entries (smmu_table s2) = []"
    by (auto simp: es)
  moreover have "close_resources example_world ?x
      = [SmapObj, DmaBufRef 0x1000, Attachment 0x2000, AttachMap 0x2000 0x3000]"
    by (simp add: close_resources_def x(2)) (simp add: new_entry_def map_entry_def mapped_sgt_def
        privileged_def example_map_env_def example_map_user_def user0_def)
  moreover have "map_resources example_world example_map_env example_map_user 0x300
      = [DmaBufRef 0x1000, Attachment 0x2000, AttachMap 0x2000 0x3000]"
    by (simp add: map_resources_def privileged_def example_map_env_def example_map_user_def user0_def)
  ultimately show ?thesis using m s1(2) by simp
qed

section \<open>What failing and unusual requests leave behind\<close>

text \<open>An attachment without a buffer ends the request at once: the file, the buffer and the
  attachment stay referenced.\<close>

lemma map_early_return_leaks:
  "map_option (\<lambda>(ret, _, s). (ret, file_refs s 0x100, held s (DmaBufRef 0x1000), held s (Attachment 0x2000)))
     (example_mapped (example_map_env\<lparr>m_attach_dmabuf := 0\<rparr>) example_map_user) = Some (- EINVAL, 1, 1, 1)"
  by (simp add: example_map_defs map_eval)

text \<open>When the entry cannot be allocated only the file is put back.\<close>

lemma map_no_entry_leaks:
  "map_option (\<lambda>(ret, _, s). (ret, file_refs s 0x100, held s (DmaBufRef 0x1000), held s (Attachment 0x2000),
        held s (AttachMap 0x2000 0x3000)))
     (example_mapped (example_map_env\<lparr>m_kzalloc2 := False\<rparr>) example_map_user) = Some (- ENOMEM, 0, 1, 1, 1)"
  by (simp add: example_map_defs map_eval)

text \<open>When the result cannot be copied out, the buffer is released but its entry stays in the table;
  closing the context then releases the buffer again.\<close>

lemma map_copy_failure_dangles:
  "map_option (\<lambda>(ret, _, s). (ret, held s (DmaBufRef 0x1000), map dmabuf_ptr (smmu_table s (mod_hash 0))))
     (example_mapped (example_map_env\<lparr>m_copy_to_user := False\<rparr>) example_map_user)
   = Some (- EFAULT, 0, [0x1000])"
  by (simp add: example_map_defs map_eval hash_add_def empty_table_def)

text \<open>A privileged mapping was made with \<open>dma_map_sgtable\<close>; closing the context releases an
  attachment mapping instead.\<close>

lemma close_privileged_mismatch:
  assumes "dmabuf_ptr x \<noteq> 0" "dmabufattach x \<noteq> 0" "sgt_ptr x \<noteq> 0" "sm_context x = None"
    and "\<not> gpu_entry x" "sm_is_iova_zero x \<noteq> FIXED_IOVA_AT_ZERO"
    and "sm_vfio_dev x \<noteq> 0" "w_dev w (sm_vfio_dev x) \<noteq> 0" "device_domain w (sm_vfio_dev x) \<noteq> 0"
  shows "\<exists>s'. close_entry w dsz e_unmap x s = Some s' \<and> held s' (SgMap (sgt_ptr x)) = held s (SgMap (sgt_ptr x))
     \<and> held s' (AttachMap (dmabufattach x) (sgt_ptr x)) = held s (AttachMap (dmabufattach x) (sgt_ptr x)) - 1"
proof -
  have "closable w dsz e_unmap x" using assms by (simp add: closable_def)
  from close_entry_spec [OF this, of s] assms show ?thesis by (auto simp: close_resources_def)
qed

text \<open>For a device that is not a platform device the result is never set.\<close>

lemma mmio_uninitialised_result:
  assumes "mmio_reached w e (Some m) s" "x_strndup_user e" "\<not> x_is_platform e"
  shows "\<exists>s'. kiumd_mmio_smmu_map w hash e (Some m) s = Some (x_uninitialised e, None, s')"
proof -
  have "vfio_device_of w (mm_vfio_fd m) \<noteq> 0"
    using assms(1) by (auto simp: mmio_reached_def cookie_of_def split: if_splits)
  with assms show ?thesis
    by (simp add: kiumd_mmio_smmu_map_def get_vfio_device_eq get_dma_cookie_eq mmio_reached_def reg_free_def Let_def)
qed

end
