(* ===== verification/KiumdSecure.thy ===== *)
theory KiumdSecure
  imports KiumdRequests "HOL-Library.Sublist"
begin

text \<open>
  Model of the secure mapping requests of \<open>drivers/kiumd.c\<close>: they hand the pages of a buffer and the
  device's page table to other virtual machines through the hypervisor, map the buffer, and take
  everything back on unmap. The hypervisor call \<open>qcom_scm_assign_mem\<close> is a parameter: a function
  from its arguments and the present owners to its result, zero on success; the state keeps the
  owners of every physical address. Its contract is the locale \<open>hypervisor\<close>. Shifting a bit by 64 or
  more is undefined in C and a crash here.
\<close>

section \<open>Data\<close>

abbreviation (input) QCOM_SCM_VMID_HLOS :: int where "QCOM_SCM_VMID_HLOS \<equiv> 3"
abbreviation (input) QCOM_SCM_PERM_READ :: int where "QCOM_SCM_PERM_READ \<equiv> 4"
abbreviation (input) QCOM_SCM_PERM_RW :: int where "QCOM_SCM_PERM_RW \<equiv> 6"
abbreviation (input) QCOM_SCM_PERM_RWX :: int where "QCOM_SCM_PERM_RWX \<equiv> 7"
abbreviation (input) MAX_KIUMD_ACL_ENTRIES :: nat where "MAX_KIUMD_ACL_ENTRIES \<equiv> 64"
abbreviation (input) KIUMD_MAX_VMID :: int where "KIUMD_MAX_VMID \<equiv> 64"
abbreviation (input) KIUMD_MAX_PERMS :: int where "KIUMD_MAX_PERMS \<equiv> 8"
abbreviation (input) PAGE_SIZE :: u64 where "PAGE_SIZE \<equiv> 4096"

text \<open>A virtual machine and its permissions, and the owners of every physical address.\<close>

type_synonym qcom_scm_vmperm = "int \<times> int"
type_synonym owner_map = "u64 \<Rightarrow> qcom_scm_vmperm list"
type_synonym scm = "u64 \<Rightarrow> u64 \<Rightarrow> u64 \<Rightarrow> qcom_scm_vmperm list \<Rightarrow> owner_map \<Rightarrow> int"

text \<open>A scatter-gather table: the physical address and length of each element, and \<open>nents\<close>.\<close>

record sg_tab =
  sgl :: "(u64 \<times> u32) list"
  nents :: nat

record sec_st = map_st +
  owners :: owner_map
  page_private :: "u64 set"

text \<open>The answers of the kernel to one request; \<open>c_sg\<close> gives the scatter-gather tables, and
  \<open>c_copy_acl\<close> the result of copying an entry of the access-control list.\<close>

record sec_env =
  c_dma_buf_get :: ptr
  c_kmalloc_vmids :: bool
  c_kmalloc_perms :: bool
  c_copy_acl :: "nat \<Rightarrow> kiumd_acl_entry option"
  c_attach :: ptr
  c_priv :: ptr
  c_table :: ptr
  c_sg :: "ptr \<Rightarrow> sg_tab option"
  c_kcalloc_page :: bool
  c_kcalloc_sg :: bool
  c_map_attachment :: ptr
  c_kzalloc :: bool
  c_sg_dma_address :: u64
  c_copy_to_user :: bool

section \<open>Assigning memory\<close>

definition qcom_scm_assign_mem ::
  "scm \<Rightarrow> u64 \<Rightarrow> u64 \<Rightarrow> u64 \<Rightarrow> qcom_scm_vmperm list \<Rightarrow> 'a sec_st_scheme \<Rightarrow> int \<times> 'a sec_st_scheme" where
  "qcom_scm_assign_mem scm addr sz src dst s =
     (let ret = scm addr sz src dst (owners s) in
      (ret, if ret = 0 then s\<lparr>owners := (owners s)(addr := dst)\<rparr> else s))"

fun vm_mask :: "u64 \<Rightarrow> int list \<Rightarrow> u64 option" where
  "vm_mask m [] = Some m"
| "vm_mask m (v # vs) = (if 0 \<le> v \<and> v < 64 then vm_mask (m OR push_bit (nat v) 1) vs else None)"

definition HLOS_mask :: u64 where
  "HLOS_mask = push_bit 3 1"

definition kiumd_io_pgtable_hyp_assign_page ::
  "scm \<Rightarrow> bool \<Rightarrow> int list \<Rightarrow> u64 \<Rightarrow> 'a sec_st_scheme \<Rightarrow> int \<times> 'a sec_st_scheme" where
  "kiumd_io_pgtable_hyp_assign_page scm kcalloc vmid page s =
     (if \<not> kcalloc then (- ENOMEM, s)
      else
        let s = acquire VmPermList s;
            dst_vmids = (QCOM_SCM_VMID_HLOS, QCOM_SCM_PERM_RW) # map (\<lambda>v. (v, QCOM_SCM_PERM_READ)) vmid
        in case qcom_scm_assign_mem scm page PAGE_SIZE HLOS_mask dst_vmids s of
             (ret, s) \<Rightarrow> (ret, release VmPermList s))"

definition kiumd_io_pgtable_hyp_unassign_page ::
  "scm \<Rightarrow> int list \<Rightarrow> u64 \<Rightarrow> 'a sec_st_scheme \<Rightarrow> (int \<times> 'a sec_st_scheme) option" where
  "kiumd_io_pgtable_hyp_unassign_page scm vmid page s =
     (case vm_mask HLOS_mask vmid of
        None \<Rightarrow> None
      | Some src \<Rightarrow> Some (qcom_scm_assign_mem scm page PAGE_SIZE src
                            [(QCOM_SCM_VMID_HLOS, QCOM_SCM_PERM_RWX)] s))"

text \<open>The loops over the elements of a table; a failure stops them.\<close>

fun assign_chunks ::
  "scm \<Rightarrow> u64 \<Rightarrow> qcom_scm_vmperm list \<Rightarrow> (u64 \<times> u32) list \<Rightarrow> 'a sec_st_scheme \<Rightarrow> int \<times> 'a sec_st_scheme"
  where
  "assign_chunks scm src dst [] s = (0, s)"
| "assign_chunks scm src dst ((phys, len) # sg) s =
     (case qcom_scm_assign_mem scm phys (ucast len) src dst s of
        (ret, s) \<Rightarrow> if ret \<noteq> 0 then (ret, s) else assign_chunks scm src dst sg s)"

definition kiumd_hyp_unassign_sg ::
  "scm \<Rightarrow> (ptr \<Rightarrow> sg_tab option) \<Rightarrow> ptr \<Rightarrow> int list \<Rightarrow> 'a sec_st_scheme \<Rightarrow> (int \<times> 'a sec_st_scheme) option"
  where
  "kiumd_hyp_unassign_sg scm sgs sgt source_vm_list s =
     (if source_vm_list = [] then Some (- EINVAL, s)
      else if sgt = 0 then Some (- EINVAL, s)
      else (case sgs sgt of
        None \<Rightarrow> None
      | Some t \<Rightarrow>
          if sgl t = [] then Some (- EINVAL, s)
          else (case vm_mask 0 source_vm_list of
            None \<Rightarrow> None
          | Some src \<Rightarrow>
              (case assign_chunks scm src [(QCOM_SCM_VMID_HLOS, QCOM_SCM_PERM_RWX)] (sgl t) s of
                 (ret, s) \<Rightarrow>
                   if ret \<noteq> 0 then Some (ret, s)
                   else Some (ret, s\<lparr>page_private :=
                                page_private s - fst ` set (take (nents t) (sgl t))\<rparr>)))))"

text \<open>The parameter \<open>set_page_private\<close> of the code is not used.\<close>

definition kiumd_hyp_assign_sg ::
  "scm \<Rightarrow> (ptr \<Rightarrow> sg_tab option) \<Rightarrow> bool \<Rightarrow> ptr \<Rightarrow> int list \<Rightarrow> int list \<Rightarrow> 'a sec_st_scheme
     \<Rightarrow> (int \<times> 'a sec_st_scheme) option" where
  "kiumd_hyp_assign_sg scm sgs kcalloc sgt dest_vm_list dest_perms s =
     (if dest_vm_list = [] then Some (- EINVAL, s)
      else if sgt = 0 then Some (- EINVAL, s)
      else (case sgs sgt of
        None \<Rightarrow> None
      | Some t \<Rightarrow>
          if sgl t = [] then Some (- EINVAL, s)
          else if \<not> kcalloc then Some (- ENOMEM, s)
          else (case assign_chunks scm HLOS_mask (zip dest_vm_list dest_perms) (sgl t)
                       (acquire VmPermList s) of
            (ret, s) \<Rightarrow> Some (ret, release VmPermList s))))"

section \<open>The access-control list\<close>

fun copy_acl :: "(nat \<Rightarrow> kiumd_acl_entry option) \<Rightarrow> nat \<Rightarrow> nat \<Rightarrow> int list \<Rightarrow> int list
    \<Rightarrow> int + int list \<times> int list" where
  "copy_acl copy 0 i vmids perms = Inr (vmids, perms)"
| "copy_acl copy (Suc n) i vmids perms =
     (case copy i of
        None \<Rightarrow> Inl (- EFAULT)
      | Some entry \<Rightarrow>
          let v = sint (acl_vmid entry); p = sint (acl_perms entry) in
          if v < 0 \<or> p < 0 \<or> v > KIUMD_MAX_VMID \<or> p > KIUMD_MAX_PERMS then Inl (- EINVAL)
          else copy_acl copy n (Suc i) (vmids @ [v]) (perms @ [p]))"

definition kiumd_acl_to_vmid_perms_list ::
  "sec_env \<Rightarrow> u32 \<Rightarrow> ptr \<Rightarrow> 'a map_st_scheme \<Rightarrow> (int + int list \<times> int list) \<times> 'a map_st_scheme" where
  "kiumd_acl_to_vmid_perms_list e nr acl_entries s =
     (if nr = 0 \<or> acl_entries = 0 then (Inl (- EINVAL), s)
      else if unat nr > MAX_KIUMD_ACL_ENTRIES then (Inl (- EINVAL), s)
      else if \<not> c_kmalloc_vmids e then (Inl (- ENOMEM), s)
      else let s = acquire VmidList s in
        if \<not> c_kmalloc_perms e then (Inl (- ENOMEM), release VmidList s)
        else let s = acquire PermList s in
          (case copy_acl (c_copy_acl e) (unat nr) 0 [] [] of
             Inl ret \<Rightarrow> (Inl ret, release VmidList (release PermList s))
           | Inr l \<Rightarrow> (Inr l, s)))"

text \<open>\<open>kiumd_get_pgd\<close> returns the address in TTBR0 of the device's page table.\<close>

definition kiumd_get_pgd :: "world \<Rightarrow> ptr \<Rightarrow> 'a smmu_st_scheme \<Rightarrow> (int + u64) option" where
  "kiumd_get_pgd w vfio_dev s =
     (case kiumd_iommu_get_dma_domain w (w_dev w vfio_dev) of
        None \<Rightarrow> None
      | Some dm \<Rightarrow>
          if dm = 0 then Some (Inl (- EINVAL))
          else if pgtbl_ops (domains s dm) = 0 then Some (Inl (- EINVAL))
          else (case pgtbls s (pgtbl_ops (domains s dm)) of
            None \<Rightarrow> None
          | Some cfg \<Rightarrow> Some (Inr (s1_ttbr cfg))))"

section \<open>Secure mapping\<close>

text \<open>The labels at the end of the request, from the last one up.\<close>

type_synonym 'a sec_result = "(int \<times> kiumd_user option \<times> 'a sec_st_scheme) option"

definition close_file :: "ptr \<Rightarrow> int \<Rightarrow> 'a sec_st_scheme \<Rightarrow> 'a sec_result" where
  "close_file file ret s = Some (ret, None, fput file s)"

definition free_mem :: "ptr \<Rightarrow> int \<Rightarrow> 'a sec_st_scheme \<Rightarrow> 'a sec_result" where
  "free_mem file ret s = close_file file ret (release PermList (release VmidList s))"

definition detach_buf :: "ptr \<Rightarrow> ptr \<Rightarrow> ptr \<Rightarrow> int \<Rightarrow> 'a sec_st_scheme \<Rightarrow> 'a sec_result" where
  "detach_buf file p a ret s = free_mem file ret (release (DmaBufRef p) (release (Attachment a) s))"

definition hyp_unassign_table ::
  "scm \<Rightarrow> int list \<Rightarrow> u64 \<Rightarrow> ptr \<Rightarrow> ptr \<Rightarrow> ptr \<Rightarrow> int \<Rightarrow> 'a sec_st_scheme \<Rightarrow> 'a sec_result" where
  "hyp_unassign_table scm vmids pgd file p a ret s =
     (case kiumd_io_pgtable_hyp_unassign_page scm vmids pgd s of
        None \<Rightarrow> None
      | Some (_, s) \<Rightarrow> detach_buf file p a ret s)"

definition hyp_unassign_sg ::
  "scm \<Rightarrow> sec_env \<Rightarrow> ptr \<Rightarrow> int list \<Rightarrow> u64 \<Rightarrow> ptr \<Rightarrow> ptr \<Rightarrow> ptr \<Rightarrow> int \<Rightarrow> 'a sec_st_scheme \<Rightarrow> 'a sec_result"
  where
  "hyp_unassign_sg scm e sgt vmids pgd file p a ret s =
     (case kiumd_hyp_unassign_sg scm (c_sg e) sgt vmids s of
        None \<Rightarrow> None
      | Some (_, s) \<Rightarrow> hyp_unassign_table scm vmids pgd file p a ret s)"

definition secure_entry :: "ptr \<Rightarrow> ptr \<Rightarrow> ptr \<Rightarrow> 'a map_st_scheme \<Rightarrow> smmu_map_data" where
  "secure_entry p a sgt s =
     \<lparr>sm_id = ctx_id s, sgt_ptr = sgt, dmabuf_ptr = p, dmabufattach = a, dma_dir = 0, sm_ptselect = 0,
      sm_is_iova_zero = 0, sm_vfio_dev = 0, sm_context = None, sm_node = next_node s\<rparr>"

text \<open>From \<open>dma_buf_map_attachment_unlocked\<close> on, with all memory assigned.\<close>

definition secure_record ::
  "(int \<Rightarrow> nat) \<Rightarrow> scm \<Rightarrow> sec_env \<Rightarrow> kiumd_user \<Rightarrow> ptr \<Rightarrow> int list \<Rightarrow> u64 \<Rightarrow> ptr \<Rightarrow> ptr
     \<Rightarrow> 'a sec_st_scheme \<Rightarrow> 'a sec_result" where
  "secure_record hash scm e u file vmids pgd p a s =
     (let sgt = c_map_attachment e in
      if IS_ERR sgt then hyp_unassign_sg scm e sgt vmids pgd file p a (PTR_ERR sgt) s
      else let s = acquire (AttachMap a sgt) s in
        if \<not> c_kzalloc e then close_file file (- ENOMEM) s
        else
          let smap = secure_entry p a sgt s;
              s = add_entry hash smap (acquire SmapObj s) in
          if sgt = 0 then None
          else
            let u = u\<lparr>uid := sm_id smap, dma_addr := c_sg_dma_address e\<rparr> in
            if \<not> c_copy_to_user e
            then hyp_unassign_sg scm e sgt vmids pgd file p a (- EFAULT) (release (AttachMap a sgt) s)
            else Some (0, Some u, fput file (release PermList (release VmidList s))))"

definition secure_assign ::
  "(int \<Rightarrow> nat) \<Rightarrow> scm \<Rightarrow> sec_env \<Rightarrow> kiumd_user \<Rightarrow> ptr \<Rightarrow> int list \<Rightarrow> int list \<Rightarrow> u64 \<Rightarrow> ptr \<Rightarrow> ptr
     \<Rightarrow> 'a sec_st_scheme \<Rightarrow> 'a sec_result" where
  "secure_assign hash scm e u file vmids perms pgd p a s =
     (let sgt = c_table e in
      if c_priv e = 0 then detach_buf file p a (- EINVAL) s
      else if sgt = 0 then detach_buf file p a (- EINVAL) s
      else (case c_sg e sgt of
        None \<Rightarrow> None
      | Some t \<Rightarrow>
          if sgl t = [] then detach_buf file p a (- EINVAL) s
          else (case kiumd_io_pgtable_hyp_assign_page scm (c_kcalloc_page e) vmids pgd s of
            (ret, s) \<Rightarrow>
              if ret < 0 then detach_buf file p a ret s
              else (case kiumd_hyp_assign_sg scm (c_sg e) (c_kcalloc_sg e) sgt vmids perms s of
                None \<Rightarrow> None
              | Some (ret, s) \<Rightarrow>
                  if ret < 0 then hyp_unassign_table scm vmids pgd file p a ret s
                  else secure_record hash scm e u file vmids pgd p a s))))"

definition secure_found ::
  "world \<Rightarrow> (int \<Rightarrow> nat) \<Rightarrow> scm \<Rightarrow> sec_env \<Rightarrow> kiumd_user \<Rightarrow> ptr \<Rightarrow> ptr \<Rightarrow> 'a sec_st_scheme \<Rightarrow> 'a sec_result"
  where
  "secure_found w hash scm e u file vfio_dev s =
     (if w_dev w vfio_dev = 0 then close_file file (- EINVAL) s
      else (case kiumd_get_pgd w vfio_dev s of
        None \<Rightarrow> None
      | Some (Inl ret) \<Rightarrow> close_file file ret s
      | Some (Inr pgd) \<Rightarrow>
          let p = c_dma_buf_get e in
          if IS_ERR_OR_NULL p then close_file file (if p = 0 then - EINVAL else PTR_ERR p) s
          else (case kiumd_acl_to_vmid_perms_list e (nr_acl_entries (mem_parcel u)) (acl_list (mem_parcel u))
                       (acquire (DmaBufRef p) s) of
            (Inl ret, s) \<Rightarrow> close_file file ret s
          | (Inr (vmids, perms), s) \<Rightarrow>
              let a = c_attach e in
              if IS_ERR a then free_mem file (PTR_ERR a) s
              else secure_assign hash scm e u file vmids perms pgd p a (acquire (Attachment a) s))))"

definition kiumd_dmabuf_vfio_secure_map ::
  "world \<Rightarrow> (int \<Rightarrow> nat) \<Rightarrow> scm \<Rightarrow> sec_env \<Rightarrow> kiumd_user option \<Rightarrow> 'a sec_st_scheme \<Rightarrow> 'a sec_result" where
  "kiumd_dmabuf_vfio_secure_map w hash scm e arg s =
     (case arg of
        None \<Rightarrow> Some (- EFAULT, None, s)
      | Some u \<Rightarrow>
          (case vfio_file_device w EINVAL (vfio_fd u) s of
             None \<Rightarrow> None
           | Some (Inl err, s) \<Rightarrow> Some (err, None, s)
           | Some (Inr (file, vfio_dev), s) \<Rightarrow> secure_found w hash scm e u file vfio_dev s))"

section \<open>Secure unmapping\<close>

text \<open>From the lists on: the mapping, the buffer's memory, the page table, then the entry.\<close>

definition secure_release ::
  "scm \<Rightarrow> sec_env \<Rightarrow> ptr \<Rightarrow> smmu_map_data \<Rightarrow> int list \<Rightarrow> u64 \<Rightarrow> 'a sec_st_scheme \<Rightarrow> 'a sec_result" where
  "secure_release scm e file smap vmids pgd s =
     (let a = dmabufattach smap; sgt = sgt_ptr smap; p = dmabuf_ptr smap in
      if a = 0 then free_mem file (- EINVAL) s
      else if sgt = 0 then free_mem file (- EINVAL) s
      else (case kiumd_hyp_unassign_sg scm (c_sg e) sgt vmids (release (AttachMap a sgt) s) of
        None \<Rightarrow> None
      | Some (ret, s) \<Rightarrow>
          if ret < 0 then free_mem file ret s
          else (case kiumd_io_pgtable_hyp_unassign_page scm vmids pgd s of
            None \<Rightarrow> None
          | Some (ret, s) \<Rightarrow>
              if ret < 0 then free_mem file (- EINVAL) s
              else if p = 0 then free_mem file (- EINVAL) s
              else free_mem file ret (del_entry smap (release (DmaBufRef p) (release (Attachment a) s))))))"

definition kiumd_dmabuf_vfio_secure_unmap ::
  "world \<Rightarrow> (int \<Rightarrow> nat) \<Rightarrow> scm \<Rightarrow> sec_env \<Rightarrow> kiumd_user option \<Rightarrow> 'a sec_st_scheme \<Rightarrow> 'a sec_result" where
  "kiumd_dmabuf_vfio_secure_unmap w hash scm e arg s =
     (case arg of
        None \<Rightarrow> Some (- EFAULT, None, s)
      | Some u \<Rightarrow>
          if uid u < 0 then Some (- EFAULT, None, s)
          else (case hash_find hash (\<lambda>_. True) (uid u) (smmu_table s) of
            None \<Rightarrow> Some (- ENOENT, None, s)
          | Some smap \<Rightarrow>
              (case vfio_file_device w EINVAL (vfio_fd u) s of
                 None \<Rightarrow> None
               | Some (Inl err, s) \<Rightarrow> Some (err, None, s)
               | Some (Inr (file, vfio_dev), s) \<Rightarrow>
                   if w_dev w vfio_dev = 0 then close_file file (- EINVAL) s
                   else (case kiumd_get_pgd w vfio_dev s of
                     None \<Rightarrow> None
                   | Some (Inl ret) \<Rightarrow> close_file file ret s
                   | Some (Inr pgd) \<Rightarrow>
                       (case kiumd_acl_to_vmid_perms_list e (nr_acl_entries (mem_parcel u))
                               (acl_list (mem_parcel u)) s of
                          (Inl ret, s) \<Rightarrow> close_file file ret s
                        | (Inr (vmids, perms), s) \<Rightarrow> secure_release scm e file smap vmids pgd s)))))"

section \<open>The hypervisor's contract\<close>

text \<open>A call that names exactly the present owners is accepted; a result is zero or an error.\<close>

locale hypervisor =
  fixes scm :: scm
  assumes accepts: "vm_mask 0 (map fst (own addr)) = Some src \<Longrightarrow> dst \<noteq> [] \<Longrightarrow> scm addr sz src dst own = 0"
    and result: "scm addr sz src dst own \<le> 0"

definition reference_hyp :: scm where
  "reference_hyp addr sz src dst own =
     (if vm_mask 0 (map fst (own addr)) = Some src \<and> dst \<noteq> [] then 0 else - EINVAL)"

interpretation reference_hyp: hypervisor reference_hyp
  by unfold_locales (auto simp: reference_hyp_def)

section \<open>Field lemmas\<close>

lemma sec_fields [simp]:
  "owners (acquire r s) = owners s" "owners (release r s) = owners s"
  "owners (fput f s) = owners s" "owners (add_entry h x s) = owners s" "owners (del_entry x s) = owners s"
  "page_private (acquire r s) = page_private s" "page_private (release r s) = page_private s"
  "page_private (fput f s) = page_private s"
  by (simp_all add: acquire_def release_def fput_def add_entry_def del_entry_def)

lemma release_acquire [simp]: "release r (acquire r s) = s"
  by (simp add: release_def acquire_def)

lemma release_acquire2 [simp]: "release r (release q (acquire q (acquire r s))) = s"
  by simp

lemma ledger_owner [simp]:
  "release r (s\<lparr>owners := ow\<rparr>) = (release r s)\<lparr>owners := ow\<rparr>"
  "acquire r (s\<lparr>owners := ow\<rparr>) = (acquire r s)\<lparr>owners := ow\<rparr>"
  by (simp_all add: release_def acquire_def)

section \<open>Masks\<close>

lemma vm_mask_defined: "(\<exists>k. vm_mask m vs = Some k) \<longleftrightarrow> (\<forall>v \<in> set vs. 0 \<le> v \<and> v < 64)"
  by (induction vs arbitrary: m) auto

lemma vm_mask_bits:
  "vm_mask m vs = Some k \<Longrightarrow> n < 64 \<Longrightarrow> bit k n \<longleftrightarrow> bit m n \<or> int n \<in> set vs"
proof (induction vs arbitrary: m)
  case (Cons v vs)
  from Cons.prems(1) have v: "0 \<le> v" "v < 64" "vm_mask (m OR push_bit (nat v) 1) vs = Some k"
    by (auto split: if_splits)
  with Cons.IH [OF v(3) Cons.prems(2)] Cons.prems(2) show ?case
    by (auto simp: bit_simps)
qed simp

lemma HLOS_mask_eq: "vm_mask 0 (QCOM_SCM_VMID_HLOS # vs) = vm_mask HLOS_mask vs"
  by (simp add: HLOS_mask_def)

section \<open>The access-control list\<close>

definition acl_entry_ok :: "(nat \<Rightarrow> kiumd_acl_entry option) \<Rightarrow> nat \<Rightarrow> bool" where
  "acl_entry_ok copy i \<longleftrightarrow> (case copy i of None \<Rightarrow> False | Some entry \<Rightarrow>
     0 \<le> sint (acl_vmid entry) \<and> sint (acl_vmid entry) \<le> KIUMD_MAX_VMID
     \<and> 0 \<le> sint (acl_perms entry) \<and> sint (acl_perms entry) \<le> KIUMD_MAX_PERMS)"

definition acl_vmids :: "(nat \<Rightarrow> kiumd_acl_entry option) \<Rightarrow> nat list \<Rightarrow> int list" where
  "acl_vmids copy is = map (\<lambda>i. sint (acl_vmid (the (copy i)))) is"

definition acl_permissions :: "(nat \<Rightarrow> kiumd_acl_entry option) \<Rightarrow> nat list \<Rightarrow> int list" where
  "acl_permissions copy is = map (\<lambda>i. sint (acl_perms (the (copy i)))) is"

lemma copy_acl_spec:
  "case copy_acl copy n i vmids perms of
     Inl err \<Rightarrow> err < 0 \<and> (\<exists>j. i \<le> j \<and> j < i + n \<and> \<not> acl_entry_ok copy j)
   | Inr (V, P) \<Rightarrow> (\<forall>j. i \<le> j \<and> j < i + n \<longrightarrow> acl_entry_ok copy j)
       \<and> V = vmids @ acl_vmids copy [i ..< i + n] \<and> P = perms @ acl_permissions copy [i ..< i + n]"
proof (induction n arbitrary: i vmids perms)
  case (Suc n)
  show ?case
  proof (cases "acl_entry_ok copy i")
    case True
    then obtain entry where e: "copy i = Some entry" by (auto simp: acl_entry_ok_def split: option.splits)
    have iv: "[i ..< i + Suc n] = i # [Suc i ..< Suc i + n]" by (simp add: upt_conv_Cons)
    have "copy_acl copy (Suc n) i vmids perms
        = copy_acl copy n (Suc i) (vmids @ [sint (acl_vmid entry)]) (perms @ [sint (acl_perms entry)])"
      using True by (simp add: e acl_entry_ok_def Let_def)
    with Suc.IH [of "Suc i" "vmids @ [sint (acl_vmid entry)]" "perms @ [sint (acl_perms entry)]"] True
    show ?thesis
      unfolding iv by (auto simp: acl_vmids_def acl_permissions_def e le_Suc_eq Suc_le_eq split: sum.splits)
        (metis le_eq_less_or_eq)+
  next
    case False
    then have "\<exists>err < 0. copy_acl copy (Suc n) i vmids perms = Inl err"
      by (auto simp: acl_entry_ok_def Let_def split: option.splits)
    with False show ?thesis by (auto intro!: exI [of _ i])
  qed
qed (auto simp: acl_vmids_def acl_permissions_def)

definition acl_accepted :: "sec_env \<Rightarrow> u32 \<Rightarrow> ptr \<Rightarrow> bool" where
  "acl_accepted e nr acl \<longleftrightarrow> nr \<noteq> 0 \<and> acl \<noteq> 0 \<and> unat nr \<le> MAX_KIUMD_ACL_ENTRIES
     \<and> c_kmalloc_vmids e \<and> c_kmalloc_perms e \<and> (\<forall>j \<in> {0 ..< unat nr}. acl_entry_ok (c_copy_acl e) j)"

lemma acl_spec:
  "case kiumd_acl_to_vmid_perms_list e nr acl s of
     (Inl ret, s') \<Rightarrow> ret < 0 \<and> \<not> acl_accepted e nr acl \<and> s' = s
   | (Inr (V, P), s') \<Rightarrow> acl_accepted e nr acl \<and> V = acl_vmids (c_copy_acl e) [0 ..< unat nr]
       \<and> P = acl_permissions (c_copy_acl e) [0 ..< unat nr] \<and> s' = acquire PermList (acquire VmidList s)"
  using copy_acl_spec [where copy = "c_copy_acl e" and n = "unat nr" and i = 0 and vmids = "[]" and perms = "[]"]
  by (auto simp: kiumd_acl_to_vmid_perms_list_def acl_accepted_def Let_def split: sum.splits)

lemma acl_result:
  assumes "kiumd_acl_to_vmid_perms_list e nr acl s = (Inr (V, P), s')"
  shows "acl_accepted e nr acl" "V = acl_vmids (c_copy_acl e) [0 ..< unat nr]"
    "P = acl_permissions (c_copy_acl e) [0 ..< unat nr]" "s' = acquire PermList (acquire VmidList s)"
    "map fst (zip V P) = V" "V \<noteq> []"
proof -
  show acc: "acl_accepted e nr acl" "V = acl_vmids (c_copy_acl e) [0 ..< unat nr]"
    "P = acl_permissions (c_copy_acl e) [0 ..< unat nr]" "s' = acquire PermList (acquire VmidList s)"
    using acl_spec [of e nr acl s] assms by simp_all
  then show "map fst (zip V P) = V" by (simp add: acl_vmids_def acl_permissions_def)
  have "unat nr \<noteq> 0" using acc(1) by (simp add: acl_accepted_def unat_eq_0)
  with acc(2) show "V \<noteq> []" by (simp add: acl_vmids_def)
qed

section \<open>Assigning a table\<close>

definition reassigned :: "(u64 \<times> u32) list \<Rightarrow> qcom_scm_vmperm list \<Rightarrow> owner_map \<Rightarrow> owner_map" where
  "reassigned sg dst ow = (\<lambda>a. if a \<in> fst ` set sg then dst else ow a)"

lemma assign_chunks_run:
  assumes "assign_chunks scm src dst sg s = (ret, s')"
  shows "\<exists>d. prefix d sg \<and> (ret = 0 \<longrightarrow> d = sg) \<and> s' = s\<lparr>owners := reassigned d dst (owners s)\<rparr>"
  using assms
proof (induction sg arbitrary: s)
  case Nil
  then show ?case by (simp add: reassigned_def)
next
  case (Cons c sg)
  obtain phys len where c: "c = (phys, len)" by (cases c)
  let ?r = "scm phys (ucast len) src dst (owners s)" and ?t = "s\<lparr>owners := (owners s)(phys := dst)\<rparr>"
  show ?case
  proof (cases "?r = 0")
    case True
    with Cons.prems have "assign_chunks scm src dst sg ?t = (ret, s')"
      by (simp add: c qcom_scm_assign_mem_def)
    from Cons.IH [OF this] obtain d where
      d: "prefix d sg" "ret = 0 \<longrightarrow> d = sg" "s' = ?t\<lparr>owners := reassigned d dst (owners ?t)\<rparr>" by blast
    have "reassigned d dst ((owners s)(phys := dst)) = reassigned (c # d) dst (owners s)"
      by (auto simp: reassigned_def c)
    with d have "prefix (c # d) (c # sg) \<and> (ret = 0 \<longrightarrow> c # d = c # sg)
        \<and> s' = s\<lparr>owners := reassigned (c # d) dst (owners s)\<rparr>" by simp
    then show ?thesis by blast
  next
    case False
    with Cons.prems have "ret \<noteq> 0" "s' = s" by (auto simp: c qcom_scm_assign_mem_def Let_def)
    then have "prefix [] (c # sg) \<and> (ret = 0 \<longrightarrow> [] = c # sg) \<and> s' = s\<lparr>owners := reassigned [] dst (owners s)\<rparr>"
      by (simp add: reassigned_def)
    then show ?thesis by blast
  qed
qed

context hypervisor
begin

lemma assign_chunks_nonpos: "fst (assign_chunks scm src dst sg s) \<le> 0"
proof (induction sg arbitrary: s)
  case (Cons c sg)
  then show ?case by (cases c) (simp add: qcom_scm_assign_mem_def Let_def result)
qed simp

lemma assign_chunks_accepted:
  assumes "\<And>c. c \<in> set sg \<Longrightarrow> vm_mask 0 (map fst (owners s (fst c))) = Some src"
    and "distinct (map fst sg)" "dst \<noteq> []"
  shows "assign_chunks scm src dst sg s = (0, s\<lparr>owners := reassigned sg dst (owners s)\<rparr>)"
proof -
  have "fst (assign_chunks scm src dst sg s) = 0"
    using assms(1,2)
  proof (induction sg arbitrary: s)
    case (Cons c sg)
    obtain phys len where c: "c = (phys, len)" by (cases c)
    have ok: "scm phys (ucast len) src dst (owners s) = 0"
      using Cons.prems(1) [of c] assms(3) by (intro accepts) (simp_all add: c)
    have "fst (assign_chunks scm src dst sg (s\<lparr>owners := (owners s)(phys := dst)\<rparr>)) = 0"
    proof (rule Cons.IH)
      fix d assume "d \<in> set sg"
      with Cons.prems(2) have "fst d \<noteq> phys" by (auto simp: c)
      with Cons.prems(1) [of d] \<open>d \<in> set sg\<close>
      show "vm_mask 0 (map fst (owners (s\<lparr>owners := (owners s)(phys := dst)\<rparr>) (fst d))) = Some src" by simp
    qed (use Cons.prems(2) in simp)
    with ok show ?case by (simp add: c qcom_scm_assign_mem_def)
  qed simp
  then obtain s' where s': "assign_chunks scm src dst sg s = (0, s')"
    by (cases "assign_chunks scm src dst sg s") simp
  from assign_chunks_run [OF s'] show ?thesis by (auto simp: s')
qed

end

section \<open>Successful secure maps\<close>

lemma unassign_labels_result:
  "hyp_unassign_table scm vmids pgd file p a ret s = Some (r, out, s') \<Longrightarrow> r = ret \<and> out = None"
  "hyp_unassign_sg scm e sgt vmids pgd file p a ret s = Some (r, out, s') \<Longrightarrow> r = ret \<and> out = None"
  by (auto simp: hyp_unassign_table_def hyp_unassign_sg_def detach_buf_def free_mem_def close_file_def
      split: option.splits)

definition page_owners :: "int list \<Rightarrow> qcom_scm_vmperm list" where
  "page_owners vmids = (QCOM_SCM_VMID_HLOS, QCOM_SCM_PERM_RW) # map (\<lambda>v. (v, QCOM_SCM_PERM_READ)) vmids"

lemma secure_record_success:
  assumes "secure_record hash scm e u file vmids pgd p a s = Some (0, out, s')"
  shows "\<not> IS_ERR_OR_NULL (c_map_attachment e)
     \<and> out = Some (u\<lparr>uid := ctx_id s, dma_addr := c_sg_dma_address e\<rparr>)
     \<and> s' = fput file (release PermList (release VmidList (add_entry hash
              (secure_entry p a (c_map_attachment e) s)
              (acquire SmapObj (acquire (AttachMap a (c_map_attachment e)) s)))))"
proof -
  have "\<not> IS_ERR (c_map_attachment e)"
  proof
    assume err: "IS_ERR (c_map_attachment e)"
    with assms have "hyp_unassign_sg scm e (c_map_attachment e) vmids pgd file p a
        (PTR_ERR (c_map_attachment e)) s = Some (0, out, s')" by (simp add: secure_record_def Let_def)
    with unassign_labels_result(2) [OF this] PTR_ERR_neg [OF err] show False by simp
  qed
  moreover have "c_copy_to_user e" if "c_kzalloc e" "c_map_attachment e \<noteq> 0"
  proof (rule ccontr)
    assume "\<not> c_copy_to_user e"
    with assms that calculation have "hyp_unassign_sg scm e (c_map_attachment e) vmids pgd file p a (- EFAULT)
        (release (AttachMap a (c_map_attachment e)) (add_entry hash (secure_entry p a (c_map_attachment e) s)
          (acquire SmapObj (acquire (AttachMap a (c_map_attachment e)) s)))) = Some (0, out, s')"
      by (simp add: secure_record_def Let_def secure_entry_def)
    from unassign_labels_result(2) [OF this] show False by simp
  qed
  ultimately show ?thesis
    using assms by (auto simp: secure_record_def Let_def close_file_def IS_ERR_OR_NULL_def secure_entry_def
        split: if_splits)
qed

context hypervisor
begin

lemma assign_page_success:
  assumes "kiumd_io_pgtable_hyp_assign_page scm k vmids pgd s = (ret, s1)" "\<not> ret < 0"
  shows "s1 = s\<lparr>owners := (owners s)(pgd := page_owners vmids)\<rparr>"
proof -
  have k: k using assms by (cases k) (auto simp: kiumd_io_pgtable_hyp_assign_page_def)
  then have ret: "ret = scm pgd PAGE_SIZE HLOS_mask (page_owners vmids) (owners s)"
    and s1: "s1 = (if ret = 0 then s\<lparr>owners := (owners s)(pgd := page_owners vmids)\<rparr> else s)"
    using assms(1) by (auto simp: kiumd_io_pgtable_hyp_assign_page_def qcom_scm_assign_mem_def Let_def
        page_owners_def [symmetric])
  have "ret = 0" using ret assms(2) result [of pgd PAGE_SIZE HLOS_mask "page_owners vmids" "owners s"] by simp
  with s1 show ?thesis by simp
qed

lemma assign_sg_success:
  assumes "kiumd_hyp_assign_sg scm sgs k sgt vmids perms s = Some (ret, s1)" "\<not> ret < 0"
    and "sgs sgt = Some t"
  shows "s1 = s\<lparr>owners := reassigned (sgl t) (zip vmids perms) (owners s)\<rparr>"
proof -
  obtain r s2 where run: "assign_chunks scm HLOS_mask (zip vmids perms) (sgl t) (acquire VmPermList s) = (r, s2)"
    by (cases "assign_chunks scm HLOS_mask (zip vmids perms) (sgl t) (acquire VmPermList s)")
  from assms run have "r = ret" "s1 = release VmPermList s2"
    by (auto simp: kiumd_hyp_assign_sg_def split: if_splits)
  moreover have "r \<le> 0"
    using assign_chunks_nonpos [of HLOS_mask "zip vmids perms" "sgl t" "acquire VmPermList s"] run by simp
  moreover from this assms(2) calculation(1) have "r = 0" by simp
  ultimately show ?thesis using assign_chunks_run [OF run] by auto
qed

lemma secure_assign_success:
  assumes "secure_assign hash scm e u file vmids perms pgd p a s = Some (0, out, s')"
  shows "\<exists>t. c_sg e (c_table e) = Some t \<and> sgl t \<noteq> []
     \<and> secure_record hash scm e u file vmids pgd p a
         (s\<lparr>owners := reassigned (sgl t) (zip vmids perms) ((owners s)(pgd := page_owners vmids))\<rparr>)
       = Some (0, out, s')"
proof -
  note exits = detach_buf_def free_mem_def close_file_def
  from assms obtain t where t: "c_sg e (c_table e) = Some t" "sgl t \<noteq> []" "c_priv e \<noteq> 0" "c_table e \<noteq> 0"
    by (auto simp: secure_assign_def Let_def exits split: if_splits option.splits)
  obtain r1 s1 where page: "kiumd_io_pgtable_hyp_assign_page scm (c_kcalloc_page e) vmids pgd s = (r1, s1)"
    by (cases "kiumd_io_pgtable_hyp_assign_page scm (c_kcalloc_page e) vmids pgd s")
  with assms t have ok1: "\<not> r1 < 0"
    by (auto simp: secure_assign_def Let_def exits)
  with assms t page obtain r2 s2 where
    sg: "kiumd_hyp_assign_sg scm (c_sg e) (c_kcalloc_sg e) (c_table e) vmids perms s1 = Some (r2, s2)"
    by (auto simp: secure_assign_def Let_def split: option.splits)
  have ok2: "\<not> r2 < 0"
  proof
    assume "r2 < 0"
    with assms t page ok1 sg have "hyp_unassign_table scm vmids pgd file p a r2 s2 = Some (0, out, s')"
      by (simp add: secure_assign_def Let_def)
    with unassign_labels_result(1) [OF this] \<open>r2 < 0\<close> show False by simp
  qed
  from assms t page ok1 sg ok2 have "secure_record hash scm e u file vmids pgd p a s2 = Some (0, out, s')"
    by (simp add: secure_assign_def Let_def)
  with assign_sg_success [OF sg ok2 t(1)] assign_page_success [OF page ok1] t show ?thesis by auto
qed

end

lemma vfio_file_device_state:
  "vfio_file_device w err fd s = Some (Inr (f, v), s') \<Longrightarrow>
     s' = s\<lparr>file_refs := (file_refs s)(f := file_refs s f + 1)\<rparr>"
  by (auto simp: vfio_file_device_def do_fget_def Let_def split: if_splits)

lemma get_pgd_cong:
  "domains s = domains s' \<Longrightarrow> pgtbls s = pgtbls s' \<Longrightarrow> kiumd_get_pgd w v s = kiumd_get_pgd w v s'"
  unfolding kiumd_get_pgd_def by presburger

lemma smmu_fields [simp]:
  "domains (acquire r s) = domains s" "domains (release r s) = domains s" "domains (fput f s) = domains s"
  "domains (add_entry h x s) = domains s" "pgtbls (acquire r s) = pgtbls s"
  "pgtbls (release r s) = pgtbls s" "pgtbls (fput f s) = pgtbls s" "pgtbls (add_entry h x s) = pgtbls s"
  "file_refs (fput f s) = (file_refs s)(f := file_refs s f - 1)"
  by (simp_all add: acquire_def release_def fput_def add_entry_def)

text \<open>What a secure mapping holds, and the owners it sets.\<close>

definition secure_resources :: "sec_env \<Rightarrow> resource list" where
  "secure_resources e = [DmaBufRef (c_dma_buf_get e), Attachment (c_attach e),
     AttachMap (c_attach e) (c_map_attachment e), SmapObj]"

definition user_vmids :: "sec_env \<Rightarrow> kiumd_user \<Rightarrow> int list" where
  "user_vmids e u = acl_vmids (c_copy_acl e) [0 ..< unat (nr_acl_entries (mem_parcel u))]"

definition user_acl :: "sec_env \<Rightarrow> kiumd_user \<Rightarrow> qcom_scm_vmperm list" where
  "user_acl e u = zip (user_vmids e u) (acl_permissions (c_copy_acl e) [0 ..< unat (nr_acl_entries (mem_parcel u))])"

context hypervisor
begin

lemma secure_found_success:
  assumes "secure_found w hash scm e u file v s = Some (0, out, s')"
  shows "\<exists>pgd t. w_dev w v \<noteq> 0 \<and> kiumd_get_pgd w v s = Some (Inr pgd) \<and> \<not> IS_ERR_OR_NULL (c_dma_buf_get e)
     \<and> acl_accepted e (nr_acl_entries (mem_parcel u)) (acl_list (mem_parcel u)) \<and> \<not> IS_ERR (c_attach e)
     \<and> c_sg e (c_table e) = Some t \<and> sgl t \<noteq> [] \<and> \<not> IS_ERR_OR_NULL (c_map_attachment e)
     \<and> out = Some (u\<lparr>uid := ctx_id s, dma_addr := c_sg_dma_address e\<rparr>)
     \<and> owners s' = reassigned (sgl t) (user_acl e u) ((owners s)(pgd := page_owners (user_vmids e u)))
     \<and> (\<forall>r. held s' r = held s r + int (count_list (secure_resources e) r))
     \<and> smmu_table s' = hash_add hash (secure_entry (c_dma_buf_get e) (c_attach e) (c_map_attachment e) s) (smmu_table s)
     \<and> ctx_id s' = wrap32 (ctx_id s + 1) \<and> next_node s' = Suc (next_node s)
     \<and> file_refs s' = (file_refs s)(file := file_refs s file - 1)
     \<and> domains s' = domains s \<and> pgtbls s' = pgtbls s"
proof -
  note exits = detach_buf_def free_mem_def close_file_def
  let ?p = "c_dma_buf_get e" and ?a = "c_attach e"
  let ?nr = "nr_acl_entries (mem_parcel u)" and ?l = "acl_list (mem_parcel u)"
  have dev: "w_dev w v \<noteq> 0" using assms by (auto simp: secure_found_def exits)
  then obtain x where x: "kiumd_get_pgd w v s = Some x"
    using assms by (auto simp: secure_found_def split: option.splits)
  then obtain pgd where pgd: "kiumd_get_pgd w v s = Some (Inr pgd)"
    using assms dev by (cases x) (auto simp: secure_found_def exits kiumd_get_pgd_def split: option.splits if_splits)
  have p: "\<not> IS_ERR_OR_NULL ?p"
    using assms dev pgd PTR_ERR_neg [of ?p]
    by (auto simp: secure_found_def exits Let_def IS_ERR_OR_NULL_def split: if_splits)
  obtain l s1 where acl: "kiumd_acl_to_vmid_perms_list e ?nr ?l (acquire (DmaBufRef ?p) s) = (l, s1)"
    by (cases "kiumd_acl_to_vmid_perms_list e ?nr ?l (acquire (DmaBufRef ?p) s)")
  have "\<exists>V P. l = Inr (V, P)"
  proof (cases l)
    case (Inl ret)
    with acl acl_spec [of e ?nr ?l "acquire (DmaBufRef ?p) s"] have "ret < 0" by simp
    with assms dev pgd p acl Inl show ?thesis by (simp add: secure_found_def exits Let_def)
  qed (metis surj_pair)
  then obtain V P where l: "l = Inr (V, P)" by blast
  note res = acl_result [OF acl [unfolded l]]
  have a: "\<not> IS_ERR ?a"
    using assms dev pgd p acl l PTR_ERR_neg [of ?a]
    by (auto simp: secure_found_def exits Let_def split: if_splits)
  have run: "secure_assign hash scm e u file V P pgd ?p ?a (acquire (Attachment ?a) s1) = Some (0, out, s')"
    using assms dev pgd p acl l a by (simp add: secure_found_def Let_def)
  from secure_assign_success [OF run] obtain t where t: "c_sg e (c_table e) = Some t" "sgl t \<noteq> []"
    "secure_record hash scm e u file V pgd ?p ?a ((acquire (Attachment ?a) s1)\<lparr>owners :=
       reassigned (sgl t) (zip V P) ((owners (acquire (Attachment ?a) s1))(pgd := page_owners V))\<rparr>) = Some (0, out, s')"
    by blast
  have V: "V = user_vmids e u" "zip (user_vmids e u) P = user_acl e u"
    using res by (simp_all add: user_vmids_def user_acl_def)
  show ?thesis
    using secure_record_success [OF t(3)] dev pgd p a res(1,4) t(1,2)
    by (auto simp: V secure_resources_def secure_entry_def)
qed

lemma secure_map_success:
  assumes "kiumd_dmabuf_vfio_secure_map w hash scm e (Some u) s = Some (0, out, s')"
  obtains v pgd t where "v = w_device w (w_private_data w (w_fget w (vfio_fd u)))" "0 \<le> vfio_fd u"
    "w_fget w (vfio_fd u) \<noteq> 0" "w_private_data w (w_fget w (vfio_fd u)) \<noteq> 0" "v \<noteq> 0" "w_dev w v \<noteq> 0"
    "kiumd_get_pgd w v s = Some (Inr pgd)" "\<not> IS_ERR_OR_NULL (c_dma_buf_get e)"
    "acl_accepted e (nr_acl_entries (mem_parcel u)) (acl_list (mem_parcel u))" "\<not> IS_ERR (c_attach e)"
    "c_sg e (c_table e) = Some t" "sgl t \<noteq> []" "\<not> IS_ERR_OR_NULL (c_map_attachment e)"
    "out = Some (u\<lparr>uid := ctx_id s, dma_addr := c_sg_dma_address e\<rparr>)"
    "owners s' = reassigned (sgl t) (user_acl e u) ((owners s)(pgd := page_owners (user_vmids e u)))"
    "\<And>r. held s' r = held s r + int (count_list (secure_resources e) r)"
    "smmu_table s' = hash_add hash (secure_entry (c_dma_buf_get e) (c_attach e) (c_map_attachment e) s) (smmu_table s)"
    "ctx_id s' = wrap32 (ctx_id s + 1)" "next_node s' = Suc (next_node s)" "file_refs s' = file_refs s"
    "domains s' = domains s" "pgtbls s' = pgtbls s"
proof -
  from assms obtain x s1 where x: "vfio_file_device w EINVAL (vfio_fd u) s = Some (x, s1)"
    by (auto simp: kiumd_dmabuf_vfio_secure_map_def split: option.splits)
  have "\<exists>f v. x = Inr (f, v)"
  proof (cases x)
    case (Inl err)
    with assms x vfio_file_device_err [OF x [unfolded Inl]] show ?thesis
      by (simp add: kiumd_dmabuf_vfio_secure_map_def)
  qed (metis surj_pair)
  then obtain f v where fv: "x = Inr (f, v)" by blast
  note ok = vfio_file_device_ok [OF x [unfolded fv]] and s1 = vfio_file_device_state [OF x [unfolded fv]]
  from assms x fv have "secure_found w hash scm e u f v s1 = Some (0, out, s')"
    by (simp add: kiumd_dmabuf_vfio_secure_map_def)
  from secure_found_success [OF this] obtain pgd t where
    r: "w_dev w v \<noteq> 0" "kiumd_get_pgd w v s1 = Some (Inr pgd)" "\<not> IS_ERR_OR_NULL (c_dma_buf_get e)"
      "acl_accepted e (nr_acl_entries (mem_parcel u)) (acl_list (mem_parcel u))" "\<not> IS_ERR (c_attach e)"
      "c_sg e (c_table e) = Some t" "sgl t \<noteq> []" "\<not> IS_ERR_OR_NULL (c_map_attachment e)"
      "out = Some (u\<lparr>uid := ctx_id s1, dma_addr := c_sg_dma_address e\<rparr>)"
      "owners s' = reassigned (sgl t) (user_acl e u) ((owners s1)(pgd := page_owners (user_vmids e u)))"
      "\<forall>r. held s' r = held s1 r + int (count_list (secure_resources e) r)"
      "smmu_table s' = hash_add hash (secure_entry (c_dma_buf_get e) (c_attach e) (c_map_attachment e) s1) (smmu_table s1)"
      "ctx_id s' = wrap32 (ctx_id s1 + 1)" "next_node s' = Suc (next_node s1)"
      "file_refs s' = (file_refs s1)(f := file_refs s1 f - 1)" "domains s' = domains s1" "pgtbls s' = pgtbls s1"
    by blast
  have "kiumd_get_pgd w v s = Some (Inr pgd)"
    using r(2) get_pgd_cong [of s s1 w v] s1 by simp
  then show thesis
    using r(1,3-) ok unfolding s1
    by (intro that [of v pgd t]) (simp_all add: secure_entry_def)
qed

lemma unassign_sg_accepted:
  assumes "vs \<noteq> []" "sgt \<noteq> 0" "sgs sgt = Some t" "sgl t \<noteq> []" "distinct (map fst (sgl t))"
    and "\<forall>v \<in> set vs. 0 \<le> v \<and> v < 64" "\<And>c. c \<in> set (sgl t) \<Longrightarrow> map fst (owners s (fst c)) = vs"
  shows "\<exists>pp. kiumd_hyp_unassign_sg scm sgs sgt vs s = Some (0, s\<lparr>owners :=
     reassigned (sgl t) [(QCOM_SCM_VMID_HLOS, QCOM_SCM_PERM_RWX)] (owners s), page_private := pp\<rparr>)"
proof -
  obtain src where src: "vm_mask 0 vs = Some src" using assms(6) vm_mask_defined by blast
  have "assign_chunks scm src [(QCOM_SCM_VMID_HLOS, QCOM_SCM_PERM_RWX)] (sgl t) s
      = (0, s\<lparr>owners := reassigned (sgl t) [(QCOM_SCM_VMID_HLOS, QCOM_SCM_PERM_RWX)] (owners s)\<rparr>)"
    using assms(5,7) src by (intro assign_chunks_accepted) simp_all
  with assms(1-4) src show ?thesis by (simp add: kiumd_hyp_unassign_sg_def) (rule exI, rule refl)
qed

lemma unassign_page_accepted:
  assumes "\<forall>v \<in> set vs. 0 \<le> v \<and> v < 64" "map fst (owners s pgd) = QCOM_SCM_VMID_HLOS # vs"
  shows "kiumd_io_pgtable_hyp_unassign_page scm vs pgd s =
     Some (0, s\<lparr>owners := (owners s)(pgd := [(QCOM_SCM_VMID_HLOS, QCOM_SCM_PERM_RWX)])\<rparr>)"
proof -
  obtain src where src: "vm_mask HLOS_mask vs = Some src" using assms(1) vm_mask_defined by blast
  then have "vm_mask 0 (map fst (owners s pgd)) = Some src" unfolding assms(2) HLOS_mask_eq .
  from accepts [where own = "owners s" and addr = pgd, OF this] src show ?thesis
    by (simp add: kiumd_io_pgtable_hyp_unassign_page_def qcom_scm_assign_mem_def)
qed

lemma secure_release_accepted:
  assumes "dmabufattach x \<noteq> 0" "sgt_ptr x \<noteq> 0" "dmabuf_ptr x \<noteq> 0" "vs \<noteq> []"
    and t: "c_sg e (sgt_ptr x) = Some t" "sgl t \<noteq> []" "distinct (map fst (sgl t))" "pgd \<notin> fst ` set (sgl t)"
    and vs: "\<forall>v \<in> set vs. 0 \<le> v \<and> v < 64" "\<And>c. c \<in> set (sgl t) \<Longrightarrow> map fst (owners s (fst c)) = vs"
      "map fst (owners s pgd) = QCOM_SCM_VMID_HLOS # vs"
  shows "\<exists>s'. secure_release scm e file x vs pgd s = Some (0, None, s')
     \<and> owners s' = (reassigned (sgl t) [(QCOM_SCM_VMID_HLOS, QCOM_SCM_PERM_RWX)] (owners s))
                    (pgd := [(QCOM_SCM_VMID_HLOS, QCOM_SCM_PERM_RWX)])
     \<and> (\<forall>r. held s' r = held s r - int (count_list [AttachMap (dmabufattach x) (sgt_ptr x), DmaBufRef (dmabuf_ptr x),
            Attachment (dmabufattach x), SmapObj, VmidList, PermList] r))
     \<and> smmu_table s' = hash_del (sm_node x) (smmu_table s) \<and> file_refs s' = (file_refs s)(file := file_refs s file - 1)"
proof -
  let ?s1 = "release (AttachMap (dmabufattach x) (sgt_ptr x)) s" and ?dst = "[(QCOM_SCM_VMID_HLOS, QCOM_SCM_PERM_RWX)]"
  have "map fst (owners ?s1 (fst c)) = vs" if "c \<in> set (sgl t)" for c using vs(2) [OF that] by simp
  from unassign_sg_accepted [where sgs = "c_sg e" and s = ?s1, OF assms(4,2) t(1-3) vs(1) this] obtain pp where
    sg: "kiumd_hyp_unassign_sg scm (c_sg e) (sgt_ptr x) vs ?s1
      = Some (0, ?s1\<lparr>owners := reassigned (sgl t) ?dst (owners s), page_private := pp\<rparr>)" by auto
  define s2 where "s2 = ?s1\<lparr>owners := reassigned (sgl t) ?dst (owners s), page_private := pp\<rparr>"
  have s2: "owners s2 = reassigned (sgl t) ?dst (owners s)" "held s2 = held ?s1" "smmu_table s2 = smmu_table s"
    "file_refs s2 = file_refs s"
    by (simp_all add: s2_def)
  have "owners s2 pgd = owners s pgd" using t(4) by (simp add: s2(1) reassigned_def)
  with unassign_page_accepted [OF vs(1), of s2 pgd] vs(3)
  have page: "kiumd_io_pgtable_hyp_unassign_page scm vs pgd s2 = Some (0, s2\<lparr>owners := (owners s2)(pgd := ?dst)\<rparr>)"
    by simp
  have "secure_release scm e file x vs pgd s = free_mem file 0 (del_entry x (release (DmaBufRef (dmabuf_ptr x))
      (release (Attachment (dmabufattach x)) (s2\<lparr>owners := (owners s2)(pgd := ?dst)\<rparr>))))"
    using assms(1-3) sg page by (simp add: secure_release_def Let_def s2_def [symmetric])
  then show ?thesis
    by (simp add: free_mem_def close_file_def s2 del: ledger_owner)
qed

lemma secure_unmap_success:
  assumes x: "hash_find hash (\<lambda>_. True) (uid u) (smmu_table s) = Some x" "0 \<le> uid u" "dmabufattach x \<noteq> 0"
      "sgt_ptr x \<noteq> 0" "dmabuf_ptr x \<noteq> 0"
    and dev: "0 \<le> vfio_fd u" "w_fget w (vfio_fd u) \<noteq> 0" "w_private_data w (w_fget w (vfio_fd u)) \<noteq> 0"
      "v = w_device w (w_private_data w (w_fget w (vfio_fd u)))" "v \<noteq> 0" "w_dev w v \<noteq> 0"
      "kiumd_get_pgd w v s = Some (Inr pgd)"
    and acl: "acl_accepted e (nr_acl_entries (mem_parcel u)) (acl_list (mem_parcel u))" "\<forall>v \<in> set (user_vmids e u). v < 64"
    and t: "c_sg e (sgt_ptr x) = Some t" "sgl t \<noteq> []" "distinct (map fst (sgl t))" "pgd \<notin> fst ` set (sgl t)"
    and own: "\<And>c. c \<in> set (sgl t) \<Longrightarrow> map fst (owners s (fst c)) = user_vmids e u"
      "map fst (owners s pgd) = QCOM_SCM_VMID_HLOS # user_vmids e u"
  shows "\<exists>s'. kiumd_dmabuf_vfio_secure_unmap w hash scm e (Some u) s = Some (0, None, s')
     \<and> owners s' = (reassigned (sgl t) [(QCOM_SCM_VMID_HLOS, QCOM_SCM_PERM_RWX)] (owners s))
                    (pgd := [(QCOM_SCM_VMID_HLOS, QCOM_SCM_PERM_RWX)])
     \<and> (\<forall>r. held s' r = held s r - int (count_list [AttachMap (dmabufattach x) (sgt_ptr x), DmaBufRef (dmabuf_ptr x),
            Attachment (dmabufattach x), SmapObj] r))
     \<and> smmu_table s' = hash_del (sm_node x) (smmu_table s) \<and> file_refs s' = file_refs s"
proof -
  let ?f = "w_fget w (vfio_fd u)" and ?nr = "nr_acl_entries (mem_parcel u)" and ?l = "acl_list (mem_parcel u)"
  define s1 where "s1 = s\<lparr>file_refs := (file_refs s)(?f := file_refs s ?f + 1)\<rparr>"
  have fget: "vfio_file_device w EINVAL (vfio_fd u) s = Some (Inr (?f, v), s1)"
    using dev by (simp add: vfio_file_device_def do_fget_def Let_def s1_def)
  have pgd: "kiumd_get_pgd w v s1 = Some (Inr pgd)"
    using dev(7) get_pgd_cong [of s s1 w v] by (simp add: s1_def)
  from acl(1) acl_spec [of e ?nr ?l s1] obtain P where
    lists: "kiumd_acl_to_vmid_perms_list e ?nr ?l s1 = (Inr (user_vmids e u, P), acquire PermList (acquire VmidList s1))"
    by (cases "kiumd_acl_to_vmid_perms_list e ?nr ?l s1")
      (auto simp: user_vmids_def split: sum.splits)
  have nonempty: "user_vmids e u \<noteq> []" using acl_result(6) [OF lists] .
  have pos: "\<forall>v \<in> set (user_vmids e u). 0 \<le> v \<and> v < 64"
    using acl by (auto simp: user_vmids_def acl_vmids_def acl_accepted_def acl_entry_ok_def split: option.splits)
  let ?s2 = "acquire PermList (acquire VmidList s1)"
  have own2: "\<And>c. c \<in> set (sgl t) \<Longrightarrow> map fst (owners ?s2 (fst c)) = user_vmids e u"
    "map fst (owners ?s2 pgd) = QCOM_SCM_VMID_HLOS # user_vmids e u"
    using own by (simp_all add: s1_def)
  from secure_release_accepted [OF x(3-5) nonempty t pos own2, of ?f]
  obtain s' where s': "secure_release scm e ?f x (user_vmids e u) pgd ?s2 = Some (0, None, s')"
     "owners s' = (reassigned (sgl t) [(QCOM_SCM_VMID_HLOS, QCOM_SCM_PERM_RWX)] (owners ?s2))
                    (pgd := [(QCOM_SCM_VMID_HLOS, QCOM_SCM_PERM_RWX)])"
     "\<And>r. held s' r = held ?s2 r - int (count_list [AttachMap (dmabufattach x) (sgt_ptr x), DmaBufRef (dmabuf_ptr x),
            Attachment (dmabufattach x), SmapObj, VmidList, PermList] r)"
     "smmu_table s' = hash_del (sm_node x) (smmu_table ?s2)" "file_refs s' = (file_refs ?s2)(?f := file_refs ?s2 ?f - 1)"
    by blast
  have "kiumd_dmabuf_vfio_secure_unmap w hash scm e (Some u) s = Some (0, None, s')"
    using x(1,2) fget dev(6) pgd lists s'(1) by (simp add: kiumd_dmabuf_vfio_secure_unmap_def)
  with s' show ?thesis by (simp add: s1_def)
qed

end

section \<open>Properties\<close>

text \<open>C36: The access-control list is checked in full. The request's list is accepted exactly when it
  has between 1 and 64 entries, both arrays can be allocated, and every entry can be copied and has a
  non-negative machine id of at most 64 and non-negative permissions of at most 8; then the two arrays
  hold the ids and permissions in order; otherwise an error is returned and nothing stays allocated.\<close>

theorem acl_checked:
  "case kiumd_acl_to_vmid_perms_list e nr acl s of
     (Inl ret, s') \<Rightarrow> ret < 0 \<and> \<not> acl_accepted e nr acl \<and> s' = s
   | (Inr (V, P), s') \<Rightarrow> acl_accepted e nr acl \<and> V = acl_vmids (c_copy_acl e) [0 ..< unat nr]
       \<and> P = acl_permissions (c_copy_acl e) [0 ..< unat nr] \<and> s' = acquire PermList (acquire VmidList s)"
  by (rule acl_spec)




section \<open>Examples\<close>

definition example_sec :: sec_st where
  "example_sec = \<lparr>kiumd_xa = [], kiumd_xa_mutex = False, dmabuf_refs = (\<lambda>_. 0), handle_objs = 0,
     file_refs = (\<lambda>_. 0),
     cookies = (\<lambda>_. \<lparr>ctype = IOMMU_DMA_IOVA_COOKIE, msi_iova = 0, cookie_mutex = False\<rparr>),
     domains = domains example_smmu, smmus = smmus example_smmu, pgtbls = pgtbls example_smmu,
     pgtable = None, reg_writes = [], smmu_list = [], kobj_names = Map.empty, next_kobj = 0,
     device_obj = None, handler_token = Map.empty, notified = [], ctx_id = 0,
     smmu_table = empty_table, next_node = 0, pt = init_maps, held = (\<lambda>_. 0),
     owners = (\<lambda>_. [(QCOM_SCM_VMID_HLOS, QCOM_SCM_PERM_RWX)]), page_private = {}\<rparr>"

definition example_sg :: sg_tab where
  "example_sg = \<lparr>sgl = [(0x10000, 0x1000), (0x20000, 0x2000)], nents = 2\<rparr>"

definition example_sec_env :: sec_env where
  "example_sec_env = \<lparr>c_dma_buf_get = 0x1000, c_kmalloc_vmids = True, c_kmalloc_perms = True,
     c_copy_acl = (\<lambda>_. Some \<lparr>acl_vmid = 45, acl_perms = 6\<rparr>), c_attach = 0x2000, c_priv = 0x2100, c_table = 0x3000,
     c_sg = [0x3000 \<mapsto> example_sg], c_kcalloc_page = True, c_kcalloc_sg = True, c_map_attachment = 0x3000,
     c_kzalloc = True, c_sg_dma_address = 0x80000000, c_copy_to_user = True\<rparr>"

definition example_sec_user :: kiumd_user where
  "example_sec_user = user0\<lparr>vfio_fd := 3, mem_parcel := \<lparr>nr_acl_entries = 1, acl_list = 0x4000\<rparr>\<rparr>"

definition secure_mapped :: "sec_env \<Rightarrow> (int \<times> kiumd_user option \<times> sec_st) option" where
  "secure_mapped e = kiumd_dmabuf_vfio_secure_map example_world mod_hash reference_hyp e
     (Some example_sec_user) example_sec"

lemmas sec_eval = kiumd_dmabuf_vfio_secure_map_def secure_found_def secure_assign_def secure_record_def
  kiumd_get_pgd_def kiumd_iommu_get_dma_domain_def vfio_file_device_def do_fget_def Let_def
  kiumd_acl_to_vmid_perms_list_def kiumd_io_pgtable_hyp_assign_page_def kiumd_hyp_assign_sg_def
  qcom_scm_assign_mem_def reference_hyp_def HLOS_mask_def IS_ERR_OR_NULL_def IS_ERR_def
  secure_mapped_def example_sec_env_def example_sec_user_def example_world_def user0_def
  example_sg_def

lemma example_sec_fields [simp]:
  "domains example_sec 0x600 = \<lparr>dom_smmu = 0x800, pgtbl_ops = 0x900, dom_cfg = example_domain_cfg,
                     aperture_start = 0, aperture_end = 0\<rparr>"
  "pgtbls example_sec 0x900 = Some example_cfg" "owners example_sec = (\<lambda>_. [(QCOM_SCM_VMID_HLOS, QCOM_SCM_PERM_RWX)])"
  "ctx_id example_sec = 0" "next_node example_sec = 0" "smmu_table example_sec = empty_table"
  "held example_sec = (\<lambda>_. 0)" "file_refs example_sec = (\<lambda>_. 0)"
  by (simp_all add: example_sec_def example_smmu_def)







section \<open>What failing secure requests leave behind\<close>

text \<open>A rejected access-control list, and an attachment that fails, leave the buffer referenced.\<close>

lemma secure_acl_failure_leaks:
  "map_option (\<lambda>(ret, _, s). (ret, held s (DmaBufRef 0x1000)))
     (secure_mapped (example_sec_env\<lparr>c_copy_acl := \<lambda>_. Some \<lparr>acl_vmid = 65, acl_perms = 6\<rparr>\<rparr>)) = Some (- EINVAL, 1)"
  by (simp add: sec_eval close_file_def)

lemma secure_attach_failure_leaks:
  "map_option (\<lambda>(ret, _, s). (ret, held s (DmaBufRef 0x1000)))
     (secure_mapped (example_sec_env\<lparr>c_attach := ERR_PTR (- ENOMEM)\<rparr>)) = Some (- ENOMEM, 1)"
  by (simp add: sec_eval close_file_def free_mem_def ERR_PTR_def PTR_ERR_def)

text \<open>When the entry cannot be allocated the other machines keep the buffer and the page table.\<close>

lemma secure_no_entry_keeps_access:
  "map_option (\<lambda>(ret, _, s). (ret, owners s 0x10000, owners s 0x80000000, held s (DmaBufRef 0x1000), held s VmidList))
     (secure_mapped (example_sec_env\<lparr>c_kzalloc := False\<rparr>))
   = Some (- ENOMEM, [(45, 6)], [(QCOM_SCM_VMID_HLOS, QCOM_SCM_PERM_RW), (45, QCOM_SCM_PERM_READ)], 1, 1)"
  by (simp add: sec_eval close_file_def example_cfg_def)

text \<open>When the hypervisor refuses the second element, the first one stays with the other machine.\<close>

lemma secure_partial_assign:
  "map_option (\<lambda>(ret, _, s). (ret < 0, owners s 0x10000, owners s 0x80000000))
     (kiumd_dmabuf_vfio_secure_map example_world mod_hash
        (\<lambda>addr sz src dst own. if addr = 0x20000 then - EINVAL else reference_hyp addr sz src dst own)
        example_sec_env (Some example_sec_user) example_sec)
   = Some (True, [(45, 6)], [(QCOM_SCM_VMID_HLOS, QCOM_SCM_PERM_RWX)])"
  by (simp add: sec_eval example_cfg_def hyp_unassign_table_def detach_buf_def free_mem_def close_file_def
      kiumd_io_pgtable_hyp_unassign_page_def)

text \<open>When the attachment cannot be mapped, its error pointer is used as a table.\<close>

lemma secure_map_error_crashes:
  "secure_mapped (example_sec_env\<lparr>c_map_attachment := ERR_PTR (- ENOMEM)\<rparr>) = None"
  by (simp add: sec_eval example_cfg_def hyp_unassign_sg_def kiumd_hyp_unassign_sg_def ERR_PTR_def)

text \<open>The largest machine id that the list check accepts has no bit in the 64-bit mask.\<close>

lemma vmid_64_undefined: "vm_mask m (vs @ [64]) = None"
  by (induction vs arbitrary: m) simp_all

text \<open>A secure entry names no device, so closing the context with one follows a NULL pointer.\<close>

lemma close_secure_crashes:
  assumes "p \<noteq> 0"
  shows "close_entry w dsz e_unmap (secure_entry p a sgt s) s' = None"
  using assms by (simp add: close_entry_def secure_entry_def)

end
