(* ===== verification/KiumdDevice.thy ===== *)
theory KiumdDevice
  imports KiumdSecure IovaRegions
begin

text \<open>
  Model of the device file of \<open>drivers/kiumd.c\<close>: opening and closing it, the requests that set up
  the reserved memory areas and the reserved IOVA ranges, the mapping of an area into user space,
  and the dispatch of every request to its handler. The state is the whole of the driver: the
  handle table, the SMMU, the fault list, the mapping table, the secure owners and, added here, the
  reserved memory areas. An array of areas is named by a number; its elements are there as long as
  it is allocated, and using or freeing a freed one crashes.
\<close>

section \<open>Data\<close>

record kiumd_reserved_mem_area =
  ra_size :: u64
  ra_base :: u64

record ki_st = sec_st +
  ctx_alive :: bool
  num_reserved_regions :: int
  res_mem_area :: "nat option"
  mem_areas :: "nat \<Rightarrow> kiumd_reserved_mem_area list option"
  next_area :: nat
  iova_reserved :: "ptr \<Rightarrow> (u64 \<times> u64) list"
  iova_heap :: region_heap

text \<open>The answers to \<open>kiumd_vfio_ctx_init\<close>: whether the device has a node, the number of its
  memory regions, whether region \<open>i\<close> has a node and, if so, its start and size.\<close>

record init_env =
  i_of_node :: bool
  i_count :: int
  i_kcalloc :: bool
  i_phandle :: "nat \<Rightarrow> bool"
  i_resource :: "nat \<Rightarrow> (u64 \<times> u64) option"
  i_copy_to_user :: bool

abbreviation (input) KIUMD_MAX_RESERVED_MEM_AREAS :: nat where "KIUMD_MAX_RESERVED_MEM_AREAS \<equiv> 10"

section \<open>Reserved memory areas\<close>

definition kcalloc_areas :: "nat \<Rightarrow> 'a ki_st_scheme \<Rightarrow> 'a ki_st_scheme" where
  "kcalloc_areas n s = s\<lparr>res_mem_area := Some (next_area s), next_area := Suc (next_area s),
     mem_areas := (mem_areas s)(next_area s \<mapsto> replicate n \<lparr>ra_size = 0, ra_base = 0\<rparr>)\<rparr>"

definition kfree_areas :: "'a ki_st_scheme \<Rightarrow> 'a ki_st_scheme option" where
  "kfree_areas s =
     (case res_mem_area s of
        None \<Rightarrow> Some s
      | Some a \<Rightarrow> (case mem_areas s a of
          None \<Rightarrow> None
        | Some _ \<Rightarrow> Some (s\<lparr>mem_areas := (mem_areas s)(a := None)\<rparr>)))"

text \<open>The loop over the regions from \<open>i\<close> on: None for a write past the end of \<open>mem_info\<close>, an error
  for a region without an address, and otherwise the two arrays.\<close>

fun fill_areas :: "init_env \<Rightarrow> nat \<Rightarrow> nat \<Rightarrow> kiumd_reserved_mem_area list \<Rightarrow> kiumd_mem_info list
    \<Rightarrow> (int + kiumd_reserved_mem_area list \<times> kiumd_mem_info list) option" where
  "fill_areas e i 0 areas infos = Some (Inr (areas, infos))"
| "fill_areas e i (Suc n) areas infos =
     (if \<not> i_phandle e i then fill_areas e (Suc i) n areas infos
      else (case i_resource e i of
        None \<Rightarrow> Some (Inl (- EINVAL))
      | Some (start, sz) \<Rightarrow>
          if i \<ge> KIUMD_MAX_RESERVED_MEM_AREAS then None
          else fill_areas e (Suc i) n (areas[i := \<lparr>ra_size = sz, ra_base = start\<rparr>])
                 (infos[i := \<lparr>mi_offset = 0, mi_size = ucast sz\<rparr>])))"

definition init_areas ::
  "init_env \<Rightarrow> kiumd_dev_mem_info \<Rightarrow> 'a ki_st_scheme \<Rightarrow> (int \<times> kiumd_dev_mem_info option \<times> 'a ki_st_scheme) option"
  where
  "init_areas e u s =
     (let n = nat (i_count e); s = kcalloc_areas (n + 1) s; a = next_area s - 1 in
      case fill_areas e 0 n (replicate (n + 1) \<lparr>ra_size = 0, ra_base = 0\<rparr>) (mem_info u) of
        None \<Rightarrow> None
      | Some (Inl ret) \<Rightarrow> map_option (\<lambda>s. (ret, None, s)) (kfree_areas s)
      | Some (Inr (areas, infos)) \<Rightarrow>
          let s = s\<lparr>mem_areas := (mem_areas s)(a \<mapsto> areas)\<rparr> in
          if \<not> i_copy_to_user e then map_option (\<lambda>s. (- EFAULT, None, s)) (kfree_areas s)
          else Some (0, Some (u\<lparr>num_regions := of_nat n, mem_info := infos\<rparr>), s))"

definition kiumd_vfio_ctx_init ::
  "world \<Rightarrow> init_env \<Rightarrow> kiumd_dev_mem_info option \<Rightarrow> 'a ki_st_scheme
     \<Rightarrow> (int \<times> kiumd_dev_mem_info option \<times> 'a ki_st_scheme) option" where
  "kiumd_vfio_ctx_init w e arg s =
     (case arg of
        None \<Rightarrow> Some (- EINVAL, None, s)
      | Some u \<Rightarrow>
          (case kiumd_get_vfio_device w (dmi_vfio_fd u) s of
             (vfio_dev, s) \<Rightarrow>
               if vfio_dev = 0 then Some (- EINVAL, None, s)
               else if w_dev w vfio_dev = 0 then Some (- EINVAL, None, s)
               else if \<not> i_of_node e then Some (- EINVAL, None, s)
               else let s = s\<lparr>num_reserved_regions := i_count e\<rparr> in
                 if num_reserved_regions s \<le> 0 then Some (- EINVAL, None, s)
                 else if \<not> i_kcalloc e then Some (- EINVAL, None, s\<lparr>res_mem_area := None\<rparr>)
                 else init_areas e u s))"

text \<open>The mapping of an area: \<open>index\<close> is read before it is set, so its first value is a parameter.
  The result is the page frame and length of the mapping, or an error.\<close>

definition kiumd_mmap :: "u64 \<Rightarrow> u64 \<Rightarrow> u64 \<Rightarrow> u64 \<Rightarrow> 'a ki_st_scheme \<Rightarrow> (int + u64 \<times> u64) option" where
  "kiumd_mmap index vm_start vm_end vm_pgoff s =
     (case res_mem_area s of
        None \<Rightarrow> Some (Inl (- EINVAL))
      | Some a \<Rightarrow>
          if vm_end < vm_start then Some (Inl (- EINVAL))
          else if of_int (num_reserved_regions s) \<le> vm_pgoff then Some (Inl (- EINVAL))
          else (case mem_areas s a of
            None \<Rightarrow> None
          | Some areas \<Rightarrow>
              if unat index \<ge> length areas then None
              else if ra_base (areas ! unat index) AND 4095 \<noteq> 0 then Some (Inl (- EINVAL))
              else if unat vm_pgoff \<ge> length areas then None
              else Some (Inr (drop_bit 12 (ra_base (areas ! unat vm_pgoff)), vm_end - vm_start))))"

section \<open>Reserved IOVA ranges\<close>

definition iova_range :: "nat \<Rightarrow> iommu_resv_region \<Rightarrow> u64 \<times> u64" where
  "iova_range shift region =
     (drop_bit shift (rstart region), drop_bit shift (rstart region + rlength region - 1))"

text \<open>\<open>dt\<close> is the device tree data of a device and \<open>shift\<close> the granule of a cookie's allocator; the
  list \<open>resrvd\<close> is local and never freed.\<close>

definition kiumd_dmabuf_custom_iova_init ::
  "world \<Rightarrow> (ptr \<Rightarrow> iova_device) \<Rightarrow> (nat \<Rightarrow> bool) \<Rightarrow> (ptr \<Rightarrow> nat) \<Rightarrow> kiumd_user option \<Rightarrow> 'a ki_st_scheme
     \<Rightarrow> (int \<times> 'a ki_st_scheme) option" where
  "kiumd_dmabuf_custom_iova_init w dt alloc shift arg s =
     (case arg of
        None \<Rightarrow> Some (- EFAULT, s)
      | Some u \<Rightarrow>
          (case vfio_file_device w EINVAL (vfio_fd u) s of
             None \<Rightarrow> None
           | Some (Inl err, s) \<Rightarrow> Some (err, s)
           | Some (Inr (file, vfio_dev), s) \<Rightarrow>
               (case kiumd_iommu_get_dma_domain w (w_dev w vfio_dev) of
                  None \<Rightarrow> None
                | Some domain \<Rightarrow>
                    if domain = 0 then Some (- EINVAL, fput file s)
                    else
                      let cookie = w_iova_cookie w domain in
                      (case qcom_iommu_generate_resv_regions alloc (dt (w_dev w vfio_dev)) [] (iova_heap s) of
                         (resrvd, h) \<Rightarrow>
                           if cookie = 0 \<and> resrvd \<noteq> [] then None
                           else Some (0, fput file (s\<lparr>iova_heap := h,
                                  iova_reserved := (iova_reserved s)(cookie :=
                                    iova_reserved s cookie @ map (iova_range (shift cookie)) resrvd)\<rparr>))))))"

section \<open>Opening, closing and dispatch\<close>

definition kiumd_open :: "bool \<Rightarrow> 'a ki_st_scheme \<Rightarrow> int \<times> 'a ki_st_scheme" where
  "kiumd_open kzalloc s =
     (if \<not> kzalloc then (- ENOMEM, s)
      else (0, s\<lparr>ctx_id := 0, smmu_table := empty_table, kiumd_xa := [], kiumd_xa_mutex := False,
                 res_mem_area := None, num_reserved_regions := 0, ctx_alive := True\<rparr>))"

definition kiumd_close ::
  "world \<Rightarrow> (ptr \<Rightarrow> u64) \<Rightarrow> (ptr \<Rightarrow> u64) \<Rightarrow> 'a ki_st_scheme \<Rightarrow> (int \<times> 'a ki_st_scheme) option" where
  "kiumd_close w dmabuf_size e_unmap s =
     (case kiumd_close_table w dmabuf_size e_unmap s of
        None \<Rightarrow> None
      | Some s \<Rightarrow> (case kfree_areas s of
          None \<Rightarrow> None
        | Some s \<Rightarrow> (case release_handles s of
            None \<Rightarrow> None
          | Some s \<Rightarrow> Some (0, s\<lparr>ctx_alive := False\<rparr>))))"

text \<open>What stays the same between requests: the objects, the hash, the search, the buffer sizes, the
  hypervisor, device names and device trees.\<close>

record platform =
  p_world :: world
  p_hash :: "int \<Rightarrow> nat"
  p_search :: zero_area
  p_size :: "ptr \<Rightarrow> u64"
  p_scm :: scm
  p_name :: "ptr \<Rightarrow> string"
  p_dt :: "ptr \<Rightarrow> iova_device"
  p_alloc :: "nat \<Rightarrow> bool"
  p_shift :: "ptr \<Rightarrow> nat"

datatype kiumd_request =
  KIUMD_SMMU_MAP_BUF map_env "kiumd_user option"
| KIUMD_SMMU_UNMAP_BUF unmap_env "kiumd_user option"
| KIUMD_IOVA_MAP_CTRL "kiumd_iova option"
| KIUMD_SET_PGTBL_CONTEXT smmu_env "kiumd_smmu_user option"
| KIUMD_PER_PROCESS_ALLOC smmu_env "kiumd_smmu_user option"
| KIUMD_PER_PROCESS_SET "kiumd_smmu_user option"
| KIUMD_PER_PROCESS_FREE "kiumd_smmu_user option"
| KIUMD_FD_DMABUF_HANDLE fd_env "kiumd_user option"
| KIUMD_CUSTOM_IOVA_INIT "kiumd_user option"
| KIUMD_GLOBAL_PT_SET "kiumd_smmu_user option"
| KIUMD_SMMU_SECURE_MAP sec_env "kiumd_user option"
| KIUMD_SMMU_SECURE_UNMAP sec_env "kiumd_user option"
| KIUMD_SMMU_MMIO_MAP mmio_env "kiumd_smmu_mmio_map option"
| KIUMD_SMMU_MMIO_UNMAP "kiumd_smmu_mmio_map option"
| KIUMD_SMMU_FAULT_HANDLE_REGISTER reg_env "kiumd_user option"
| KIUMD_SMMU_FAULT_HANDLE_DEREGISTER "kiumd_user option"
| KIUMD_VFIO_CTX_INIT init_env "kiumd_dev_mem_info option"
| OTHER_COMMAND

text \<open>The reply copied to user space is dropped: the dispatcher returns the error code.\<close>

definition drop_reply :: "(int \<times> 'r \<times> 's) option \<Rightarrow> (int \<times> 's) option" where
  "drop_reply = map_option (\<lambda>(ret, _, s). (ret, s))"

fun kiumd_ioctl :: "platform \<Rightarrow> kiumd_request \<Rightarrow> 'a ki_st_scheme \<Rightarrow> (int \<times> 'a ki_st_scheme) option" where
  "kiumd_ioctl p (KIUMD_SMMU_MAP_BUF e arg) s =
     drop_reply (kiumd_dmabuf_vfio_map (p_world p) (p_hash p) (p_search p) (p_size p) e arg s)"
| "kiumd_ioctl p (KIUMD_SMMU_UNMAP_BUF e arg) s =
     kiumd_dmabuf_vfio_unmap (p_world p) (p_hash p) (p_size p) e arg s"
| "kiumd_ioctl p (KIUMD_IOVA_MAP_CTRL arg) s = kiumd_iova_ctrl (p_world p) arg s"
| "kiumd_ioctl p (KIUMD_SET_PGTBL_CONTEXT e arg) s = kiumd_set_pgtbl_context (p_world p) e arg s"
| "kiumd_ioctl p (KIUMD_PER_PROCESS_ALLOC e arg) s =
     drop_reply (kiumd_perprocess_pt_alloc (p_world p) e arg s)"
| "kiumd_ioctl p (KIUMD_PER_PROCESS_SET arg) s = kiumd_perprocess_pgtble_set (p_world p) arg s"
| "kiumd_ioctl p (KIUMD_PER_PROCESS_FREE arg) s = kiumd_perprocess_pgtble_free (p_world p) arg s"
| "kiumd_ioctl p (KIUMD_FD_DMABUF_HANDLE e arg) s = drop_reply (kiumd_fd_dmabuf_handler e arg s)"
| "kiumd_ioctl p (KIUMD_CUSTOM_IOVA_INIT arg) s =
     kiumd_dmabuf_custom_iova_init (p_world p) (p_dt p) (p_alloc p) (p_shift p) arg s"
| "kiumd_ioctl p (KIUMD_GLOBAL_PT_SET arg) s = kiumd_global_pgtble_set (p_world p) arg s"
| "kiumd_ioctl p (KIUMD_SMMU_SECURE_MAP e arg) s =
     drop_reply (kiumd_dmabuf_vfio_secure_map (p_world p) (p_hash p) (p_scm p) e arg s)"
| "kiumd_ioctl p (KIUMD_SMMU_SECURE_UNMAP e arg) s =
     drop_reply (kiumd_dmabuf_vfio_secure_unmap (p_world p) (p_hash p) (p_scm p) e arg s)"
| "kiumd_ioctl p (KIUMD_SMMU_MMIO_MAP e arg) s = drop_reply (kiumd_mmio_smmu_map (p_world p) (p_hash p) e arg s)"
| "kiumd_ioctl p (KIUMD_SMMU_MMIO_UNMAP arg) s = Some (kiumd_mmio_smmu_unmap (p_hash p) arg s)"
| "kiumd_ioctl p (KIUMD_SMMU_FAULT_HANDLE_REGISTER e arg) s =
     kiumd_smmu_fault_handler_register (p_world p) (p_name p) e arg s"
| "kiumd_ioctl p (KIUMD_SMMU_FAULT_HANDLE_DEREGISTER arg) s =
     kiumd_smmu_fault_handler_deregister (p_world p) (p_name p) arg s"
| "kiumd_ioctl p (KIUMD_VFIO_CTX_INIT e arg) s = drop_reply (kiumd_vfio_ctx_init (p_world p) e arg s)"
| "kiumd_ioctl p OTHER_COMMAND s = Some (- ENOTTY, s)"

section \<open>Reserved memory areas\<close>

definition area_of :: "init_env \<Rightarrow> nat \<Rightarrow> kiumd_reserved_mem_area" where
  "area_of e i = (case i_resource e i of None \<Rightarrow> \<lparr>ra_size = 0, ra_base = 0\<rparr>
     | Some (start, sz) \<Rightarrow> if i_phandle e i then \<lparr>ra_size = sz, ra_base = start\<rparr> else \<lparr>ra_size = 0, ra_base = 0\<rparr>)"

lemma fill_areas_spec:
  assumes "fill_areas e i n areas infos = Some (Inr (A, I))" "i + n \<le> length areas"
    and "\<forall>j \<in> {i ..< i + n}. areas ! j = \<lparr>ra_size = 0, ra_base = 0\<rparr>"
  shows "length A = length areas \<and> (\<forall>j < length areas. A ! j = (if i \<le> j \<and> j < i + n then area_of e j else areas ! j))
     \<and> length I = length infos"
  using assms
proof (induction n arbitrary: i areas infos)
  case (Suc n)
  obtain areas' infos' where step: "fill_areas e (Suc i) n areas' infos' = Some (Inr (A, I))"
    and areas': "areas' = areas[i := area_of e i]" and infos': "length infos' = length infos"
  proof (cases "i_phandle e i")
    case True
    with Suc.prems(1) obtain start sz where "i_resource e i = Some (start, sz)"
      by (auto split: option.splits)
    with True Suc.prems(1) that show ?thesis by (auto simp: area_of_def split: if_splits)
  next
    case False
    then have "area_of e i = areas ! i" using Suc.prems(3) by (auto simp: area_of_def split: option.splits)
    with False Suc.prems(1) that [of areas infos] show ?thesis by simp
  qed
  have "length A = length areas' \<and> (\<forall>j < length areas'. A ! j = (if Suc i \<le> j \<and> j < Suc i + n then area_of e j else areas' ! j))
     \<and> length I = length infos'"
    using Suc.prems(2,3) by (intro Suc.IH [OF step]) (auto simp: areas')
  moreover have "A ! j = (if i \<le> j \<and> j < i + Suc n then area_of e j else areas ! j)" if "j < length areas" for j
    using calculation that by (cases "j = i") (auto simp: areas')
  ultimately show ?case by (simp add: areas' infos')
qed auto

lemma fill_areas_error: "fill_areas e i n areas infos = Some (Inl ret) \<Longrightarrow> ret = - EINVAL"
  by (induction n arbitrary: i areas infos) (auto split: if_splits option.splits)

lemma ctx_init_success:
  assumes "kiumd_vfio_ctx_init w e arg s = Some (0, out, s')"
  shows "\<exists>a areas. 0 < i_count e \<and> num_reserved_regions s' = i_count e \<and> res_mem_area s' = Some a
     \<and> mem_areas s' a = Some areas \<and> length areas = nat (i_count e) + 1
     \<and> (\<forall>j < nat (i_count e). areas ! j = area_of e j)"
proof -
  from assms obtain u where u: "arg = Some u" by (cases arg) (simp_all add: kiumd_vfio_ctx_init_def)
  let ?n = "nat (i_count e)"
  let ?s1 = "s\<lparr>num_reserved_regions := i_count e\<rparr>"
  let ?blank = "replicate (?n + 1) \<lparr>ra_size = 0, ra_base = 0\<rparr>"
  have pos: "0 < i_count e" and run: "init_areas e u ?s1 = Some (0, out, s')"
    using assms by (auto simp: kiumd_vfio_ctx_init_def u get_vfio_device_eq Let_def split: if_splits)
  from run obtain x where x: "fill_areas e 0 ?n ?blank (mem_info u) = Some x"
    by (auto simp: init_areas_def Let_def split: option.splits)
  have "\<exists>A I. x = Inr (A, I)"
  proof (cases x)
    case (Inl ret)
    with run x fill_areas_error [OF x [unfolded Inl]] show ?thesis by (auto simp: init_areas_def Let_def)
  qed (metis surj_pair)
  then obtain A I where A: "x = Inr (A, I)" by blast
  from run x A have s': "s' = (kcalloc_areas (?n + 1) ?s1)\<lparr>mem_areas :=
      (mem_areas (kcalloc_areas (?n + 1) ?s1))(next_area s \<mapsto> A)\<rparr>"
    by (auto simp: init_areas_def Let_def kcalloc_areas_def split: if_splits)
  have blank: "\<forall>j \<in> {0 ..< 0 + ?n}. ?blank ! j = \<lparr>ra_size = 0, ra_base = 0\<rparr>"
    by (intro ballI nth_replicate) simp
  from fill_areas_spec [OF x [unfolded A] _ blank] have "length A = ?n + 1" "\<forall>j < ?n. A ! j = area_of e j"
    by auto
  with pos show ?thesis by (auto simp: s' kcalloc_areas_def)
qed

text \<open>What a mapping request returns once the index it reads is in range.\<close>

lemma mmap_spec:
  assumes "res_mem_area s = Some a" "mem_areas s a = Some areas" "length areas = nat (num_reserved_regions s) + 1"
    and "0 < num_reserved_regions s" "num_reserved_regions s < 2147483648" "unat index < length areas"
  shows "kiumd_mmap index st en off s = Some
     (if en < st \<or> nat (num_reserved_regions s) \<le> unat off \<or> ra_base (areas ! unat index) AND 4095 \<noteq> 0
      then Inl (- EINVAL) else Inr (drop_bit 12 (ra_base (areas ! unat off)), en - st))"
proof -
  have "unat (of_int (num_reserved_regions s) :: u64) = nat (num_reserved_regions s)"
  proof -
    have "(of_int (num_reserved_regions s) :: u64) = of_nat (nat (num_reserved_regions s))"
      using assms(4) by (simp add: of_nat_nat)
    with assms(5) show ?thesis by (simp add: unat_of_nat_u64)
  qed
  then have "(of_int (num_reserved_regions s) :: u64) \<le> off \<longleftrightarrow> nat (num_reserved_regions s) \<le> unat off"
    by (simp add: word_le_nat_alt)
  with assms show ?thesis by (auto simp: kiumd_mmap_def)
qed

lemma drop_bit_u64_mono: "a \<le> b \<Longrightarrow> drop_bit n a \<le> drop_bit n (b :: u64)"
  unfolding word_le_nat_alt unat_drop_bit_eq by (simp add: drop_bit_eq_div div_le_mono)

lemma custom_iova_covers:
  assumes good: "good_pool (dt (w_dev w v)) es" and alloc: "\<forall>n. alloc n"
    and u: "arg = Some u" "0 \<le> vfio_fd u" "w_fget w (vfio_fd u) \<noteq> 0" "w_private_data w (w_fget w (vfio_fd u)) \<noteq> 0"
      "v = w_device w (w_private_data w (w_fget w (vfio_fd u)))" "v \<noteq> 0" "w_dev w v \<noteq> 0" "cookie_of w v \<noteq> 0"
  shows "\<exists>s' l. kiumd_dmabuf_custom_iova_init w dt alloc shift arg s = Some (0, s')
     \<and> iova_reserved s' = (iova_reserved s)(cookie_of w v := iova_reserved s (cookie_of w v) @ l)
     \<and> (\<forall>(a :: u64) \<in> - {- 1}. unat a \<notin> covered es \<longrightarrow>
          (\<exists>(lo, hi) \<in> set l. lo \<le> drop_bit (shift (cookie_of w v)) a \<and> drop_bit (shift (cookie_of w v)) a \<le> hi))
     \<and> file_refs s' = file_refs s"
proof -
  let ?d = "w_default_domain w (w_iommu_group w (w_dev w v))" and ?c = "cookie_of w v"
  have dm: "w_iommu_group w (w_dev w v) \<noteq> 0" "?d \<noteq> 0" "?c = w_iova_cookie w ?d"
    using u(8) by (auto simp: cookie_of_def split: if_splits)
  from resv_complement [OF good alloc, of "[]" "iova_heap s"] obtain resv h where
    gen: "qcom_iommu_generate_resv_regions alloc (dt (w_dev w v)) [] (iova_heap s) = (resv, h)"
    and wf: "wf_regions resv"
    and cov: "covered resv = {..< 18446744073709551616} - covered es
         - (if Max (rend ` set es) = 18446744073709551615 then {18446744073709551615} else {})" by auto
  let ?l = "map (iova_range (shift ?c)) resv"
  have within: "\<exists>(lo, hi) \<in> set ?l. lo \<le> drop_bit (shift ?c) a \<and> drop_bit (shift ?c) a \<le> hi"
    if a: "a \<noteq> - 1" "unat a \<notin> covered es" for a :: u64
  proof -
    have "unat a \<noteq> 18446744073709551615"
    proof
      assume "unat a = 18446744073709551615"
      then have "unat a = unat (- 1 :: u64)" by simp
      with a(1) show False by (simp only: word_unat_eq_iff)
    qed
    with a(2) have "unat a \<in> covered resv" using unat_u64_bound [of a] by (simp add: cov)
    then obtain r where r: "r \<in> set resv" "unat (rstart r) \<le> unat a" "unat a < rend r"
      by (auto simp: covered_def addrs_def)
    with wf have "unat (rstart r + rlength r - 1) = rend r - 1"
      by (intro unat_region_end) (simp add: wf_regions_def)
    with r have "rstart r \<le> a" "a \<le> rstart r + rlength r - 1" by (simp_all add: word_le_nat_alt)
    then have "drop_bit (shift ?c) (rstart r) \<le> drop_bit (shift ?c) a"
      "drop_bit (shift ?c) a \<le> drop_bit (shift ?c) (rstart r + rlength r - 1)"
      by (simp_all add: drop_bit_u64_mono)
    with r(1) show ?thesis by (force simp: iova_range_def)
  qed
  define s' where "s' = s\<lparr>iova_heap := h, iova_reserved := (iova_reserved s)(?c := iova_reserved s ?c @ ?l)\<rparr>"
  have "kiumd_dmabuf_custom_iova_init w dt alloc shift arg s = Some (0, s')"
    using u(2-7) dm gen u(8)
    by (auto simp: kiumd_dmabuf_custom_iova_init_def u(1) vfio_file_device_def do_fget_def Let_def
        kiumd_iommu_get_dma_domain_def fput_def s'_def)
  moreover have "iova_reserved s' = (iova_reserved s)(?c := iova_reserved s ?c @ ?l)" "file_refs s' = file_refs s"
    by (simp_all add: s'_def)
  ultimately show ?thesis using within by blast
qed

section \<open>Properties\<close>

text \<open>C19: After the request for custom addresses the allocator of the device's domain can hand out
  nothing outside the pool. For a device with a well-formed address pool and allocations that do not
  fail, the request succeeds, leaves the other allocators and the file references alone, and every
  address outside the pool but the last of the address space lies in a reserved page range.\<close>

theorem custom_iova_reserves:
  assumes "good_pool (dt (w_dev w v)) es" "\<forall>n. alloc n"
    and "arg = Some u" "0 \<le> vfio_fd u" "w_fget w (vfio_fd u) \<noteq> 0" "w_private_data w (w_fget w (vfio_fd u)) \<noteq> 0"
      "v = w_device w (w_private_data w (w_fget w (vfio_fd u)))" "v \<noteq> 0" "w_dev w v \<noteq> 0" "cookie_of w v \<noteq> 0"
  shows "\<exists>s' l. kiumd_dmabuf_custom_iova_init w dt alloc shift arg s = Some (0, s')
     \<and> iova_reserved s' = (iova_reserved s)(cookie_of w v := iova_reserved s (cookie_of w v) @ l)
     \<and> (\<forall>(a :: u64) \<in> - {- 1}. unat a \<notin> covered es \<longrightarrow>
          (\<exists>(lo, hi) \<in> set l. lo \<le> drop_bit (shift (cookie_of w v)) a \<and> drop_bit (shift (cookie_of w v)) a \<le> hi))
     \<and> file_refs s' = file_refs s"
  using assms by (rule custom_iova_covers)

text \<open>After a successful initialisation the mapping request maps the region asked for. For every
  kernel answer, if the request for the reserved areas succeeds and the index read first is in range,
  the mapping request fails for a reversed interval, a region number that is too large or a region
  (the one at the index read first) that is not page aligned, and otherwise maps the first page of the
  region asked for, for the whole length of the interval.\<close>

theorem init_then_mmap:
  assumes "kiumd_vfio_ctx_init w e arg s = Some (0, out, s')" "i_count e < 2147483648"
    and "unat index < nat (i_count e)"
  shows "kiumd_mmap index st en off s' = Some
     (if en < st \<or> nat (i_count e) \<le> unat off \<or> ra_base (area_of e (unat index)) AND 4095 \<noteq> 0
      then Inl (- EINVAL) else Inr (drop_bit 12 (ra_base (area_of e (unat off))), en - st))"
proof -
  from ctx_init_success [OF assms(1)] obtain a areas where
    s': "0 < i_count e" "num_reserved_regions s' = i_count e" "res_mem_area s' = Some a"
      "mem_areas s' a = Some areas" "length areas = nat (i_count e) + 1"
      "\<forall>j < nat (i_count e). areas ! j = area_of e j" by blast
  with mmap_spec [of s' a areas index st en off] assms(2,3) show ?thesis by auto
qed

section \<open>Examples\<close>

definition example_ki :: ki_st where
  "example_ki = \<lparr>kiumd_xa = [], kiumd_xa_mutex = False, dmabuf_refs = (\<lambda>_. 0), handle_objs = 0,
     file_refs = (\<lambda>_. 0),
     cookies = (\<lambda>_. \<lparr>ctype = IOMMU_DMA_IOVA_COOKIE, msi_iova = 0, cookie_mutex = False\<rparr>),
     domains = domains example_smmu, smmus = smmus example_smmu, pgtbls = pgtbls example_smmu,
     pgtable = None, reg_writes = [], smmu_list = [], kobj_names = Map.empty, next_kobj = 0,
     device_obj = None, handler_token = Map.empty, notified = [], ctx_id = 0,
     smmu_table = empty_table, next_node = 0, pt = init_maps, held = (\<lambda>_. 0),
     owners = (\<lambda>_. [(QCOM_SCM_VMID_HLOS, QCOM_SCM_PERM_RWX)]), page_private = {},
     ctx_alive = False, num_reserved_regions = 0, res_mem_area = None, mem_areas = Map.empty, next_area = 0,
     iova_reserved = (\<lambda>_. []), iova_heap = \<lparr>attempts = 0, live = 0\<rparr>\<rparr>"

definition example_init :: "nat \<Rightarrow> init_env" where
  "example_init n = \<lparr>i_of_node = True, i_count = int n, i_kcalloc = True, i_phandle = (\<lambda>_. True),
     i_resource = (\<lambda>i. Some (0x80000000, 0x1000)), i_copy_to_user = True\<rparr>"

definition example_info :: kiumd_dev_mem_info where
  "example_info = \<lparr>dmi_vfio_fd = 3, num_regions = 0, mem_info = replicate 10 \<lparr>mi_offset = 0, mi_size = 0\<rparr>\<rparr>"

lemmas init_eval = kiumd_vfio_ctx_init_def init_areas_def get_vfio_device_eq vfio_device_of_def
  kcalloc_areas_def kfree_areas_def Let_def example_init_def example_info_def example_world_def example_ki_def

theorem custom_iova_reserves_witness:
  "\<exists>s' l. kiumd_dmabuf_custom_iova_init example_world (\<lambda>_. example_dev) (\<lambda>_. True) (\<lambda>_. 12)
        (Some (user0\<lparr>vfio_fd := 3\<rparr>)) example_ki = Some (0, s')
     \<and> iova_reserved s' 0x700 = l \<and> (\<exists>(lo, hi) \<in> set l. lo \<le> 0x80000 \<and> (0x80000 :: u64) \<le> hi)"
proof -
  have out: "unat (0x80000000 :: u64) \<notin> covered example_pool"
    by (simp add: covered_def addrs_def rend_def example_pool_def)
  have c: "cookie_of example_world 0x300 = 0x700" by (simp add: cookie_of_def example_world_def)
  from custom_iova_reserves [where w = example_world and v = "0x300" and dt = "\<lambda>_. example_dev" and shift = "\<lambda>_. 12"
      and s = example_ki and u = "user0\<lparr>vfio_fd := 3\<rparr>", OF example_pool_good _ refl, of "\<lambda>_. True"]
  obtain s' l where r: "kiumd_dmabuf_custom_iova_init example_world (\<lambda>_. example_dev) (\<lambda>_. True) (\<lambda>_. 12)
        (Some (user0\<lparr>vfio_fd := 3\<rparr>)) example_ki = Some (0, s')"
      "iova_reserved s' = (iova_reserved example_ki)(0x700 := iova_reserved example_ki 0x700 @ l)"
      "\<forall>(a :: u64) \<in> - {- 1}. unat a \<notin> covered example_pool \<longrightarrow>
          (\<exists>(lo, hi) \<in> set l. lo \<le> drop_bit 12 a \<and> drop_bit 12 a \<le> hi)"
    by (auto simp: c) (auto simp: example_world_def)
  from r(3) out have "\<exists>(lo, hi) \<in> set l. lo \<le> drop_bit 12 0x80000000 \<and> drop_bit 12 (0x80000000 :: u64) \<le> hi"
    by (intro r(3) [rule_format]) simp_all
  with r(1,2) show ?thesis by (simp add: example_ki_def)
qed

lemma example_init_ok: "\<exists>out s'. kiumd_vfio_ctx_init example_world (example_init 1) (Some example_info) example_ki = Some (0, out, s')"
  by (simp add: init_eval)

theorem init_then_mmap_witness:
  "\<exists>out s'. kiumd_vfio_ctx_init example_world (example_init 1) (Some example_info) example_ki = Some (0, out, s')
     \<and> kiumd_mmap 0 0x10000 0x90000 0 s' = Some (Inr (0x80000, 0x80000))"
proof -
  obtain out s' where m: "kiumd_vfio_ctx_init example_world (example_init 1) (Some example_info) example_ki = Some (0, out, s')"
    using example_init_ok by blast
  from init_then_mmap [OF m, where index = 0 and st = "0x10000" and en = "0x90000" and off = 0] m show ?thesis
    by (simp add: area_of_def example_init_def)
qed

section \<open>What the requests leave behind\<close>

text \<open>The index is read before it is set: an arbitrary value reads past the array.\<close>

lemma mmap_uninitialised_index:
  assumes "res_mem_area s = Some a" "mem_areas s a = Some areas" "\<not> en < st"
    and "\<not> of_int (num_reserved_regions s) \<le> off" "length areas \<le> unat index"
  shows "kiumd_mmap index st en off s = None"
  using assms by (simp add: kiumd_mmap_def)

text \<open>A failed copy frees the array but leaves the context pointing to it: mapping an area, and
  closing the file, then use the freed array.\<close>

lemma init_failure_dangles:
  "map_option (\<lambda>(ret, _, s). (ret, kiumd_mmap 0 0x10000 0x11000 0 s, kfree_areas s))
     (kiumd_vfio_ctx_init example_world ((example_init 1)\<lparr>i_copy_to_user := False\<rparr>) (Some example_info) example_ki)
   = Some (- EFAULT, None, None)"
  by (simp add: init_eval kiumd_mmap_def)

text \<open>A second initialisation drops the first array without freeing it.\<close>

lemma second_init_leaks:
  "Option.bind (kiumd_vfio_ctx_init example_world (example_init 1) (Some example_info) example_ki)
     (\<lambda>(_, _, s). map_option (\<lambda>(ret, _, s). (ret, res_mem_area s, mem_areas s 0 \<noteq> None))
        (kiumd_vfio_ctx_init example_world (example_init 1) (Some example_info) s)) = Some (0, Some 1, True)"
  by (simp add: init_eval)

text \<open>More regions than the request has room for are written past its end.\<close>

lemma fill_areas_overflow:
  assumes "\<forall>i. i_phandle e i \<and> i_resource e i \<noteq> None" "i \<le> 10" "10 < i + n"
  shows "fill_areas e i n areas infos = None"
  using assms(2-)
proof (induction n arbitrary: i areas infos)
  case (Suc n)
  from assms(1) obtain start sz where r: "i_resource e i = Some (start, sz)" by (metis option.exhaust surj_pair)
  show ?case
  proof (cases "i = 10")
    case False
    with Suc.prems Suc.IH show ?thesis using assms(1) r by simp
  qed (use assms(1) r in simp)
qed simp

lemma init_many_regions_crashes:
  assumes "10 < n"
  shows "kiumd_vfio_ctx_init example_world (example_init n) (Some example_info) example_ki = None"
  using assms fill_areas_overflow [of "example_init n" 0 n]
  by (simp add: init_eval)

end
