(* ===== verification/KiumdFrames.thy ===== *)
theory KiumdFrames
  imports KiumdDevice
begin

text \<open>
  What each request of \<open>drivers/kiumd.c\<close> leaves alone: every request but the handle request keeps the
  handle table and its ledger, and every request but the mapping ones keeps the mapping table and
  its counters. With the step lemmas of the components, the invariants of both tables then hold
  over every sequence of requests of an open device file.
\<close>

section \<open>The handle table\<close>

definition handles_kept :: "'a handle_ctx_scheme \<Rightarrow> 'b handle_ctx_scheme \<Rightarrow> bool" where
  "handles_kept s s' \<longleftrightarrow> kiumd_xa s' = kiumd_xa s \<and> kiumd_xa_mutex s' = kiumd_xa_mutex s
     \<and> dmabuf_refs s' = dmabuf_refs s \<and> handle_objs s' = handle_objs s"

lemma handles_kept_refl [simp]: "handles_kept s s"
  by (simp add: handles_kept_def)

lemma handles_kept_trans: "handles_kept s t \<Longrightarrow> handles_kept t u \<Longrightarrow> handles_kept s u"
  by (simp add: handles_kept_def)

lemma handles_kept_inv: "handles_kept s s' \<Longrightarrow> handles_inv n s \<Longrightarrow> handles_inv n s'"
  by (simp add: handles_kept_def handles_inv_def)

lemma kept_ops [simp]:
  "handles_kept s (acquire r t) = handles_kept s t" "handles_kept s (release r t) = handles_kept s t"
  "handles_kept s (fput f t) = handles_kept s t" "handles_kept s (add_entry h x t) = handles_kept s t"
  "handles_kept s (del_entry x t) = handles_kept s t"
  "handles_kept s (set_cookie_mutex c b t) = handles_kept s t"
  "handles_kept s (snd (kiumd_set_dma_cookie c ty i t)) = handles_kept s t"
  "handles_kept s (snd (kiumd_set_dma_cookie_unlocked c ty i t)) = handles_kept s t"
  "handles_kept s (snd (do_fget w fd t)) = handles_kept s t"
  "handles_kept s (t\<lparr>pt := m\<rparr>) = handles_kept s t"
  "handles_kept s (mmio_dma_map e mm c d t) = handles_kept s t"
  by (simp_all add: handles_kept_def acquire_def release_def fput_def add_entry_def del_entry_def
      set_cookie_mutex_def kiumd_set_dma_cookie_def kiumd_set_dma_cookie_unlocked_def do_fget_def Let_def
      mmio_dma_map_def)

lemma vfio_file_device_kept:
  "vfio_file_device w err fd s = Some (x, s') \<Longrightarrow> handles_kept s s'"
  by (auto simp: vfio_file_device_def do_fget_def handles_kept_def Let_def fput_def split: if_splits)

lemma map_set_iova_kept:
  "map_set_iova w search sz u v s = Some (x, s') \<Longrightarrow> handles_kept s s'"
  by (auto simp: map_set_iova_def set_map_iova_def get_dma_cookie_eq set_cookie_eq handles_kept_def Let_def
      split: if_splits option.splits prod.splits)

lemma map_sg_kept: "map_sg w e u v a s = Some (x, s') \<Longrightarrow> handles_kept s s'"
  by (auto simp: map_sg_def Let_def split: if_splits option.splits)

lemma map_record_kept:
  "map_record hash e u f v p a sgt d s = Some (ret, out, s') \<Longrightarrow> handles_kept s s'"
  by (auto simp: map_record_def fail_detach_def fail_put_def fail_fput_def Let_def split: if_splits)

text \<open>A step after an acquisition, and one after a failing stage.\<close>

lemma kept_after: "handles_kept (acquire r s) s' = handles_kept s s'"
  by (simp add: handles_kept_def acquire_def)

lemma map_attached_kept:
  assumes "map_attached w hash e u f v p s = Some (ret, out, s')"
  shows "handles_kept s s'"
proof -
  note exits = fail_detach_def fail_put_def fail_fput_def
  let ?a = "m_attach e"
  show ?thesis
  proof (cases "IS_ERR ?a \<or> dma_direction u < DMA_BIDIRECTIONAL \<or> dma_direction u > DMA_NONE")
    case True
    with assms show ?thesis by (auto simp: map_attached_def Let_def exits split: if_splits)
  next
    case False
    with assms obtain x s2 where sg: "map_sg w e u v ?a (acquire (Attachment ?a) s) = Some (x, s2)"
      by (auto simp: map_attached_def Let_def split: option.splits)
    from map_sg_kept [OF sg] have kept: "handles_kept s s2" by (simp add: kept_after)
    show ?thesis
    proof (cases x)
      case (Mapped sgt)
      with assms False sg have "\<exists>d. map_record hash e u f v p ?a sgt d s2 = Some (ret, out, s')"
        by (auto simp: map_attached_def Let_def)
      with map_record_kept handles_kept_trans [OF kept] show ?thesis by blast
    qed (use assms False sg kept in \<open>auto simp: map_attached_def Let_def exits\<close>)
  qed
qed

lemma map_found_kept:
  assumes "map_found w hash search dsz e u f v s = Some (ret, out, s')"
  shows "handles_kept s s'"
proof -
  note exits = fail_put_def fail_fput_def
  let ?p = "m_dma_buf_get e"
  show ?thesis
  proof (cases "IS_ERR_OR_NULL ?p")
    case True
    with assms show ?thesis by (auto simp: map_found_def Let_def exits split: if_splits)
  next
    case False
    with assms obtain r1 s1 where iova: "map_set_iova w search (dsz ?p) u v (acquire (DmaBufRef ?p) s) = Some (r1, s1)"
      by (auto simp: map_found_def Let_def split: option.splits)
    from map_set_iova_kept [OF iova] have kept: "handles_kept s s1" by (simp add: kept_after)
    show ?thesis
    proof (cases "r1 < 0 \<or> w_dev w v = 0")
      case True
      with assms False iova kept show ?thesis by (auto simp: map_found_def Let_def exits split: if_splits)
    next
      case ok: False
      with assms False iova have "map_attached w hash e u f v ?p s1 = Some (ret, out, s')"
        by (simp add: map_found_def Let_def)
      with map_attached_kept handles_kept_trans [OF kept] show ?thesis by blast
    qed
  qed
qed

lemma map_kept:
  assumes "kiumd_dmabuf_vfio_map w hash search dsz e arg s = Some (ret, out, s')"
  shows "handles_kept s s'"
proof (cases "m_kzalloc1 e \<and> arg \<noteq> None")
  case True
  then obtain u where u: "arg = Some u" by blast
  with assms True obtain x s1 where
    r: "vfio_file_device w EINVAL (vfio_fd u) (acquire SmapObj s) = Some (x, s1)"
    by (auto simp: kiumd_dmabuf_vfio_map_def Let_def split: option.splits)
  from vfio_file_device_kept [OF r] have kept: "handles_kept s s1" by (simp add: kept_after)
  show ?thesis
  proof (cases x)
    case (Inr fv)
    then obtain f v where "x = Inr (f, v)" by (cases fv) simp
    with assms True u r have "map_found w hash search dsz e u f v s1 = Some (ret, out, s')"
      by (simp add: kiumd_dmabuf_vfio_map_def Let_def)
    with map_found_kept handles_kept_trans [OF kept] show ?thesis by blast
  qed (use assms True u r kept in \<open>simp add: kiumd_dmabuf_vfio_map_def Let_def\<close>)
qed (use assms in \<open>auto simp: kiumd_dmabuf_vfio_map_def Let_def split: if_splits option.splits\<close>)

lemma unmap_clear_kept: "unmap_clear sz u s = Some s' \<Longrightarrow> handles_kept s s'"
  by (auto simp: unmap_clear_def split: if_splits)

lemma unmap_sg_kept: "unmap_sg w sz e u x s = Some (ret, s') \<Longrightarrow> handles_kept s s'"
  by (auto simp: unmap_sg_def Let_def do_fget_def handles_kept_def fput_def release_def
      split: if_splits option.splits dest!: iommu_domain_state)

lemma unmap_flush_kept: "unmap_flush w u s = Some (ret, s') \<Longrightarrow> s' = s"
  by (auto simp: unmap_flush_def split: if_splits option.splits dest!: iommu_domain_state)

lemma unmap_kept:
  assumes "kiumd_dmabuf_vfio_unmap w hash dsz e arg s = Some (ret, s')"
  shows "handles_kept s s'"
proof (cases "\<exists>u x s1 s2. arg = Some u \<and> hash_find hash (\<lambda>_. True) (uid u) (smmu_table s) = Some x
    \<and> unmap_clear (dsz (dmabuf_ptr x)) u s = Some s1
    \<and> unmap_sg w (dsz (dmabuf_ptr x)) e u x s1 = Some (0, s2)")
  case True
  then obtain u x s1 s2 where u: "arg = Some u" and x: "hash_find hash (\<lambda>_. True) (uid u) (smmu_table s) = Some x"
    and s1: "unmap_clear (dsz (dmabuf_ptr x)) u s = Some s1"
    and s2: "unmap_sg w (dsz (dmabuf_ptr x)) e u x s1 = Some (0, s2)" by blast
  have "handles_kept s s2"
    using handles_kept_trans [OF unmap_clear_kept [OF s1] unmap_sg_kept [OF s2]] .
  with assms u x s1 s2 show ?thesis
    by (auto simp: kiumd_dmabuf_vfio_unmap_def Let_def split: if_splits option.splits dest!: unmap_flush_kept)
next
  case False
  with assms show ?thesis
    by (auto simp: kiumd_dmabuf_vfio_unmap_def Let_def split: if_splits option.splits
        dest!: unmap_clear_kept unmap_sg_kept intro: handles_kept_trans)
qed

lemma mmio_map_kept:
  "kiumd_mmio_smmu_map w hash e arg s = Some (ret, out, s') \<Longrightarrow> handles_kept s s'"
  by (auto simp: kiumd_mmio_smmu_map_def get_vfio_device_eq get_dma_cookie_eq Let_def reg_free_def mmio_finish_def
      split: if_splits option.splits)

lemma mmio_unmap_kept: "kiumd_mmio_smmu_unmap hash arg s = (ret, s') \<Longrightarrow> handles_kept s s'"
  by (auto simp: kiumd_mmio_smmu_unmap_def split: if_splits option.splits)

section \<open>Both tables\<close>

definition tables_kept :: "'a map_st_scheme \<Rightarrow> 'a map_st_scheme \<Rightarrow> bool" where
  "tables_kept s s' \<longleftrightarrow> handles_kept s s' \<and> table_kept s s'"

lemma tables_kept_refl [simp]: "tables_kept s s"
  by (simp add: tables_kept_def table_kept_def)

lemma tables_kept_trans: "tables_kept s t \<Longrightarrow> tables_kept t u \<Longrightarrow> tables_kept s u"
  by (auto simp: tables_kept_def table_kept_def handles_kept_def)

lemmas tables_kept_defs = tables_kept_def table_kept_def handles_kept_def

lemma iova_ctrl_kept: "kiumd_iova_ctrl w arg s = Some (ret, s') \<Longrightarrow> tables_kept s s'"
  by (auto simp: kiumd_iova_ctrl_def get_vfio_device_eq get_dma_cookie_eq set_cookie_eq tables_kept_defs Let_def
      split: option.splits if_splits)

lemma write_bank_kept [simp]: "tables_kept s (kiumd_smmuv2_write_context_bank m i t) = tables_kept s t"
  by (simp add: kiumd_smmuv2_write_context_bank_def log_write_def tables_kept_defs Let_def)

lemma smmu_ops_kept [simp]:
  "tables_kept s (put_cb m i cb t) = tables_kept s t" "tables_kept s (set_pgtbl_ops sd ops t) = tables_kept s t"
  "tables_kept s (fput f t) = tables_kept s t" "tables_kept s (t\<lparr>domains := d\<rparr>) = tables_kept s t"
  "tables_kept s (t\<lparr>pgtable := pg\<rparr>) = tables_kept s t"
  by (simp_all add: put_cb_def set_pgtbl_ops_def fput_def tables_kept_defs)

lemma kept_from [simp]:
  "tables_kept (set_pgtbl_ops sd ops s) s' = tables_kept s s'" "tables_kept (fput f s) s' = tables_kept s s'"
  "tables_kept (s\<lparr>domains := d\<rparr>) s' = tables_kept s s'" "tables_kept (s\<lparr>pgtable := pg\<rparr>) s' = tables_kept s s'"
  by (simp_all add: set_pgtbl_ops_def fput_def tables_kept_defs)

lemma set_ttbr_kept:
  "kiumd_smmuv2_set_ttbr0_cfg sd cfg s = (ret, s') \<Longrightarrow> tables_kept s s'"
  "kiumd_smmuv2_set_ttbr1_cfg sd cfg s = (ret, s') \<Longrightarrow> tables_kept s s'"
  by (auto simp: kiumd_smmuv2_set_ttbr0_cfg_def kiumd_smmuv2_set_ttbr1_cfg_def Let_def split: if_splits)

lemma pgtable_ops_kept:
  "alloc_io_pgtable_ops e cfg s = (ops, cfg', s') \<Longrightarrow> tables_kept s s'"
  "free_io_pgtable_ops ops s = Some s' \<Longrightarrow> tables_kept s s'"
  by (auto simp: alloc_io_pgtable_ops_def free_io_pgtable_ops_def tables_kept_defs
      split: prod.splits if_splits option.splits)

lemma vfio_file_device_tables:
  "vfio_file_device w err fd s = Some (x, s') \<Longrightarrow> tables_kept s s'"
  by (auto simp: vfio_file_device_def do_fget_def tables_kept_defs Let_def fput_def split: if_splits)

lemma ttbr1_context_kept:
  assumes "kiumd_set_pgtble_ttbr1_context e sd s = Some (ret, s')"
  shows "tables_kept s s'"
  using assms
  by (auto simp: kiumd_set_pgtble_ttbr1_context_def Let_def split: if_splits option.splits prod.splits
      dest!: pgtable_ops_kept set_ttbr_kept) (blast intro: tables_kept_trans)+

lemma ttbr0_context_kept:
  assumes "kiumd_set_pgtble_ttbr0_context e sd s = Some (ret, s')"
  shows "tables_kept s s'"
proof -
  define s1 where "s1 = (if pgtable s = None then s\<lparr>pgtable := Some (pgtbl_ops (domains s sd))\<rparr> else s)"
  have s1: "tables_kept s1 t = tables_kept s t" for t by (simp add: s1_def)
  show ?thesis
  proof (cases "pgtbl_ops (domains s sd) = 0")
    case True
    with assms show ?thesis by (simp add: kiumd_set_pgtble_ttbr0_context_def)
  next
    case False
    with assms have "tables_kept s1 s'"
      unfolding kiumd_set_pgtble_ttbr0_context_def Let_def s1_def [symmetric]
      by (auto split: if_splits option.splits prod.splits bind_splits
          dest!: pgtable_ops_kept set_ttbr_kept) (blast intro: tables_kept_trans)+
    then show ?thesis by (simp add: s1)
  qed
qed

lemma pgtable_requests_kept:
  "kiumd_set_pgtbl_context w e arg s = Some (ret, s') \<Longrightarrow> tables_kept s s'"
  "kiumd_perprocess_pgtble_set w arg s = Some (ret, s') \<Longrightarrow> tables_kept s s'"
  "kiumd_perprocess_pgtble_free w arg s = Some (ret, s') \<Longrightarrow> tables_kept s s'"
  by (auto simp: kiumd_set_pgtbl_context_def kiumd_perprocess_pgtble_set_def kiumd_perprocess_pgtble_free_def
      get_vfio_device_eq split: if_splits option.splits sum.splits
      dest!: ttbr0_context_kept ttbr1_context_kept vfio_file_device_tables pgtable_ops_kept)
    (blast intro: tables_kept_trans)+

lemma pt_alloc_kept:
  assumes "kiumd_perprocess_pt_alloc w e arg s = Some (ret, out, s')"
  shows "tables_kept s s'"
  using assms
  by (auto simp: kiumd_perprocess_pt_alloc_def Let_def split: if_splits option.splits sum.splits prod.splits
      dest!: vfio_file_device_tables pgtable_ops_kept dest: tables_kept_trans)

lemma global_set_kept:
  assumes "kiumd_global_pgtble_set w arg s = Some (ret, s')"
  shows "tables_kept s s'"
  using assms
  by (auto simp: kiumd_global_pgtble_set_def Let_def split: if_splits option.splits sum.splits
      dest!: vfio_file_device_tables)

lemma fault_requests_kept:
  "kiumd_smmu_fault_handler_register w dn re arg s = Some (ret, s') \<Longrightarrow> tables_kept s s'"
  "kiumd_smmu_fault_handler_deregister w dn arg s = Some (ret, s') \<Longrightarrow> tables_kept s s'"
  by (auto simp: kiumd_smmu_fault_handler_register_def kiumd_smmu_fault_handler_deregister_def
      get_vfio_device_eq Let_def tables_kept_defs split: if_splits option.splits)

lemma area_ops_kept [simp]:
  "tables_kept s (kcalloc_areas n t) = tables_kept s t" "tables_kept (kcalloc_areas n s) t = tables_kept s t"
  "tables_kept s (t\<lparr>mem_areas := m\<rparr>) = tables_kept s t" "tables_kept (s\<lparr>mem_areas := m\<rparr>) t = tables_kept s t"
  "tables_kept s (t\<lparr>num_reserved_regions := k\<rparr>) = tables_kept s t"
  "tables_kept (s\<lparr>num_reserved_regions := k\<rparr>) t = tables_kept s t"
  "tables_kept s (t\<lparr>res_mem_area := a\<rparr>) = tables_kept s t"
  by (simp_all add: kcalloc_areas_def tables_kept_defs)

lemma kfree_areas_kept: "kfree_areas s = Some s' \<Longrightarrow> tables_kept s s'"
  by (auto simp: kfree_areas_def split: option.splits)

lemma ctx_init_kept:
  assumes "kiumd_vfio_ctx_init w e arg s = Some (ret, out, s')"
  shows "tables_kept s s'"
  using assms
  by (auto simp: kiumd_vfio_ctx_init_def init_areas_def get_vfio_device_eq Let_def
      split: if_splits option.splits sum.splits dest!: kfree_areas_kept)

lemma custom_iova_kept:
  assumes "kiumd_dmabuf_custom_iova_init w dt alloc shift arg s = Some (ret, s')"
  shows "tables_kept s s'"
proof -
  have [simp]: "tables_kept s (t\<lparr>iova_heap := h, iova_reserved := r\<rparr>) = tables_kept s t"
    "tables_kept s (t\<lparr>iova_heap := h\<rparr>) = tables_kept s t" for s t h r
    by (simp_all add: tables_kept_defs)
  show ?thesis
    using assms
    by (auto simp: kiumd_dmabuf_custom_iova_init_def Let_def
        split: if_splits option.splits sum.splits prod.splits dest!: vfio_file_device_tables)
qed

section \<open>Secure requests\<close>

lemma ledger_ops_kept [simp]:
  "tables_kept s (acquire r t) = tables_kept s t" "tables_kept s (release r t) = tables_kept s t"
  "tables_kept (acquire r s) t = tables_kept s t" "tables_kept (release r s) t = tables_kept s t"
  by (simp_all add: tables_kept_defs acquire_def release_def)

lemma owner_ops_kept [simp]:
  "tables_kept s (t\<lparr>owners := ow\<rparr>) = tables_kept s t" "tables_kept (s\<lparr>owners := ow\<rparr>) t = tables_kept s t"
  "tables_kept s (t\<lparr>page_private := pp\<rparr>) = tables_kept s t"
  by (simp_all add: tables_kept_defs)

lemma assign_mem_kept: "qcom_scm_assign_mem scm a sz src dst s = (ret, s') \<Longrightarrow> tables_kept s s'"
  by (auto simp: qcom_scm_assign_mem_def Let_def)

lemma assign_chunks_kept: "assign_chunks scm src dst sg s = (ret, s') \<Longrightarrow> tables_kept s s'"
  using assign_chunks_run [of scm src dst sg s ret s'] by auto

lemma hyp_assign_kept:
  "kiumd_io_pgtable_hyp_assign_page scm k vmids pgd s = (ret, s') \<Longrightarrow> tables_kept s s'"
  "kiumd_io_pgtable_hyp_unassign_page scm vmids pgd s = Some (ret, s') \<Longrightarrow> tables_kept s s'"
  "kiumd_hyp_assign_sg scm sgs k sgt vmids perms s = Some (ret, s') \<Longrightarrow> tables_kept s s'"
  "kiumd_hyp_unassign_sg scm sgs sgt vmids s = Some (ret, s') \<Longrightarrow> tables_kept s s'"
  by (auto simp: kiumd_io_pgtable_hyp_assign_page_def kiumd_io_pgtable_hyp_unassign_page_def
      kiumd_hyp_assign_sg_def kiumd_hyp_unassign_sg_def Let_def
      split: if_splits option.splits prod.splits dest!: assign_mem_kept assign_chunks_kept)

lemma acl_list_kept: "kiumd_acl_to_vmid_perms_list e nr acl s = (l, s') \<Longrightarrow> tables_kept s s'"
  by (auto simp: kiumd_acl_to_vmid_perms_list_def Let_def split: if_splits sum.splits)

lemma labels_kept:
  "close_file f ret s = Some (r, out, s') \<Longrightarrow> tables_kept s s'"
  "free_mem f ret s = Some (r, out, s') \<Longrightarrow> tables_kept s s'"
  "detach_buf f p a ret s = Some (r, out, s') \<Longrightarrow> tables_kept s s'"
  "hyp_unassign_table scm vmids pgd f p a ret s = Some (r, out, s') \<Longrightarrow> tables_kept s s'"
  by (auto simp: close_file_def free_mem_def detach_buf_def hyp_unassign_table_def split: option.splits
      dest!: hyp_assign_kept)

lemma unassign_label_kept:
  "hyp_unassign_sg scm e sgt vmids pgd f p a ret s = Some (r, out, s') \<Longrightarrow> tables_kept s s'"
  by (auto simp: hyp_unassign_sg_def split: option.splits dest!: hyp_assign_kept labels_kept intro: tables_kept_trans)

text \<open>A secure request changes the tables as a mapping request does.\<close>

definition tables_changed :: "(int \<Rightarrow> nat) \<Rightarrow> 'a map_st_scheme \<Rightarrow> 'a map_st_scheme \<Rightarrow> bool" where
  "tables_changed hash s s' \<longleftrightarrow> handles_kept s s'
     \<and> (table_kept s s' \<or> table_added hash s s' \<or> table_deleted s s')"

lemma tables_changed_kept: "tables_kept s s' \<Longrightarrow> tables_changed hash s s'"
  by (simp add: tables_kept_def tables_changed_def)

lemma tables_changed_before:
  "tables_kept s t \<Longrightarrow> tables_changed hash t s' \<Longrightarrow> tables_changed hash s s'"
  by (auto simp: tables_kept_def tables_changed_def table_change_defs handles_kept_def)

lemma tables_changed_after:
  "tables_changed hash s t \<Longrightarrow> tables_kept t s' \<Longrightarrow> tables_changed hash s s'"
  by (auto simp: tables_kept_def tables_changed_def table_change_defs handles_kept_def)

lemma tables_changed_add:
  "sm_id x = ctx_id s \<Longrightarrow> sm_node x = next_node s \<Longrightarrow> tables_changed hash s (add_entry hash x s)"
  by (auto simp: tables_changed_def table_change_defs intro!: exI [of _ x])

lemma secure_record_changed:
  assumes "secure_record hash scm e u f vmids pgd p a s = Some (ret, out, s')"
  shows "tables_changed hash s s'"
proof -
  let ?sgt = "c_map_attachment e"
  define t where "t = add_entry hash (secure_entry p a ?sgt s) (acquire SmapObj (acquire (AttachMap a ?sgt) s))"
  have t: "tables_changed hash s t"
    unfolding t_def
    by (rule tables_changed_before [OF _ tables_changed_add]) (simp_all add: secure_entry_def)
  have entry: "secure_entry p a ?sgt (acquire (AttachMap a ?sgt) s) = secure_entry p a ?sgt s"
    by (simp add: secure_entry_def)
  show ?thesis
  proof (cases "IS_ERR ?sgt \<or> \<not> c_kzalloc e \<or> ?sgt = 0")
    case True
    with assms show ?thesis
      by (auto simp: secure_record_def Let_def split: if_splits dest!: unassign_label_kept labels_kept
          intro: tables_changed_kept)
  next
    case False
    with assms have "tables_kept t s'"
      by (auto simp: secure_record_def Let_def entry t_def [symmetric] split: if_splits dest!: unassign_label_kept)
    with t show ?thesis by (rule tables_changed_after)
  qed
qed

lemma secure_assign_changed:
  assumes "secure_assign hash scm e u f vmids perms pgd p a s = Some (ret, out, s')"
  shows "tables_changed hash s s'"
proof -
  from assms consider "tables_kept s s'" | t where "tables_kept s t" "tables_changed hash t s'"
    unfolding secure_assign_def Let_def
    by (auto split: if_splits option.splits prod.splits
        dest!: hyp_assign_kept labels_kept secure_record_changed) (blast intro: tables_kept_trans)+
  then show ?thesis by cases (auto intro: tables_changed_kept tables_changed_before)
qed

lemma tables_changed_del: "tables_changed hash s (del_entry x s)"
  by (auto simp: tables_changed_def table_change_defs)

lemma secure_map_changed:
  assumes "kiumd_dmabuf_vfio_secure_map w hash scm e arg s = Some (ret, out, s')"
  shows "tables_changed hash s s'"
proof -
  have found: "tables_kept t s' \<or> (\<exists>t'. tables_kept t t' \<and> tables_changed hash t' s')"
    if "secure_found w hash scm e u f v t = Some (ret, out, s')" for u f v t
    using that unfolding secure_found_def Let_def
    by (auto split: if_splits option.splits prod.splits sum.splits
        dest!: acl_list_kept labels_kept secure_assign_changed) (blast intro: tables_kept_trans)+
  from assms consider "tables_kept s s'" | t where "tables_kept s t" "tables_changed hash t s'"
    unfolding kiumd_dmabuf_vfio_secure_map_def
    by (auto split: option.splits sum.splits prod.splits dest!: vfio_file_device_tables found)
      (blast intro: tables_kept_trans)+
  then show ?thesis by cases (auto intro: tables_changed_kept tables_changed_before)
qed

lemma secure_release_changed:
  assumes "secure_release scm e f x vmids pgd s = Some (ret, out, s')"
  shows "tables_changed hash s s'"
proof -
  have del: "tables_changed hash t s'"
    if "free_mem f r (del_entry x (release q1 (release q2 t))) = Some (ret, out, s')" for r q1 q2 t
    using labels_kept(2) [OF that] tables_changed_del [of hash "release q1 (release q2 t)" x]
      tables_changed_before [of t "release q1 (release q2 t)" hash] tables_changed_after by fastforce
  from assms consider "tables_kept s s'" | t where "tables_kept s t" "tables_changed hash t s'"
    unfolding secure_release_def Let_def
    by (auto split: if_splits option.splits prod.splits dest!: hyp_assign_kept labels_kept(2) del)
      (blast intro: tables_kept_trans)+
  then show ?thesis by cases (auto intro: tables_changed_kept tables_changed_before)
qed

lemma secure_unmap_changed:
  assumes "kiumd_dmabuf_vfio_secure_unmap w hash scm e arg s = Some (ret, out, s')"
  shows "tables_changed hash s s'"
proof -
  from assms consider "tables_kept s s'" | t where "tables_kept s t" "tables_changed hash t s'"
    unfolding kiumd_dmabuf_vfio_secure_unmap_def
    by (auto split: if_splits option.splits sum.splits prod.splits
        dest!: vfio_file_device_tables acl_list_kept labels_kept secure_release_changed [where hash = hash])
      (blast intro: tables_kept_trans)+
  then show ?thesis by cases (auto intro: tables_changed_kept tables_changed_before)
qed

section \<open>The handle request keeps the mapping table\<close>

lemma handle_ops_table [simp]:
  "smmu_table (lock_xa s) = smmu_table s" "smmu_table (unlock_xa s) = smmu_table s"
  "smmu_table (add_refs p n s) = smmu_table s" "ctx_id (lock_xa s) = ctx_id s" "ctx_id (unlock_xa s) = ctx_id s"
  "ctx_id (add_refs p n s) = ctx_id s" "next_node (lock_xa s) = next_node s"
  "next_node (unlock_xa s) = next_node s" "next_node (add_refs p n s) = next_node s"
  by (simp_all add: lock_xa_def unlock_xa_def add_refs_def)

lemma get_put_table:
  "table_kept s (do_dma_buf_get p t) = table_kept s t"
  "dma_buf_put p t = Some t' \<Longrightarrow> table_kept s t' = table_kept s t"
  by (auto simp: do_dma_buf_get_def dma_buf_put_def table_kept_def split: if_splits)

lemma handler_table:
  assumes "kiumd_fd_dmabuf_handler e arg s = Some (ret, out, s')"
  shows "table_kept s s'"
proof -
  have "table_kept s t" if "fd_to_handle e u s = Some (r, t)" for u r t
    using that by (auto simp: fd_to_handle_def do_dma_buf_get_def dma_buf_put_def table_kept_def Let_def
        split: if_splits option.splits prod.splits)
  moreover have "table_kept s t" if "handle_to_fd e u s = Some (r, t)" for u r t
    using that by (auto simp: handle_to_fd_def table_kept_def Let_def split: if_splits option.splits)
  moreover have "table_kept s t" if "close_handle u s = Some (r, t)" for u r t
    using that by (auto simp: close_handle_def table_kept_def Let_def split: if_splits option.splits)
  ultimately show ?thesis
    using assms by (auto simp: kiumd_fd_dmabuf_handler_def table_kept_def split: option.splits if_splits sum.splits)
qed

section \<open>Sequences of requests\<close>

fun kiumd_run :: "platform \<Rightarrow> kiumd_request list \<Rightarrow> 'a ki_st_scheme \<Rightarrow> 'a ki_st_scheme option" where
  "kiumd_run p [] s = Some s"
| "kiumd_run p (x # xs) s = (case kiumd_ioctl p x s of None \<Rightarrow> None | Some (ret, s') \<Rightarrow> kiumd_run p xs s')"

fun request_ok :: "kiumd_request \<Rightarrow> bool" where
  "request_ok (KIUMD_FD_DMABUF_HANDLE e arg) = fd_env_ok e"
| "request_ok _ = True"

lemma ioctl_table:
  assumes "kiumd_ioctl p x s = Some (ret, s')"
  shows "table_kept s s' \<or> table_added (p_hash p) s s' \<or> table_deleted s s'
     \<or> (\<exists>t. table_added (p_hash p) s t \<and> table_deleted t s')"
  using assms
proof (cases x)
  case (KIUMD_SMMU_MAP_BUF e arg)
  with assms show ?thesis by (auto simp: drop_reply_def dest!: map_table)
next
  case (KIUMD_SMMU_UNMAP_BUF e arg)
  with assms show ?thesis by (auto dest!: unmap_table)
next
  case (KIUMD_SMMU_MMIO_MAP e arg)
  with assms show ?thesis by (auto simp: drop_reply_def dest!: mmio_map_table)
next
  case (KIUMD_SMMU_MMIO_UNMAP arg)
  with assms show ?thesis by (auto dest!: mmio_unmap_table)
next
  case (KIUMD_SMMU_SECURE_MAP e arg)
  with assms show ?thesis by (auto simp: drop_reply_def tables_changed_def dest!: secure_map_changed)
next
  case (KIUMD_SMMU_SECURE_UNMAP e arg)
  with assms show ?thesis
    by (auto simp: drop_reply_def tables_changed_def dest!: secure_unmap_changed)
next
  case (KIUMD_FD_DMABUF_HANDLE e arg)
  with assms show ?thesis by (auto simp: drop_reply_def dest!: handler_table)
next
  case OTHER_COMMAND
  with assms show ?thesis by (simp add: table_kept_def)
qed (auto simp: drop_reply_def tables_kept_def dest!: iova_ctrl_kept pgtable_requests_kept pt_alloc_kept
      global_set_kept fault_requests_kept ctx_init_kept custom_iova_kept)

lemma ioctl_handles:
  assumes "kiumd_ioctl p x s = Some (ret, s')" "\<And>e arg. x \<noteq> KIUMD_FD_DMABUF_HANDLE e arg"
  shows "handles_kept s s'"
  using assms
  by (cases x) (auto simp: drop_reply_def tables_kept_def tables_changed_def
      dest!: map_kept unmap_kept mmio_map_kept mmio_unmap_kept secure_map_changed secure_unmap_changed
      iova_ctrl_kept pgtable_requests_kept pt_alloc_kept global_set_kept fault_requests_kept ctx_init_kept
      custom_iova_kept)

lemma run_inv:
  assumes hash: "table_hash (p_hash p)" and run: "kiumd_run p xs s = Some s'"
    and "ids_inv (p_hash p) s" "ctx_id s + int (size xs) \<le> 2147483647"
    and "handles_inv n s" "n + size xs < 2147483648" "\<forall>x \<in> set xs. request_ok x"
  shows "ids_inv (p_hash p) s' \<and> handles_inv (n + size xs) s'"
  using assms(2-)
proof (induction xs arbitrary: n s)
  case (Cons x xs)
  from Cons.prems(1) obtain ret s1 where s1: "kiumd_ioctl p x s = Some (ret, s1)" "kiumd_run p xs s1 = Some s'"
    by (auto split: option.splits)
  from table_hash.ids_changes [OF hash Cons.prems(2) _ ioctl_table [OF s1(1)]] Cons.prems(3)
  have ids: "ids_inv (p_hash p) s1 \<and> ctx_id s1 \<le> ctx_id s + 1" by simp
  have "handles_inv (Suc n) s1"
  proof (cases "\<exists>e arg. x = KIUMD_FD_DMABUF_HANDLE e arg")
    case True
    then obtain e arg where x: "x = KIUMD_FD_DMABUF_HANDLE e arg" by blast
    with Cons.prems have "Suc n < 2147483648" "fd_env_ok e" by simp_all
    from handler_step [OF Cons.prems(4) this, of arg] s1(1) show ?thesis
      by (auto simp: x drop_reply_def)
  next
    case False
    with ioctl_handles [OF s1(1)] handles_kept_inv [OF _ Cons.prems(4)] have "handles_inv n s1" by blast
    then show ?thesis by (rule handles_inv_mono) simp
  qed
  from Cons.IH [OF s1(2) _ _ this] ids Cons.prems(3,5,6) show ?case by simp
qed simp

lemma open_inv:
  assumes "kiumd_open True s = (0, s0)" "dmabuf_refs s = (\<lambda>_. 0)" "0 \<le> handle_objs s"
  shows "ids_inv hash s0 \<and> ctx_id s0 = 0 \<and> handles_inv 0 s0"
proof -
  have s0: "ctx_id s0 = 0" "smmu_table s0 = empty_table" "kiumd_xa s0 = []" "\<not> kiumd_xa_mutex s0"
    "dmabuf_refs s0 = (\<lambda>_. 0)" "handle_objs s0 = handle_objs s"
    using assms(1,2) by (auto simp: kiumd_open_def)
  have "entry_refs [] = (\<lambda>_. 0)" by (simp add: entry_refs_def fun_eq_iff)
  with s0 assms(3) ids_inv_empty [OF s0(1,2)] show ?thesis by (simp add: handles_inv_def)
qed

section \<open>Closing\<close>



definition areas_kept :: "'a ki_st_scheme \<Rightarrow> 'a ki_st_scheme \<Rightarrow> bool" where
  "areas_kept s s' \<longleftrightarrow> res_mem_area s' = res_mem_area s \<and> mem_areas s' = mem_areas s"

lemma areas_kept_ops [simp]:
  "areas_kept s (release r t) = areas_kept s t" "areas_kept s (del_entry x t) = areas_kept s t"
  "areas_kept s s"
  by (simp_all add: areas_kept_def release_def del_entry_def)





section \<open>Properties\<close>

text \<open>C5: The tables of an open device stay consistent under every request. From opening on, for
  every sequence of fewer than 2^31 requests of any kind, with any arguments and kernel answers that
  respect the contracts of \<open>xa_alloc\<close> and of the hash, and as long as no request crashes, the
  mapping table keeps unique ids below the counter, and the handle table keeps its counts equal to
  the references held.\<close>

theorem device_run_consistent:
  assumes "table_hash (p_hash p)" "kiumd_open True s = (0, s0)" "dmabuf_refs s = (\<lambda>_. 0)" "0 \<le> handle_objs s"
    and "kiumd_run p xs s0 = Some s1" "size xs < 2147483648" "\<forall>x \<in> set xs. request_ok x"
  shows "ids_inv (p_hash p) s1 \<and> handles_inv (size xs) s1"
  using run_inv [OF assms(1,5), of 0] open_inv [OF assms(2-4), of "p_hash p"] assms(6,7) by simp


definition example_platform :: platform where
  "example_platform = \<lparr>p_world = example_world, p_hash = mod_hash, p_search = reference_search,
     p_size = (\<lambda>_. 0x1000), p_scm = reference_hyp, p_name = (\<lambda>_. ''gpu''), p_dt = (\<lambda>_. example_dev),
     p_alloc = (\<lambda>_. True), p_shift = (\<lambda>_. 12)\<rparr>"

definition example_requests :: "kiumd_request list" where
  "example_requests = [KIUMD_FD_DMABUF_HANDLE (example_env 0x1000) (Some open_req),
     KIUMD_FD_DMABUF_HANDLE (example_env 0x2000) (Some open_req), OTHER_COMMAND]"

lemma example_open: "\<exists>s0. kiumd_open True example_ki = (0, s0)"
  by (simp add: kiumd_open_def)

lemma example_env_ok2: "fd_env_ok (example_env 0x2000)"
  by (simp add: fd_env_ok_def example_env_def next_index.xa_allocator_axioms IS_ERR_def)

lemma example_session:
  assumes "kiumd_open True example_ki = (0, s0)"
  shows "\<exists>s1. kiumd_run example_platform example_requests s0 = Some s1 \<and> smmu_table s1 = empty_table
     \<and> res_mem_area s1 = None"
  using assms
  by (auto simp: kiumd_open_def example_requests_def drop_reply_def kiumd_fd_dmabuf_handler_def fd_to_handle_def
      open_req_def example_env_def example_ki_def handle_ctx_defs IS_ERR_OR_NULL_def IS_ERR_def xa_alloc_next_def
      user0_def)

lemma example_start: "dmabuf_refs example_ki = (\<lambda>_. 0)" "0 \<le> handle_objs example_ki"
  "table_hash (p_hash example_platform)" "size example_requests < 2147483648"
  "\<forall>x \<in> set example_requests. request_ok x"
  by (simp_all add: example_ki_def example_platform_def mod_table.table_hash_axioms example_requests_def
      example_env_ok example_env_ok2)

theorem device_run_consistent_witness:
  "\<exists>s0 s1. kiumd_open True example_ki = (0, s0) \<and> kiumd_run example_platform example_requests s0 = Some s1
     \<and> handles_inv 3 s1"
proof -
  obtain s0 where s0: "kiumd_open True example_ki = (0, s0)" using example_open by blast
  obtain s1 where s1: "kiumd_run example_platform example_requests s0 = Some s1" using example_session [OF s0] by blast
  from device_run_consistent [OF example_start(3) s0 example_start(1,2) s1 example_start(4,5)] s0 s1
  show ?thesis by (auto simp: example_requests_def eval_nat_numeral)
qed


text \<open>A secure mapping that is still there makes closing crash, after any use of the device.\<close>

lemma close_with_secure_mapping_crashes:
  assumes "x \<in> set xs" "dmabuf_ptr x \<noteq> 0" "sm_vfio_dev x = 0"
  shows "close_entries w dsz e_unmap xs s = None"
  using assms
proof (induction xs arbitrary: s)
  case (Cons y ys)
  show ?case
  proof (cases "dmabuf_ptr y \<noteq> 0 \<and> sm_vfio_dev y = 0")
    case True
    then show ?thesis by (simp add: close_entry_def Let_def)
  next
    case False
    with Cons.prems have "x \<in> set ys" by auto
    with Cons show ?thesis by (auto split: option.splits)
  qed
qed simp

end
