(* ===== verification/ScmIntf.thy ===== *)
theory ScmIntf
  imports KPrelude
begin

text \<open>
  Model of \<open>drivers/scm_user_intf.c\<close>, the device through which user space calls the secure
  world: the table of allowed service and command pairs, the translation of dma-buf file
  descriptors into physical addresses, and \<open>scm_ioctl\<close> in both versions the file compiles
  to (one kernel function per pair, or the raw descriptor of kernel 5.14.0). The identifiers and
  sizes that come from the kernel's \<open>qcom_scm.h\<close> are the fields of \<open>qcom_scm_h\<close>; what
  the kernel and the secure world answer is \<open>scm_env\<close>. The state logs every call to the
  secure world and counts the dma-buf references, attachments and mappings that are held.
\<close>

section \<open>Data\<close>

text \<open>Constants of the kernel header.\<close>

record qcom_scm_h =
  QCOM_SCM_SVC_BOOT :: u32
  QCOM_SCM_SVC_PIL :: u32
  QCOM_SCM_SVC_INFO :: u32
  QCOM_SCM_SVC_MP :: u32
  QCOM_SCM_SVC_LMH :: u32
  QCOM_SCM_BOOT_SET_REMOTE_STATE :: u32
  QCOM_SCM_PIL_PAS_INIT_IMAGE :: u32
  QCOM_SCM_PIL_PAS_MEM_SETUP :: u32
  QCOM_SCM_PIL_PAS_AUTH_AND_RESET :: u32
  QCOM_SCM_PIL_PAS_SHUTDOWN :: u32
  QCOM_SCM_INFO_IS_CALL_AVAIL :: u32
  QCOM_SCM_MP_VIDEO_VAR :: u32
  QCOM_SCM_LMH_LIMIT_PROFILE_CHANGE :: u32
  MAX_QCOM_SCM_ARGS :: nat
  MAX_QCOM_SCM_RETS :: nat
  ARM_SMCCC_OWNER_SIP :: u32

text \<open>Constants of the driver's own header.\<close>

definition QCOM_SCM_INFO_GET_FEAT_VERSION_CMD :: u32 where "QCOM_SCM_INFO_GET_FEAT_VERSION_CMD = 0x03"
definition QCOM_SCM_INFO_BW_PROF_ID :: u32 where "QCOM_SCM_INFO_BW_PROF_ID = 0x07"
definition QCOM_SCM_MP_SHM_BRIDGE_ENABLE :: u32 where "QCOM_SCM_MP_SHM_BRIDGE_ENABLE = 0x1c"
definition QCOM_SCM_MP_SHM_BRIDGE_DELETE :: u32 where "QCOM_SCM_MP_SHM_BRIDGE_DELETE = 0x1d"
definition QCOM_SCM_MP_SHM_BRIDGE_CREATE :: u32 where "QCOM_SCM_MP_SHM_BRIDGE_CREATE = 0x1e"
definition QCOM_SCM_SVC_SHE :: u32 where "QCOM_SCM_SVC_SHE = 0x21"
definition QCOM_SCM_SHE_ID :: u32 where "QCOM_SCM_SHE_ID = 0x1"
definition QCOM_SCM_SVC_SAFETY :: u32 where "QCOM_SCM_SVC_SAFETY = 0x23"
definition QCOM_SCM_SAFETY_ENABLE_FFI_ID :: u32 where "QCOM_SCM_SAFETY_ENABLE_FFI_ID = 0x1"
definition QCOM_SCM_MP_CP_SMMU_APERTURE_ID :: u32 where "QCOM_SCM_MP_CP_SMMU_APERTURE_ID = 0x1b"
definition QCOM_SCM_CP_APERTURE_REG :: u32 where "QCOM_SCM_CP_APERTURE_REG = 0x0"
definition TZ_SVC_BW_PROF_ID :: u32 where "TZ_SVC_BW_PROF_ID = 0x07"
definition MAX_QCOM_SCM_RESULT :: nat where "MAX_QCOM_SCM_RESULT = 3"
definition MAX_QCOM_SCM_IN :: nat where "MAX_QCOM_SCM_IN = 10"

lemmas scm_ids = QCOM_SCM_INFO_GET_FEAT_VERSION_CMD_def QCOM_SCM_INFO_BW_PROF_ID_def
  QCOM_SCM_MP_SHM_BRIDGE_ENABLE_def QCOM_SCM_MP_SHM_BRIDGE_DELETE_def
  QCOM_SCM_MP_SHM_BRIDGE_CREATE_def QCOM_SCM_SVC_SHE_def QCOM_SCM_SHE_ID_def
  QCOM_SCM_SVC_SAFETY_def QCOM_SCM_SAFETY_ENABLE_FFI_ID_def QCOM_SCM_MP_CP_SMMU_APERTURE_ID_def
  QCOM_SCM_CP_APERTURE_REG_def TZ_SVC_BW_PROF_ID_def

record scm_hand_shake =
  hs_svc :: u32
  hs_cmd :: u32
  hs_owner :: u32
  hs_arginfo :: u32
  hs_args_buffer :: "u64 list"
  hs_ret :: u32
  hs_arg_type :: u32
  hs_qcom_scm_res :: "u64 list"

record svc_cmd_list =
  svc_id :: u32
  num_cmd :: nat
  cmd_ids :: "u32 list"

record svc_cmd_dma_list =
  dma_svc_id :: u32
  dma_cmd_id :: u32
  num_dma_fds :: nat
  dma_fds :: "nat list"

record qcom_scm_desc =
  desc_svc :: u32
  desc_cmd :: u32
  desc_owner :: u32
  desc_arginfo :: u32
  desc_args :: "u64 list"

text \<open>
  The calls that reach the secure world: a function of the kernel's SCM driver with its arguments
  as the driver passes them (before C converts them to the parameter types), or a descriptor.
\<close>

datatype scm_fn =
    qcom_scm_set_remote_state
  | qcom_scm_pas_init_image
  | qcom_scm_pas_mem_setup
  | qcom_scm_pas_auth_and_reset
  | qcom_scm_pas_shutdown
  | qcom_scm_get_tz_feat_id_version
  | qcom_scm_ddrbw_profiler
  | qcom_scm_mem_protect_video_var
  | qcom_scm_she_op
  | qcom_scm_lmh_profile_change

datatype scm_call = ScmFn scm_fn "u64 list" | ScmCall qcom_scm_desc

record scm_st =
  scm_log :: "scm_call list"
  buf_refs :: "ptr \<Rightarrow> nat"
  buf_atts :: "ptr \<Rightarrow> nat"
  att_maps :: "ptr \<Rightarrow> nat"
  remaps :: nat

text \<open>
  The answers of the kernel and the secure world during one request. \<open>env_stack\<close> and
  \<open>env_stack_args\<close> are what the uninitialised \<open>res\<close> and \<open>desc.args\<close> hold.
\<close>

record scm_env =
  env_copy_in :: "scm_hand_shake option"
  env_copy_out :: bool
  env_dma_buf_get :: "int \<Rightarrow> ptr"
  env_attach :: "ptr \<Rightarrow> ptr"
  env_map :: "ptr \<Rightarrow> ptr"
  env_nents :: "ptr \<Rightarrow> u32"
  env_dma_address :: "ptr \<Rightarrow> u64"
  env_memremap :: "u64 \<Rightarrow> u32 \<Rightarrow> ptr"
  env_scm :: "scm_call \<Rightarrow> int \<times> u64 list"
  env_stack :: "u64 list"
  env_stack_args :: "u64 list"

section \<open>The tables\<close>

definition SVC_CMD_GRP :: "u32 \<Rightarrow> nat \<Rightarrow> u32 list \<Rightarrow> u32 \<times> svc_cmd_list" where
  "SVC_CMD_GRP svc n cmds = (svc, \<lparr>svc_id = svc, num_cmd = n, cmd_ids = cmds\<rparr>)"

text \<open>The array with its designators; an index without designator is the zero entry.\<close>

definition sip_tbl :: "qcom_scm_h \<Rightarrow> (u32 \<times> svc_cmd_list) list" where
  "sip_tbl h =
     [SVC_CMD_GRP (QCOM_SCM_SVC_BOOT h) 1 [QCOM_SCM_BOOT_SET_REMOTE_STATE h],
      SVC_CMD_GRP (QCOM_SCM_SVC_PIL h) 4
        [QCOM_SCM_PIL_PAS_INIT_IMAGE h, QCOM_SCM_PIL_PAS_MEM_SETUP h,
         QCOM_SCM_PIL_PAS_AUTH_AND_RESET h, QCOM_SCM_PIL_PAS_SHUTDOWN h],
      SVC_CMD_GRP (QCOM_SCM_SVC_INFO h) 3
        [QCOM_SCM_INFO_IS_CALL_AVAIL h, QCOM_SCM_INFO_GET_FEAT_VERSION_CMD, QCOM_SCM_INFO_BW_PROF_ID],
      SVC_CMD_GRP (QCOM_SCM_SVC_MP h) 4
        [QCOM_SCM_MP_VIDEO_VAR h, QCOM_SCM_MP_SHM_BRIDGE_ENABLE, QCOM_SCM_MP_SHM_BRIDGE_DELETE,
         QCOM_SCM_MP_SHM_BRIDGE_CREATE],
      SVC_CMD_GRP QCOM_SCM_SVC_SHE 1 [QCOM_SCM_SHE_ID],
      SVC_CMD_GRP QCOM_SCM_SVC_SAFETY 1 [QCOM_SCM_SAFETY_ENABLE_FFI_ID],
      SVC_CMD_GRP (QCOM_SCM_SVC_LMH h) 1 [QCOM_SCM_LMH_LIMIT_PROFILE_CHANGE h]]"

definition sip_entry :: "qcom_scm_h \<Rightarrow> u32 \<Rightarrow> svc_cmd_list" where
  "sip_entry h svc =
     (case map_of (sip_tbl h) svc of
        Some e \<Rightarrow> e
      | None \<Rightarrow> \<lparr>svc_id = 0, num_cmd = 0, cmd_ids = []\<rparr>)"

definition dma_fd_tbl :: "svc_cmd_dma_list list" where
  "dma_fd_tbl =
     [\<lparr>dma_svc_id = QCOM_SCM_SVC_SHE, dma_cmd_id = QCOM_SCM_SHE_ID, num_dma_fds = 1, dma_fds = [2]\<rparr>]"

section \<open>Descriptors of the 5.14.0 kernel\<close>

definition QCOM_SCM_ARGS :: "u32 \<Rightarrow> u32 list \<Rightarrow> u32" where
  "QCOM_SCM_ARGS num types =
     foldr (\<lambda>(i, t) w. push_bit (4 + 2 * i) (t AND 0x3) OR w)
       (enumerate 0 (take 10 types)) (num AND 0xf)"

definition desc_fill :: "u64 list \<Rightarrow> u64 list" where
  "desc_fill args = args @ replicate (10 - length args) 0"

definition qcom_scm_kgsl_set_smmu_aperture ::
  "qcom_scm_h \<Rightarrow> scm_env \<Rightarrow> u32 \<Rightarrow> scm_st \<Rightarrow> int \<times> scm_st" where
  "qcom_scm_kgsl_set_smmu_aperture h e num_context_bank s =
     (let desc = \<lparr>desc_svc = QCOM_SCM_SVC_MP h, desc_cmd = QCOM_SCM_MP_CP_SMMU_APERTURE_ID,
                  desc_owner = ARM_SMCCC_OWNER_SIP h, desc_arginfo = QCOM_SCM_ARGS 4 [],
                  desc_args = desc_fill
                    [ucast ((0xffff0000 :: u32) OR push_bit 8 (QCOM_SCM_CP_APERTURE_REG AND 0xff)
                       OR (num_context_bank AND 0xff)),
                     0xffffffff, 0xffffffff, 0xffffffff]\<rparr>
      in (fst (env_scm e (ScmCall desc)), s\<lparr>scm_log := scm_log s @ [ScmCall desc]\<rparr>))"

text \<open>The argument types are those of the enumeration in the header: \<open>QCOM_SCM_VAL\<close> is 0, \<open>QCOM_SCM_RW\<close> is 2.\<close>

definition scm_ddrbw_profiler ::
  "qcom_scm_h \<Rightarrow> scm_env \<Rightarrow> u64 \<Rightarrow> u64 \<Rightarrow> u64 \<Rightarrow> u64 \<Rightarrow> scm_st \<Rightarrow> int \<times> scm_st" where
  "scm_ddrbw_profiler h e in_buf in_buf_size out_buf out_buf_size s =
     (let desc = \<lparr>desc_svc = QCOM_SCM_SVC_INFO h, desc_cmd = TZ_SVC_BW_PROF_ID,
                  desc_owner = ARM_SMCCC_OWNER_SIP h, desc_arginfo = QCOM_SCM_ARGS 4 [2, 0, 2, 0],
                  desc_args = desc_fill [in_buf, in_buf_size, out_buf, out_buf_size]\<rparr>
      in (fst (env_scm e (ScmCall desc)), s\<lparr>scm_log := scm_log s @ [ScmCall desc]\<rparr>))"

section \<open>Physical address of a dma-buf\<close>

text \<open>
  Both cleanup functions of the kernel dereference what they are given, an error pointer included.
  The kernel answers an attach or a map with a pointer or an error; NULL would be dereferenced.
\<close>

definition dma_buf_unmap_attachment :: "ptr \<Rightarrow> ptr \<Rightarrow> scm_st \<Rightarrow> scm_st option" where
  "dma_buf_unmap_attachment att sgt s =
     (if IS_ERR att \<or> IS_ERR sgt then None
      else Some (s\<lparr>att_maps := (att_maps s)(att := att_maps s att - 1)\<rparr>))"

definition dma_buf_detach :: "ptr \<Rightarrow> ptr \<Rightarrow> scm_st \<Rightarrow> scm_st option" where
  "dma_buf_detach dma_buf att s =
     (if IS_ERR att then None
      else Some (s\<lparr>buf_atts := (buf_atts s)(dma_buf := buf_atts s dma_buf - 1)\<rparr>))"

definition get_pa_out :: "ptr \<Rightarrow> ptr \<Rightarrow> ptr \<Rightarrow> scm_st \<Rightarrow> scm_st option" where
  "get_pa_out dma_buf buf_attach sgt s = do {
     s \<leftarrow> (if sgt \<noteq> 0 then dma_buf_unmap_attachment buf_attach sgt s else Some s);
     (if buf_attach \<noteq> 0 then dma_buf_detach dma_buf buf_attach s else Some s)
   }"

definition get_pa_from_dmabuf_fd ::
  "scm_env \<Rightarrow> ptr \<Rightarrow> u64 \<Rightarrow> scm_st \<Rightarrow> (int \<times> u64 \<times> scm_st) option" where
  "get_pa_from_dmabuf_fd e dma_buf p_addr s =
     (let buf_attach = env_attach e dma_buf in
      if IS_ERR buf_attach
      then do { s \<leftarrow> get_pa_out dma_buf buf_attach 0 s; Some (- ENOMEM, p_addr, s) }
      else if buf_attach = 0 then None
      else let s = s\<lparr>buf_atts := (buf_atts s)(dma_buf := buf_atts s dma_buf + 1)\<rparr>;
               sgt = env_map e buf_attach in
      if IS_ERR sgt
      then do { s \<leftarrow> get_pa_out dma_buf buf_attach sgt s; Some (- ENOMEM, p_addr, s) }
      else if sgt = 0 then None
      else let s = s\<lparr>att_maps := (att_maps s)(buf_attach := att_maps s buf_attach + 1)\<rparr> in
      if env_nents e sgt \<noteq> 1
      then do { s \<leftarrow> get_pa_out dma_buf buf_attach sgt s; Some (- EINVAL, p_addr, s) }
      else let dmabuf_p_addr = env_dma_address e sgt in
      if dmabuf_p_addr = 0
      then do { s \<leftarrow> get_pa_out dma_buf buf_attach sgt s; Some (- EINVAL, p_addr, s) }
      else do { s \<leftarrow> get_pa_out dma_buf buf_attach sgt s; Some (0, dmabuf_p_addr, s) })"

section \<open>Translation of the arguments\<close>

definition get_dmafd_args :: "u32 \<Rightarrow> u32 \<Rightarrow> int \<times> nat list" where
  "get_dmafd_args svc cmd =
     (case find (\<lambda>d. dma_svc_id d = svc \<and> dma_cmd_id d = cmd) dma_fd_tbl of
        Some d \<Rightarrow> (int (num_dma_fds d), take (num_dma_fds d) (dma_fds d))
      | None \<Rightarrow> (- EINVAL, []))"

text \<open>\<open>dma_buf_get\<close> takes an \<open>int\<close>: the 64-bit argument is cut to its low 32 bits.\<close>

definition arg_to_fd :: "u64 \<Rightarrow> int" where
  "arg_to_fd x = sint (ucast x :: u32)"

fun translate_loop ::
  "scm_env \<Rightarrow> nat list \<Rightarrow> ptr \<Rightarrow> u64 \<Rightarrow> u64 list \<Rightarrow> scm_st \<Rightarrow>
    (int \<times> ptr \<times> u64 list \<times> scm_st) option" where
  "translate_loop e [] dma_buf pa scm_args s = Some (0, dma_buf, scm_args, s)"
| "translate_loop e (fd # fds) _ pa scm_args s =
     (if length scm_args \<le> fd then None
      else let dma_buf = env_dma_buf_get e (arg_to_fd (scm_args ! fd)) in
      if IS_ERR_OR_NULL dma_buf then Some (- EFAULT, dma_buf, scm_args, s)
      else let s = s\<lparr>buf_refs := (buf_refs s)(dma_buf := buf_refs s dma_buf + 1)\<rparr> in do {
        (ret, pa, s) \<leftarrow> get_pa_from_dmabuf_fd e dma_buf pa s;
        (if ret < 0 then Some (- EINVAL, dma_buf, scm_args, s)
         else translate_loop e fds dma_buf pa (scm_args[fd := pa]) s)
      })"

definition translate_fd_to_pa ::
  "scm_env \<Rightarrow> nat list \<Rightarrow> u64 list \<Rightarrow> scm_st \<Rightarrow> (int \<times> u64 list \<times> scm_st) option" where
  "translate_fd_to_pa e dmabuf_fd scm_args s = do {
     (ret, dma_buf, scm_args, s) \<leftarrow> translate_loop e dmabuf_fd 0 0 scm_args s;
     (if ret \<noteq> 0 then Some (ret, scm_args, s)
      else if \<not> IS_ERR_OR_NULL dma_buf
      then Some (0, scm_args, s\<lparr>buf_refs := (buf_refs s)(dma_buf := buf_refs s dma_buf - 1)\<rparr>)
      else Some (0, scm_args, s))
   }"

definition validate_svc_cmd :: "qcom_scm_h \<Rightarrow> u32 \<Rightarrow> u32 \<Rightarrow> bool" where
  "validate_svc_cmd h svc cmd =
     (if svc \<in> {QCOM_SCM_SVC_BOOT h, QCOM_SCM_SVC_PIL h, QCOM_SCM_SVC_INFO h, QCOM_SCM_SVC_MP h,
                QCOM_SCM_SVC_SHE, QCOM_SCM_SVC_SAFETY, QCOM_SCM_SVC_LMH h}
      then list_ex (\<lambda>i. cmd = cmd_ids (sip_entry h svc) ! i) [0..<num_cmd (sip_entry h svc)]
      else False)"

section \<open>The calls\<close>

text \<open>One call of the secure world: the status becomes the 32-bit field \<open>ret\<close> of the request.\<close>

definition scm_fn_call ::
  "scm_env \<Rightarrow> scm_fn \<Rightarrow> u64 list \<Rightarrow> scm_hand_shake \<Rightarrow> scm_st \<Rightarrow>
    (int \<times> scm_hand_shake \<times> u64 list \<times> scm_st) option" where
  "scm_fn_call e f args d s =
     Some (0, d\<lparr>hs_ret := of_int (fst (env_scm e (ScmFn f args)))\<rparr>, env_stack e,
       s\<lparr>scm_log := scm_log s @ [ScmFn f args]\<rparr>)"

definition scm_pas_init_image ::
  "scm_env \<Rightarrow> scm_hand_shake \<Rightarrow> scm_st \<Rightarrow> (int \<times> scm_hand_shake \<times> u64 list \<times> scm_st) option" where
  "scm_pas_init_image e d s =
     (let meta_len = (ucast (hs_args_buffer d ! 2) :: u32);
          data = env_memremap e (hs_args_buffer d ! 1) meta_len in
      if data = 0 then Some (- ENOMEM, d, env_stack e, s)
      else do {
        (ret, d, res, s) \<leftarrow> scm_fn_call e qcom_scm_pas_init_image
          [hs_args_buffer d ! 0, data, ucast meta_len] d (s\<lparr>remaps := remaps s + 1\<rparr>);
        Some (ret, d, res, s\<lparr>remaps := remaps s - 1\<rparr>)
      })"

definition scm_she_op ::
  "scm_env \<Rightarrow> scm_hand_shake \<Rightarrow> scm_st \<Rightarrow> (int \<times> scm_hand_shake \<times> u64 list \<times> scm_st) option" where
  "scm_she_op e d s =
     (let args = take 4 (hs_args_buffer d);
          res1 = (case snd (env_scm e (ScmFn qcom_scm_she_op args)) of [] \<Rightarrow> 0 | r # _ \<Rightarrow> r) in do {
        (ret, d, res, s) \<leftarrow> scm_fn_call e qcom_scm_she_op args d s;
        Some (ret, d, res[0 := res1], s)
      })"

text \<open>The nested switches; a pair without a case makes no call and leaves \<open>ret\<close> as it came.\<close>

definition scm_dispatch ::
  "qcom_scm_h \<Rightarrow> scm_env \<Rightarrow> scm_hand_shake \<Rightarrow> scm_st \<Rightarrow>
    (int \<times> scm_hand_shake \<times> u64 list \<times> scm_st) option" where
  "scm_dispatch h e d s =
     (let svc = hs_svc d; cmd = hs_cmd d; a = hs_args_buffer d;
          none = Some (0, d, env_stack e, s) in
      if svc = QCOM_SCM_SVC_BOOT h then
        (if cmd = QCOM_SCM_BOOT_SET_REMOTE_STATE h
         then scm_fn_call e qcom_scm_set_remote_state (take 2 a) d s
         else none)
      else if svc = QCOM_SCM_SVC_PIL h then
        (if cmd = QCOM_SCM_PIL_PAS_INIT_IMAGE h then scm_pas_init_image e d s
         else if cmd = QCOM_SCM_PIL_PAS_MEM_SETUP h
         then scm_fn_call e qcom_scm_pas_mem_setup (take 3 a) d s
         else if cmd = QCOM_SCM_PIL_PAS_AUTH_AND_RESET h
         then scm_fn_call e qcom_scm_pas_auth_and_reset (take 1 a) d s
         else if cmd = QCOM_SCM_PIL_PAS_SHUTDOWN h
         then scm_fn_call e qcom_scm_pas_shutdown (take 1 a) d s
         else none)
      else if svc = QCOM_SCM_SVC_INFO h then
        (if cmd = QCOM_SCM_INFO_GET_FEAT_VERSION_CMD
         then scm_fn_call e qcom_scm_get_tz_feat_id_version (take 1 a) d s
         else if cmd = QCOM_SCM_INFO_BW_PROF_ID
         then scm_fn_call e qcom_scm_ddrbw_profiler (take 4 a) d s
         else none)
      else if svc = QCOM_SCM_SVC_MP h then
        (if cmd = QCOM_SCM_MP_VIDEO_VAR h
         then scm_fn_call e qcom_scm_mem_protect_video_var (take 4 a) d s
         else none)
      else if svc = QCOM_SCM_SVC_SHE then
        (if cmd = QCOM_SCM_SHE_ID then scm_she_op e d s else none)
      else if svc = QCOM_SCM_SVC_LMH h then
        (if cmd = QCOM_SCM_LMH_LIMIT_PROFILE_CHANGE h
         then scm_fn_call e qcom_scm_lmh_profile_change (take 1 a) d s
         else none)
      else none)"

text \<open>
  The raw call of kernel 5.14.0. The loop copies \<open>no_of_args\<close> arguments; reading past the
  request's array or writing past the descriptor's is undefined.
\<close>

definition scm_raw_call ::
  "qcom_scm_h \<Rightarrow> scm_env \<Rightarrow> nat \<Rightarrow> scm_hand_shake \<Rightarrow> scm_st \<Rightarrow>
    (int \<times> scm_hand_shake \<times> u64 list \<times> scm_st) option" where
  "scm_raw_call h e no_of_args d s =
     (if length (hs_args_buffer d) < no_of_args \<or> MAX_QCOM_SCM_ARGS h < no_of_args then None
      else let args = take no_of_args (hs_args_buffer d) @ drop no_of_args (env_stack_args e);
               desc = \<lparr>desc_svc = hs_svc d, desc_cmd = hs_cmd d, desc_owner = ARM_SMCCC_OWNER_SIP h,
                       desc_arginfo = hs_arginfo d, desc_args = args\<rparr>;
               desc = (if desc_cmd desc = QCOM_SCM_PIL_PAS_INIT_IMAGE h
                       then desc\<lparr>desc_arginfo := 0x82, desc_args := args[2 := 0]\<rparr> else desc);
               (ret, res) = env_scm e (ScmCall desc) in
           Some (0, d\<lparr>hs_ret := of_int ret\<rparr>, res, s\<lparr>scm_log := scm_log s @ [ScmCall desc]\<rparr>))"

text \<open>
  The request. The result is the value returned (a \<open>long\<close>, into which the 32-bit
  \<open>ret\<close> is zero-extended), what is copied back to the caller, and the state.
\<close>

definition scm_ioctl_tail ::
  "scm_env \<Rightarrow> int \<Rightarrow> qcom_scm_h \<Rightarrow> scm_hand_shake \<Rightarrow> u64 list \<Rightarrow> scm_st \<Rightarrow>
    int \<times> scm_hand_shake option \<times> scm_st" where
  "scm_ioctl_tail e ret h d res s =
     (if hs_ret d \<noteq> 0 then (uint (hs_ret d), None, s)
      else let d = d\<lparr>hs_qcom_scm_res :=
                     take (MAX_QCOM_SCM_RETS h) res @ drop (MAX_QCOM_SCM_RETS h) (hs_qcom_scm_res d)\<rparr> in
      if \<not> env_copy_out e then (- EFAULT, None, s) else (ret, Some d, s))"

definition scm_ioctl ::
  "qcom_scm_h \<Rightarrow> bool \<Rightarrow> scm_env \<Rightarrow> bool \<Rightarrow> scm_st \<Rightarrow>
    (int \<times> scm_hand_shake option \<times> scm_st) option" where
  "scm_ioctl h v5_14 e is_hand_shake s =
     (if \<not> is_hand_shake then Some (- EFAULT, None, s)
      else case env_copy_in e of None \<Rightarrow> Some (- EFAULT, None, s) | Some d \<Rightarrow>
      if \<not> validate_svc_cmd h (hs_svc d) (hs_cmd d) then Some (- EINVAL, None, s)
      else let no_of_args = unat (hs_arginfo d AND 0x0F);
               ret = (if MAX_QCOM_SCM_ARGS h < no_of_args then - EINVAL else 0);
               (no_dma_fds, fds) = get_dmafd_args (hs_svc d) (hs_cmd d) in do {
        (ret, args, s) \<leftarrow> (if no_dma_fds > 0 then translate_fd_to_pa e fds (hs_args_buffer d) s
                           else Some (ret, hs_args_buffer d, s));
        (if no_dma_fds > 0 \<and> ret \<noteq> 0 then Some (ret, None, s)
         else do {
           (r, d, res, s) \<leftarrow> (if v5_14 then scm_raw_call h e no_of_args (d\<lparr>hs_args_buffer := args\<rparr>) s
                              else scm_dispatch h e (d\<lparr>hs_args_buffer := args\<rparr>) s);
           (if r \<noteq> 0 then Some (r, None, s) else Some (scm_ioctl_tail e ret h d res s))
         })
      })"


section \<open>What the table allows\<close>

text \<open>
  The header's services are distinct (they are case labels of one switch) and its array sizes are
  those of the request.
\<close>

definition hdr_ok :: "qcom_scm_h \<Rightarrow> bool" where
  "hdr_ok h \<longleftrightarrow>
     distinct [QCOM_SCM_SVC_BOOT h, QCOM_SCM_SVC_PIL h, QCOM_SCM_SVC_INFO h, QCOM_SCM_SVC_MP h,
               QCOM_SCM_SVC_SHE, QCOM_SCM_SVC_SAFETY, QCOM_SCM_SVC_LMH h] \<and>
     MAX_QCOM_SCM_ARGS h = MAX_QCOM_SCM_IN \<and> MAX_QCOM_SCM_RETS h = MAX_QCOM_SCM_RESULT"

definition allowed_pairs :: "qcom_scm_h \<Rightarrow> (u32 \<times> u32) list" where
  "allowed_pairs h =
     [(QCOM_SCM_SVC_BOOT h, QCOM_SCM_BOOT_SET_REMOTE_STATE h),
      (QCOM_SCM_SVC_PIL h, QCOM_SCM_PIL_PAS_INIT_IMAGE h),
      (QCOM_SCM_SVC_PIL h, QCOM_SCM_PIL_PAS_MEM_SETUP h),
      (QCOM_SCM_SVC_PIL h, QCOM_SCM_PIL_PAS_AUTH_AND_RESET h),
      (QCOM_SCM_SVC_PIL h, QCOM_SCM_PIL_PAS_SHUTDOWN h),
      (QCOM_SCM_SVC_INFO h, QCOM_SCM_INFO_IS_CALL_AVAIL h),
      (QCOM_SCM_SVC_INFO h, QCOM_SCM_INFO_GET_FEAT_VERSION_CMD),
      (QCOM_SCM_SVC_INFO h, QCOM_SCM_INFO_BW_PROF_ID),
      (QCOM_SCM_SVC_MP h, QCOM_SCM_MP_VIDEO_VAR h),
      (QCOM_SCM_SVC_MP h, QCOM_SCM_MP_SHM_BRIDGE_ENABLE),
      (QCOM_SCM_SVC_MP h, QCOM_SCM_MP_SHM_BRIDGE_DELETE),
      (QCOM_SCM_SVC_MP h, QCOM_SCM_MP_SHM_BRIDGE_CREATE),
      (QCOM_SCM_SVC_SHE, QCOM_SCM_SHE_ID),
      (QCOM_SCM_SVC_SAFETY, QCOM_SCM_SAFETY_ENABLE_FFI_ID),
      (QCOM_SCM_SVC_LMH h, QCOM_SCM_LMH_LIMIT_PROFILE_CHANGE h)]"

text \<open>The service and command that a call asks the secure world for.\<close>

fun call_pair :: "qcom_scm_h \<Rightarrow> scm_call \<Rightarrow> u32 \<times> u32" where
  "call_pair h (ScmCall d) = (desc_svc d, desc_cmd d)"
| "call_pair h (ScmFn f _) =
     (case f of
        qcom_scm_set_remote_state \<Rightarrow> (QCOM_SCM_SVC_BOOT h, QCOM_SCM_BOOT_SET_REMOTE_STATE h)
      | qcom_scm_pas_init_image \<Rightarrow> (QCOM_SCM_SVC_PIL h, QCOM_SCM_PIL_PAS_INIT_IMAGE h)
      | qcom_scm_pas_mem_setup \<Rightarrow> (QCOM_SCM_SVC_PIL h, QCOM_SCM_PIL_PAS_MEM_SETUP h)
      | qcom_scm_pas_auth_and_reset \<Rightarrow> (QCOM_SCM_SVC_PIL h, QCOM_SCM_PIL_PAS_AUTH_AND_RESET h)
      | qcom_scm_pas_shutdown \<Rightarrow> (QCOM_SCM_SVC_PIL h, QCOM_SCM_PIL_PAS_SHUTDOWN h)
      | qcom_scm_get_tz_feat_id_version \<Rightarrow> (QCOM_SCM_SVC_INFO h, QCOM_SCM_INFO_GET_FEAT_VERSION_CMD)
      | qcom_scm_ddrbw_profiler \<Rightarrow> (QCOM_SCM_SVC_INFO h, QCOM_SCM_INFO_BW_PROF_ID)
      | qcom_scm_mem_protect_video_var \<Rightarrow> (QCOM_SCM_SVC_MP h, QCOM_SCM_MP_VIDEO_VAR h)
      | qcom_scm_she_op \<Rightarrow> (QCOM_SCM_SVC_SHE, QCOM_SCM_SHE_ID)
      | qcom_scm_lmh_profile_change \<Rightarrow> (QCOM_SCM_SVC_LMH h, QCOM_SCM_LMH_LIMIT_PROFILE_CHANGE h))"

lemma sip_entry_simps:
  assumes "hdr_ok h"
  shows "sip_entry h (QCOM_SCM_SVC_BOOT h) = snd (sip_tbl h ! 0)"
    and "sip_entry h (QCOM_SCM_SVC_PIL h) = snd (sip_tbl h ! 1)"
    and "sip_entry h (QCOM_SCM_SVC_INFO h) = snd (sip_tbl h ! 2)"
    and "sip_entry h (QCOM_SCM_SVC_MP h) = snd (sip_tbl h ! 3)"
    and "sip_entry h QCOM_SCM_SVC_SHE = snd (sip_tbl h ! 4)"
    and "sip_entry h QCOM_SCM_SVC_SAFETY = snd (sip_tbl h ! 5)"
    and "sip_entry h (QCOM_SCM_SVC_LMH h) = snd (sip_tbl h ! 6)"
  using assms by (auto simp: hdr_ok_def sip_entry_def sip_tbl_def SVC_CMD_GRP_def)

lemma upt_four: "[0..<4] = [0, 1, 2, 3 :: nat]" "[0..<3] = [0, 1, 2 :: nat]" "[0..<1] = [0 :: nat]"
  by (simp_all add: upt_rec)

text \<open>The check of a pair is membership in the table.\<close>

lemma validate_iff:
  assumes "hdr_ok h"
  shows "validate_svc_cmd h svc cmd \<longleftrightarrow> (svc, cmd) \<in> set (allowed_pairs h)"
proof -
  note e = sip_entry_simps [OF assms]
  consider "svc = QCOM_SCM_SVC_BOOT h" | "svc = QCOM_SCM_SVC_PIL h" | "svc = QCOM_SCM_SVC_INFO h"
    | "svc = QCOM_SCM_SVC_MP h" | "svc = QCOM_SCM_SVC_SHE" | "svc = QCOM_SCM_SVC_SAFETY"
    | "svc = QCOM_SCM_SVC_LMH h"
    | "svc \<notin> {QCOM_SCM_SVC_BOOT h, QCOM_SCM_SVC_PIL h, QCOM_SCM_SVC_INFO h, QCOM_SCM_SVC_MP h,
                QCOM_SCM_SVC_SHE, QCOM_SCM_SVC_SAFETY, QCOM_SCM_SVC_LMH h}"
    by blast
  then show ?thesis
    using assms
    by cases (auto simp: validate_svc_cmd_def allowed_pairs_def e sip_tbl_def SVC_CMD_GRP_def
        upt_four hdr_ok_def)
qed

section \<open>What each step changes\<close>

text \<open>The counters of a state, without the log.\<close>

definition holds_same :: "scm_st \<Rightarrow> scm_st \<Rightarrow> bool" where
  "holds_same s s' \<longleftrightarrow> buf_refs s' = buf_refs s \<and> buf_atts s' = buf_atts s \<and>
     att_maps s' = att_maps s \<and> remaps s' = remaps s"

lemma holds_same_refl [simp, intro]: "holds_same s s"
  by (simp add: holds_same_def)

lemma bind_Some_eq: "Option.bind x f = Some y \<longleftrightarrow> (\<exists>a. x = Some a \<and> f a = Some y)"
  by (cases x) auto

lemma get_pa_result:
  assumes "get_pa_from_dmabuf_fd e b p s = Some (ret, pa, s')"
  shows "s' = s \<and> (ret < 0 \<or> ret = 0 \<and> env_nents e (env_map e (env_attach e b)) = 1 \<and>
           pa = env_dma_address e (env_map e (env_attach e b)) \<and> pa \<noteq> 0)"
  using assms
  by (auto simp: get_pa_from_dmabuf_fd_def Let_def get_pa_out_def dma_buf_unmap_attachment_def
      dma_buf_detach_def bind_Some_eq split: if_splits)

lemma get_dmafd_args_she: "get_dmafd_args QCOM_SCM_SVC_SHE QCOM_SCM_SHE_ID = (1, [2])"
  by (simp add: get_dmafd_args_def dma_fd_tbl_def)

lemma get_dmafd_args_other:
  "(svc, cmd) \<noteq> (QCOM_SCM_SVC_SHE, QCOM_SCM_SHE_ID) \<Longrightarrow> get_dmafd_args svc cmd = (- EINVAL, [])"
  by (auto simp: get_dmafd_args_def dma_fd_tbl_def)

lemma translate_she:
  assumes "translate_fd_to_pa e [2] args s = Some (ret, args', s')" and "length args = 10"
  defines "b \<equiv> env_dma_buf_get e (arg_to_fd (args ! 2))"
  shows "ret = 0 \<Longrightarrow> s' = s \<and> \<not> IS_ERR_OR_NULL b \<and>
           env_nents e (env_map e (env_attach e b)) = 1 \<and>
           env_dma_address e (env_map e (env_attach e b)) \<noteq> 0 \<and>
           args' = args[2 := env_dma_address e (env_map e (env_attach e b))]"
    and "ret \<noteq> 0 \<Longrightarrow> (ret = - EFAULT \<and> IS_ERR_OR_NULL b \<and> s' = s) \<or>
           (ret = - EINVAL \<and> \<not> IS_ERR_OR_NULL b \<and>
            s' = s\<lparr>buf_refs := (buf_refs s)(b := buf_refs s b + 1)\<rparr>)"
  using assms
  by (auto simp: translate_fd_to_pa_def bind_Some_eq Let_def split: if_splits dest!: get_pa_result)

text \<open>
  What the part of the request after the checks does: it gives up before the call, it makes no
  call, or it makes one call of the pair the request names.
\<close>

definition call_result ::
  "qcom_scm_h \<Rightarrow> scm_env \<Rightarrow> scm_hand_shake \<Rightarrow> scm_st \<Rightarrow> int \<Rightarrow> scm_hand_shake \<Rightarrow> scm_st \<Rightarrow> bool" where
  "call_result h e d s r d' s' \<longleftrightarrow> holds_same s s' \<and>
     (r = - ENOMEM \<and> scm_log s' = scm_log s \<or>
      r = 0 \<and> d' = d \<and> scm_log s' = scm_log s \<or>
      r = 0 \<and> (\<exists>c. scm_log s' = scm_log s @ [c] \<and> call_pair h c = (hs_svc d, hs_cmd d) \<and>
                 d' = d\<lparr>hs_ret := of_int (fst (env_scm e c))\<rparr>))"

lemma call_result_none: "call_result h e d s 0 d s"
  by (simp add: call_result_def)

lemma call_result_fn:
  assumes "scm_fn_call e f args d s = Some (r, d', res, s')"
    and "call_pair h (ScmFn f args) = (hs_svc d, hs_cmd d)"
  shows "call_result h e d s r d' s'"
  using assms by (auto simp: call_result_def scm_fn_call_def holds_same_def)

lemma call_result_init_image:
  assumes "scm_pas_init_image e d s = Some (r, d', res, s')"
    and "hs_svc d = QCOM_SCM_SVC_PIL h" and "hs_cmd d = QCOM_SCM_PIL_PAS_INIT_IMAGE h"
  shows "call_result h e d s r d' s'"
  using assms
  by (auto simp: call_result_def scm_pas_init_image_def scm_fn_call_def holds_same_def Let_def
      split: if_splits)

lemma call_result_she:
  assumes "scm_she_op e d s = Some (r, d', res, s')"
    and "hs_svc d = QCOM_SCM_SVC_SHE" and "hs_cmd d = QCOM_SCM_SHE_ID"
  shows "call_result h e d s r d' s'"
  using assms
  by (auto simp: call_result_def scm_she_op_def scm_fn_call_def holds_same_def Let_def
      split: if_splits list.splits)

lemma dispatch_result:
  assumes "scm_dispatch h e d s = Some (r, d', res, s')"
  shows "call_result h e d s r d' s'"
  using assms
  by (auto simp: scm_dispatch_def Let_def split: if_splits
      intro: call_result_none elim!: call_result_fn call_result_init_image call_result_she)

lemma raw_result:
  assumes "scm_raw_call h e n d s = Some (r, d', res, s')"
  shows "call_result h e d s r d' s'"
  using assms
  by (auto simp: scm_raw_call_def call_result_def holds_same_def Let_def split: if_splits prod.splits)

lemma tail_result:
  assumes "scm_ioctl_tail e ret h d res s = (r, out, s')"
  shows "s' = s \<and>
    (r > 0 \<and> r = uint (hs_ret d) \<and> out = None \<or> hs_ret d = 0 \<and> r = - EFAULT \<and> out = None \<or>
     hs_ret d = 0 \<and> r = ret \<and> out \<noteq> None)"
proof -
  have "hs_ret d \<noteq> 0 \<Longrightarrow> 0 < uint (hs_ret d)"
    by (simp add: word_neq_0_conv word_less_def)
  then show ?thesis using assms by (auto simp: scm_ioctl_tail_def Let_def split: if_splits)
qed

text \<open>The whole request, once its pair is known to be allowed.\<close>

lemma ioctl_rejects:
  assumes "scm_ioctl h v e hs s = Some (r, out, s')"
    and "\<not> hs \<or> env_copy_in e = None \<or>
      (\<exists>d. env_copy_in e = Some d \<and> \<not> validate_svc_cmd h (hs_svc d) (hs_cmd d))"
  shows "s' = s \<and> out = None \<and> r \<in> {- EFAULT, - EINVAL}"
  using assms by (auto simp: scm_ioctl_def split: if_splits)

lemma ioctl_other:
  assumes "scm_ioctl h v e True s = Some (r, out, s')" and "env_copy_in e = Some d"
    and "validate_svc_cmd h (hs_svc d) (hs_cmd d)"
    and "(hs_svc d, hs_cmd d) \<noteq> (QCOM_SCM_SVC_SHE, QCOM_SCM_SHE_ID)"
  shows "\<exists>q d' s1 res. call_result h e d s q d' s1 \<and>
    (q \<noteq> 0 \<and> r = q \<and> out = None \<and> s' = s1 \<or>
     q = 0 \<and> scm_ioctl_tail e (if MAX_QCOM_SCM_ARGS h < unat (hs_arginfo d AND 0x0F) then - EINVAL else 0)
       h d' res s1 = (r, out, s'))"
  using assms get_dmafd_args_other [OF assms(4)]
  by (auto simp: scm_ioctl_def bind_Some_eq Let_def split: if_splits
      intro: dispatch_result raw_result)

lemma ioctl_she:
  assumes ioctl: "scm_ioctl h v e True s = Some (r, out, s')" and "env_copy_in e = Some d"
    and "validate_svc_cmd h (hs_svc d) (hs_cmd d)"
    and she: "hs_svc d = QCOM_SCM_SVC_SHE" "hs_cmd d = QCOM_SCM_SHE_ID"
  obtains (fails) ret args s0 where "translate_fd_to_pa e [2] (hs_args_buffer d) s = Some (ret, args, s0)"
      "ret \<noteq> 0" "r = ret" "out = None" "s' = s0"
  | (calls) args s0 q d' res s1 where
      "translate_fd_to_pa e [2] (hs_args_buffer d) s = Some (0, args, s0)"
      "(if v then scm_raw_call h e (unat (hs_arginfo d AND 0x0F)) (d\<lparr>hs_args_buffer := args\<rparr>) s0
        else scm_dispatch h e (d\<lparr>hs_args_buffer := args\<rparr>) s0) = Some (q, d', res, s1)"
      "q \<noteq> 0 \<and> r = q \<and> out = None \<and> s' = s1 \<or> q = 0 \<and> scm_ioctl_tail e 0 h d' res s1 = (r, out, s')"
proof -
  let ?call = "\<lambda>args s0. if v then scm_raw_call h e (unat (hs_arginfo d AND 0x0F)) (d\<lparr>hs_args_buffer := args\<rparr>) s0
        else scm_dispatch h e (d\<lparr>hs_args_buffer := args\<rparr>) s0"
  have eq: "scm_ioctl h v e True s =
      Option.bind (translate_fd_to_pa e [2] (hs_args_buffer d) s) (\<lambda>(ret, args, s).
        if ret \<noteq> 0 then Some (ret, None, s)
        else Option.bind (?call args s) (\<lambda>(q, d', res, s).
          if q \<noteq> 0 then Some (q, None, s) else Some (scm_ioctl_tail e ret h d' res s)))"
    using assms(2,3) by (simp add: scm_ioctl_def get_dmafd_args_she she del: scm_ids)
  show thesis
  proof (cases "translate_fd_to_pa e [2] (hs_args_buffer d) s")
    case None
    with ioctl eq show thesis by simp
  next
    case (Some x)
    obtain ret args s0 where x: "x = (ret, args, s0)" by (cases x) auto
    show thesis
    proof (cases "ret = 0")
      case True
      have "Option.bind (?call args s0) (\<lambda>(q, d', res, s).
          if q \<noteq> 0 then Some (q, None, s) else Some (scm_ioctl_tail e 0 h d' res s)) = Some (r, out, s')"
        using ioctl unfolding eq Some x True bind.simps case_prod_conv by (simp only: simp_thms if_False)
      then obtain y where y: "?call args s0 = Some y"
        and f: "(case y of (q, d', res, s) \<Rightarrow>
          if q \<noteq> 0 then Some (q, None, s) else Some (scm_ioctl_tail e 0 h d' res s)) = Some (r, out, s')"
        unfolding bind_Some_eq by blast
      obtain q d' res s1 where yy: "y = (q, d', res, s1)" by (cases y) auto
      show thesis
        by (rule calls [OF Some [unfolded x True] y [unfolded yy]])
          (use f in \<open>simp add: yy split: if_splits\<close>)
    next
      case False
      with Some x ioctl eq show thesis by (intro fails) auto
    qed
  qed
qed


section \<open>Properties of one request\<close>

text \<open>The header of the kernel, to instantiate the properties.\<close>

definition linux_scm_h :: qcom_scm_h where
  "linux_scm_h =
     \<lparr>QCOM_SCM_SVC_BOOT = 1, QCOM_SCM_SVC_PIL = 2, QCOM_SCM_SVC_INFO = 6, QCOM_SCM_SVC_MP = 12,
      QCOM_SCM_SVC_LMH = 19, QCOM_SCM_BOOT_SET_REMOTE_STATE = 10, QCOM_SCM_PIL_PAS_INIT_IMAGE = 1,
      QCOM_SCM_PIL_PAS_MEM_SETUP = 2, QCOM_SCM_PIL_PAS_AUTH_AND_RESET = 5,
      QCOM_SCM_PIL_PAS_SHUTDOWN = 6, QCOM_SCM_INFO_IS_CALL_AVAIL = 1, QCOM_SCM_MP_VIDEO_VAR = 8,
      QCOM_SCM_LMH_LIMIT_PROFILE_CHANGE = 1, MAX_QCOM_SCM_ARGS = 10, MAX_QCOM_SCM_RETS = 3,
      ARM_SMCCC_OWNER_SIP = 2\<rparr>"

lemma linux_hdr_ok [simp]: "hdr_ok linux_scm_h"
  by (simp add: hdr_ok_def linux_scm_h_def scm_ids MAX_QCOM_SCM_IN_def MAX_QCOM_SCM_RESULT_def)

text \<open>One request as a step, and what the secure world has seen after any sequence of requests.\<close>

inductive scm_step :: "qcom_scm_h \<Rightarrow> bool \<Rightarrow> scm_st \<Rightarrow> scm_st \<Rightarrow> bool" for h v where
  request: "scm_ioctl h v e hs s = Some (r, out, s') \<Longrightarrow> scm_step h v s s'"

inductive_cases scm_step_cases [elim]: "scm_step h v s s'"

lemma translate_log:
  assumes "translate_fd_to_pa e [2] args s = Some (ret, args', s')"
  shows "scm_log s' = scm_log s"
  using assms
  by (auto simp: translate_fd_to_pa_def bind_Some_eq Let_def split: if_splits dest!: get_pa_result)

lemma ioctl_log:
  assumes "hdr_ok h" and "scm_ioctl h v e hs s = Some (r, out, s')"
  shows "\<exists>cs. scm_log s' = scm_log s @ cs \<and> length cs \<le> 1 \<and>
    (\<forall>c \<in> set cs. call_pair h c \<in> set (allowed_pairs h))"
proof (cases "\<exists>d. hs \<and> env_copy_in e = Some d \<and> validate_svc_cmd h (hs_svc d) (hs_cmd d)")
  case False
  then show ?thesis using ioctl_rejects [OF assms(2)] by (cases "env_copy_in e") auto
next
  case True
  then obtain d where d: hs "env_copy_in e = Some d" "validate_svc_cmd h (hs_svc d) (hs_cmd d)"
    by blast
  have ok: "(hs_svc d, hs_cmd d) \<in> set (allowed_pairs h)"
    using d(3) by (simp add: validate_iff [OF assms(1)])
  have res: "\<exists>cs. scm_log s2 = scm_log s1 @ cs \<and> length cs \<le> 1 \<and>
      (\<forall>c \<in> set cs. call_pair h c \<in> set (allowed_pairs h))"
    if "call_result h e (d\<lparr>hs_args_buffer := a\<rparr>) s1 q d' s2" for a s1 q d' s2
    using that ok unfolding call_result_def by auto
  note ioctl = assms(2) [unfolded eqTrueI [OF d(1)]]
  show ?thesis
  proof (cases "(hs_svc d, hs_cmd d) = (QCOM_SCM_SVC_SHE, QCOM_SCM_SHE_ID)")
    case False
    from ioctl_other [OF ioctl d(2,3) False]
    obtain q d' s1 rs where c: "call_result h e d s q d' s1" and s: "s' = s1"
      by (auto dest: tail_result)
    show ?thesis using res [of "hs_args_buffer d" s q d' s1] c s by simp
  next
    case True
    then have "hs_svc d = QCOM_SCM_SVC_SHE" "hs_cmd d = QCOM_SCM_SHE_ID" by simp_all
    with ioctl d(2,3) show ?thesis
    proof (cases rule: ioctl_she)
      case (fails ret args s0)
      then show ?thesis using translate_log [OF fails(1)] by simp
    next
      case (calls args s0 q d' rs s1)
      have "call_result h e (d\<lparr>hs_args_buffer := args\<rparr>) s0 q d' s1"
        using calls(2) by (auto intro: dispatch_result raw_result split: if_splits)
      from res [OF this] translate_log [OF calls(1)] calls(3) show ?thesis
        by (auto dest: tail_result)
    qed
  qed
qed

lemma steps_log:
  assumes "(scm_step h v)\<^sup>*\<^sup>* s s'" and "hdr_ok h"
    and "\<forall>c \<in> set (scm_log s). call_pair h c \<in> set (allowed_pairs h)"
  shows "\<forall>c \<in> set (scm_log s'). call_pair h c \<in> set (allowed_pairs h)"
  using assms(1,3)
proof (induction rule: rtranclp_induct)
  case base
  then show ?case by simp
next
  case (step s1 s2)
  from step.hyps(2) obtain e hs r out where "scm_ioctl h v e hs s1 = Some (r, out, s2)" by blast
  from ioctl_log [OF assms(2) this] step show ?case by auto
qed

text \<open>A request with a concrete environment: the secure world answers 0, dma-bufs have address 4096 * fd.\<close>

definition env_of :: "scm_hand_shake \<Rightarrow> scm_env" where
  "env_of d = \<lparr>env_copy_in = Some d, env_copy_out = True, env_dma_buf_get = of_int,
     env_attach = (\<lambda>b. b + 1), env_map = (\<lambda>a. a + 1), env_nents = (\<lambda>_. 1),
     env_dma_address = (\<lambda>g. 4096 * (g - 2)), env_memremap = (\<lambda>_ _. 1), env_scm = (\<lambda>_. (0, [0, 0, 0])),
     env_stack = [11, 12, 13], env_stack_args = replicate 10 7\<rparr>"

definition request_of :: "u32 \<Rightarrow> u32 \<Rightarrow> u32 \<Rightarrow> scm_hand_shake" where
  "request_of svc cmd arginfo = \<lparr>hs_svc = svc, hs_cmd = cmd, hs_owner = 0, hs_arginfo = arginfo,
     hs_args_buffer = [0, 1, 2, 3, 4, 5, 6, 7, 8, 9], hs_ret = 0, hs_arg_type = 0,
     hs_qcom_scm_res = [0, 0, 0]\<rparr>"

definition scm_init :: scm_st where
  "scm_init = \<lparr>scm_log = [], buf_refs = (\<lambda>_. 0), buf_atts = (\<lambda>_. 0), att_maps = (\<lambda>_. 0), remaps = 0\<rparr>"

lemmas scm_eval = scm_ioctl_def env_of_def request_of_def scm_init_def linux_scm_h_def scm_ids
  validate_svc_cmd_def sip_entry_def sip_tbl_def SVC_CMD_GRP_def get_dmafd_args_def dma_fd_tbl_def
  scm_dispatch_def scm_fn_call_def scm_raw_call_def scm_she_op_def scm_ioctl_tail_def
  scm_pas_init_image_def translate_fd_to_pa_def get_pa_from_dmabuf_fd_def get_pa_out_def
  dma_buf_unmap_attachment_def dma_buf_detach_def arg_to_fd_def IS_ERR_OR_NULL_def IS_ERR_def
  MAX_QCOM_SCM_IN_def MAX_QCOM_SCM_RESULT_def Let_def upt_four

lemma shutdown_request:
  "scm_ioctl linux_scm_h False (env_of (request_of 2 6 1)) True scm_init =
     Some (0, Some (request_of 2 6 1\<lparr>hs_qcom_scm_res := [11, 12, 13]\<rparr>),
       scm_init\<lparr>scm_log := [ScmFn qcom_scm_pas_shutdown [0]]\<rparr>)"
  by (simp add: scm_eval)

lemma she_request:
  "scm_ioctl linux_scm_h False (env_of (request_of 0x21 1 4)) True scm_init =
     Some (0, Some (request_of 0x21 1 4\<lparr>hs_args_buffer := [0, 1, 8192, 3, 4, 5, 6, 7, 8, 9],
         hs_qcom_scm_res := [0, 12, 13]\<rparr>),
       scm_init\<lparr>scm_log := [ScmFn qcom_scm_she_op [0, 1, 8192, 3]]\<rparr>)"
  by (simp add: scm_eval fun_upd_idem)

text \<open>C4: Whatever requests user space makes, in whatever order and with whatever answers of the
  kernel, every call the secure world sees carries one of the fifteen pairs of the table.
\<close>

theorem secure_calls_allowed:
  assumes "hdr_ok h" and "scm_log s = []" and "(scm_step h v)\<^sup>*\<^sup>* s s'" and "c \<in> set (scm_log s')"
  shows "call_pair h c \<in> set (allowed_pairs h)"
  using steps_log [OF assms(3,1)] assms(2,4) by simp

theorem secure_calls_allowed_witness:
  "call_pair linux_scm_h (ScmFn qcom_scm_pas_shutdown [0]) \<in> set (allowed_pairs linux_scm_h)"
proof (rule secure_calls_allowed [OF linux_hdr_ok])
  show "scm_log scm_init = []" by (simp add: scm_init_def)
  show "(scm_step linux_scm_h False)\<^sup>*\<^sup>* scm_init
      (scm_init\<lparr>scm_log := [ScmFn qcom_scm_pas_shutdown [0]]\<rparr>)"
    by (rule r_into_rtranclp, rule scm_step.request, rule shutdown_request)
qed simp







section \<open>Resources and return values\<close>

text \<open>The request's array has the size its type gives it.\<close>

definition args_ok :: "scm_env \<Rightarrow> bool" where
  "args_ok e \<longleftrightarrow>
     (case env_copy_in e of None \<Rightarrow> True | Some d \<Rightarrow> length (hs_args_buffer d) = MAX_QCOM_SCM_IN)"

lemma args_ok_length: "args_ok e \<Longrightarrow> env_copy_in e = Some d \<Longrightarrow> length (hs_args_buffer d) = 10"
  by (simp add: args_ok_def MAX_QCOM_SCM_IN_def)

text \<open>Every case of a request that returns, in one elimination rule.\<close>

lemma ioctl_cases:
  assumes "scm_ioctl h v e hs s = Some (r, out, s')"
    and ok: "args_ok e"
  obtains (rejects) "s' = s" "out = None" "r \<in> {- EFAULT, - EINVAL}"
  | (address) d b where "env_copy_in e = Some d" "hs_svc d = QCOM_SCM_SVC_SHE" "hs_cmd d = QCOM_SCM_SHE_ID"
      "b = env_dma_buf_get e (arg_to_fd (hs_args_buffer d ! 2))" "\<not> IS_ERR_OR_NULL b" "out = None"
      "r = - EINVAL" "s' = s\<lparr>buf_refs := (buf_refs s)(b := buf_refs s b + 1)\<rparr>"
  | (calls) d q d' res s1 ret args where "env_copy_in e = Some d"
      "call_result h e (d\<lparr>hs_args_buffer := args\<rparr>) s q d' s1"
      "q \<noteq> 0 \<and> r = q \<and> out = None \<and> s' = s1 \<or> q = 0 \<and> scm_ioctl_tail e ret h d' res s1 = (r, out, s')"
      "ret \<in> {0, - EINVAL}"
proof (cases "\<exists>d. hs \<and> env_copy_in e = Some d \<and> validate_svc_cmd h (hs_svc d) (hs_cmd d)")
  case False
  then have "\<not> hs \<or> env_copy_in e = None \<or>
      (\<exists>d. env_copy_in e = Some d \<and> \<not> validate_svc_cmd h (hs_svc d) (hs_cmd d))"
    by (cases "env_copy_in e") auto
  note res = ioctl_rejects [OF assms(1) this]
  show thesis by (rule rejects) (use res in auto)
next
  case True
  then obtain d where d: hs "env_copy_in e = Some d" "validate_svc_cmd h (hs_svc d) (hs_cmd d)"
    by blast
  note ioctl = assms(1) [unfolded eqTrueI [OF d(1)]]
  note done_calls = calls [OF d(2)]
  show thesis
  proof (cases "(hs_svc d, hs_cmd d) = (QCOM_SCM_SVC_SHE, QCOM_SCM_SHE_ID)")
    case False
    from ioctl_other [OF ioctl d(2,3) False]
    obtain q d' s1 rs where c: "call_result h e d s q d' s1" and
      q: "q \<noteq> 0 \<and> r = q \<and> out = None \<and> s' = s1 \<or> q = 0 \<and>
        scm_ioctl_tail e (if MAX_QCOM_SCM_ARGS h < unat (hs_arginfo d AND 0x0F) then - EINVAL else 0)
          h d' rs s1 = (r, out, s')" by blast
    have "d\<lparr>hs_args_buffer := hs_args_buffer d\<rparr> = d" by simp
    then show thesis by (intro done_calls [OF _ q, of "hs_args_buffer d"]) (use c in auto)
  next
    case True
    then have she: "hs_svc d = QCOM_SCM_SVC_SHE" "hs_cmd d = QCOM_SCM_SHE_ID" by simp_all
    with ioctl d(2,3) show thesis
    proof (cases rule: ioctl_she)
      case (fails ret args s0)
      from translate_she(2) [OF fails(1) args_ok_length [OF ok d(2)] fails(2)] show thesis
      proof
        assume "ret = - EFAULT \<and> IS_ERR_OR_NULL (env_dma_buf_get e (arg_to_fd (hs_args_buffer d ! 2))) \<and> s0 = s"
        then show thesis by (intro rejects) (use fails in auto)
      next
        assume "ret = - EINVAL \<and> \<not> IS_ERR_OR_NULL (env_dma_buf_get e (arg_to_fd (hs_args_buffer d ! 2))) \<and>
          s0 = s\<lparr>buf_refs := (buf_refs s)(env_dma_buf_get e (arg_to_fd (hs_args_buffer d ! 2)) :=
            buf_refs s (env_dma_buf_get e (arg_to_fd (hs_args_buffer d ! 2))) + 1)\<rparr>"
        then show thesis by (intro address [OF d(2) she refl]) (use fails in auto)
      qed
    next
      case (calls args s0 q d' rs s1)
      have s0: "s0 = s" using translate_she(1) [OF calls(1) args_ok_length [OF ok d(2)]] by simp
      have "call_result h e (d\<lparr>hs_args_buffer := args\<rparr>) s q d' s1"
        using calls(2) unfolding s0 by (auto intro: dispatch_result raw_result split: if_splits)
      from done_calls [OF this calls(3)] show thesis by simp
    qed
  qed
qed

lemma ioctl_holds:
  assumes "scm_ioctl h v e hs s = Some (r, out, s')"
    and "args_ok e"
  shows "holds_same s s' \<or> r = - EINVAL \<and> (\<exists>d b. env_copy_in e = Some d \<and>
    (hs_svc d, hs_cmd d) = (QCOM_SCM_SVC_SHE, QCOM_SCM_SHE_ID) \<and>
    b = env_dma_buf_get e (arg_to_fd (hs_args_buffer d ! 2)) \<and>
    s' = s\<lparr>buf_refs := (buf_refs s)(b := buf_refs s b + 1)\<rparr>)"
proof (cases rule: ioctl_cases [OF assms, case_names rejects address calls])
  case (calls d q d' res s1 ret args)
  then show ?thesis unfolding call_result_def by (auto dest: tail_result)
qed auto

text \<open>A request that returns holds no attachment, no mapping and no memory remapping it did not
  hold before, and no dma-buf reference either, with one exception: a dma-buf whose address cannot
  be found keeps one reference for ever.
\<close>

theorem request_releases:
  assumes "scm_ioctl h v e hs s = Some (r, out, s')"
    and "args_ok e"
  shows "buf_atts s' = buf_atts s \<and> att_maps s' = att_maps s \<and> remaps s' = remaps s \<and>
    (buf_refs s' = buf_refs s \<or> r = - EINVAL \<and>
      (\<exists>b. buf_refs s' = (buf_refs s)(b := buf_refs s b + 1)))"
  using ioctl_holds [OF assms] unfolding holds_same_def by auto

theorem request_releases_witness:
  "buf_refs (scm_init\<lparr>scm_log := [ScmFn qcom_scm_she_op [0, 1, 8192, 3]]\<rparr>) = (\<lambda>_. 0)"
  using request_releases [OF she_request]
  by (simp add: args_ok_def MAX_QCOM_SCM_IN_def env_of_def request_of_def scm_init_def)

lemma ioctl_codes:
  assumes "scm_ioctl h v e hs s = Some (r, out, s')"
    and "args_ok e"
  shows "(r < 0 \<longrightarrow> r \<in> {- EFAULT, - EINVAL, - ENOMEM}) \<and>
    (0 < r \<longrightarrow> out = None \<and> (\<exists>d. env_copy_in e = Some d \<and>
      (scm_log s' = scm_log s \<and> r = uint (hs_ret d) \<or>
       (\<exists>c. scm_log s' = scm_log s @ [c] \<and> r = uint (of_int (fst (env_scm e c)) :: u32))))) \<and>
    (r = 0 \<longrightarrow> out \<noteq> None)"
proof (cases rule: ioctl_cases [OF assms, case_names rejects address calls])
  case (calls d q d' res s1 ret args)
  show ?thesis
  proof (cases "q = 0")
    case True
    then have "scm_ioctl_tail e ret h d' res s1 = (r, out, s')" using calls(3) by simp
    from tail_result [OF this] have t: "s' = s1"
      "0 < r \<and> r = uint (hs_ret d') \<and> out = None \<or> r = - EFAULT \<and> out = None \<or> r = ret \<and> out \<noteq> None"
      by auto
    have "scm_log s1 = scm_log s \<and> hs_ret d' = hs_ret d \<or>
      (\<exists>c. scm_log s1 = scm_log s @ [c] \<and> hs_ret d' = of_int (fst (env_scm e c)))"
      using calls(2) True by (auto simp: call_result_def)
    with t calls(1,4) show ?thesis by auto
  next
    case False
    with calls show ?thesis by (auto simp: call_result_def)
  qed
qed auto

text \<open>The value a request returns: a negative value is one of three errors of the driver itself; a
  positive value is the status of the secure world read as an unsigned number, and nothing is
  copied back; zero means the answer has been copied back.
\<close>

theorem request_codes:
  assumes "scm_ioctl h v e hs s = Some (r, out, s')"
    and "args_ok e"
  shows "(r < 0 \<longrightarrow> r \<in> {- EFAULT, - EINVAL, - ENOMEM}) \<and>
    (0 < r \<longrightarrow> out = None \<and> (\<exists>d. env_copy_in e = Some d \<and>
      (scm_log s' = scm_log s \<and> r = uint (hs_ret d) \<or>
       (\<exists>c. scm_log s' = scm_log s @ [c] \<and> r = uint (of_int (fst (env_scm e c)) :: u32))))) \<and>
    (r = 0 \<longrightarrow> out \<noteq> None)"
  using assms by (rule ioctl_codes)

lemma failing_request:
  "scm_ioctl linux_scm_h False (env_of (request_of 2 6 1)\<lparr>env_scm := \<lambda>_. (- 22, [])\<rparr>) True scm_init =
     Some (4294967274, None, scm_init\<lparr>scm_log := [ScmFn qcom_scm_pas_shutdown [0]]\<rparr>)"
  by (simp add: scm_eval)

theorem request_codes_witness:
  "\<exists>c. scm_log (scm_init\<lparr>scm_log := [ScmFn qcom_scm_pas_shutdown [0]]\<rparr>) = [c] \<and>
    4294967274 = uint (of_int (- 22) :: u32)"
  using request_codes [OF failing_request]
  by (simp add: args_ok_def MAX_QCOM_SCM_IN_def env_of_def request_of_def scm_init_def)

section \<open>Behaviours worth knowing\<close>

text \<open>An error of the secure world reaches the caller as a large positive number.\<close>

lemma scm_error_turns_positive:
  "\<exists>s'. scm_ioctl linux_scm_h False (env_of (request_of 2 6 1)\<lparr>env_scm := \<lambda>_. (- EINVAL, [])\<rparr>) True scm_init =
     Some (4294967274, None, s')"
  using failing_request by simp

text \<open>
  A count of fifteen arguments is refused only after the call has been made; for the raw call the
  copy loop has then already run past both arrays.
\<close>

lemma scm_count_checked_late:
  "scm_ioctl linux_scm_h False (env_of (request_of 2 6 15)) True scm_init =
     Some (- EINVAL, Some (request_of 2 6 15\<lparr>hs_qcom_scm_res := [11, 12, 13]\<rparr>),
       scm_init\<lparr>scm_log := [ScmFn qcom_scm_pas_shutdown [0]]\<rparr>)"
  by (simp add: scm_eval)

lemma scm_count_overflows:
  "scm_ioctl linux_scm_h True (env_of (request_of 2 6 15)) True scm_init = None"
  by (simp add: scm_eval)

text \<open>The uninitialised result words of the stack are copied to the caller.\<close>

lemma scm_stack_leaks:
  "\<exists>s'. scm_ioctl linux_scm_h False (env_of (request_of 2 6 1)\<lparr>env_stack := [x, y, z]\<rparr>) True scm_init =
     Some (0, Some (request_of 2 6 1\<lparr>hs_qcom_scm_res := [x, y, z]\<rparr>), s')"
  by (simp add: scm_eval)

text \<open>An allowed pair without a case makes no call; the caller's own \<open>ret\<close> decides the outcome.\<close>

lemma scm_allowed_without_case:
  assumes "x \<noteq> 0"
  shows "scm_ioctl linux_scm_h False (env_of (request_of 12 0x1c 0\<lparr>hs_ret := x\<rparr>)) True scm_init =
    Some (uint x, None, scm_init)"
  using assms by (simp add: scm_eval)

text \<open>A dma-buf that cannot be attached: the cleanup passes the error pointer to \<open>dma_buf_detach\<close>.\<close>

lemma scm_attach_error_crashes:
  assumes "IS_ERR (env_attach e b)"
  shows "get_pa_from_dmabuf_fd e b p s = None"
  using assms by (auto simp: get_pa_from_dmabuf_fd_def get_pa_out_def dma_buf_detach_def Let_def)

lemma scm_map_error_crashes:
  assumes "\<not> IS_ERR (env_attach e b)" and "IS_ERR (env_map e (env_attach e b))"
  shows "get_pa_from_dmabuf_fd e b p s = None"
  using assms by (auto simp: get_pa_from_dmabuf_fd_def get_pa_out_def dma_buf_unmap_attachment_def Let_def)

text \<open>A scattered dma-buf is refused with its reference still held.\<close>

lemma scm_scattered_leaks:
  "scm_ioctl linux_scm_h False (env_of (request_of 0x21 1 4)\<lparr>env_nents := \<lambda>_. 2\<rparr>) True scm_init =
     Some (- EINVAL, None, scm_init\<lparr>buf_refs := (\<lambda>_. 0)(2 := 1)\<rparr>)"
  by (simp add: scm_eval fun_upd_idem)

end
