(* ===== verification/SgOps.thy ===== *)
theory SgOps
  imports KPrelude
begin

text \<open>
  Model of \<open>drivers/qcom_sg_ops.c\<close>, the dma-buf operations that all heaps of the modules
  share: attaching devices with a private copy of the scatter list, mapping it for the device,
  the cache maintenance around CPU accesses, mapping the buffer into a process and the counted
  kernel mapping. A page is its frame number (\<open>page_to_pfn\<close> of consecutive pages is
  consecutive). The state is one buffer with the resources it holds: the heap objects of its
  attachments, the device mappings and the kernel mappings. The locale \<open>shared_mapping\<close> is
  the contract of the counted mapping.
\<close>

section \<open>Data\<close>

record scatterlist =
  sg_page :: u64
  sg_length :: u32
  sg_offset :: u32

record sg_table =
  sgl :: "scatterlist list"
  nents :: nat
  orig_nents :: nat

text \<open>An attachment of the heap; \<open>a_id\<close> is the dma-buf attachment whose \<open>priv\<close> it is.\<close>

record dma_heap_attachment =
  a_id :: ptr
  a_dev :: ptr
  a_table :: sg_table
  a_mapped :: bool

record qcom_sg_buffer =
  attachments :: "dma_heap_attachment list"
  blen :: u64
  btable :: sg_table
  vmap_cnt :: int
  vaddr :: ptr

record sg_st = qcom_sg_buffer +
  objs :: int
  dma_maps :: "ptr \<Rightarrow> int"
  vmaps :: "ptr list"

record sg_env =
  kzalloc_ok :: bool
  table_alloc :: "bool \<times> int"
  map_ret :: int
  map_nents :: nat
  vmalloc_pages :: "u64 list option"
  vmap_addr :: "u64 list \<Rightarrow> ptr"

abbreviation (input) PAGE_SIZE :: u64 where "PAGE_SIZE \<equiv> 4096"

section \<open>Attachments\<close>

text \<open>The copy loop; running off the new list would dereference NULL.\<close>

fun dup_loop :: "scatterlist list \<Rightarrow> scatterlist list \<Rightarrow> scatterlist list option" where
  "dup_loop [] new = Some new"
| "dup_loop (sg # sgs) [] = None"
| "dup_loop (sg # sgs) (n # ns) =
     map_option (\<lambda>r. n\<lparr>sg_page := sg_page sg, sg_length := sg_length sg, sg_offset := sg_offset sg\<rparr> # r)
       (dup_loop sgs ns)"

definition dup_sg_table :: "sg_env \<Rightarrow> sg_table \<Rightarrow> sg_st \<Rightarrow> (int \<times> sg_table option \<times> sg_st) option" where
  "dup_sg_table e table s =
     (if \<not> fst (table_alloc e) then Some (- ENOMEM, None, s)
      else if snd (table_alloc e) \<noteq> 0 then Some (- ENOMEM, None, s)
      else do {
        new \<leftarrow> dup_loop (take (orig_nents table) (sgl table))
                 (replicate (orig_nents table) \<lparr>sg_page = 0, sg_length = 0, sg_offset = 0\<rparr>);
        Some (0, Some \<lparr>sgl = new, nents = orig_nents table, orig_nents = orig_nents table\<rparr>,
          s\<lparr>objs := objs s + 2\<rparr>)
      })"

definition qcom_sg_attach :: "sg_env \<Rightarrow> ptr \<Rightarrow> ptr \<Rightarrow> sg_st \<Rightarrow> (int \<times> sg_st) option" where
  "qcom_sg_attach e attachment dev s =
     (if \<not> kzalloc_ok e then Some (- ENOMEM, s)
      else let s = s\<lparr>objs := objs s + 1\<rparr> in do {
        (ret, table, s) \<leftarrow> dup_sg_table e (btable s) s;
        (case table of
           None \<Rightarrow> Some (- ENOMEM, s\<lparr>objs := objs s - 1\<rparr>)
         | Some t \<Rightarrow> Some (0, s\<lparr>attachments :=
             \<lparr>a_id = attachment, a_dev = dev, a_table = t, a_mapped = False\<rparr> # attachments s\<rparr>))
      })"

definition find_attachment :: "ptr \<Rightarrow> sg_st \<Rightarrow> dma_heap_attachment option" where
  "find_attachment att s = find (\<lambda>a. a_id a = att) (attachments s)"

definition set_mapped :: "ptr \<Rightarrow> bool \<Rightarrow> sg_st \<Rightarrow> sg_st" where
  "set_mapped att b s =
     s\<lparr>attachments := map (\<lambda>a. if a_id a = att then a\<lparr>a_mapped := b\<rparr> else a) (attachments s)\<rparr>"

text \<open>\<open>dma_map_sgtable\<close> writes the number of device ranges it made of the entries, which can be
  smaller when neighbours were merged, to \<open>nents\<close> of the table it maps.\<close>

definition set_nents :: "ptr \<Rightarrow> nat \<Rightarrow> sg_st \<Rightarrow> sg_st" where
  "set_nents att n s =
     s\<lparr>attachments :=
       map (\<lambda>a. if a_id a = att then a\<lparr>a_table := (a_table a)\<lparr>nents := n\<rparr>\<rparr> else a) (attachments s)\<rparr>"

text \<open>An attachment that the buffer does not have is a dangling \<open>priv\<close> pointer.\<close>

definition qcom_sg_detach :: "ptr \<Rightarrow> sg_st \<Rightarrow> sg_st option" where
  "qcom_sg_detach att s =
     (case find_attachment att s of
        None \<Rightarrow> None
      | Some a \<Rightarrow> Some (s\<lparr>attachments := remove1 a (attachments s), objs := objs s - 3\<rparr>))"

definition qcom_sg_map_dma_buf :: "sg_env \<Rightarrow> ptr \<Rightarrow> sg_st \<Rightarrow> ((int + sg_table) \<times> sg_st) option" where
  "qcom_sg_map_dma_buf e att s =
     (case find_attachment att s of
        None \<Rightarrow> None
      | Some a \<Rightarrow>
          let ret = (if \<not> a_mapped a then map_ret e else - EBUSY) in
          if ret \<noteq> 0 then Some (Inl ret, s)
          else
            let s = set_nents att (map_nents e) (s\<lparr>dma_maps := (dma_maps s)(att := dma_maps s att + 1)\<rparr>) in
            Some (Inr ((a_table a)\<lparr>nents := map_nents e\<rparr>), set_mapped att True s))"

definition qcom_sg_unmap_dma_buf :: "ptr \<Rightarrow> sg_st \<Rightarrow> sg_st option" where
  "qcom_sg_unmap_dma_buf att s =
     (case find_attachment att s of
        None \<Rightarrow> None
      | Some a \<Rightarrow> Some ((set_mapped att False s)\<lparr>dma_maps := (dma_maps s)(att := dma_maps s att - 1)\<rparr>))"

section \<open>CPU access\<close>

datatype sync = VmapRange ptr u64 | SyncTable ptr sg_table

fun sync_attachments :: "dma_heap_attachment list \<Rightarrow> sync list" where
  "sync_attachments [] = []"
| "sync_attachments (a # as) =
     (if \<not> a_mapped a then sync_attachments as
      else SyncTable (a_dev a) (a_table a) # sync_attachments as)"

text \<open>
  The cache operations, in order; for the CPU they invalidate, for the device they flush.
\<close>

definition qcom_sg_dma_buf_begin_cpu_access :: "sg_st \<Rightarrow> int \<times> sync list" where
  "qcom_sg_dma_buf_begin_cpu_access s =
     (0, (if vmap_cnt s \<noteq> 0 then [VmapRange (vaddr s) (blen s)] else []) @ sync_attachments (attachments s))"

definition qcom_sg_dma_buf_end_cpu_access :: "sg_st \<Rightarrow> int \<times> sync list" where
  "qcom_sg_dma_buf_end_cpu_access s =
     (0, (if vmap_cnt s \<noteq> 0 then [VmapRange (vaddr s) (blen s)] else []) @ sync_attachments (attachments s))"

section \<open>Mapping into a process\<close>

text \<open>
  The result is the value returned and the calls of \<open>remap_pfn_range\<close> (address, frame, length),
  each with its answer. The answers are \<open>remap\<close>: the value a call returns, which the code reads
  and forgets, and how many pages of its range a call that fails has mapped before it did.
\<close>

type_synonym remap_call = "u64 \<times> u64 \<times> u64"
type_synonym remap_answer = "int \<times> nat"

record vm_area =
  vm_start :: u64
  vm_end :: u64
  vm_pgoff :: u64

fun mmap_loop ::
  "(remap_call \<Rightarrow> remap_answer) \<Rightarrow> u64 \<Rightarrow> scatterlist list \<Rightarrow> u64 \<Rightarrow> u64 \<Rightarrow>
    int \<times> (remap_call \<times> remap_answer) list" where
  "mmap_loop remap vend [] addr offset = (0, [])"
| "mmap_loop remap vend (sg # sgs) addr offset =
     (let page = sg_page sg; remainder = vend - addr; len = ucast (sg_length sg) in
      if offset \<ge> len then mmap_loop remap vend sgs addr (offset - len)
      else
        let (page, len, offset) =
              (if offset \<noteq> 0 then (page + offset div PAGE_SIZE, len - offset, 0) else (page, len, offset));
            len = min len remainder;
            ret = remap (addr, page, len);
            next = addr + len in
        if next \<ge> vend then (0, [((addr, page, len), ret)])
        else (case mmap_loop remap vend sgs next offset of (r, cs) \<Rightarrow> (r, ((addr, page, len), ret) # cs)))"

definition qcom_sg_mmap ::
  "(remap_call \<Rightarrow> remap_answer) \<Rightarrow> vm_area \<Rightarrow> sg_st \<Rightarrow> int \<times> (remap_call \<times> remap_answer) list" where
  "qcom_sg_mmap remap vma s =
     mmap_loop remap (vm_end vma) (take (nents (btable s)) (sgl (btable s))) (vm_start vma)
       (vm_pgoff vma * PAGE_SIZE)"

section \<open>Kernel mapping\<close>

definition PAGE_ALIGN :: "u64 \<Rightarrow> u64" where
  "PAGE_ALIGN x = (x + 4095) AND NOT 4095"

text \<open>The pages that the kernel's page iterator visits in one entry, and in a table.\<close>

definition sg_pages :: "scatterlist \<Rightarrow> u64 list" where
  "sg_pages sg =
     map (\<lambda>i. sg_page sg + of_nat i) [0..<(unat (sg_offset sg) + unat (sg_length sg) + 4095) div 4096]"

definition table_pages :: "sg_table \<Rightarrow> u64 list" where
  "table_pages t = concat (map sg_pages (take (orig_nents t) (sgl t)))"

text \<open>
  \<open>vmalloc_pages\<close> is the fresh array with whatever it holds; the code fills it and only warns
  before it writes past its end.
\<close>

definition qcom_sg_do_vmap :: "sg_env \<Rightarrow> sg_st \<Rightarrow> (int + ptr) option" where
  "qcom_sg_do_vmap e s =
     (let npages = wrap32 (uint (PAGE_ALIGN (blen s) div PAGE_SIZE)) in
      case vmalloc_pages e of
        None \<Rightarrow> Some (Inl (- ENOMEM))
      | Some garbage \<Rightarrow>
          let ps = table_pages (btable s) in
          if npages < int (length ps) then None
          else let va = vmap_addr e (ps @ take (nat npages - length ps) (drop (length ps) garbage)) in
          if va = 0 then Some (Inl (- ENOMEM)) else Some (Inr va))"

definition qcom_sg_vmap :: "sg_env \<Rightarrow> sg_st \<Rightarrow> (int \<times> ptr option \<times> sg_st) option" where
  "qcom_sg_vmap e s =
     (if vmap_cnt s \<noteq> 0
      then Some (0, Some (vaddr s), s\<lparr>vmap_cnt := wrap32 (vmap_cnt s + 1)\<rparr>)
      else do {
        r \<leftarrow> qcom_sg_do_vmap e s;
        (case r of
           Inl err \<Rightarrow> Some (err, None, s)
         | Inr va \<Rightarrow>
             if IS_ERR va then Some (PTR_ERR va, None, s)
             else Some (0, Some va,
               s\<lparr>vaddr := va, vmap_cnt := wrap32 (vmap_cnt s + 1), vmaps := va # vmaps s\<rparr>))
      })"

definition qcom_sg_vunmap :: "sg_st \<Rightarrow> sg_st" where
  "qcom_sg_vunmap s =
     (let cnt = wrap32 (vmap_cnt s - 1); s = s\<lparr>vmap_cnt := cnt\<rparr> in
      if cnt = 0 then s\<lparr>vmaps := remove1 (vaddr s) (vmaps s), vaddr := 0\<rparr> else s)"

text \<open>The release calls the heap's own function.\<close>

definition qcom_sg_release :: "(sg_st \<Rightarrow> sg_st) \<Rightarrow> sg_st \<Rightarrow> sg_st" where
  "qcom_sg_release free s = free s"

section \<open>The process mapping equals the reference\<close>

text \<open>The pages of the buffer in order, and what a list of remap calls maps, page by page.\<close>

definition entry_pages :: "scatterlist \<Rightarrow> u64 list" where
  "entry_pages sg = map (\<lambda>i. sg_page sg + of_nat i) [0..<unat (sg_length sg) div 4096]"

definition buffer_pages :: "scatterlist list \<Rightarrow> u64 list" where
  "buffer_pages sgs = concat (map entry_pages sgs)"

definition call_pages :: "remap_call \<Rightarrow> (nat \<times> u64) list" where
  "call_pages c = (case c of (addr, pfn, len) \<Rightarrow>
     map (\<lambda>i. (unat addr + 4096 * i, pfn + of_nat i)) [0..<unat len div 4096])"

text \<open>What the calls ask for, and what they map: a call that is refused maps at most the first pages.\<close>

definition requested_pages :: "(remap_call \<times> remap_answer) list \<Rightarrow> (nat \<times> u64) list" where
  "requested_pages cs = concat (map (\<lambda>(c, answer). call_pages c) cs)"

definition mapped_pages :: "(remap_call \<times> remap_answer) list \<Rightarrow> (nat \<times> u64) list" where
  "mapped_pages cs =
     concat (map (\<lambda>(c, ret, done). if ret = 0 then call_pages c else take done (call_pages c)) cs)"

text \<open>The reference: the pages from the offset on, laid out from \<open>start\<close>, as far as the area reaches.\<close>

definition mmap_reference :: "u64 list \<Rightarrow> nat \<Rightarrow> nat \<Rightarrow> nat \<Rightarrow> (nat \<times> u64) list" where
  "mmap_reference pages start npages pgoff =
     (let ps = take npages (drop pgoff pages) in zip (map (\<lambda>i. start + 4096 * i) [0..<length ps]) ps)"

definition sg_aligned :: "scatterlist list \<Rightarrow> bool" where
  "sg_aligned sgs \<longleftrightarrow> (\<forall>sg \<in> set sgs. 0 < unat (sg_length sg) \<and> 4096 dvd unat (sg_length sg))"

lemma length_entry_pages [simp]: "length (entry_pages sg) = unat (sg_length sg) div 4096"
  by (simp add: entry_pages_def)

lemma buffer_pages_simps [simp]:
  "buffer_pages [] = []" "buffer_pages (sg # sgs) = entry_pages sg @ buffer_pages sgs"
  by (simp_all add: buffer_pages_def)

lemma requested_pages_simps [simp]:
  "requested_pages [] = []" "requested_pages ((c, answer) # cs) = call_pages c @ requested_pages cs"
  by (simp_all add: requested_pages_def)

lemma mapped_pages_sub: "set (mapped_pages cs) \<subseteq> set (requested_pages cs)"
  by (fastforce simp: mapped_pages_def requested_pages_def dest: in_set_takeD split: if_splits)

lemma mapped_pages_all:
  "\<forall>(c, ret, done) \<in> set cs. ret = 0 \<Longrightarrow> mapped_pages cs = requested_pages cs"
  unfolding mapped_pages_def requested_pages_def by (rule arg_cong [of _ _ concat]) auto

lemma unmapped_refused:
  "p \<in> set (requested_pages cs) \<Longrightarrow> p \<notin> set (mapped_pages cs) \<Longrightarrow>
   \<exists>(c, ret, done) \<in> set cs. ret \<noteq> 0 \<and> p \<in> set (call_pages c)"
  unfolding mapped_pages_def requested_pages_def by (fastforce split: if_splits)

lemma mmap_reference_Nil [simp]: "mmap_reference [] start n k = []" "mmap_reference ps start 0 k = []"
  by (simp_all add: mmap_reference_def)

lemma mmap_reference_skip:
  "length ps \<le> k \<Longrightarrow> mmap_reference (ps @ qs) start n k = mmap_reference qs start n (k - length ps)"
  by (simp add: mmap_reference_def)

lemma map_offset_upt: "map f [k..<k + n] = map (\<lambda>i. f (k + i)) [0..<n]"
  by (rule nth_equalityI) auto

lemma mmap_reference_here:
  assumes "k \<le> length ps"
  shows "mmap_reference (ps @ qs) start n k =
    mmap_reference (drop k ps) start n 0 @
    mmap_reference qs (start + 4096 * (length ps - k)) (n - (length ps - k)) 0"
proof (cases "n \<le> length ps - k")
  case True
  then show ?thesis using assms by (simp add: mmap_reference_def)
next
  case False
  let ?a = "drop k ps" let ?b = "take (n - length ?a) qs"
  have t: "take n (drop k (ps @ qs)) = ?a @ ?b" "take n ?a = ?a"
    using False assms by simp_all
  have u: "[0..<length (?a @ ?b)] = [0..<length ?a] @ [length ?a..<length ?a + length ?b]"
    unfolding length_append by (rule upt_add_eq_append) simp
  have "map (\<lambda>i. start + 4096 * i) [0..<length (?a @ ?b)] =
      map (\<lambda>i. start + 4096 * i) [0..<length ?a] @
      map (\<lambda>i. start + 4096 * (length ps - k) + 4096 * i) [0..<length ?b]"
    unfolding u map_append map_offset_upt by (simp add: distrib_left add.assoc)
  then show ?thesis
    unfolding mmap_reference_def t Let_def drop_0 by simp
qed


text \<open>The chunk of one entry that one remap call covers.\<close>

lemma call_pages_entry:
  assumes "unat len = 4096 * min (length (entry_pages sg) - k) n" and "k \<le> length (entry_pages sg)"
  shows "call_pages (addr, sg_page sg + of_nat k, len) =
    mmap_reference (drop k (entry_pages sg)) (unat addr) n 0"
proof (rule nth_equalityI)
  show "length (call_pages (addr, sg_page sg + of_nat k, len)) =
      length (mmap_reference (drop k (entry_pages sg)) (unat addr) n 0)"
    using assms(1) by (simp add: call_pages_def mmap_reference_def)
next
  fix i assume "i < length (call_pages (addr, sg_page sg + of_nat k, len))"
  then have i: "i < length (entry_pages sg) - k" "i < n"
    using assms(1) by (simp_all add: call_pages_def)
  then show "call_pages (addr, sg_page sg + of_nat k, len) ! i =
      mmap_reference (drop k (entry_pages sg)) (unat addr) n 0 ! i"
    using assms by (simp add: call_pages_def mmap_reference_def entry_pages_def)
qed

lemma unat_len: "unat (ucast (sg_length sg) :: u64) = unat (sg_length sg)"
  unfolding unsigned_ucast_eq
  by (rule take_bit_nat_eq_self, rule less_trans [OF unat_u32_bound]) simp

text \<open>One iteration, in page numbers.\<close>

lemma mmap_iteration:
  fixes page addr vend offset len :: u64
  assumes len: "unat len = 4096 * L" and off: "unat offset = 4096 * k" and k: "k < L"
    and n: "unat vend = unat addr + 4096 * n"
  defines "page' \<equiv> (if offset \<noteq> 0 then page + offset div PAGE_SIZE else page)"
  defines "len' \<equiv> min (if offset \<noteq> 0 then len - offset else len) (vend - addr)"
  shows "page' = page + of_nat k" and "unat len' = 4096 * min (L - k) n"
    and "unat (addr + len') = unat addr + 4096 * min (L - k) n"
proof -
  have "offset div PAGE_SIZE = of_nat k"
    using off unat_u64_bound [of offset]
    by (simp add: word_unat_eq_iff unat_div unat_of_nat take_bit_nat_eq_self_iff)
  moreover have "offset = 0 \<Longrightarrow> k = 0" using off by simp
  ultimately show "page' = page + of_nat k" by (auto simp: page'_def)
  have "unat (if offset \<noteq> 0 then len - offset else len) = 4096 * (L - k)"
    using len off k by (auto simp: unat_sub_u64 diff_mult_distrib2)
  moreover have "unat (vend - addr) = 4096 * n" using n by (simp add: unat_sub_u64)
  ultimately show l: "unat len' = 4096 * min (L - k) n"
    by (auto simp: len'_def min_def word_le_nat_alt)
  have "unat addr + unat len' < 18446744073709551616"
    using n l unat_u64_bound [of vend] by simp
  then show "unat (addr + len') = unat addr + 4096 * min (L - k) n"
    using l by (simp add: unat_add_u64)
qed


lemma mmap_loop_reference:
  assumes "sg_aligned sgs" and "unat vend = unat addr + 4096 * n" and "0 < n"
    and "unat offset = 4096 * k"
  shows "fst (mmap_loop remap vend sgs addr offset) = 0 \<and>
    requested_pages (snd (mmap_loop remap vend sgs addr offset)) =
      mmap_reference (buffer_pages sgs) (unat addr) n k"
  using assms
proof (induction sgs arbitrary: addr offset n k)
  case Nil
  then show ?case by simp
next
  case (Cons sg sgs)
  let ?len = "ucast (sg_length sg) :: u64" and ?ps = "entry_pages sg"
  let ?L = "length ?ps"
  have al: "sg_aligned sgs" and dv: "4096 dvd unat (sg_length sg)"
    using Cons.prems(1) by (auto simp: sg_aligned_def)
  have len: "unat ?len = 4096 * ?L" using dv by (simp add: unat_len)
  show ?case
  proof (cases "?len \<le> offset")
    case True
    then have k: "?L \<le> k" using len Cons.prems(4) by (simp add: word_le_nat_alt)
    have "unat (offset - ?len) = 4096 * (k - ?L)"
      using True len Cons.prems(4) by (simp add: word_le_nat_alt unat_sub_u64 diff_mult_distrib2)
    from Cons.IH [OF al Cons.prems(2,3) this] show ?thesis
      using True by (simp add: mmap_reference_skip [OF k] del: length_entry_pages)
  next
    case False
    then have k: "k < ?L" using len Cons.prems(4) by (simp add: word_le_nat_alt not_le)
    define page' where "page' = (if offset \<noteq> 0 then sg_page sg + offset div PAGE_SIZE else sg_page sg)"
    define len' where "len' = min (if offset \<noteq> 0 then ?len - offset else ?len) (vend - addr)"
    note iter = mmap_iteration [OF len Cons.prems(4) k Cons.prems(2)]
    note it = iter(1) [of "sg_page sg", folded page'_def] iter(2,3) [folded len'_def]
    have loop: "mmap_loop remap vend (sg # sgs) addr offset =
        (if addr + len' \<ge> vend then (0, [((addr, page', len'), remap (addr, page', len'))])
         else (case mmap_loop remap vend sgs (addr + len') 0 of (r, cs) \<Rightarrow> (r, ((addr, page', len'), remap (addr, page', len')) # cs)))"
      using False by (simp add: Let_def page'_def len'_def split: prod.splits)
    have here: "call_pages (addr, page', len') = mmap_reference (drop k ?ps) (unat addr) n 0"
      unfolding it(1) by (rule call_pages_entry) (use it(2) k in auto)
    note parts = mmap_reference_here [OF less_imp_le [OF k], of "buffer_pages sgs" "unat addr" n]
    show ?thesis
    proof (cases "n \<le> ?L - k")
      case True
      then have "vend \<le> addr + len'" using it(3) Cons.prems(2) by (simp add: word_le_nat_alt)
      then show ?thesis using True here by (simp add: loop parts del: length_entry_pages mmap_loop.simps(2))
    next
      case False
      then have nx: "unat (addr + len') = unat addr + 4096 * (?L - k)" using it(3) by simp
      have "\<not> vend \<le> addr + len'" using nx Cons.prems(2) False by (simp add: word_le_nat_alt)
      moreover have "unat vend = unat (addr + len') + 4096 * (n - (?L - k))"
        using nx Cons.prems(2) False by (simp add: diff_mult_distrib2)
      from Cons.IH [OF al this, of "0" 0] False
      have "fst (mmap_loop remap vend sgs (addr + len') 0) = 0 \<and>
          requested_pages (snd (mmap_loop remap vend sgs (addr + len') 0)) =
            mmap_reference (buffer_pages sgs) (unat addr + 4096 * (?L - k)) (n - (?L - k)) 0"
        by (simp add: nx del: length_entry_pages)
      ultimately show ?thesis
        using here
        by (cases "mmap_loop remap vend sgs (addr + len') 0")
          (simp add: loop parts del: length_entry_pages mmap_loop.simps(2))
    qed
  qed
qed

lemma mmap_requests_reference:
  assumes "sg_aligned (take (nents (btable s)) (sgl (btable s)))"
    and "unat (vm_end vma) = unat (vm_start vma) + 4096 * n" and "0 < n"
    and "unat (vm_pgoff vma) < 2 ^ 52"
  shows "fst (qcom_sg_mmap remap vma s) = 0 \<and>
    requested_pages (snd (qcom_sg_mmap remap vma s)) =
      mmap_reference (buffer_pages (take (nents (btable s)) (sgl (btable s))))
        (unat (vm_start vma)) n (unat (vm_pgoff vma))"
proof -
  have "unat (vm_pgoff vma * PAGE_SIZE) = 4096 * unat (vm_pgoff vma)"
    using assms(4) by (simp add: unat_word_ariths)
  from mmap_loop_reference [OF assms(1-3) this] show ?thesis by (simp add: qcom_sg_mmap_def)
qed

text \<open>When no call is refused, this is what is mapped.\<close>

lemma mmap_loop_answers:
  "(c, a) \<in> set (snd (mmap_loop remap vend sgs addr offset)) \<Longrightarrow> a = remap c"
  by (induction sgs arbitrary: addr offset) (auto simp: Let_def case_prod_beta split: if_splits)

lemma mmap_loop_returns: "fst (mmap_loop remap vend sgs addr offset) = 0"
  by (induction sgs arbitrary: addr offset) (auto simp: Let_def case_prod_beta)

lemma mmap_pages_reference:
  assumes "sg_aligned (take (nents (btable s)) (sgl (btable s)))"
    and "unat (vm_end vma) = unat (vm_start vma) + 4096 * n" and "0 < n"
    and "unat (vm_pgoff vma) < 2 ^ 52" and "\<And>c. fst (remap c) = 0"
  shows "fst (qcom_sg_mmap remap vma s) = 0 \<and>
    mapped_pages (snd (qcom_sg_mmap remap vma s)) =
      mmap_reference (buffer_pages (take (nents (btable s)) (sgl (btable s))))
        (unat (vm_start vma)) n (unat (vm_pgoff vma))"
proof -
  have "\<forall>(c, ret, done) \<in> set (snd (qcom_sg_mmap remap vma s)). ret = 0"
    using assms(5) by (auto simp: qcom_sg_mmap_def dest!: mmap_loop_answers) (metis fst_conv)
  from mapped_pages_all [OF this] mmap_requests_reference [OF assms(1-4), of remap] show ?thesis by simp
qed

text \<open>C11: Mapping a buffer into a process asks the kernel for exactly the pages of the reference, each
  once: page \<open>i\<close> of the area is page \<open>pgoff + i\<close> of the buffer, whatever way the buffer is
  scattered, as far as both reach. When the kernel refuses none of the calls, exactly these pages are
  mapped. When it refuses some, the function still returns 0: what is mapped is right, and every
  page that is missing is one of a refused call.\<close>

theorem mmap_pages_exact:
  fixes remap :: "remap_call \<Rightarrow> remap_answer"
  assumes "sg_aligned (take (nents (btable s)) (sgl (btable s)))"
    and "unat (vm_end vma) = unat (vm_start vma) + 4096 * n" and "0 < n"
    and "unat (vm_pgoff vma) < 2 ^ 52"
  defines "wanted \<equiv> mmap_reference (buffer_pages (take (nents (btable s)) (sgl (btable s))))
        (unat (vm_start vma)) n (unat (vm_pgoff vma))"
    and "calls \<equiv> snd (qcom_sg_mmap remap vma s)"
  shows "fst (qcom_sg_mmap remap vma s) = 0 \<and> requested_pages calls = wanted \<and>
    ((\<forall>(c, ret, done) \<in> set calls. ret = 0) \<longrightarrow> mapped_pages calls = wanted) \<and>
    set (mapped_pages calls) \<subseteq> set wanted \<and>
    (\<forall>p \<in> set wanted - set (mapped_pages calls).
       \<exists>(c, ret, done) \<in> set calls. ret \<noteq> 0 \<and> p \<in> set (call_pages c))"
proof -
  have r: "fst (qcom_sg_mmap remap vma s) = 0" "requested_pages calls = wanted"
    using mmap_requests_reference [OF assms(1-4), of remap] by (simp_all add: calls_def wanted_def)
  show ?thesis
    using r(1) mapped_pages_all [of calls] mapped_pages_sub [of calls] unmapped_refused [of _ calls]
    unfolding r(2) by blast
qed

definition example_buffer :: sg_st where
  "example_buffer = \<lparr>attachments = [], blen = 12288, btable = \<lparr>sgl =
       [\<lparr>sg_page = 100, sg_length = 8192, sg_offset = 0\<rparr>, \<lparr>sg_page = 200, sg_length = 4096, sg_offset = 0\<rparr>],
       nents = 2, orig_nents = 2\<rparr>, vmap_cnt = 0, vaddr = 0, objs = 0, dma_maps = (\<lambda>_. 0), vmaps = []\<rparr>"

definition refuse_second :: "remap_call \<Rightarrow> remap_answer" where
  "refuse_second c = (if fst c = 0x11000 then (- ENOMEM, 0) else (0, 0))"

theorem mmap_pages_exact_witness:
  "let vma = \<lparr>vm_start = 0x10000, vm_end = 0x12000, vm_pgoff = 1\<rparr>;
       good = snd (qcom_sg_mmap (\<lambda>_. (0, 0)) vma example_buffer);
       bad = qcom_sg_mmap refuse_second vma example_buffer in
     mapped_pages good = [(0x10000, 101), (0x11000, 200)] \<and>
     fst bad = 0 \<and> requested_pages (snd bad) = [(0x10000, 101), (0x11000, 200)] \<and>
     set (mapped_pages (snd bad)) \<subseteq> {(0x10000, 101), (0x11000, 200)}"
proof -
  let ?vma = "\<lparr>vm_start = 0x10000, vm_end = 0x12000, vm_pgoff = 1\<rparr> :: vm_area"
  have u: "[0..<2] = [0, 1 :: nat]" "[0..<Suc 0] = [0]" by (simp_all add: upt_rec)
  have al: "sg_aligned (take (nents (btable example_buffer)) (sgl (btable example_buffer)))"
    and e: "unat (vm_end ?vma) = unat (vm_start ?vma) + 4096 * 2" "unat (vm_pgoff ?vma) < 2 ^ 52"
    by (simp_all add: example_buffer_def sg_aligned_def)
  have w: "mmap_reference (buffer_pages (take (nents (btable example_buffer)) (sgl (btable example_buffer))))
      (unat (vm_start ?vma)) 2 (unat (vm_pgoff ?vma)) = [(0x10000, 101), (0x11000, 200)]"
    by (simp add: example_buffer_def entry_pages_def mmap_reference_def u)
  have ok: "\<forall>(c, ret, done) \<in> set (snd (qcom_sg_mmap (\<lambda>_. (0, 0)) ?vma example_buffer)). ret = 0"
    by (auto simp: qcom_sg_mmap_def dest!: mmap_loop_answers)
  note ex = mmap_pages_exact [OF al e(1) _ e(2), unfolded w]
  show ?thesis
    using ex [of "\<lambda>_. (0, 0)"] ex [of refuse_second] ok unfolding Let_def by simp
qed

text \<open>The answers of \<open>remap_pfn_range\<close> never reach the caller, who is told that a mapping without a
  page of the buffer is complete.\<close>

lemma mmap_ignores_errors:
  "fst (qcom_sg_mmap (\<lambda>_. (- ENOMEM, 0)) vma s) = 0 \<and>
   mapped_pages (snd (qcom_sg_mmap (\<lambda>_. (- ENOMEM, 0)) vma s)) = []"
  by (auto simp: qcom_sg_mmap_def mmap_loop_returns mapped_pages_def dest!: mmap_loop_answers)

section \<open>The counted kernel mapping\<close>

text \<open>A history of users of a shared mapping in which at least one user stays.\<close>

datatype 'e map_op = Get 'e | Put

fun shared_run ::
  "('s \<Rightarrow> nat) \<Rightarrow> ('s \<Rightarrow> bool) \<Rightarrow> ('e \<Rightarrow> 's \<Rightarrow> (int \<times> ptr option \<times> 's) option) \<Rightarrow> ('s \<Rightarrow> 's) \<Rightarrow>
    'e map_op list \<Rightarrow> 's \<Rightarrow> (ptr option list \<times> 's) option" where
  "shared_run users room get put [] s = Some ([], s)"
| "shared_run users room get put (Get e # ops) s =
     (if \<not> room s then None
      else do {
        (r, m, s) \<leftarrow> get e s;
        (ms, s) \<leftarrow> shared_run users room get put ops s;
        Some (m # ms, s)
      })"
| "shared_run users room get put (Put # ops) s =
     (if users s \<le> 1 then None else shared_run users room get put ops (put s))"

text \<open>
  The contract of the mapping towards the users of the dma-buf: a user gets the address of the
  others, and leaving does not move the mapping of those who stay.
\<close>

locale shared_mapping =
  fixes ok :: "'s \<Rightarrow> bool" and users :: "'s \<Rightarrow> nat" and addr :: "'s \<Rightarrow> ptr" and room :: "'s \<Rightarrow> bool"
    and get :: "'e \<Rightarrow> 's \<Rightarrow> (int \<times> ptr option \<times> 's) option" and put :: "'s \<Rightarrow> 's"
  assumes get_used: "ok s \<Longrightarrow> room s \<Longrightarrow> 0 < users s \<Longrightarrow>
      \<exists>s'. get e s = Some (0, Some (addr s), s') \<and> ok s' \<and> users s' = Suc (users s) \<and> addr s' = addr s"
    and put_used: "ok s \<Longrightarrow> 1 < users s \<Longrightarrow>
      ok (put s) \<and> users (put s) = users s - 1 \<and> addr (put s) = addr s"
begin

lemma stays_mapped:
  assumes "ok s" and "0 < users s" and "shared_run users room get put ops s = Some (ms, s')"
  shows "ok s' \<and> 0 < users s' \<and> addr s' = addr s \<and> set ms \<subseteq> {Some (addr s)}"
  using assms
proof (induction ops arbitrary: s ms)
  case Nil
  then show ?case by simp
next
  case (Cons op ops)
  show ?case
  proof (cases op)
    case (Get e)
    then have room: "room s" using Cons.prems(3) by (auto split: if_splits)
    from get_used [OF Cons.prems(1) room Cons.prems(2)] obtain s1 where
      s1: "get e s = Some (0, Some (addr s), s1)" "ok s1" "users s1 = Suc (users s)" "addr s1 = addr s"
      by blast
    then obtain ms1 where "ms = Some (addr s) # ms1" "shared_run users room get put ops s1 = Some (ms1, s')"
      using Cons.prems(3) Get room
      by (cases "shared_run users room get put ops s1") (auto split: prod.splits)
    with Cons.IH [OF s1(2)] s1(3,4) show ?thesis by auto
  next
    case Put
    then have "1 < users s" and run: "shared_run users room get put ops (put s) = Some (ms, s')"
      using Cons.prems(3) by (auto split: if_splits)
    from put_used [OF Cons.prems(1) this(1)] Cons.IH [OF _ _ run] \<open>1 < users s\<close> show ?thesis
      by auto
  qed
qed

end

section \<open>The buffer as a state machine\<close>

text \<open>What every reachable buffer satisfies.\<close>

definition map_state_ok :: "sg_st \<Rightarrow> bool" where
  "map_state_ok s \<longleftrightarrow> 0 \<le> vmap_cnt s \<and> vmap_cnt s < 2147483648 \<and>
     (if vmap_cnt s = 0 then vaddr s = 0 \<and> vmaps s = [] else vaddr s \<noteq> 0 \<and> vmaps s = [vaddr s])"

text \<open>A copy has the pages of the original. Mapping changes \<open>nents\<close>, to at most the number of
  entries; unmapping leaves it.\<close>

definition table_copy :: "sg_table \<Rightarrow> sg_table \<Rightarrow> bool" where
  "table_copy t u \<longleftrightarrow> sgl t = sgl u \<and> orig_nents t = orig_nents u \<and> nents t \<le> orig_nents u"

definition attach_ok :: "sg_st \<Rightarrow> bool" where
  "attach_ok s \<longleftrightarrow> distinct (map a_id (attachments s)) \<and>
     objs s = 3 * int (length (attachments s)) \<and>
     (\<forall>a \<in> set (attachments s). table_copy (a_table a) (btable s)) \<and>
     (\<forall>att. dma_maps s att = (if \<exists>a \<in> set (attachments s). a_id a = att \<and> a_mapped a then 1 else 0)) \<and>
     length (sgl (btable s)) = orig_nents (btable s)"

text \<open>
  One operation, under the protocol of the dma-buf core: an attachment is attached once, mapped
  before it is unmapped, unmapped before it is detached; a kernel mapping is dropped by a user.
  The DMA layer makes at most as many device ranges as a table has entries.
\<close>

inductive sg_step :: "sg_st \<Rightarrow> sg_st \<Rightarrow> bool" where
  attach: "att \<notin> a_id ` set (attachments s) \<Longrightarrow> qcom_sg_attach e att dev s = Some (r, s') \<Longrightarrow> sg_step s s'"
| detach: "find_attachment att s = Some a \<Longrightarrow> \<not> a_mapped a \<Longrightarrow> qcom_sg_detach att s = Some s' \<Longrightarrow>
    sg_step s s'"
| map_dma: "map_nents e \<le> orig_nents (btable s) \<Longrightarrow> qcom_sg_map_dma_buf e att s = Some (x, s') \<Longrightarrow>
    sg_step s s'"
| unmap_dma: "find_attachment att s = Some a \<Longrightarrow> a_mapped a \<Longrightarrow> qcom_sg_unmap_dma_buf att s = Some s' \<Longrightarrow>
    sg_step s s'"
| vmap: "vmap_cnt s < 2147483647 \<Longrightarrow> qcom_sg_vmap e s = Some (r, m, s') \<Longrightarrow> sg_step s s'"
| vunmap: "0 < vmap_cnt s \<Longrightarrow> sg_step s (qcom_sg_vunmap s)"

inductive_cases sg_step_cases: "sg_step s s'"

lemma bind_Some_iff: "Option.bind x f = Some y \<longleftrightarrow> (\<exists>a. x = Some a \<and> f a = Some y)"
  by (cases x) auto

lemma vmap_result:
  assumes "map_state_ok s" and "vmap_cnt s < 2147483647" and "qcom_sg_vmap e s = Some (r, m, s')"
  shows "map_state_ok s' \<and> attachments s' = attachments s \<and> objs s' = objs s \<and>
    dma_maps s' = dma_maps s \<and> btable s' = btable s \<and>
    (s' = s \<and> r < 0 \<and> m = None \<and> vmap_cnt s = 0 \<or>
     r = 0 \<and> m = Some (vaddr s') \<and> vmap_cnt s' = vmap_cnt s + 1 \<and> (0 < vmap_cnt s \<longrightarrow> vaddr s' = vaddr s))"
  using assms
  by (auto simp: map_state_ok_def qcom_sg_vmap_def qcom_sg_do_vmap_def bind_Some_iff Let_def PTR_ERR_neg
      split: if_splits option.splits)

lemma vunmap_result:
  assumes "map_state_ok s" and "0 < vmap_cnt s"
  shows "map_state_ok (qcom_sg_vunmap s) \<and> attachments (qcom_sg_vunmap s) = attachments s \<and>
    objs (qcom_sg_vunmap s) = objs s \<and> dma_maps (qcom_sg_vunmap s) = dma_maps s \<and>
    btable (qcom_sg_vunmap s) = btable s \<and> vmap_cnt (qcom_sg_vunmap s) = vmap_cnt s - 1 \<and>
    (1 < vmap_cnt s \<longrightarrow> vaddr (qcom_sg_vunmap s) = vaddr s)"
  using assms by (auto simp: map_state_ok_def qcom_sg_vunmap_def Let_def split: if_splits)

interpretation vmapping: shared_mapping map_state_ok "\<lambda>s. nat (vmap_cnt s)" vaddr
  "\<lambda>s. vmap_cnt s < 2147483647" qcom_sg_vmap qcom_sg_vunmap
proof unfold_locales
  fix s e assume s: "map_state_ok s" "vmap_cnt s < 2147483647" "0 < nat (vmap_cnt s)"
  then show "\<exists>s'. qcom_sg_vmap e s = Some (0, Some (vaddr s), s') \<and> map_state_ok s' \<and>
      nat (vmap_cnt s') = Suc (nat (vmap_cnt s)) \<and> vaddr s' = vaddr s"
    by (auto simp: qcom_sg_vmap_def map_state_ok_def nat_add_distrib)
next
  fix s assume "map_state_ok s" "1 < nat (vmap_cnt s)"
  then show "map_state_ok (qcom_sg_vunmap s) \<and> nat (vmap_cnt (qcom_sg_vunmap s)) = nat (vmap_cnt s) - 1 \<and>
      vaddr (qcom_sg_vunmap s) = vaddr s"
    using vunmap_result [of s] by auto
qed


lemma dup_loop_copies:
  "dup_loop src (replicate (length src) \<lparr>sg_page = 0, sg_length = 0, sg_offset = 0\<rparr>) = Some src"
  by (induction src) auto

lemma dup_sg_table_result:
  assumes "length (sgl t) = orig_nents t" and "dup_sg_table e t s = Some (r, x, s')"
  shows "x = None \<and> r = - ENOMEM \<and> s' = s \<or>
    (\<exists>u. x = Some u \<and> table_copy u t \<and> r = 0 \<and> s' = s\<lparr>objs := objs s + 2\<rparr>)"
  using assms dup_loop_copies [of "sgl t"]
  by (auto simp: dup_sg_table_def table_copy_def split: if_splits)

lemma attach_result:
  assumes "length (sgl (btable s)) = orig_nents (btable s)" and "qcom_sg_attach e att dev s = Some (r, s')"
  shows "r = - ENOMEM \<and> s' = s \<or>
    (\<exists>u. r = 0 \<and> table_copy u (btable s) \<and> s' = s\<lparr>objs := objs s + 3,
       attachments := \<lparr>a_id = att, a_dev = dev, a_table = u, a_mapped = False\<rparr> # attachments s\<rparr>)"
proof (cases "kzalloc_ok e")
  case False
  then show ?thesis using assms(2) by (simp add: qcom_sg_attach_def)
next
  case True
  then obtain r1 x s1 where d: "dup_sg_table e (btable s) (s\<lparr>objs := objs s + 1\<rparr>) = Some (r1, x, s1)"
    and f: "(case x of None \<Rightarrow> Some (- ENOMEM, s1\<lparr>objs := objs s1 - 1\<rparr>)
         | Some t \<Rightarrow> Some (0, s1\<lparr>attachments :=
             \<lparr>a_id = att, a_dev = dev, a_table = t, a_mapped = False\<rparr> # attachments s1\<rparr>)) = Some (r, s')"
    using assms(2) by (auto simp: qcom_sg_attach_def Let_def bind_Some_iff)
  have "length (sgl (btable s)) = orig_nents (btable s)" by (rule assms(1))
  from dup_sg_table_result [OF this d] f show ?thesis by (auto simp: add.commute)
qed

lemma find_attachment_Some:
  assumes "find_attachment att s = Some a"
  shows "a \<in> set (attachments s)" and "a_id a = att"
  using assms by (auto simp: find_attachment_def find_Some_iff)

lemma attachment_unique:
  assumes "distinct (map a_id as)" and "a \<in> set as" and "b \<in> set as" and "a_id a = a_id b"
  shows "a = b"
  using assms by (simp add: distinct_map inj_on_def)

lemma set_remove1_distinct: "distinct (map f as) \<Longrightarrow> set (remove1 a as) = set as - {a}"
  by (rule set_remove1_eq) (simp add: distinct_map)

lemma distinct_remove1_map: "distinct (map f as) \<Longrightarrow> distinct (map f (remove1 a as))"
  by (auto simp: distinct_map intro: inj_on_subset)

lemma attach_ok_attach:
  assumes "attach_ok s" and "att \<notin> a_id ` set (attachments s)" and "qcom_sg_attach e att dev s = Some (r, s')"
  shows "attach_ok s'"
proof -
  have "length (sgl (btable s)) = orig_nents (btable s)" using assms(1) by (simp add: attach_ok_def)
  from attach_result [OF this assms(3)] assms(1,2) show ?thesis
    by (auto simp: attach_ok_def)
qed

lemma attach_ok_detach:
  assumes "attach_ok s" and "find_attachment att s = Some a" and "\<not> a_mapped a"
    and "qcom_sg_detach att s = Some s'"
  shows "attach_ok s'"
proof -
  note a = find_attachment_Some [OF assms(2)]
  have d: "distinct (map a_id (attachments s))" using assms(1) by (simp add: attach_ok_def)
  have s': "s' = s\<lparr>attachments := remove1 a (attachments s), objs := objs s - 3\<rparr>"
    using assms(4) by (simp add: qcom_sg_detach_def assms(2))
  have "0 < length (attachments s)" using a(1) by (cases "attachments s") auto
  then have "int (length (attachments s) - Suc 0) = int (length (attachments s)) - 1" by linarith
  then show ?thesis
    using assms(1,3) a
    by (auto simp: s' attach_ok_def set_remove1_distinct [OF d] distinct_remove1_map length_remove1)
qed

lemma attachments_set_mapped:
  "attachments (set_mapped att b s) =
     map (\<lambda>a. if a_id a = att then a\<lparr>a_mapped := b\<rparr> else a) (attachments s)"
  by (simp add: set_mapped_def)

lemma set_mapped_fields [simp]:
  "map a_id (attachments (set_mapped att b s)) = map a_id (attachments s)"
  "length (attachments (set_mapped att b s)) = length (attachments s)"
  "objs (set_mapped att b s) = objs s" "btable (set_mapped att b s) = btable s"
  "dma_maps (set_mapped att b s) = dma_maps s" "vmap_cnt (set_mapped att b s) = vmap_cnt s"
  "vaddr (set_mapped att b s) = vaddr s" "vmaps (set_mapped att b s) = vmaps s"
  by (simp_all add: set_mapped_def)

lemma set_nents_fields [simp]:
  "map a_id (attachments (set_nents att n s)) = map a_id (attachments s)"
  "length (attachments (set_nents att n s)) = length (attachments s)"
  "objs (set_nents att n s) = objs s" "btable (set_nents att n s) = btable s"
  "dma_maps (set_nents att n s) = dma_maps s" "vmap_cnt (set_nents att n s) = vmap_cnt s"
  "vaddr (set_nents att n s) = vaddr s" "vmaps (set_nents att n s) = vmaps s"
  by (simp_all add: set_nents_def)

lemma attach_ok_set_nents:
  assumes "attach_ok s" and "n \<le> orig_nents (btable s)"
  shows "attach_ok (set_nents att n s)"
proof -
  define g :: "dma_heap_attachment \<Rightarrow> dma_heap_attachment" where "g = (\<lambda>a. if a_id a = att then a\<lparr>a_table := (a_table a)\<lparr>nents := n\<rparr>\<rparr> else a)"
  have "attachments (set_nents att n s) = map g (attachments s)" by (simp add: set_nents_def g_def)
  moreover have "a_id (g a) = a_id a \<and> a_mapped (g a) = a_mapped a" for a by (simp add: g_def)
  ultimately have "(\<exists>x \<in> set (attachments (set_nents att n s)). a_id x = t \<and> a_mapped x) \<longleftrightarrow>
      (\<exists>x \<in> set (attachments s). a_id x = t \<and> a_mapped x)" for t
    by simp
  moreover have "\<forall>x \<in> set (attachments (set_nents att n s)). table_copy (a_table x) (btable s)"
    using assms by (auto simp: attach_ok_def set_nents_def table_copy_def)
  ultimately show ?thesis
    using assms(1) unfolding attach_ok_def by simp
qed

lemma find_set_nents:
  "find_attachment att s = Some a \<Longrightarrow>
   find_attachment att (set_nents att n s) = Some (a\<lparr>a_table := (a_table a)\<lparr>nents := n\<rparr>\<rparr>)"
proof -
  have "find (\<lambda>a. a_id a = att) as = Some a \<Longrightarrow>
    find (\<lambda>a. a_id a = att) (map (\<lambda>a. if a_id a = att then a\<lparr>a_table := (a_table a)\<lparr>nents := n\<rparr>\<rparr> else a) as) =
      Some (a\<lparr>a_table := (a_table a)\<lparr>nents := n\<rparr>\<rparr>)" for as
    by (induction as) (auto split: if_splits)
  then show "find_attachment att s = Some a \<Longrightarrow> ?thesis"
    by (simp add: find_attachment_def set_nents_def)
qed

text \<open>Mapping or unmapping an attachment moves its flag and its device mapping together.\<close>

lemma attach_ok_set_mapped:
  assumes "attach_ok s" and "find_attachment att s = Some a"
  shows "attach_ok ((set_mapped att b s)\<lparr>dma_maps := (dma_maps s)(att := if b then 1 else 0)\<rparr>)"
proof -
  note a = find_attachment_Some [OF assms(2)]
  have ex: "(\<exists>x \<in> set (attachments (set_mapped att b s)). a_id x = t \<and> a_mapped x) \<longleftrightarrow>
      (if t = att then b else \<exists>x \<in> set (attachments s). a_id x = t \<and> a_mapped x)" for t
  proof (cases "t = att")
    case True
    have "a\<lparr>a_mapped := b\<rparr> \<in> set (attachments (set_mapped att b s))"
      using a by (auto simp: set_mapped_def)
    moreover have "a_mapped x = b" if "x \<in> set (attachments (set_mapped att b s))" "a_id x = att" for x
    proof -
      from that(1) obtain y where "x = (if a_id y = att then y\<lparr>a_mapped := b\<rparr> else y)"
        unfolding attachments_set_mapped set_map by blast
      then show ?thesis using that(2) by (cases "a_id y = att") simp_all
    qed
    moreover have "a_id (a\<lparr>a_mapped := b\<rparr>) = att" using a by simp
    ultimately have "(\<exists>x \<in> set (attachments (set_mapped att b s)). a_id x = att \<and> a_mapped x) \<longleftrightarrow> b"
      by metis
    then show ?thesis by (simp only: True if_True refl)
  next
    case False
    then show ?thesis by (auto simp: set_mapped_def)
  qed
  have tab: "\<forall>x \<in> set (attachments (set_mapped att b s)). table_copy (a_table x) (btable s)"
    using assms(1) by (auto simp: attach_ok_def set_mapped_def)
  have base: "distinct (map a_id (attachments s))" "objs s = 3 * int (length (attachments s))"
    "length (sgl (btable s)) = orig_nents (btable s)"
    "\<And>t. dma_maps s t = (if \<exists>x \<in> set (attachments s). a_id x = t \<and> a_mapped x then 1 else 0)"
    using assms(1) unfolding attach_ok_def by auto
  show ?thesis
    unfolding attach_ok_def by (simp add: base tab ex)
qed

lemma dma_maps_attachment:
  assumes "attach_ok s" and "find_attachment att s = Some a"
  shows "dma_maps s att = (if a_mapped a then 1 else 0)"
proof -
  note a = find_attachment_Some [OF assms(2)]
  have d: "distinct (map a_id (attachments s))"
    and m: "dma_maps s att = (if \<exists>x \<in> set (attachments s). a_id x = att \<and> a_mapped x then 1 else 0)"
    using assms(1) unfolding attach_ok_def by auto
  have "(\<exists>x \<in> set (attachments s). a_id x = att \<and> a_mapped x) \<longleftrightarrow> a_mapped a"
    using a attachment_unique [OF d a(1)] by metis
  then show ?thesis unfolding m by simp
qed

lemma attach_ok_map:
  assumes "attach_ok s" and "map_nents e \<le> orig_nents (btable s)"
    and "qcom_sg_map_dma_buf e att s = Some (x, s')"
  shows "attach_ok s'"
proof (cases "find_attachment att s")
  case None
  then show ?thesis using assms(3) by (simp add: qcom_sg_map_dma_buf_def)
next
  case (Some a)
  show ?thesis
  proof (cases "s' = s")
    case False
    define s1 where "s1 = set_nents att (map_nents e) s"
    from False have "\<not> a_mapped a"
      and "s' = set_mapped att True (set_nents att (map_nents e) (s\<lparr>dma_maps := (dma_maps s)(att := dma_maps s att + 1)\<rparr>))"
      using assms(3) by (auto simp: qcom_sg_map_dma_buf_def Some Let_def split: if_splits)
    then have "s' = (set_mapped att True s1)\<lparr>dma_maps := (dma_maps s1)(att := if True then 1 else 0)\<rparr>"
      using dma_maps_attachment [OF assms(1) Some] by (simp add: set_mapped_def set_nents_def s1_def)
    then show ?thesis
      using attach_ok_set_mapped [OF attach_ok_set_nents [OF assms(1,2)] find_set_nents [OF Some], of True]
      by (simp add: s1_def)
  qed (use assms(1) in simp)
qed

lemma attach_ok_unmap:
  assumes "attach_ok s" and "find_attachment att s = Some a" and "a_mapped a"
    and "qcom_sg_unmap_dma_buf att s = Some s'"
  shows "attach_ok s'"
proof -
  have "s' = (set_mapped att False s)\<lparr>dma_maps := (dma_maps s)(att := if False then 1 else 0)\<rparr>"
    using assms(3,4) dma_maps_attachment [OF assms(1,2)]
    by (simp add: qcom_sg_unmap_dma_buf_def assms(2))
  then show ?thesis using attach_ok_set_mapped [OF assms(1,2), of False] by simp
qed

definition sg_inv :: "sg_st \<Rightarrow> bool" where
  "sg_inv s \<longleftrightarrow> attach_ok s \<and> map_state_ok s"

lemma attach_ok_cong:
  "attach_ok s \<Longrightarrow> attachments s' = attachments s \<Longrightarrow> objs s' = objs s \<Longrightarrow> dma_maps s' = dma_maps s \<Longrightarrow>
    btable s' = btable s \<Longrightarrow> attach_ok s'"
  by (simp add: attach_ok_def)

lemma map_state_cong:
  "map_state_ok s \<Longrightarrow> vmap_cnt s' = vmap_cnt s \<Longrightarrow> vaddr s' = vaddr s \<Longrightarrow> vmaps s' = vmaps s \<Longrightarrow>
    map_state_ok s'"
  by (simp add: map_state_ok_def)

lemma attach_ops_map_state:
  "qcom_sg_detach att s = Some s' \<Longrightarrow> vmap_cnt s' = vmap_cnt s \<and> vaddr s' = vaddr s \<and> vmaps s' = vmaps s"
  "qcom_sg_map_dma_buf e att s = Some (x, s') \<Longrightarrow>
    vmap_cnt s' = vmap_cnt s \<and> vaddr s' = vaddr s \<and> vmaps s' = vmaps s"
  "qcom_sg_unmap_dma_buf att s = Some s' \<Longrightarrow>
    vmap_cnt s' = vmap_cnt s \<and> vaddr s' = vaddr s \<and> vmaps s' = vmaps s"
  "qcom_sg_attach e att dev s = Some (r, s') \<Longrightarrow>
    vmap_cnt s' = vmap_cnt s \<and> vaddr s' = vaddr s \<and> vmaps s' = vmaps s"
  by (auto simp: qcom_sg_detach_def qcom_sg_map_dma_buf_def qcom_sg_unmap_dma_buf_def
      qcom_sg_attach_def dup_sg_table_def bind_Some_iff Let_def split: option.splits if_splits)

lemma sg_step_inv:
  assumes "sg_step s s'" and "sg_inv s"
  shows "sg_inv s'"
  using assms unfolding sg_inv_def
  by (cases rule: sg_step.cases)
    (blast intro: attach_ok_attach attach_ok_detach attach_ok_map attach_ok_unmap attach_ok_cong
      map_state_cong dest: attach_ops_map_state vmap_result vunmap_result)+

lemma sg_run_inv: "sg_step\<^sup>*\<^sup>* s s' \<Longrightarrow> sg_inv s \<Longrightarrow> sg_inv s'"
  by (induction rule: rtranclp_induct) (auto intro: sg_step_inv)

text \<open>No operation writes to the buffer's own table.\<close>

lemma sg_step_table:
  assumes "sg_step s s'" and "sg_inv s"
  shows "btable s' = btable s"
  using assms(1)
proof cases
  case (attach att e dev r)
  have "length (sgl (btable s)) = orig_nents (btable s)" using assms(2) by (simp add: sg_inv_def attach_ok_def)
  from attach_result [OF this attach(2)] show ?thesis by auto
next
  case (vmap e r m)
  with vmap_result [of s e r m s'] assms(2) show ?thesis by (simp add: sg_inv_def)
next
  case vunmap
  with vunmap_result [of s] assms(2) show ?thesis by (simp add: sg_inv_def)
next
  case (map_dma e att x)
  then show ?thesis
    by (cases "find_attachment att s") (auto simp: qcom_sg_map_dma_buf_def Let_def split: if_splits)
qed (auto simp: qcom_sg_detach_def qcom_sg_unmap_dma_buf_def)

lemma sg_run_table: "sg_step\<^sup>*\<^sup>* s s' \<Longrightarrow> sg_inv s \<Longrightarrow> btable s' = btable s"
proof (induction rule: rtranclp_induct)
  case (step y z)
  with sg_step_table [OF step.hyps(2) sg_run_inv [OF step.hyps(1)]] show ?case by simp
qed simp


section \<open>Properties of the buffer\<close>

text \<open>C18: Whatever the users of a buffer do in the order the dma-buf core allows, and however the DMA
  layer merges the entries of a table it maps: the buffer's own scatter list stays as it was, the
  heap objects are three for each attachment, an attachment is marked as mapped exactly while the
  device mapping exists, the table of every attachment has the entries of the buffer's list and at
  most as many device ranges, and the kernel mapping exists exactly while it has users.\<close>

theorem sg_run_consistent:
  assumes "sg_inv s" and "sg_step\<^sup>*\<^sup>* s s'"
  shows "btable s' = btable s \<and> objs s' = 3 * int (length (attachments s')) \<and>
    (\<forall>a \<in> set (attachments s').
       sgl (a_table a) = sgl (btable s) \<and> orig_nents (a_table a) = orig_nents (btable s) \<and>
       nents (a_table a) \<le> orig_nents (btable s) \<and>
       dma_maps s' (a_id a) = (if a_mapped a then 1 else 0)) \<and>
    vmaps s' = (if vmap_cnt s' = 0 then [] else [vaddr s'])"
proof -
  have inv: "attach_ok s'" "map_state_ok s'" using sg_run_inv [OF assms(2,1)] by (auto simp: sg_inv_def)
  have "find_attachment (a_id a) s' = Some a" if a: "a \<in> set (attachments s')" for a
  proof -
    have d: "distinct (map a_id (attachments s'))" using inv(1) by (simp add: attach_ok_def)
    obtain b where b: "find_attachment (a_id a) s' = Some b"
      using a by (cases "find_attachment (a_id a) s'") (auto simp: find_attachment_def find_None_iff)
    from attachment_unique [OF d find_attachment_Some(1) [OF b] a find_attachment_Some(2) [OF b]] b
    show ?thesis by simp
  qed
  moreover have "btable s' = btable s" by (rule sg_run_table [OF assms(2,1)])
  ultimately show ?thesis
    using inv dma_maps_attachment [OF inv(1)] by (auto simp: attach_ok_def map_state_ok_def table_copy_def)
qed

definition example_sg_env :: sg_env where
  "example_sg_env = \<lparr>kzalloc_ok = True, table_alloc = (True, 0), map_ret = 0, map_nents = 1,
     vmalloc_pages = Some [0, 0, 0], vmap_addr = (\<lambda>_. 0xffff0000)\<rparr>"

definition attached_buffer :: sg_st where
  "attached_buffer = example_buffer\<lparr>attachments :=
     [\<lparr>a_id = 7, a_dev = 1, a_table = btable example_buffer, a_mapped = False\<rparr>], objs := 3\<rparr>"

lemma example_sg_inv: "sg_inv example_buffer"
  by (simp add: sg_inv_def attach_ok_def map_state_ok_def example_buffer_def)

lemma example_attach:
  "qcom_sg_attach example_sg_env 7 1 example_buffer = Some (0, attached_buffer)"
  by (simp add: qcom_sg_attach_def dup_sg_table_def example_sg_env_def example_buffer_def
      attached_buffer_def numeral_2_eq_2)

lemma example_attached: "sg_step\<^sup>*\<^sup>* example_buffer attached_buffer"
  by (rule r_into_rtranclp, rule sg_step.attach [OF _ example_attach]) (simp add: example_buffer_def)

theorem sg_run_consistent_witness: "objs attached_buffer = 3 \<and> vmaps attached_buffer = []"
  using sg_run_consistent [OF example_sg_inv example_attached]
  by (simp add: attached_buffer_def example_buffer_def)

text \<open>Around a CPU access the cache is maintained for exactly the attachments that have a
  device mapping, in the order of the list, after the kernel mapping if there is one.\<close>

theorem cpu_access_syncs:
  assumes "sg_inv s" and "sg_step\<^sup>*\<^sup>* s s'"
  shows "qcom_sg_dma_buf_begin_cpu_access s' = (0, map (\<lambda>v. VmapRange v (blen s')) (vmaps s') @
      map (\<lambda>a. SyncTable (a_dev a) (a_table a)) (filter (\<lambda>a. 0 < dma_maps s' (a_id a)) (attachments s')))"
    (is "_ = (0, ?ops)")
proof -
  have inv: "sg_inv s'" by (rule sg_run_inv [OF assms(2,1)])
  then have d: "distinct (map a_id (attachments s'))"
    and m: "\<And>t. dma_maps s' t = (if \<exists>a \<in> set (attachments s'). a_id a = t \<and> a_mapped a then 1 else 0)"
    by (auto simp: sg_inv_def attach_ok_def)
  have "0 < dma_maps s' (a_id a) \<longleftrightarrow> a_mapped a" if "a \<in> set (attachments s')" for a
    using that attachment_unique [OF d _ that] by (auto simp: m)
  then have f: "filter (\<lambda>a. 0 < dma_maps s' (a_id a)) (attachments s') = filter a_mapped (attachments s')"
    by (rule filter_cong [OF refl])
  have "sync_attachments as = map (\<lambda>a. SyncTable (a_dev a) (a_table a)) (filter a_mapped as)" for as
    by (induction as) auto
  then show ?thesis
    using inv by (auto simp: qcom_sg_dma_buf_begin_cpu_access_def f sg_inv_def map_state_ok_def)
qed

theorem cpu_access_syncs_witness:
  "qcom_sg_dma_buf_begin_cpu_access attached_buffer = (0, [])"
  using cpu_access_syncs [OF example_sg_inv example_attached]
  by (simp add: attached_buffer_def example_buffer_def)

text \<open>While at least one user of the kernel mapping stays, every other user that maps the
  buffer gets the same address, and the mapping does not move, whatever maps and unmaps come.\<close>

theorem vmap_stays_put:
  assumes "map_state_ok s" and "0 < vmap_cnt s"
    and "shared_run (\<lambda>s. nat (vmap_cnt s)) (\<lambda>s. vmap_cnt s < 2147483647) qcom_sg_vmap qcom_sg_vunmap ops s =
      Some (ms, s')"
  shows "vaddr s' = vaddr s \<and> 0 < vmap_cnt s' \<and> vmaps s' = [vaddr s] \<and> set ms \<subseteq> {Some (vaddr s)}"
proof -
  have "0 < nat (vmap_cnt s)" using assms(2) by simp
  from vmapping.stays_mapped [OF assms(1) this assms(3)] show ?thesis
    by (auto simp: map_state_ok_def split: if_splits)
qed

definition mapped_buffer :: "int \<Rightarrow> sg_st" where
  "mapped_buffer n = example_buffer\<lparr>vmap_cnt := n, vaddr := 0xffff0000, vmaps := [0xffff0000]\<rparr>"

theorem vmap_stays_put_witness:
  "vaddr (mapped_buffer 1) = 0xffff0000 \<and> vmaps (mapped_buffer 1) = [0xffff0000]"
proof -
  have "shared_run (\<lambda>s. nat (vmap_cnt s)) (\<lambda>s. vmap_cnt s < 2147483647) qcom_sg_vmap qcom_sg_vunmap
      [Get example_sg_env, Put] (mapped_buffer 1) = Some ([Some 0xffff0000], mapped_buffer 1)"
    by (simp add: mapped_buffer_def qcom_sg_vmap_def qcom_sg_vunmap_def Let_def)
  moreover have "map_state_ok (mapped_buffer 1)" by (simp add: mapped_buffer_def map_state_ok_def)
  ultimately show ?thesis
    using vmap_stays_put [of "mapped_buffer 1" "[Get example_sg_env, Put]"] by (simp add: mapped_buffer_def)
qed

text \<open>The pages of a fresh mapping are those of the buffer when its length covers its table.\<close>

lemma do_vmap_pages:
  assumes "vmalloc_pages e = Some garbage" and "length (table_pages (btable s)) < 2 ^ 31"
    and "uint (PAGE_ALIGN (blen s) div PAGE_SIZE) = int (length (table_pages (btable s)))"
  shows "qcom_sg_do_vmap e s =
    (let va = vmap_addr e (table_pages (btable s)) in Some (if va = 0 then Inl (- ENOMEM) else Inr va))"
  using assms by (simp add: qcom_sg_do_vmap_def Let_def)

text \<open>A buffer with more pages than its length: the array of pages is written past its end.\<close>

lemma do_vmap_overflows:
  assumes "vmalloc_pages e = Some garbage"
    and "wrap32 (uint (PAGE_ALIGN (blen s) div PAGE_SIZE)) < int (length (table_pages (btable s)))"
  shows "qcom_sg_do_vmap e s = None"
  using assms by (simp add: qcom_sg_do_vmap_def Let_def)

end
