(* ===== verification/KryoEdac.thy ===== *)
theory KryoEdac
  imports KPrelude
begin

text \<open>
  Model of \<open>drivers/kryo_arm64_edac.c\<close>, which reports the cache errors of the CPUs. Error
  record 0 of a CPU describes its L1 and L2 caches, record 1 the shared L3. The state holds the
  registers, the spin lock the checks take, and the events the driver causes: messages, reports to the
  EDAC framework, register writes and panics. A check that panics does not go on; the outcome of a
  call says so. What writing the status register does to it belongs to the hardware: it is the
  parameter \<open>ws\<close>, and the locale \<open>error_record\<close> is the architecture's promise that
  writing back the value read clears the valid bit. The second part is the life cycle of the
  driver, with every resource it acquires.
\<close>

section \<open>Registers\<close>

definition KRYO_ERRXSTATUS_VALID :: "u64 \<Rightarrow> u64" where "KRYO_ERRXSTATUS_VALID a = drop_bit 30 a AND 0x1"
definition KRYO_ERRXSTATUS_UE :: "u64 \<Rightarrow> u64" where "KRYO_ERRXSTATUS_UE a = drop_bit 29 a AND 0x1"
definition KRYO_ERRXSTATUS_SERR :: "u64 \<Rightarrow> u64" where "KRYO_ERRXSTATUS_SERR a = a AND 0xFF"
definition KRYO_ERRXMISC_LVL :: "u64 \<Rightarrow> u64" where "KRYO_ERRXMISC_LVL a = drop_bit 1 a AND 0x7"
definition KRYO_ERRXMISC_LVL_GOLD :: "u64 \<Rightarrow> u64" where "KRYO_ERRXMISC_LVL_GOLD a = a AND 0xF"
definition KRYO_ERRXMISC_WAY :: "u64 \<Rightarrow> u64" where "KRYO_ERRXMISC_WAY a = drop_bit 28 a AND 0xF"

text \<open>The cache levels, and the parts with their coding of the location.\<close>

abbreviation (input) L1 :: nat where "L1 \<equiv> 0"
abbreviation (input) L2 :: nat where "L2 \<equiv> 1"
abbreviation (input) L3 :: nat where "L3 \<equiv> 2"

definition silver_parts :: "u32 set" where "silver_parts = {0x803, 0x805, 0xD05}"
definition gold_parts :: "u32 set" where "gold_parts = {0x804, 0xD0D, 0xD44, 0xD4B}"

datatype edac_event =
    Dump u64 u64 nat
  | Note string
  | Way int
  | HandleCe nat nat string
  | HandleUe nat nat string
  | NotifyCe nat nat
  | NotifyUe nat nat
  | Select u64
  | ClearStatus u64
  | Ctlr u64
  | MiscOverflow u64
  | Panic string

text \<open>One CPU. \<open>panic_on_ce\<close> is the build option \<open>CONFIG_EDAC_KRYO_ARM64_PANIC_ON_CE\<close>;
  \<open>lock_held\<close> says that this CPU holds \<open>local_handler_lock\<close>.\<close>

record cpu_st =
  cpu_id :: nat
  part_num :: u32
  err_status :: "u64 \<Rightarrow> u64"
  err_misc :: "u64 \<Rightarrow> u64"
  panic_on_ue :: bool
  panic_on_ce :: bool
  lock_held :: bool
  events :: "edac_event list"

text \<open>How a call ends: it returns, it panics, or it waits for ever for a lock its own CPU holds.\<close>

datatype outcome = Returned | Panicked | Spins

definition andthen :: "outcome \<times> cpu_st \<Rightarrow> (cpu_st \<Rightarrow> outcome \<times> cpu_st) \<Rightarrow> outcome \<times> cpu_st" where
  "andthen p f = (case p of (Returned, s) \<Rightarrow> f s | (r, s) \<Rightarrow> (r, s))"

definition local_handler_lock :: "cpu_st \<Rightarrow> outcome \<times> cpu_st" where
  "local_handler_lock s = (if lock_held s then (Spins, s) else (Returned, s\<lparr>lock_held := True\<rparr>))"

definition local_handler_unlock :: "cpu_st \<Rightarrow> outcome \<times> cpu_st" where
  "local_handler_unlock s = (Returned, s\<lparr>lock_held := False\<rparr>)"

text \<open>The accesses to the error-record registers: the writes are events; a read is of the record
  that the last write of the selector chose.\<close>

definition set_errxctlr_el1 :: "edac_event list" where "set_errxctlr_el1 = [Ctlr 0x10f]"

definition set_errxmisc_overflow :: "edac_event list" where
  "set_errxmisc_overflow = [MiscOverflow 0x7F7F00000000]"

definition write_errselr_el1 :: "u64 \<Rightarrow> edac_event list" where "write_errselr_el1 v = [Select v]"

definition read_errxstatus_el1 :: "u64 \<Rightarrow> cpu_st \<Rightarrow> u64" where
  "read_errxstatus_el1 selected s = err_status s selected"

definition read_errxmisc_el1 :: "u64 \<Rightarrow> cpu_st \<Rightarrow> u64" where
  "read_errxmisc_el1 selected s = err_misc s selected"

lemmas register_defs [simp] = set_errxctlr_el1_def set_errxmisc_overflow_def write_errselr_el1_def
  read_errxstatus_el1_def read_errxmisc_el1_def

definition emit :: "edac_event list \<Rightarrow> cpu_st \<Rightarrow> cpu_st" where
  "emit es s = s\<lparr>events := events s @ es\<rparr>"

section \<open>Reporting\<close>

text \<open>\<open>edac_device_handle_ue\<close> of the EDAC core reports the error and then panics when the device's
  \<open>panic_on_ue\<close> says so, which the driver relies on.\<close>

definition panic :: "string \<Rightarrow> cpu_st \<Rightarrow> outcome \<times> cpu_st" where
  "panic msg s = (Panicked, emit [Panic msg] s)"

definition kryo_edac_handle_ce :: "nat \<Rightarrow> nat \<Rightarrow> string \<Rightarrow> cpu_st \<Rightarrow> outcome \<times> cpu_st" where
  "kryo_edac_handle_ce inst_nr block_nr msg s =
     (let s = emit [HandleCe inst_nr block_nr msg] s; s = emit [NotifyCe block_nr inst_nr] s in
      if panic_on_ce s then panic msg s else (Returned, s))"

definition edac_device_handle_ue :: "nat \<Rightarrow> nat \<Rightarrow> string \<Rightarrow> cpu_st \<Rightarrow> outcome \<times> cpu_st" where
  "edac_device_handle_ue inst_nr block_nr msg s =
     (let s = emit [HandleUe inst_nr block_nr msg] s in
      if panic_on_ue s then panic msg s else (Returned, s))"

definition kryo_edac_handle_ue :: "nat \<Rightarrow> nat \<Rightarrow> string \<Rightarrow> cpu_st \<Rightarrow> outcome \<times> cpu_st" where
  "kryo_edac_handle_ue inst_nr block_nr msg s =
     andthen (edac_device_handle_ue inst_nr block_nr msg s)
       (\<lambda>s. (Returned, emit [NotifyUe block_nr inst_nr] s))"

definition errors :: "(string \<times> (nat \<Rightarrow> nat \<Rightarrow> string \<Rightarrow> cpu_st \<Rightarrow> outcome \<times> cpu_st)) list" where
  "errors =
     [(''Kryo L1 Correctable Error'', kryo_edac_handle_ce),
      (''Kryo L1 Uncorrectable Error'', kryo_edac_handle_ue),
      (''Kryo L2 Correctable Error'', kryo_edac_handle_ce),
      (''Kryo L2 Uncorrectable Error'', kryo_edac_handle_ue),
      (''L3 Correctable Error'', kryo_edac_handle_ce),
      (''L3 Uncorrectable Error'', kryo_edac_handle_ue)]"

definition serr_note :: "u64 \<Rightarrow> edac_event list" where
  "serr_note serr =
     (if serr = 0x2 then [Note ''ECC Error from internal data buffer'']
      else if serr = 0x6 then [Note ''ECC Error from cache data RAM'']
      else if serr = 0x7 then [Note ''ECC Error from cache tag or dirty RAM'']
      else if serr = 0x8 then [Note ''Parity error on TLB DATA RAM'']
      else if serr = 0x9 then [Note ''Parity error on TLB TAG RAM'']
      else if serr = 0x12 then [Note ''Bus Error'']
      else [])"

definition dump_err_reg :: "nat \<Rightarrow> nat \<Rightarrow> u64 \<Rightarrow> u64 \<Rightarrow> cpu_st \<Rightarrow> outcome \<times> cpu_st" where
  "dump_err_reg errorcode level errxstatus errxmisc s =
     (let way = uint (KRYO_ERRXMISC_WAY errxmisc); e = errors ! errorcode;
          s = emit ([Dump errxstatus errxmisc (level + 1)] @ serr_note (KRYO_ERRXSTATUS_SERR errxstatus) @
                    [Way (if level = L3 then way else drop_bit 2 way)]) s in
      snd e (cpu_id s) level (fst e) s)"

definition kryo_parse_l1_l2_cache_error :: "u64 \<Rightarrow> u64 \<Rightarrow> cpu_st \<Rightarrow> outcome \<times> cpu_st" where
  "kryo_parse_l1_l2_cache_error errxstatus errxmisc s =
     (let part = part_num s;
          ue = KRYO_ERRXSTATUS_UE errxstatus \<noteq> 0;
          report = (\<lambda>level s.
            if level = L1 then dump_err_reg (if ue then 1 else 0) level errxstatus errxmisc s
            else if level = L2 then dump_err_reg (if ue then 3 else 2) level errxstatus errxmisc s
            else (Returned, emit [Note ''Unknown KRYO_ERRXMISC_LVL value''] s)) in
      if part \<in> silver_parts then
        (let l = KRYO_ERRXMISC_LVL errxmisc in
         if l = 0x0 then report L1 s
         else if l = 0x1 then report L2 s
         else report 0 (emit [Note ''silver: unknown error location''] s))
      else if part \<in> gold_parts then
        (let l = KRYO_ERRXMISC_LVL_GOLD errxmisc in
         if l = 0x4 \<or> l = 0x1 then report L1 s
         else if l = 0x8 \<or> l = 0x2 then report L2 s
         else report 0 (emit [Note ''gold: unknown error location''] s))
      else (Returned, emit [Note ''Error in matching cpu with part num''] s))"

text \<open>Writing the selected status register; \<open>ws old v\<close> is what it holds afterwards.\<close>

definition clear_errxstatus_valid :: "(u64 \<Rightarrow> u64 \<Rightarrow> u64) \<Rightarrow> u64 \<Rightarrow> u64 \<Rightarrow> cpu_st \<Rightarrow> cpu_st" where
  "clear_errxstatus_valid ws rec v s =
     emit [ClearStatus v] (s\<lparr>err_status := (err_status s)(rec := ws (err_status s rec) v)\<rparr>)"

definition kryo_check_l1_l2_ecc :: "(u64 \<Rightarrow> u64 \<Rightarrow> u64) \<Rightarrow> cpu_st \<Rightarrow> outcome \<times> cpu_st" where
  "kryo_check_l1_l2_ecc ws s =
     andthen (local_handler_lock s) (\<lambda>s.
       let s = emit (write_errselr_el1 0) s; errxstatus = read_errxstatus_el1 0 s in
       andthen
         (if KRYO_ERRXSTATUS_VALID errxstatus \<noteq> 0 then
            (let errxmisc = read_errxmisc_el1 0 s;
                 s = emit [Note ''detected a L1/L2 cache error''] s in
             andthen (kryo_parse_l1_l2_cache_error errxstatus errxmisc s)
               (\<lambda>s. (Returned, clear_errxstatus_valid ws 0 errxstatus s)))
          else (Returned, s))
         local_handler_unlock)"

definition l3_is_bus_error :: "u64 \<Rightarrow> bool" where
  "l3_is_bus_error errxstatus \<longleftrightarrow> KRYO_ERRXSTATUS_SERR errxstatus = 0x12"

text \<open>The check of the L3 drops the lock before it panics about a bus error.\<close>

definition kryo_check_l3_scu_error :: "(u64 \<Rightarrow> u64 \<Rightarrow> u64) \<Rightarrow> cpu_st \<Rightarrow> outcome \<times> cpu_st" where
  "kryo_check_l3_scu_error ws s =
     andthen (local_handler_lock s) (\<lambda>s.
       let s = emit (write_errselr_el1 1) s; errxstatus = read_errxstatus_el1 1 s;
           errxmisc = read_errxmisc_el1 1 s in
       andthen
         (if KRYO_ERRXSTATUS_VALID errxstatus \<noteq> 0 \<and> KRYO_ERRXMISC_LVL errxmisc = 0x2 then
            (if l3_is_bus_error errxstatus then
               (let s = emit [Note ''Bus Error''] s in
                if panic_on_ue s
                then andthen (local_handler_unlock s) (panic ''Causing panic due to Bus Error'')
                else (Returned, s))
             else
               andthen
                 (if KRYO_ERRXSTATUS_UE errxstatus \<noteq> 0
                  then dump_err_reg 5 L3 errxstatus errxmisc
                         (emit [Note ''Detected L3 uncorrectable error''] s)
                  else dump_err_reg 4 L3 errxstatus errxmisc
                         (emit [Note ''Detected L3 correctable error''] s))
                 (\<lambda>s. (Returned, clear_errxstatus_valid ws 1 errxstatus s)))
          else (Returned, s))
         local_handler_unlock)"

text \<open>Handlers: the panic notifier, the two interrupts and the power notifier.\<close>

definition kryo_cpu_panic_notify :: "(u64 \<Rightarrow> u64 \<Rightarrow> u64) \<Rightarrow> cpu_st \<Rightarrow> outcome \<times> cpu_st" where
  "kryo_cpu_panic_notify ws s =
     andthen (kryo_check_l3_scu_error ws (s\<lparr>panic_on_ue := False\<rparr>)) (kryo_check_l1_l2_ecc ws)"

definition kryo_l1_l2_handler :: "(u64 \<Rightarrow> u64 \<Rightarrow> u64) \<Rightarrow> cpu_st \<Rightarrow> outcome \<times> cpu_st" where
  "kryo_l1_l2_handler ws s = kryo_check_l1_l2_ecc ws s"

definition kryo_l3_scu_handler :: "(u64 \<Rightarrow> u64 \<Rightarrow> u64) \<Rightarrow> cpu_st \<Rightarrow> outcome \<times> cpu_st" where
  "kryo_l3_scu_handler ws s = kryo_check_l3_scu_error ws s"

definition initialize_registers :: "u64 option \<Rightarrow> edac_event list" where
  "initialize_registers info =
     (case info of Some record \<Rightarrow> write_errselr_el1 record | None \<Rightarrow> [])
     @ set_errxctlr_el1 @ set_errxmisc_overflow"

text \<open>
  On all CPUs: the events of each CPU in the order they are called for; \<open>cluster\<close> is
  \<open>topology_cluster_id\<close>. The second loop touches a CPU only when its cluster differs from
  that of the CPU before it.
\<close>

fun init_clusters :: "(nat \<Rightarrow> int) \<Rightarrow> int \<Rightarrow> nat list \<Rightarrow> (nat \<times> edac_event list) list" where
  "init_clusters cluster last_cluster [] = []"
| "init_clusters cluster last_cluster (cpu # cpus) =
     (if last_cluster \<noteq> cluster cpu then [(cpu, initialize_registers (Some 1))] else []) @
     init_clusters cluster (cluster cpu) cpus"

definition init_regs_on_all_cpus :: "(nat \<Rightarrow> int) \<Rightarrow> nat list \<Rightarrow> (nat \<times> edac_event list) list" where
  "init_regs_on_all_cpus cluster cpus =
     map (\<lambda>cpu. (cpu, initialize_registers (Some 0))) cpus @ init_clusters cluster 0xff cpus"

definition init_regs_on_this_cpu :: "cpu_st \<Rightarrow> cpu_st" where
  "init_regs_on_this_cpu s =
     emit (write_errselr_el1 0 @ initialize_registers None @ write_errselr_el1 1 @ initialize_registers None) s"

definition kryo_pmu_cpu_pm_notify :: "(u64 \<Rightarrow> u64 \<Rightarrow> u64) \<Rightarrow> bool \<Rightarrow> cpu_st \<Rightarrow> outcome \<times> cpu_st" where
  "kryo_pmu_cpu_pm_notify ws is_exit s =
     (if is_exit then
        andthen (kryo_check_l3_scu_error ws (init_regs_on_this_cpu s)) (kryo_check_l1_l2_ecc ws)
      else (Returned, s))"

section \<open>Properties of the handlers\<close>

text \<open>The reports to the framework among the events: uncorrectable or not, CPU, level.\<close>

fun reports :: "edac_event list \<Rightarrow> (bool \<times> nat \<times> nat) list" where
  "reports [] = []"
| "reports (HandleCe c l m # es) = (False, c, l) # reports es"
| "reports (HandleUe c l m # es) = (True, c, l) # reports es"
| "reports (e # es) = reports es"

text \<open>Where an error of record 0 lies, by part.\<close>

definition error_level :: "u32 \<Rightarrow> u64 \<Rightarrow> nat option" where
  "error_level part misc =
     (if part \<in> silver_parts then map_of [(0, L1), (1, L2)] (KRYO_ERRXMISC_LVL misc)
      else if part \<in> gold_parts
      then map_of [(1, L1), (4, L1), (2, L2), (8, L2)] (KRYO_ERRXMISC_LVL_GOLD misc)
      else None)"

text \<open>Whether an error of that severity makes the kernel panic.\<close>

definition panics :: "bool \<Rightarrow> cpu_st \<Rightarrow> bool" where
  "panics ue s \<longleftrightarrow> (if ue then panic_on_ue s else panic_on_ce s)"

locale error_record =
  fixes ws :: "u64 \<Rightarrow> u64 \<Rightarrow> u64"
  assumes write_back_clears: "KRYO_ERRXSTATUS_VALID (ws v v) = 0"

lemma andthen_simps [simp]:
  "andthen (Returned, s) f = f s" "andthen (Panicked, s) f = (Panicked, s)"
  "andthen (Spins, s) f = (Spins, s)"
  by (simp_all add: andthen_def)

lemma reports_append [simp]: "reports (es @ fs) = reports es @ reports fs"
  by (induction es rule: reports.induct) auto

lemma emit_fields [simp]:
  "events (emit es s) = events s @ es" "err_status (emit es s) = err_status s"
  "err_misc (emit es s) = err_misc s" "cpu_id (emit es s) = cpu_id s"
  "part_num (emit es s) = part_num s" "panic_on_ue (emit es s) = panic_on_ue s"
  "panic_on_ce (emit es s) = panic_on_ce s" "lock_held (emit es s) = lock_held s"
  by (simp_all add: emit_def)

lemma reports_serr [simp]: "reports (serr_note x) = []"
  by (simp add: serr_note_def)

text \<open>What a report does: exactly one is made, nothing but the events changes, and it returns unless
  the severity panics.\<close>

definition reported :: "bool \<Rightarrow> nat \<Rightarrow> cpu_st \<Rightarrow> outcome \<times> cpu_st \<Rightarrow> bool" where
  "reported ue l s p \<longleftrightarrow> fst p = (if panics ue s then Panicked else Returned) \<and>
     reports (events (snd p)) = reports (events s) @ [(ue, cpu_id s, l)] \<and>
     err_status (snd p) = err_status s \<and> lock_held (snd p) = lock_held s"

lemma dump_reported:
  assumes "c < 6"
  shows "reported (odd c) l s (dump_err_reg c l st m s)"
proof -
  consider "c = 0" | "c = 1" | "c = 2" | "c = 3" | "c = 4" | "c = 5" using assms by linarith
  then show ?thesis
    by cases (simp_all add: reported_def panics_def dump_err_reg_def Let_def errors_def
        kryo_edac_handle_ce_def kryo_edac_handle_ue_def edac_device_handle_ue_def panic_def)
qed

lemma reported_note:
  "reported ue l (emit [Note n] s) p \<Longrightarrow> reported ue l s p"
  by (simp add: reported_def panics_def)

lemma dump_l1_l2:
  "reported ue L1 s (dump_err_reg (if ue then 1 else 0) L1 st m s)"
  "reported ue L2 s (dump_err_reg (if ue then 3 else 2) L2 st m s)"
  using dump_reported [of "if ue then 1 else 0" L1 s st m] dump_reported [of "if ue then 3 else 2" L2 s st m]
  by (cases ue; simp)+

lemmas dump_noted = reported_note [OF dump_l1_l2(1)]

lemma parse_known:
  assumes "part_num s \<in> silver_parts \<union> gold_parts"
  shows "reported (KRYO_ERRXSTATUS_UE st \<noteq> 0)
    (case error_level (part_num s) m of Some l \<Rightarrow> l | None \<Rightarrow> L1) s (kryo_parse_l1_l2_cache_error st m s)"
proof (cases "part_num s \<in> silver_parts")
  case True
  consider "KRYO_ERRXMISC_LVL m = 0" | "KRYO_ERRXMISC_LVL m = 1"
    | "KRYO_ERRXMISC_LVL m \<noteq> 0 \<and> KRYO_ERRXMISC_LVL m \<noteq> 1" by blast
  then show ?thesis
    by cases (simp_all only: kryo_parse_l1_l2_cache_error_def Let_def error_level_def True if_True if_False
        map_of.simps fst_conv snd_conv option.case fun_upd_apply dump_l1_l2 dump_noted one_neq_zero
        zero_neq_one simp_thms)
next
  case False
  then have g: "part_num s \<in> gold_parts" using assms by simp
  let ?l = "KRYO_ERRXMISC_LVL_GOLD m"
  consider "?l = 1" | "?l = 4" | "?l = 2" | "?l = 8" | "?l \<noteq> 1" "?l \<noteq> 4" "?l \<noteq> 2" "?l \<noteq> 8" by blast
  then show ?thesis
    by cases (use False g in \<open>simp_all add: kryo_parse_l1_l2_cache_error_def error_level_def
        dump_l1_l2 dump_noted del: One_nat_def\<close>)
qed

lemma parse_unknown:
  assumes "part_num s \<notin> silver_parts \<union> gold_parts"
  shows "kryo_parse_l1_l2_cache_error st m s =
    (Returned, emit [Note ''Error in matching cpu with part num''] s)"
  using assms by (simp add: kryo_parse_l1_l2_cache_error_def Let_def)

lemma parse_outcome:
  "fst (kryo_parse_l1_l2_cache_error st m s) \<noteq> Spins"
  "err_status (snd (kryo_parse_l1_l2_cache_error st m s)) = err_status s"
  "lock_held (snd (kryo_parse_l1_l2_cache_error st m s)) = lock_held s"
  using parse_known [of s st m] parse_unknown [of s st m]
  by (cases "part_num s \<in> silver_parts \<union> gold_parts"; simp add: reported_def)+

text \<open>The check of the L1 and L2, once the parse is known.\<close>

lemma ecc_no_error:
  assumes "\<not> lock_held s" and "KRYO_ERRXSTATUS_VALID (err_status s 0) = 0"
  shows "kryo_check_l1_l2_ecc ws s = (Returned, emit (write_errselr_el1 0) s)"
  using assms by (simp add: kryo_check_l1_l2_ecc_def Let_def local_handler_lock_def local_handler_unlock_def
      emit_def)

lemma ecc_error:
  assumes "\<not> lock_held s" and "KRYO_ERRXSTATUS_VALID (err_status s 0) \<noteq> 0"
  shows "kryo_check_l1_l2_ecc ws s =
    andthen (kryo_parse_l1_l2_cache_error (err_status s 0) (err_misc s 0)
        (emit [Select 0, Note ''detected a L1/L2 cache error''] (s\<lparr>lock_held := True\<rparr>)))
      (\<lambda>s'. (Returned, (clear_errxstatus_valid ws 0 (err_status s 0) s')\<lparr>lock_held := False\<rparr>))"
proof -
  have two: "emit es (emit fs s) = emit (fs @ es) s" for es fs s by (simp add: emit_def)
  have asc: "andthen (andthen p f) g = andthen p (\<lambda>s. andthen (f s) g)" for p f g
    by (cases p; cases "fst p") (simp_all add: andthen_def)
  show ?thesis
    using assms by (simp add: kryo_check_l1_l2_ecc_def Let_def local_handler_lock_def
        local_handler_unlock_def asc two)
qed

context error_record
begin

lemma ecc_known:
  assumes "\<not> lock_held s" and "KRYO_ERRXSTATUS_VALID (err_status s 0) \<noteq> 0"
    and "part_num s \<in> silver_parts \<union> gold_parts"
    and "kryo_check_l1_l2_ecc ws s = (r, s')"
  shows "let ue = KRYO_ERRXSTATUS_UE (err_status s 0) \<noteq> 0 in
    reports (events s') = reports (events s) @
      [(ue, cpu_id s, case error_level (part_num s) (err_misc s 0) of Some l \<Rightarrow> l | None \<Rightarrow> L1)] \<and>
    (if panics ue s then r = Panicked \<and> lock_held s' \<and> err_status s' = err_status s
     else r = Returned \<and> \<not> lock_held s' \<and> KRYO_ERRXSTATUS_VALID (err_status s' 0) = 0 \<and>
       (\<forall>rec. rec \<noteq> 0 \<longrightarrow> err_status s' rec = err_status s rec))"
proof -
  define s1 where "s1 = emit [Select 0, Note ''detected a L1/L2 cache error''] (s\<lparr>lock_held := True\<rparr>)"
  define p where "p = kryo_parse_l1_l2_cache_error (err_status s 0) (err_misc s 0) s1"
  have c: "andthen p (\<lambda>s'. (Returned, (clear_errxstatus_valid ws 0 (err_status s 0) s')\<lparr>lock_held := False\<rparr>))
      = (r, s')"
    using ecc_error [OF assms(1,2), of ws] assms(4) by (simp add: p_def s1_def)
  have rp: "reported (KRYO_ERRXSTATUS_UE (err_status s 0) \<noteq> 0)
      (case error_level (part_num s) (err_misc s 0) of Some l \<Rightarrow> l | None \<Rightarrow> L1) s1 p"
    using parse_known [of s1 "err_status s 0" "err_misc s 0"] assms(3) by (simp add: p_def s1_def)
  obtain o1 s2 where p: "p = (o1, s2)" by (cases p)
  show ?thesis
    using c rp
    by (auto simp: p reported_def panics_def s1_def Let_def clear_errxstatus_valid_def
        write_back_clears split: if_splits)
qed

lemma ecc_unknown_part:
  assumes "\<not> lock_held s" and "KRYO_ERRXSTATUS_VALID (err_status s 0) \<noteq> 0"
    and "part_num s \<notin> silver_parts \<union> gold_parts"
    and "kryo_check_l1_l2_ecc ws s = (r, s')"
  shows "r = Returned \<and> reports (events s') = reports (events s) \<and> \<not> lock_held s' \<and>
    KRYO_ERRXSTATUS_VALID (err_status s' 0) = 0"
  using ecc_error [OF assms(1,2), of ws] assms(3,4)
  by (auto simp: parse_unknown clear_errxstatus_valid_def write_back_clears)

lemma l3_clears:
  assumes "kryo_check_l3_scu_error ws s = (Returned, s')" and "\<not> lock_held s"
    and "\<not> l3_is_bus_error (err_status s 1)" and "KRYO_ERRXMISC_LVL (err_misc s 1) = 0x2"
  shows "KRYO_ERRXSTATUS_VALID (err_status s' 1) = 0"
proof (cases "KRYO_ERRXSTATUS_VALID (err_status s 1) = 0")
  case False
  define d where "d = (if KRYO_ERRXSTATUS_UE (err_status s 1) \<noteq> 0
     then dump_err_reg 5 L3 (err_status s 1) (err_misc s 1)
       (emit [Note ''Detected L3 uncorrectable error''] (emit [Select 1] (s\<lparr>lock_held := True\<rparr>)))
     else dump_err_reg 4 L3 (err_status s 1) (err_misc s 1)
       (emit [Note ''Detected L3 correctable error''] (emit [Select 1] (s\<lparr>lock_held := True\<rparr>))))"
  have "andthen (andthen d (\<lambda>s2. (Returned, clear_errxstatus_valid ws 1 (err_status s 1) s2)))
      local_handler_unlock = (Returned, s')"
    using assms False
    by (simp add: kryo_check_l3_scu_error_def local_handler_lock_def Let_def d_def split: if_splits)
  moreover have "err_status (snd d) = err_status s"
    using dump_reported [of 5] dump_reported [of 4] by (simp add: d_def reported_def)
  ultimately show ?thesis
    by (cases d; cases "fst d")
      (auto simp: clear_errxstatus_valid_def local_handler_unlock_def write_back_clears)
qed (use assms in \<open>auto simp: kryo_check_l3_scu_error_def local_handler_lock_def local_handler_unlock_def\<close>)

end

text \<open>Write-one-to-clear, as the architecture describes the register.\<close>

definition w1c :: "u64 \<Rightarrow> u64 \<Rightarrow> u64" where "w1c old v = old AND NOT v"

interpretation w1c_record: error_record w1c
  by unfold_locales (simp add: w1c_def KRYO_ERRXSTATUS_VALID_def)

text \<open>C37: What a check of the L1 and L2 does on a CPU that does not hold the lock, on every path. A
  CPU without an error reports nothing. An error of a known part is reported exactly once, with its
  severity, the CPU and the level its location decodes to (L1 where it decodes to none). Then, when
  an error of that severity panics (uncorrectable ones by the device's \<open>panic_on_ue\<close>, the others by
  the build option), the check never goes on: the lock stays held and the record stays as it was.
  Otherwise the check returns with the lock free and the record cleared for the next error, and the
  other records untouched. On an unknown part nothing is reported and the record is cleared.\<close>

theorem kryo_error_reported:
  assumes "error_record ws" and "\<not> lock_held s" and "kryo_check_l1_l2_ecc ws s = (r, s')"
  shows "let ue = KRYO_ERRXSTATUS_UE (err_status s 0) \<noteq> 0 in
    if KRYO_ERRXSTATUS_VALID (err_status s 0) = 0 then
      r = Returned \<and> reports (events s') = reports (events s) \<and> \<not> lock_held s' \<and>
      err_status s' = err_status s
    else if part_num s \<notin> silver_parts \<union> gold_parts then
      r = Returned \<and> reports (events s') = reports (events s) \<and> \<not> lock_held s' \<and>
      KRYO_ERRXSTATUS_VALID (err_status s' 0) = 0
    else
      reports (events s') = reports (events s) @
        [(ue, cpu_id s, case error_level (part_num s) (err_misc s 0) of Some l \<Rightarrow> l | None \<Rightarrow> L1)] \<and>
      (if (if ue then panic_on_ue s else panic_on_ce s)
       then r = Panicked \<and> lock_held s' \<and> err_status s' = err_status s
       else r = Returned \<and> \<not> lock_held s' \<and> KRYO_ERRXSTATUS_VALID (err_status s' 0) = 0 \<and>
         (\<forall>rec. rec \<noteq> 0 \<longrightarrow> err_status s' rec = err_status s rec))"
  using assms(2,3) error_record.ecc_known [OF assms(1) assms(2) _ _ assms(3)]
    error_record.ecc_unknown_part [OF assms(1) assms(2) _ _ assms(3)]
    ecc_no_error [OF assms(2), of ws]
  unfolding Let_def panics_def by (simp split: if_split)

definition example_cpu :: "u64 \<Rightarrow> u64 \<Rightarrow> cpu_st" where
  "example_cpu st misc = \<lparr>cpu_id = 3, part_num = 0xD4B, err_status = (\<lambda>_. st), err_misc = (\<lambda>_. misc),
     panic_on_ue = False, panic_on_ce = False, lock_held = False, events = []\<rparr>"

theorem kryo_error_reported_witness:
  "(let (r, s') = kryo_check_l1_l2_ecc w1c (example_cpu 0x60000006 0x8) in
      r = Returned \<and> reports (events s') = [(True, 3, L2)] \<and> \<not> lock_held s') \<and>
   (let (r, s') = kryo_check_l1_l2_ecc w1c (example_cpu 0x60000006 0x8\<lparr>panic_on_ue := True\<rparr>) in
      r = Panicked \<and> reports (events s') = [(True, 3, L2)] \<and> lock_held s')"
  (is "?A \<and> ?B")
proof
  note cfg = example_cpu_def gold_parts_def silver_parts_def error_level_def KRYO_ERRXSTATUS_VALID_def
    KRYO_ERRXSTATUS_UE_def KRYO_ERRXMISC_LVL_GOLD_def Let_def
  note err = kryo_error_reported [OF w1c_record.error_record_axioms]
  show ?A using err [of "example_cpu 0x60000006 0x8"] by (auto simp: cfg)
  show ?B using err [of "example_cpu 0x60000006 0x8\<lparr>panic_on_ue := True\<rparr>"] by (auto simp: cfg)
qed

text \<open>The panic of such an error happens with the lock held, and every panic calls the driver's own
  panic notifier: it waits for that lock for ever, and the panic does not complete.\<close>

lemma panic_with_lock_spins:
  "lock_held s \<Longrightarrow> kryo_cpu_panic_notify ws s = (Spins, s\<lparr>panic_on_ue := False\<rparr>)"
  by (simp add: kryo_cpu_panic_notify_def kryo_check_l3_scu_error_def local_handler_lock_def)

text \<open>A bus error of the L3 leaves the record valid: it is seen again at every check. Its panic drops
  the lock first.\<close>

lemma l3_bus_error_stays:
  assumes "l3_is_bus_error (err_status s 1)" and "kryo_check_l3_scu_error ws s = (r, s')"
  shows "err_status s' 1 = err_status s 1 \<and> (\<not> lock_held s \<longrightarrow> \<not> lock_held s')"
  using assms by (auto simp: kryo_check_l3_scu_error_def Let_def local_handler_lock_def
      local_handler_unlock_def panic_def split: if_splits)

text \<open>A location that is neither L1 nor L2 is reported as an L1 error.\<close>

lemma unknown_location_reported_as_L1:
  assumes "part_num s \<in> gold_parts" and "KRYO_ERRXMISC_LVL_GOLD m = 0"
  shows "reported (KRYO_ERRXSTATUS_UE st \<noteq> 0) L1 s (kryo_parse_l1_l2_cache_error st m s)"
proof -
  have "part_num s \<notin> silver_parts" using assms(1) by (auto simp: gold_parts_def silver_parts_def)
  then have "error_level (part_num s) m = None"
    using assms by (simp add: error_level_def)
  then show ?thesis using assms(1) parse_known [of s st m] by simp
qed

section \<open>Life cycle\<close>

text \<open>What the driver has acquired; \<open>drv_alive\<close> is the memory the notifiers point into.\<close>

record erp_st =
  drv_alive :: bool
  edac_allocated :: bool
  edac_added :: bool
  panic_nb :: bool
  pm_nb :: bool
  drvdata_set :: bool
  dirents :: nat
  percpu :: bool
  percpu_irq :: bool
  ppi :: int
  threaded :: "int list"
  affinity :: "(int \<times> nat) list"

text \<open>The answers: for each interrupt its number, then whether the request succeeds.\<close>

record irq_answer =
  irq_no :: int
  percpu_ok :: bool
  request_rc :: int

record probe_env =
  drv_ok :: bool
  edac_ok :: bool
  add_rc :: int
  cpus :: "nat list"
  irqs :: "irq_answer list"
  irq_count :: int
  pkg :: "nat \<Rightarrow> int"
  cluster :: "nat \<Rightarrow> int"

definition request_erp_irq :: "irq_answer \<Rightarrow> bool \<Rightarrow> erp_st \<Rightarrow> int \<times> erp_st" where
  "request_erp_irq a is_percpu s =
     (if irq_no a < 0 then (- EINVAL, s)
      else if \<not> is_percpu then
        (if request_rc a \<noteq> 0 then (- EINVAL, s) else (0, s\<lparr>threaded := irq_no a # threaded s\<rparr>))
      else if \<not> percpu_ok a then (- EINVAL, s\<lparr>percpu := False\<rparr>)
      else if request_rc a \<noteq> 0 then (- EINVAL, s\<lparr>percpu := False\<rparr>)
      else (0, s\<lparr>percpu := True, percpu_irq := True, ppi := irq_no a\<rparr>))"

text \<open>The affinity of a cluster's L3 interrupt: the first CPU of package or cluster \<open>n\<close>.\<close>

definition set_l3_affinity :: "probe_env \<Rightarrow> int \<Rightarrow> int \<Rightarrow> erp_st \<Rightarrow> erp_st" where
  "set_l3_affinity e irq n s =
     (case find (\<lambda>cpu. pkg e cpu = n \<or> cluster e cpu = n) (cpus e) of
        None \<Rightarrow> s
      | Some cpu \<Rightarrow> s\<lparr>affinity := (irq, cpu) # affinity s\<rparr>)"

definition request_all :: "probe_env \<Rightarrow> erp_st \<Rightarrow> int \<times> erp_st" where
  "request_all e s =
     (let (r1, s) = request_erp_irq (irqs e ! 0) True s;
          (r2, s) = request_erp_irq (irqs e ! 1) False s;
          (r3, s) = request_erp_irq (irqs e ! 2) False s;
          s = (if r3 \<noteq> 0 then s else set_l3_affinity e (irq_no (irqs e ! 2)) 0 s);
          (r4, s) = request_erp_irq (irqs e ! 3) False s;
          s = (if r4 \<noteq> 0 then s else set_l3_affinity e (irq_no (irqs e ! 3)) 1 s) in
      (int (length (filter (\<lambda>r. r \<noteq> 0) [r1, r2, r3, r4])), s))"

definition probe_out_mem :: "erp_st \<Rightarrow> erp_st" where
  "probe_out_mem s = s\<lparr>edac_allocated := False\<rparr>"

definition probe_out_dev :: "erp_st \<Rightarrow> erp_st" where
  "probe_out_dev s = probe_out_mem (s\<lparr>edac_added := False\<rparr>)"

text \<open>
  After an error the driver core frees what is managed: the driver data and the threaded
  interrupts.
\<close>

definition devres_release :: "erp_st \<Rightarrow> erp_st" where
  "devres_release s = s\<lparr>drv_alive := False, threaded := []\<rparr>"

definition kryo_cpu_erp_probe :: "probe_env \<Rightarrow> erp_st \<Rightarrow> int \<times> erp_st" where
  "kryo_cpu_erp_probe e s =
     (if \<not> drv_ok e then (- ENOMEM, s)
      else let s = s\<lparr>drv_alive := True\<rparr> in
      if \<not> edac_ok e then (- ENOMEM, devres_release s)
      else let s = s\<lparr>edac_allocated := True, panic_nb := True\<rparr> in
      if add_rc e \<noteq> 0 then (add_rc e, devres_release (probe_out_mem s))
      else let s = s\<lparr>edac_added := True, drvdata_set := True, dirents := dirents s + 6 * length (cpus e)\<rparr>;
               (fail, s) = request_all e s in
      if irq_count e \<le> 0 then (- EINVAL, devres_release (probe_out_dev s))
      else if fail \<ge> irq_count e then (- ENODEV, devres_release (probe_out_dev s))
      else (0, s\<lparr>pm_nb := True\<rparr>))"

definition kryo_cpu_erp_remove :: "erp_st \<Rightarrow> int \<times> erp_st" where
  "kryo_cpu_erp_remove s =
     (let s = (if percpu s then s\<lparr>percpu_irq := False, percpu := False\<rparr> else s) in
      (0, devres_release (s\<lparr>pm_nb := False, edac_added := False, edac_allocated := False\<rparr>)))"

definition erp_init :: erp_st where
  "erp_init = \<lparr>drv_alive = False, edac_allocated = False, edac_added = False, panic_nb = False, pm_nb = False,
     drvdata_set = False, dirents = 0, percpu = False, percpu_irq = False, ppi = 0, threaded = [], affinity = []\<rparr>"

text \<open>Requesting interrupts touches only the interrupts.\<close>

definition erp_kept :: "erp_st \<Rightarrow> erp_st \<Rightarrow> bool" where
  "erp_kept s s' \<longleftrightarrow> edac_allocated s' = edac_allocated s \<and> edac_added s' = edac_added s \<and>
     panic_nb s' = panic_nb s \<and> pm_nb s' = pm_nb s \<and> drv_alive s' = drv_alive s \<and> dirents s' = dirents s"

lemma erp_kept_refl [simp]: "erp_kept s s"
  by (simp add: erp_kept_def)

lemma request_kept: "erp_kept s t \<Longrightarrow> erp_kept s (snd (request_erp_irq a b t))"
  by (simp add: request_erp_irq_def erp_kept_def)

lemma affinity_kept: "erp_kept s t \<Longrightarrow> erp_kept s (set_l3_affinity e i n t)"
  by (simp add: set_l3_affinity_def erp_kept_def split: option.split)

lemma request_threaded_percpu [simp]:
  "percpu_irq (snd (request_erp_irq a False s)) = percpu_irq s"
  "percpu (snd (request_erp_irq a False s)) = percpu s"
  by (simp_all add: request_erp_irq_def)

lemma affinity_percpu [simp]:
  "percpu_irq (set_l3_affinity e i n s) = percpu_irq s" "percpu (set_l3_affinity e i n s) = percpu s"
  by (simp_all add: set_l3_affinity_def split: option.split)

lemma request_percpu:
  "\<not> percpu s \<Longrightarrow> \<not> percpu_irq s \<Longrightarrow>
    percpu_irq (snd (request_erp_irq a True s)) = percpu (snd (request_erp_irq a True s))"
  by (simp add: request_erp_irq_def)

text \<open>The state after all requests, without the counting.\<close>

lemma request_all_snd:
  "snd (request_all e s) =
    (let s1 = snd (request_erp_irq (irqs e ! 0) True s);
         s2 = snd (request_erp_irq (irqs e ! 1) False s1);
         s3 = snd (request_erp_irq (irqs e ! 2) False s2);
         s3' = (if fst (request_erp_irq (irqs e ! 2) False s2) \<noteq> 0 then s3
                else set_l3_affinity e (irq_no (irqs e ! 2)) 0 s3);
         s4 = snd (request_erp_irq (irqs e ! 3) False s3') in
     if fst (request_erp_irq (irqs e ! 3) False s3') \<noteq> 0 then s4
     else set_l3_affinity e (irq_no (irqs e ! 3)) 1 s4)"
  unfolding request_all_def Let_def case_prod_beta snd_conv fst_conv by (rule refl)

lemma request_all_percpu:
  "\<not> percpu s \<Longrightarrow> \<not> percpu_irq s \<Longrightarrow> percpu_irq (snd (request_all e s)) = percpu (snd (request_all e s))"
  unfolding request_all_snd Let_def by (simp add: request_percpu)

lemma request_all_kept: "erp_kept s (snd (request_all e s))"
  unfolding request_all_snd Let_def
  by (auto intro!: request_kept affinity_kept)

text \<open>Removing the driver gives back what a successful probe took, but the panic notifier and the
  directory references stay, although the driver data is gone.\<close>

lemma erp_remove_after_probe:
  assumes "kryo_cpu_erp_probe e erp_init = (0, s)"
  shows "snd (kryo_cpu_erp_remove s) = s\<lparr>drv_alive := False, edac_allocated := False, edac_added := False,
      pm_nb := False, percpu := False, percpu_irq := False, threaded := []\<rparr> \<and>
    panic_nb (snd (kryo_cpu_erp_remove s)) \<and> \<not> drv_alive (snd (kryo_cpu_erp_remove s))"
proof -
  define s0 where "s0 = erp_init\<lparr>drv_alive := True, edac_allocated := True, panic_nb := True,
      edac_added := True, drvdata_set := True, dirents := 6 * length (cpus e)\<rparr>"
  define s1 where "s1 = snd (request_all e s0)"
  have s: "s = s1\<lparr>pm_nb := True\<rparr>"
    using assms by (auto simp: kryo_cpu_erp_probe_def Let_def erp_init_def s0_def s1_def
        split: if_splits prod.splits)
  have "percpu_irq s1 = percpu s1"
    unfolding s1_def by (rule request_all_percpu) (simp_all add: s0_def erp_init_def)
  moreover have "erp_kept s0 s1" unfolding s1_def by (rule request_all_kept)
  ultimately show ?thesis
    by (cases "percpu s1")
      (simp_all add: s kryo_cpu_erp_remove_def devres_release_def Let_def erp_kept_def s0_def)
qed

text \<open>Every failing probe after the first allocation leaves the panic notifier in place as well.\<close>

lemma erp_probe_failure_dangles:
  assumes "kryo_cpu_erp_probe e erp_init = (r, s)" and "r \<noteq> 0" and "drv_ok e" and "edac_ok e"
  shows "panic_nb s \<and> \<not> drv_alive s"
proof -
  define s0 where "s0 = erp_init\<lparr>drv_alive := True, edac_allocated := True, panic_nb := True,
      edac_added := True, drvdata_set := True, dirents := 6 * length (cpus e)\<rparr>"
  have k: "panic_nb (snd (request_all e s0))"
    using request_all_kept [of s0 e] by (simp add: erp_kept_def s0_def)
  show ?thesis
    using assms k by (auto simp: kryo_cpu_erp_probe_def Let_def erp_init_def s0_def devres_release_def
        probe_out_mem_def probe_out_dev_def split: if_splits prod.splits)
qed

text \<open>A probe that gives up after the per-CPU interrupt was requested leaves it requested.\<close>

lemma erp_probe_failure_keeps_irq:
  "\<exists>e s. kryo_cpu_erp_probe e erp_init = (- EINVAL, s) \<and> percpu_irq s \<and> \<not> drv_alive s"
proof -
  let ?a = "\<lparr>irq_no = 17, percpu_ok = True, request_rc = 0\<rparr> :: irq_answer"
  let ?e = "\<lparr>drv_ok = True, edac_ok = True, add_rc = 0, cpus = [], irqs = [?a, ?a, ?a, ?a], irq_count = 0,
    pkg = \<lambda>_. 0, cluster = \<lambda>_. 0\<rparr> :: probe_env"
  obtain r s where p: "kryo_cpu_erp_probe ?e erp_init = (r, s)" by (cases "kryo_cpu_erp_probe ?e erp_init") auto
  then have "r = - EINVAL" "percpu_irq s" "\<not> drv_alive s"
    by (auto simp: kryo_cpu_erp_probe_def request_all_def request_erp_irq_def set_l3_affinity_def erp_init_def
        devres_release_def probe_out_dev_def probe_out_mem_def numeral_2_eq_2 numeral_3_eq_3 Let_def)
  with p show ?thesis by blast
qed

end
