(* ===== verification/MhiNet.thy ===== *)
theory MhiNet
  imports KPrelude
begin

text \<open>
  Model of \<open>drivers/mhi_ep_net.c\<close>, the network interface over the MHI endpoint: packets of
  the stack are queued, a work item hands them to MHI, and received transfers become packets. The
  state holds the queue, the flags of the interface, the statistics and the fate of every packet:
  \<open>sent\<close> (accepted by MHI), \<open>freed\<close>, \<open>received\<close> (given to the stack) and
  \<open>lost\<close> (still allocated, with no reference left). MHI, the allocator and the work queue
  are answers of the environment. The sequence counters of the statistics are not modelled: a read
  sees one consistent state.
\<close>

record sk_buff =
  skb_len :: u32
  skb_data :: "u8 list"
  skb_protocol :: string

record mhi_ep_net_stats =
  rx_packets :: u64
  rx_bytes :: u64
  rx_errors :: u64
  tx_packets :: u64
  tx_bytes :: u64
  tx_errors :: u64
  tx_dropped :: u64

record mhi_ep_net_dev =
  stats :: mhi_ep_net_stats
  xmit_wq :: ptr
  tx_buffers :: "sk_buff list"
  mru :: u32

record net_st = mhi_ep_net_dev +
  carrier :: bool
  stopped :: bool
  work_queued :: bool
  mtu :: u32
  registered :: bool
  allocated :: bool
  drvdata :: bool
  sent :: "sk_buff list"
  freed :: "sk_buff list"
  received :: "sk_buff list"
  lost :: "sk_buff list"

section \<open>Transmission\<close>

text \<open>
  \<open>ans i\<close> is what MHI answers for the \<open>i\<close>-th packet: the result of queueing it and
  whether its ring is empty afterwards. The local queue \<open>q\<close> dies with the function.
\<close>

fun process_packets :: "(nat \<Rightarrow> int \<times> bool) \<Rightarrow> nat \<Rightarrow> sk_buff list \<Rightarrow> net_st \<Rightarrow> net_st" where
  "process_packets ans i [] s = s"
| "process_packets ans i (skb # q) s =
     (if fst (ans i) \<noteq> 0
      then s\<lparr>freed := freed s @ [skb], lost := lost s @ q,
             stats := stats s\<lparr>tx_dropped := tx_dropped (stats s) + 1\<rparr>\<rparr>
      else let s = s\<lparr>sent := sent s @ [skb],
                     stats := stats s\<lparr>tx_packets := tx_packets (stats s) + 1,
                                      tx_bytes := tx_bytes (stats s) + ucast (skb_len skb)\<rparr>\<rparr> in
      if snd (ans i) then s\<lparr>stopped := True, lost := lost s @ skb # q\<rparr>
      else process_packets ans (Suc i) q (s\<lparr>freed := freed s @ [skb]\<rparr>))"

definition mhi_ep_net_dev_process_queue_packets ::
  "bool \<Rightarrow> (nat \<Rightarrow> int \<times> bool) \<Rightarrow> net_st \<Rightarrow> net_st" where
  "mhi_ep_net_dev_process_queue_packets ring_empty ans s =
     (if ring_empty then s\<lparr>stopped := True\<rparr>
      else process_packets ans 0 (tx_buffers s) (s\<lparr>tx_buffers := []\<rparr>))"

definition mhi_ndo_open :: "net_st \<Rightarrow> int \<times> net_st" where
  "mhi_ndo_open s = (0, s\<lparr>carrier := True, stopped := False\<rparr>)"

definition mhi_ndo_stop :: "net_st \<Rightarrow> int \<times> net_st" where
  "mhi_ndo_stop s = (0, s\<lparr>stopped := True, carrier := False\<rparr>)"

text \<open>Queueing work on a work queue that does not exist is a crash.\<close>

definition queue_work :: "net_st \<Rightarrow> net_st option" where
  "queue_work s = (if xmit_wq s = 0 then None else Some (s\<lparr>work_queued := True\<rparr>))"

definition mhi_ndo_xmit :: "sk_buff \<Rightarrow> net_st \<Rightarrow> net_st option" where
  "mhi_ndo_xmit skb s = queue_work (s\<lparr>tx_buffers := tx_buffers s @ [skb]\<rparr>)"

definition mhi_ndo_get_stats64 :: "net_st \<Rightarrow> mhi_ep_net_stats" where
  "mhi_ndo_get_stats64 s = stats s"

text \<open>The work item runs when it is queued.\<close>

definition run_work :: "bool \<Rightarrow> (nat \<Rightarrow> int \<times> bool) \<Rightarrow> net_st \<Rightarrow> net_st" where
  "run_work ring_empty ans s =
     (if work_queued s
      then mhi_ep_net_dev_process_queue_packets ring_empty ans (s\<lparr>work_queued := False\<rparr>)
      else s)"

section \<open>Reception\<close>

record mhi_result =
  buf :: "u8 list"
  bytes_xferd :: u64
  transaction_status :: int

definition protocol_of :: "u8 \<Rightarrow> string" where
  "protocol_of b =
     (if b AND 0xf0 = 0x40 then ''ETH_P_IP'' else if b AND 0xf0 = 0x60 then ''ETH_P_IPV6'' else ''ETH_P_MAP'')"

text \<open>
  \<open>fresh\<close> is the memory of a new packet buffer, \<open>None\<close> when the allocation fails. Copying
  more than it holds is a crash. \<open>skb_put\<close> adds to the length that the code has set before.
\<close>

definition mhi_ep_net_ul_callback :: "(u64 \<Rightarrow> u8 list option) \<Rightarrow> mhi_result \<Rightarrow> net_st \<Rightarrow> net_st option" where
  "mhi_ep_net_ul_callback fresh res s =
     (let size = (if mru s \<noteq> 0 then ucast (mru s) else ucast (mtu s)) in
      case fresh size of
        None \<Rightarrow> Some (s\<lparr>stats := stats s\<lparr>rx_errors := rx_errors (stats s) + 1\<rparr>\<rparr>)
      | Some mem \<Rightarrow>
          let n = unat (bytes_xferd res) in
          if length mem < n \<or> length (buf res) < n then None
          else
            let data = take n (buf res) @ drop n mem;
                len = (ucast (bytes_xferd res) :: u32);
                skb = \<lparr>skb_len = len, skb_data = data, skb_protocol = []\<rparr> in
            if transaction_status res \<noteq> 0 then
              (if transaction_status res = - ENOTCONN then Some (s\<lparr>freed := freed s @ [skb]\<rparr>)
               else Some (s\<lparr>freed := freed s @ [skb],
                            stats := stats s\<lparr>rx_errors := rx_errors (stats s) + 1\<rparr>\<rparr>))
            else
              (let skb = skb\<lparr>skb_len := skb_len skb + len\<rparr> in
               case data of
                 [] \<Rightarrow> None
               | b # _ \<Rightarrow>
                   let skb = skb\<lparr>skb_protocol := protocol_of b\<rparr> in
                   Some (s\<lparr>stats := stats s\<lparr>rx_packets := rx_packets (stats s) + 1,
                                            rx_bytes := rx_bytes (stats s) + ucast (skb_len skb)\<rparr>,
                           received := received s @ [skb]\<rparr>)))"

definition mhi_ep_net_dl_callback :: "mhi_result \<Rightarrow> net_st \<Rightarrow> net_st option" where
  "mhi_ep_net_dl_callback res s =
     (if transaction_status res = - ENOTCONN then Some s
      else if stopped s then queue_work (s\<lparr>stopped := False\<rparr>)
      else Some s)"

section \<open>Life cycle\<close>

definition zero_stats :: mhi_ep_net_stats where
  "zero_stats = \<lparr>rx_packets = 0, rx_bytes = 0, rx_errors = 0, tx_packets = 0, tx_bytes = 0,
     tx_errors = 0, tx_dropped = 0\<rparr>"

text \<open>What the setup function configures: a raw-IP point-to-point link without link-level header or
  address resolution. The default MTU is MHI's; \<open>ETH_MIN_MTU\<close> is 68.\<close>

datatype link_type = ARPHRD_RAWIP

datatype link_flag = IFF_POINTOPOINT | IFF_NOARP

record net_link =
  has_header_ops :: bool
  link_type :: link_type
  hard_header_len :: nat
  addr_len :: nat
  link_flags :: "link_flag set"
  link_mtu :: u32
  min_mtu :: u32
  max_mtu :: u32
  tx_queue_len :: nat

definition MHI_NET_MIN_MTU :: u32 where "MHI_NET_MIN_MTU = 68"
definition MHI_NET_MAX_MTU :: u32 where "MHI_NET_MAX_MTU = 0xffff"

definition mhi_ep_net_setup :: "u32 \<Rightarrow> net_link" where
  "mhi_ep_net_setup mhi_default_mtu =
     \<lparr>has_header_ops = False, link_type = ARPHRD_RAWIP, hard_header_len = 0, addr_len = 0,
      link_flags = {IFF_POINTOPOINT, IFF_NOARP}, link_mtu = mhi_default_mtu,
      min_mtu = MHI_NET_MIN_MTU, max_mtu = MHI_NET_MAX_MTU, tx_queue_len = 1000\<rparr>"

text \<open>A fresh network device: its private part is zeroed and the setup function has run.\<close>

definition fresh_netdev :: "u32 \<Rightarrow> net_st" where
  "fresh_netdev mhi_default_mtu =
     \<lparr>stats = zero_stats, xmit_wq = 0, tx_buffers = [], mru = 0, carrier = True, stopped = False,
      work_queued = False, mtu = link_mtu (mhi_ep_net_setup mhi_default_mtu), registered = False, allocated = True, drvdata = False,
      sent = [], freed = [], received = [], lost = []\<rparr>"

text \<open>
  Destroying the work queue first runs what is queued on it; \<open>ring_empty\<close> and \<open>ans\<close> are
  MHI's answers then. Destroying one that was never allocated is a crash.
\<close>

definition destroy_workqueue :: "bool \<Rightarrow> (nat \<Rightarrow> int \<times> bool) \<Rightarrow> net_st \<Rightarrow> net_st option" where
  "destroy_workqueue ring_empty ans s =
     (if xmit_wq s = 0 then None else Some ((run_work ring_empty ans s)\<lparr>xmit_wq := 0\<rparr>))"

definition mhi_ep_net_newlink :: "ptr \<Rightarrow> int \<Rightarrow> u32 \<Rightarrow> net_st \<Rightarrow> (int \<times> net_st) option" where
  "mhi_ep_net_newlink wq register_rc cntrl_mru s =
     (let s = s\<lparr>drvdata := True, mru := cntrl_mru, tx_buffers := [], xmit_wq := wq\<rparr> in
      if register_rc \<noteq> 0
      then map_option (Pair register_rc) (destroy_workqueue True (\<lambda>_. (0, False)) s)
      else Some (0, s\<lparr>registered := True\<rparr>))"

text \<open>Removing the interface: once the work queue is gone the interface is unregistered and freed. The
  packets left in the queue have no owner afterwards.\<close>

definition unregister_and_free :: "net_st \<Rightarrow> net_st" where
  "unregister_and_free s =
     s\<lparr>registered := False, allocated := False, drvdata := False, lost := lost s @ tx_buffers s,
       tx_buffers := []\<rparr>"

definition mhi_ep_net_dellink :: "bool \<Rightarrow> (nat \<Rightarrow> int \<times> bool) \<Rightarrow> net_st \<Rightarrow> net_st option" where
  "mhi_ep_net_dellink ring_empty ans s =
     map_option unregister_and_free (destroy_workqueue ring_empty ans s)"

text \<open>The probe returns the error, or zero and the interface; \<open>None\<close> is a crash.\<close>

definition mhi_ep_net_probe :: "bool \<Rightarrow> u32 \<Rightarrow> ptr \<Rightarrow> int \<Rightarrow> u32 \<Rightarrow> (int \<times> net_st option) option" where
  "mhi_ep_net_probe alloc_ok default_mtu wq register_rc cntrl_mru =
     (if \<not> alloc_ok then Some (- ENOMEM, None)
      else case mhi_ep_net_newlink wq register_rc cntrl_mru (fresh_netdev default_mtu) of
        None \<Rightarrow> None
      | Some (ret, s) \<Rightarrow>
          if ret \<noteq> 0 then Some (ret, Some (s\<lparr>allocated := False\<rparr>)) else Some (0, Some s))"

definition mhi_ep_net_remove :: "bool \<Rightarrow> (nat \<Rightarrow> int \<times> bool) \<Rightarrow> net_st \<Rightarrow> net_st option" where
  "mhi_ep_net_remove ring_empty ans s = mhi_ep_net_dellink ring_empty ans s"

section \<open>Properties\<close>

text \<open>The fate of a queue: how many packets MHI accepts, how many are freed, and whether the run
  ends with a drop.\<close>

fun fate :: "(nat \<Rightarrow> int \<times> bool) \<Rightarrow> nat \<Rightarrow> nat \<Rightarrow> nat \<times> nat \<times> bool" where
  "fate ans i 0 = (0, 0, False)"
| "fate ans i (Suc len) =
     (if fst (ans i) \<noteq> 0 then (0, 1, True)
      else if snd (ans i) then (1, 0, False)
      else (case fate ans (Suc i) len of (k, n, d) \<Rightarrow> (Suc k, Suc n, d)))"

definition after_run :: "nat \<times> nat \<times> bool \<Rightarrow> sk_buff list \<Rightarrow> net_st \<Rightarrow> net_st" where
  "after_run f q s = (case f of (k, n, d) \<Rightarrow>
     s\<lparr>sent := sent s @ take k q, freed := freed s @ take n q, lost := lost s @ drop n q,
       stopped := stopped s \<or> n < k,
       stats := stats s\<lparr>tx_packets := tx_packets (stats s) + of_nat k,
                        tx_bytes := tx_bytes (stats s) + (\<Sum>skb \<leftarrow> take k q. ucast (skb_len skb)),
                        tx_dropped := tx_dropped (stats s) + (if d then 1 else 0)\<rparr>\<rparr>)"

lemma process_packets_fate: "process_packets ans i q s = after_run (fate ans i (length q)) q s"
proof (induction q arbitrary: i s)
  case Nil
  show ?case by (simp add: after_run_def)
next
  case (Cons skb q)
  obtain k n d where f: "fate ans (Suc i) (length q) = (k, n, d)" by (cases "fate ans (Suc i) (length q)") auto
  show ?case by (simp add: Let_def Cons.IH after_run_def f)
qed

lemma fate_cases:
  assumes "fate ans i len = (k, n, d)"
  shows "k \<le> len \<and> n \<le> len \<and> (if d then n = Suc k else n = k \<and> k = len \<or> Suc n = k)"
  using assms
proof (induction len arbitrary: i k n)
  case 0
  then show ?case by auto
next
  case (Suc len)
  obtain k' n' d' where f: "fate ans (Suc i) len = (k', n', d')" by (cases "fate ans (Suc i) len") auto
  show ?case using Suc.prems Suc.IH [of "Suc i" k' n'] by (auto simp: f split: if_splits)
qed

lemma fate_all:
  assumes "\<And>j. i \<le> j \<Longrightarrow> j < i + len \<Longrightarrow> ans j = (0, False)"
  shows "fate ans i len = (len, len, False)"
  using assms by (induction len arbitrary: i) auto

text \<open>C31: One run of the work item hands the packets to MHI in the order the stack queued them:
  what MHI accepts is a prefix of the queue, counted packet by packet and byte by byte. The queue is
  split into packets that are freed and packets that are lost, nothing is in both; packets are lost
  exactly when MHI refuses one or has no more buffers, and with enough buffers all are sent and
  freed.\<close>

theorem transmission_accounts:
  assumes "s' = mhi_ep_net_dev_process_queue_packets False ans s" and "tx_buffers s = q"
  shows "\<exists>k n. sent s' = sent s @ take k q \<and> tx_packets (stats s') = tx_packets (stats s) + of_nat k \<and>
    tx_bytes (stats s') = tx_bytes (stats s) + (\<Sum>skb \<leftarrow> take k q. ucast (skb_len skb)) \<and>
    freed s' = freed s @ take n q \<and> lost s' = lost s @ drop n q \<and> tx_buffers s' = [] \<and>
    k \<le> length q \<and> n \<le> length q \<and> (n = Suc k \<or> Suc n = k \<or> n = length q \<and> k = length q) \<and>
    ((\<forall>j < length q. ans j = (0, False)) \<longrightarrow> k = length q \<and> n = length q)"
proof -
  obtain k n d where f: "fate ans 0 (length q) = (k, n, d)" by (cases "fate ans 0 (length q)") auto
  have s': "s' = after_run (k, n, d) q (s\<lparr>tx_buffers := []\<rparr>)"
    using assms by (simp add: mhi_ep_net_dev_process_queue_packets_def process_packets_fate f)
  have "(\<forall>j < length q. ans j = (0, False)) \<longrightarrow> k = length q \<and> n = length q"
    using fate_all [of 0 "length q" ans] f by auto
  then show ?thesis
    using fate_cases [OF f] by (intro exI [of _ k] exI [of _ n]) (auto simp: s' after_run_def split: if_splits)
qed

definition example_packet :: "u32 \<Rightarrow> sk_buff" where
  "example_packet len = \<lparr>skb_len = len, skb_data = [], skb_protocol = []\<rparr>"

definition queued :: net_st where
  "queued = (fresh_netdev 1500)\<lparr>tx_buffers := [example_packet 10, example_packet 20, example_packet 30],
     xmit_wq := 4096\<rparr>"

theorem transmission_accounts_witness:
  "\<exists>k. sent (mhi_ep_net_dev_process_queue_packets False (\<lambda>_. (0, False)) queued) =
      take k [example_packet 10, example_packet 20, example_packet 30] \<and> k = 3"
proof -
  have "tx_buffers queued = [example_packet 10, example_packet 20, example_packet 30]" "sent queued = []"
    by (simp_all add: queued_def fresh_netdev_def mhi_ep_net_setup_def)
  with transmission_accounts [OF refl this(1), of "\<lambda>_. (0, False)"] show ?thesis by auto
qed

text \<open>MHI's ring fills up after the first of three packets: none is ever freed, two are never sent.\<close>

lemma full_ring_loses_packets:
  "lost (mhi_ep_net_dev_process_queue_packets False (\<lambda>_. (0, True)) queued) =
     [example_packet 10, example_packet 20, example_packet 30]"
  by (simp add: mhi_ep_net_dev_process_queue_packets_def queued_def fresh_netdev_def mhi_ep_net_setup_def Let_def)

text \<open>A refused packet is counted as one drop; the packets behind it vanish uncounted.\<close>

lemma refusal_loses_packets:
  "lost (mhi_ep_net_dev_process_queue_packets False (\<lambda>_. (- 5, False)) queued) =
     [example_packet 20, example_packet 30] \<and>
   tx_dropped (stats (mhi_ep_net_dev_process_queue_packets False (\<lambda>_. (- 5, False)) queued)) = 1"
  by (simp add: mhi_ep_net_dev_process_queue_packets_def queued_def fresh_netdev_def mhi_ep_net_setup_def zero_stats_def)

text \<open>A received packet: its protocol follows from the first byte, and it claims twice the bytes
  that were transferred, in its length and in the statistics.\<close>

lemma received_length_doubled:
  assumes "fresh (if mru s \<noteq> 0 then ucast (mru s) else ucast (mtu s)) = Some mem"
    and "unat (bytes_xferd res) = n" and "n \<le> length mem" and "length (buf res) = n"
    and "buf res = b # bs" and "transaction_status res = 0"
  shows "\<exists>s'. mhi_ep_net_ul_callback fresh res s = Some s' \<and>
    received s' = received s @ [\<lparr>skb_len = ucast (bytes_xferd res) + ucast (bytes_xferd res),
      skb_data = buf res @ drop (length (buf res)) mem, skb_protocol = protocol_of b\<rparr>] \<and>
    rx_bytes (stats s') = rx_bytes (stats s) + ucast (ucast (bytes_xferd res) + ucast (bytes_xferd res) :: u32)"
  using assms by (auto simp: mhi_ep_net_ul_callback_def Let_def)

text \<open>A transfer larger than the packet buffer is copied past its end.\<close>

lemma large_transfer_overflows:
  assumes "fresh (if mru s \<noteq> 0 then ucast (mru s) else ucast (mtu s)) = Some mem"
    and "length mem < unat (bytes_xferd res)"
  shows "mhi_ep_net_ul_callback fresh res s = None"
  using assms by (simp add: mhi_ep_net_ul_callback_def Let_def)

text \<open>The work queue may not exist: the interface is registered all the same and the first packet
  crashes.\<close>

lemma missing_work_queue_crashes:
  "\<exists>s. mhi_ep_net_probe True 1500 0 0 0 = Some (0, Some s) \<and> registered s \<and> mhi_ndo_xmit skb s = None"
  by (simp add: mhi_ep_net_probe_def mhi_ep_net_newlink_def mhi_ndo_xmit_def queue_work_def)

text \<open>When the registration fails too, the error path destroys the queue that was never allocated.\<close>

lemma failed_probe_crashes: "rc \<noteq> 0 \<Longrightarrow> mhi_ep_net_probe True default_mtu 0 rc cntrl_mru = None"
  by (simp add: mhi_ep_net_probe_def mhi_ep_net_newlink_def destroy_workqueue_def)

text \<open>Packets still queued when the interface goes away are never freed.\<close>

lemma dellink_loses_packets:
  "map_option lost (mhi_ep_net_dellink True ans queued)
     = Some [example_packet 10, example_packet 20, example_packet 30]"
  by (simp add: mhi_ep_net_dellink_def destroy_workqueue_def unregister_and_free_def run_work_def queued_def
      fresh_netdev_def mhi_ep_net_setup_def)

text \<open>The work queue is destroyed while the interface is still registered: a packet the stack sends
  in between is queued on a work queue that is gone.\<close>

lemma packet_after_destroy_crashes:
  assumes "destroy_workqueue ring_empty ans s = Some s'" "registered s"
  shows "registered s' \<and> mhi_ndo_xmit skb s' = None"
proof -
  have reg: "registered (process_packets a i q t) = registered t" for a i q and t :: net_st
    by (simp add: process_packets_fate after_run_def split: prod.splits)
  with assms show ?thesis
    by (auto simp: destroy_workqueue_def run_work_def mhi_ep_net_dev_process_queue_packets_def
        mhi_ndo_xmit_def queue_work_def split: if_splits)
qed

end
