(* ===== verification/CarveoutHeap.thy ===== *)
theory CarveoutHeap
  imports KPrelude
begin

text \<open>
  Model of \<open>drivers/qcom_carveout_heap.c\<close>, the dma-buf heap over a reserved region of
  memory: creation and destruction of the heap, allocation of a buffer with its error paths, and
  the release, which clears the pages and gives the block back. The kernel's pool allocator is a
  parameter: what it hands out depends on the chunks of memory that were added to the pool and on
  the blocks in use. The locale \<open>gen_pool\<close> is its promise that a block it hands out is page-aligned,
  lies inside a chunk and overlaps no block in use. The state counts the heap's objects, lists the
  blocks the pool has handed out and the pages cleared.
\<close>

section \<open>Data\<close>

text \<open>The pool of the heap, with the memory that was added to it, base and size of each chunk.\<close>

type_synonym chunk = "u64 \<times> u64"
type_synonym pool_alloc = "chunk list \<Rightarrow> (u64 \<times> u64) list \<Rightarrow> u64 \<Rightarrow> u64"

record carveout_heap =
  pool :: bool
  chunks :: "chunk list"
  is_nomap :: bool
  cbase :: u64
  csize :: u64

record carve_st =
  heap :: carveout_heap
  blocks :: "(u64 \<times> u64) list"
  bufs :: int
  tables :: int
  zeroed :: "u64 list"

text \<open>A buffer: the frame of its only scatter entry and its length.\<close>

record carve_buf =
  bpage :: u64
  buf_len :: u64

record carve_env =
  kzalloc_buf :: bool
  table_rc :: int
  export :: ptr
  vmap_ok :: "nat \<Rightarrow> bool"

definition PFN_DOWN :: "u64 \<Rightarrow> u64" where "PFN_DOWN x = drop_bit 12 x"
definition page_to_phys :: "u64 \<Rightarrow> u64" where "page_to_phys p = push_bit 12 p"
definition CARVEOUT_ALLOCATE_FAIL :: u64 where "CARVEOUT_ALLOCATE_FAIL = - 1"

section \<open>Blocks\<close>

definition carveout_allocate ::
  "pool_alloc \<Rightarrow> u64 \<Rightarrow> carve_st \<Rightarrow> u64 \<times> carve_st" where
  "carveout_allocate galloc sz s =
     (if pool (heap s) then
        (let offset = galloc (chunks (heap s)) (blocks s) sz in
         if offset = 0 then (CARVEOUT_ALLOCATE_FAIL, s)
         else (offset, s\<lparr>blocks := (offset, sz) # blocks s\<rparr>))
      else (CARVEOUT_ALLOCATE_FAIL, s))"

definition carveout_free :: "u64 \<Rightarrow> u64 \<Rightarrow> carve_st \<Rightarrow> carve_st" where
  "carveout_free addr sz s =
     (if addr = CARVEOUT_ALLOCATE_FAIL then s
      else if pool (heap s) then s\<lparr>blocks := remove1 (addr, sz) (blocks s)\<rparr> else s)"

definition carve_out_err :: "bool \<Rightarrow> bool \<Rightarrow> u64 \<Rightarrow> u64 \<Rightarrow> int \<Rightarrow> carve_st \<Rightarrow> (int + ptr \<times> carve_buf) \<times> carve_st" where
  "carve_out_err free_block free_table paddr len ret s =
     (let s = (if free_block then carveout_free paddr len s else s);
          s = (if free_table then s\<lparr>tables := tables s - 1\<rparr> else s) in
      (Inl ret, s\<lparr>bufs := bufs s - 1\<rparr>))"

definition carveout_heap_allocate ::
  "pool_alloc \<Rightarrow> carve_env \<Rightarrow> u64 \<Rightarrow> carve_st \<Rightarrow> (int + ptr \<times> carve_buf) \<times> carve_st" where
  "carveout_heap_allocate galloc e len s =
     (if \<not> kzalloc_buf e then (Inl (- ENOMEM), s)
      else let s = s\<lparr>bufs := bufs s + 1\<rparr> in
      if table_rc e \<noteq> 0 then carve_out_err False False 0 len (table_rc e) s
      else let s = s\<lparr>tables := tables s + 1\<rparr>;
               (paddr, s) = carveout_allocate galloc len s in
      if paddr = CARVEOUT_ALLOCATE_FAIL then carve_out_err False True paddr len (- ENOMEM) s
      else if IS_ERR (export e) then carve_out_err True True paddr len (PTR_ERR (export e)) s
      else (Inr (export e, \<lparr>bpage = PFN_DOWN paddr, buf_len = len\<rparr>), s))"

section \<open>Clearing\<close>

text \<open>Mapping a batch of pages and clearing it; \<open>vmap\<close> may fail.\<close>

definition carveout_heap_clear_pages :: "bool \<Rightarrow> u64 list \<Rightarrow> carve_st \<Rightarrow> int \<times> carve_st" where
  "carveout_heap_clear_pages ok pages s =
     (if \<not> ok then (- ENOMEM, s) else (0, s\<lparr>zeroed := zeroed s @ pages\<rparr>))"

text \<open>The loop over the pages, with the batch collected so far and the number of batches done.\<close>

fun carveout_heap_sglist_zero ::
  "(nat \<Rightarrow> bool) \<Rightarrow> nat \<Rightarrow> u64 list \<Rightarrow> u64 list \<Rightarrow> carve_st \<Rightarrow> int \<times> carve_st" where
  "carveout_heap_sglist_zero ok i batch [] s =
     (if batch \<noteq> [] then carveout_heap_clear_pages (ok i) batch s else (0, s))"
| "carveout_heap_sglist_zero ok i batch (p # ps) s =
     (let batch = batch @ [p] in
      if length batch = 32 then
        (let (ret, s) = carveout_heap_clear_pages (ok i) batch s in
         if ret \<noteq> 0 then (ret, s) else carveout_heap_sglist_zero ok (Suc i) [] ps s)
      else carveout_heap_sglist_zero ok i batch ps s)"

text \<open>The pages of one entry of the given length; a scatter entry keeps 32 bits of it.\<close>

definition page_run :: "u64 \<Rightarrow> u32 \<Rightarrow> u64 list" where
  "page_run page sz = map (\<lambda>i. page + of_nat i) [0..<(unat sz + 4095) div 4096]"

definition carveout_pages_zero :: "(nat \<Rightarrow> bool) \<Rightarrow> u64 \<Rightarrow> u64 \<Rightarrow> carve_st \<Rightarrow> int \<times> carve_st" where
  "carveout_pages_zero ok page sz s = carveout_heap_sglist_zero ok 0 [] (page_run page (ucast sz)) s"

definition carveout_heap_free :: "carve_env \<Rightarrow> carve_buf \<Rightarrow> carve_st \<Rightarrow> carve_st" where
  "carveout_heap_free e b s =
     (let s = snd (carveout_pages_zero (vmap_ok e) (bpage b) (buf_len b) s);
          s = carveout_free (page_to_phys (bpage b)) (buf_len b) s in
      s\<lparr>tables := tables s - 1, bufs := bufs s - 1\<rparr>)"

section \<open>The heap\<close>

text \<open>\<open>gen_pool_add\<close> adds a chunk, or fails for want of memory; its result is not looked at.\<close>

definition gen_pool_add :: "int \<Rightarrow> u64 \<Rightarrow> u64 \<Rightarrow> carveout_heap \<Rightarrow> carveout_heap" where
  "gen_pool_add add_rc addr sz h = (if add_rc = 0 then h\<lparr>chunks := (addr, sz) # chunks h\<rparr> else h)"

definition carveout_init_heap_memory ::
  "(nat \<Rightarrow> bool) \<Rightarrow> bool \<Rightarrow> int \<Rightarrow> u64 \<Rightarrow> u64 \<Rightarrow> carve_st \<Rightarrow> int \<times> carve_st" where
  "carveout_init_heap_memory ok pool_ok add_rc base sz s =
     (let (ret, s) = carveout_pages_zero ok (PFN_DOWN base) sz s in
      if ret \<noteq> 0 then (ret, s)
      else if \<not> pool_ok then (- ENOMEM, s)
      else let h = (heap s)\<lparr>pool := True, chunks := []\<rparr>;
               h = h\<lparr>cbase := base, csize := sz\<rparr>;
               h = gen_pool_add add_rc (cbase h) sz h in
        (0, s\<lparr>heap := h\<rparr>))"

definition carveout_heap_destroy :: "carve_st \<Rightarrow> carve_st" where
  "carveout_heap_destroy s = (if pool (heap s) then s\<lparr>heap := (heap s)\<lparr>pool := False, chunks := []\<rparr>\<rparr> else s)"

definition carve_empty :: carve_st where
  "carve_empty = \<lparr>heap = \<lparr>pool = False, chunks = [], is_nomap = False, cbase = 0, csize = 0\<rparr>, blocks = [], bufs = 0,
     tables = 0, zeroed = []\<rparr>"

text \<open>The second component is \<open>None\<close> when the heap structure is freed again.\<close>

definition qcom_carveout_heap_create ::
  "bool \<Rightarrow> (nat \<Rightarrow> bool) \<Rightarrow> bool \<Rightarrow> int \<Rightarrow> ptr \<Rightarrow> u64 \<Rightarrow> u64 \<Rightarrow> bool \<Rightarrow> int \<times> carve_st option" where
  "qcom_carveout_heap_create kzalloc_heap ok pool_ok add_rc added base sz nomap =
     (if \<not> kzalloc_heap then (- ENOMEM, None)
      else let (ret, s) = carveout_init_heap_memory ok pool_ok add_rc base sz carve_empty in
      if ret \<noteq> 0 then (ret, None)
      else let s = s\<lparr>heap := (heap s)\<lparr>is_nomap := nomap\<rparr>\<rparr> in
      if IS_ERR added then (let s = carveout_heap_destroy s in (PTR_ERR added, None))
      else (0, Some s))"

section \<open>The contract of the pool\<close>

definition blocks_apart :: "u64 \<times> u64 \<Rightarrow> u64 \<times> u64 \<Rightarrow> bool" where
  "blocks_apart a b \<longleftrightarrow>
     unat (fst a) + unat (snd a) \<le> unat (fst b) \<or> unat (fst b) + unat (snd b) \<le> unat (fst a)"

fun blocks_ok :: "(u64 \<times> u64) list \<Rightarrow> bool" where
  "blocks_ok [] \<longleftrightarrow> True"
| "blocks_ok (b # bs) \<longleftrightarrow> (\<forall>c \<in> set bs. blocks_apart b c) \<and> blocks_ok bs"

definition block_sound :: "u64 \<times> u64 \<Rightarrow> bool" where
  "block_sound b \<longleftrightarrow> 4096 dvd unat (fst b) \<and> fst b \<noteq> 0 \<and> 0 < unat (snd b)"

definition inside :: "u64 \<times> u64 \<Rightarrow> chunk list \<Rightarrow> bool" where
  "inside b cs \<longleftrightarrow> (\<exists>c \<in> set cs. unat (fst c) \<le> unat (fst b) \<and>
     unat (fst b) + unat (snd b) \<le> unat (fst c) + unat (snd c))"

locale gen_pool =
  fixes galloc :: pool_alloc
  assumes aligned: "galloc cs bs n = a \<Longrightarrow> 4096 dvd unat a"
    and apart: "galloc cs bs n = a \<Longrightarrow> a \<noteq> 0 \<Longrightarrow> b \<in> set bs \<Longrightarrow> blocks_apart (a, n) b"
    and contained: "galloc cs bs n = a \<Longrightarrow> a \<noteq> 0 \<Longrightarrow> inside (a, n) cs"

lemma phys_page: "4096 dvd unat a \<Longrightarrow> page_to_phys (PFN_DOWN a) = a"
proof (rule bit_word_eqI)
  fix i assume d: "4096 dvd unat a" and i: "i < LENGTH(64)"
  have low: "\<not> bit a i" if "i < 12"
  proof -
    have "take_bit 12 (unat a) = 0" using d by (simp add: take_bit_eq_mod dvd_eq_mod_eq_0)
    then have "\<not> bit (unat a) i" using that by (metis bit_0_eq bit_take_bit_iff bot_apply bot_bool_def)
    then show ?thesis by (simp add: bit_unsigned_iff i)
  qed
  show "bit (page_to_phys (PFN_DOWN a)) i = bit a i"
    using i low by (cases "i < 12") (auto simp: page_to_phys_def PFN_DOWN_def bit_push_bit_iff bit_drop_bit_eq)
qed

text \<open>Clearing page by page is the reference; the batches do not show.\<close>

lemma sglist_zero_all:
  assumes "\<And>j. ok j" and "length batch < 32"
  shows "carveout_heap_sglist_zero ok i batch ps s = (0, s\<lparr>zeroed := zeroed s @ batch @ ps\<rparr>)"
  using assms(2)
proof (induction ps arbitrary: i batch s)
  case Nil
  then show ?case by (simp add: carveout_heap_clear_pages_def assms(1))
next
  case (Cons p ps)
  show ?case
  proof (cases "length (batch @ [p]) = 32")
    case True
    then show ?thesis using Cons.IH [of "[]"] by (simp add: carveout_heap_clear_pages_def assms(1) Let_def)
  next
    case False
    then show ?thesis using Cons.IH [of "batch @ [p]"] Cons.prems by (simp add: Let_def)
  qed
qed

lemma sglist_zero_fields:
  "heap (snd (carveout_heap_sglist_zero ok i batch ps s)) = heap s \<and>
   blocks (snd (carveout_heap_sglist_zero ok i batch ps s)) = blocks s \<and>
   bufs (snd (carveout_heap_sglist_zero ok i batch ps s)) = bufs s \<and>
   tables (snd (carveout_heap_sglist_zero ok i batch ps s)) = tables s"
  by (induction ok i batch ps s rule: carveout_heap_sglist_zero.induct)
    (auto simp: carveout_heap_clear_pages_def Let_def split: if_splits)


section \<open>Runs\<close>

text \<open>The live buffers of the heap with its state: a successful allocation adds one, a release
  takes one away.\<close>

inductive carve_step ::
  "pool_alloc \<Rightarrow> carve_buf list \<times> carve_st \<Rightarrow> carve_buf list \<times> carve_st \<Rightarrow> bool"
  for galloc where
  allocated: "carveout_heap_allocate galloc e len s = (Inr (p, b), s') \<Longrightarrow> 0 < unat len \<Longrightarrow>
    carve_step galloc (bs, s) (b # bs, s')"
| refused: "carveout_heap_allocate galloc e len s = (Inl r, s') \<Longrightarrow> carve_step galloc (bs, s) (bs, s')"
| freed: "b \<in> set bs \<Longrightarrow> carve_step galloc (bs, s) (remove1 b bs, carveout_heap_free e b s)"

definition block_of :: "carve_buf \<Rightarrow> u64 \<times> u64" where
  "block_of b = (page_to_phys (bpage b), buf_len b)"

definition carve_inv :: "carve_buf list \<times> carve_st \<Rightarrow> bool" where
  "carve_inv x \<longleftrightarrow> (case x of (bs, s) \<Rightarrow>
     pool (heap s) \<and> blocks s = map block_of bs \<and> blocks_ok (blocks s) \<and>
     (\<forall>b \<in> set (blocks s). block_sound b \<and> inside b (chunks (heap s))) \<and>
     bufs s = int (length bs) \<and> tables s = int (length bs))"

lemma fail_not_aligned: "\<not> 4096 dvd unat CARVEOUT_ALLOCATE_FAIL"
  by (simp add: CARVEOUT_ALLOCATE_FAIL_def)

lemma blocks_apart_self: "block_sound b \<Longrightarrow> \<not> blocks_apart b b"
  by (simp add: block_sound_def blocks_apart_def)

lemma blocks_ok_distinct: "blocks_ok bs \<Longrightarrow> \<forall>b \<in> set bs. block_sound b \<Longrightarrow> distinct bs"
  by (induction bs) (auto dest: blocks_apart_self)

lemma blocks_ok_remove1: "blocks_ok bs \<Longrightarrow> blocks_ok (remove1 b bs)"
  by (induction bs) (auto dest: subsetD [OF set_remove1_subset])

lemma map_remove1_inj:
  "distinct (map f xs) \<Longrightarrow> x \<in> set xs \<Longrightarrow> map f (remove1 x xs) = remove1 (f x) (map f xs)"
  by (induction xs) (auto simp: image_iff)

context gen_pool
begin

lemma carveout_allocate_result:
  assumes "carveout_allocate galloc n s = (a, s')" and "pool (heap s)"
  shows "a = CARVEOUT_ALLOCATE_FAIL \<and> s' = s \<or>
    a \<noteq> CARVEOUT_ALLOCATE_FAIL \<and> a \<noteq> 0 \<and> 4096 dvd unat a \<and>
    inside (a, n) (chunks (heap s)) \<and>
    (\<forall>b \<in> set (blocks s). blocks_apart (a, n) b) \<and> s' = s\<lparr>blocks := (a, n) # blocks s\<rparr>"
  using assms aligned [OF refl, of "chunks (heap s)" "blocks s" n] apart [OF refl, of "chunks (heap s)" "blocks s" n]
    contained [OF refl, of "chunks (heap s)" "blocks s" n] fail_not_aligned
  by (auto simp: carveout_allocate_def Let_def split: if_splits)

lemma allocate_result:
  assumes "carveout_heap_allocate galloc e n s = (x, s')" and "pool (heap s)"
  shows "(\<exists>r. x = Inl r) \<and> s' = s \<or>
    (\<exists>a p. x = Inr (p, \<lparr>bpage = PFN_DOWN a, buf_len = n\<rparr>) \<and> a \<noteq> 0 \<and> 4096 dvd unat a \<and>
      inside (a, n) (chunks (heap s)) \<and>
      (\<forall>b \<in> set (blocks s). blocks_apart (a, n) b) \<and>
      s' = s\<lparr>bufs := bufs s + 1, tables := tables s + 1, blocks := (a, n) # blocks s\<rparr>)"
proof (cases "kzalloc_buf e \<and> table_rc e = 0")
  case False
  then show ?thesis
    using assms by (auto simp: carveout_heap_allocate_def carve_out_err_def Let_def split: if_splits)
next
  case True
  let ?s = "s\<lparr>bufs := bufs s + 1, tables := tables s + 1\<rparr>"
  obtain a t where t: "carveout_allocate galloc n ?s = (a, t)" by (cases "carveout_allocate galloc n ?s") auto
  from carveout_allocate_result [OF t] assms(2)
  consider "a = CARVEOUT_ALLOCATE_FAIL" "t = ?s"
    | "a \<noteq> CARVEOUT_ALLOCATE_FAIL" "a \<noteq> 0" "4096 dvd unat a" "inside (a, n) (chunks (heap s))"
      "\<forall>b \<in> set (blocks s). blocks_apart (a, n) b" "t = ?s\<lparr>blocks := (a, n) # blocks s\<rparr>"
    by auto
  then show ?thesis
    using assms True t
    by cases (auto simp: carveout_heap_allocate_def carve_out_err_def carveout_free_def Let_def split: if_splits)
qed

lemma free_result:
  assumes "pool (heap s)" and "page_to_phys (bpage b) \<noteq> CARVEOUT_ALLOCATE_FAIL"
  shows "heap (carveout_heap_free e b s) = heap s"
    and "blocks (carveout_heap_free e b s) = remove1 (block_of b) (blocks s)"
    and "tables (carveout_heap_free e b s) = tables s - 1"
    and "bufs (carveout_heap_free e b s) = bufs s - 1"
  using assms sglist_zero_fields [of "vmap_ok e" 0 "[]" "page_run (bpage b) (ucast (buf_len b))" s]
  by (simp_all add: carveout_heap_free_def carveout_pages_zero_def carveout_free_def block_of_def Let_def)

lemma pool_step_inv:
  assumes "carve_step galloc x y" and "carve_inv x"
  shows "carve_inv y"
  using assms
proof (cases rule: carve_step.cases)
  case (allocated e len s p b s' bs)
  then have "pool (heap s)" using assms(2) by (simp add: carve_inv_def)
  from allocate_result [OF allocated(3) this] obtain a where
    "b = \<lparr>bpage = PFN_DOWN a, buf_len = len\<rparr>" "a \<noteq> 0" "4096 dvd unat a" "inside (a, len) (chunks (heap s))"
    "\<forall>c \<in> set (blocks s). blocks_apart (a, len) c"
    "s' = s\<lparr>bufs := bufs s + 1, tables := tables s + 1, blocks := (a, len) # blocks s\<rparr>"
    by auto
  with assms(2) allocated show ?thesis
    by (auto simp: carve_inv_def block_of_def phys_page block_sound_def)
next
  case (refused e len s r s' bs)
  then have "pool (heap s)" using assms(2) by (simp add: carve_inv_def)
  from allocate_result [OF refused(3) this] refused assms(2) show ?thesis by auto
next
  case (freed b bs s e)
  have inv: "pool (heap s)" "blocks s = map block_of bs" "blocks_ok (blocks s)"
    "\<forall>c \<in> set (blocks s). block_sound c \<and> inside c (chunks (heap s))" "bufs s = int (length bs)" "tables s = int (length bs)"
    using assms(2) freed(1) by (auto simp: carve_inv_def)
  have d: "distinct (map block_of bs)" using blocks_ok_distinct [OF inv(3)] inv(4) by (simp add: inv(2))
  have "block_sound (block_of b)" using inv(2,4) freed(3) by auto
  then have nf: "page_to_phys (bpage b) \<noteq> CARVEOUT_ALLOCATE_FAIL"
    using fail_not_aligned by (auto simp: block_sound_def block_of_def)
  have rm: "map block_of (remove1 b bs) = remove1 (block_of b) (blocks s)"
    using map_remove1_inj [OF d freed(3)] by (simp add: inv(2))
  have "length (remove1 b bs) = length bs - 1" using freed(3) by (simp add: length_remove1)
  moreover have "0 < length bs" by (rule length_pos_if_in_set [OF freed(3)])
  ultimately have len: "int (length (remove1 b bs)) = int (length bs) - 1" by linarith
  note fr = free_result [OF inv(1) nf, of e]
  have "\<forall>c \<in> set (remove1 (block_of b) (blocks s)). block_sound c \<and> inside c (chunks (heap s))"
    using inv(4) by (auto dest: subsetD [OF set_remove1_subset])
  then show ?thesis
    using inv blocks_ok_remove1 [OF inv(3)] len
    unfolding freed(2) carve_inv_def prod.case fr rm by simp
qed

lemma pool_run_inv: "(carve_step galloc)\<^sup>*\<^sup>* x y \<Longrightarrow> carve_inv x \<Longrightarrow> carve_inv y"
  by (induction rule: rtranclp_induct) (auto intro: pool_step_inv)

end


text \<open>No run changes the pool's memory.\<close>

lemma carve_step_heap: "carve_step galloc x y \<Longrightarrow> heap (snd y) = heap (snd x)"
  by (induction rule: carve_step.induct)
    (auto simp: carveout_heap_allocate_def carve_out_err_def carveout_allocate_def carveout_free_def
      carveout_heap_free_def carveout_pages_zero_def sglist_zero_fields Let_def split: if_splits)

lemma carve_run_heap: "(carve_step galloc)\<^sup>*\<^sup>* x y \<Longrightarrow> heap (snd y) = heap (snd x)"
  by (induction rule: rtranclp_induct) (auto dest: carve_step_heap)

text \<open>A pool that hands out, from the first chunk that has room, the lowest page-aligned address above
  every block in use.\<close>

definition top_of :: "nat \<Rightarrow> (u64 \<times> u64) list \<Rightarrow> nat" where
  "top_of start bs = foldr (\<lambda>b m. max m (unat (fst b) + unat (snd b))) bs start"

definition above :: "chunk \<Rightarrow> (u64 \<times> u64) list \<Rightarrow> nat" where
  "above c bs = 4096 * ((top_of (unat (fst c)) bs + 4095) div 4096)"

definition first_above :: pool_alloc where
  "first_above cs bs n =
     (case find (\<lambda>c. above c bs + unat n \<le> unat (fst c) + unat (snd c) \<and> above c bs < 2 ^ 64) cs of
        None \<Rightarrow> 0 | Some c \<Rightarrow> of_nat (above c bs))"

lemma top_of_bound: "b \<in> set bs \<Longrightarrow> unat (fst b) + unat (snd b) \<le> top_of m bs"
  by (induction bs) (auto simp: top_of_def)

lemma top_of_start: "m \<le> top_of m bs"
  by (induction bs) (auto simp: top_of_def)

lemma above_bounds: "4096 dvd above c bs" "top_of (unat (fst c)) bs \<le> above c bs"
  using div_mult_mod_eq [of "top_of (unat (fst c)) bs + 4095" 4096]
    mod_less_divisor [of 4096 "top_of (unat (fst c)) bs + 4095"]
  unfolding above_def by simp_all

lemma first_above_cases:
  assumes "first_above cs bs n = a"
  shows "a = 0 \<or> (\<exists>c \<in> set cs. unat a = above c bs \<and> above c bs + unat n \<le> unat (fst c) + unat (snd c))"
proof -
  have u: "unat (of_nat a :: u64) = a" if "a < 2 ^ 64" for a
    using that by (simp add: unat_of_nat take_bit_nat_eq_self_iff)
  show ?thesis
    using assms u by (auto simp: first_above_def find_Some_iff split: option.splits)
qed

interpretation first_above: gen_pool first_above
proof
  fix cs bs n a assume a: "first_above cs bs n = a"
  show "4096 dvd unat a" using first_above_cases [OF a] above_bounds(1) by auto
  have start: "unat (fst c) \<le> above c bs" for c
    by (rule order_trans [OF top_of_start above_bounds(2)])
  have after: "unat (fst b) + unat (snd b) \<le> above c bs" if "b \<in> set bs" for b c
    by (rule order_trans [OF top_of_bound [OF that] above_bounds(2)])
  assume "a \<noteq> 0"
  then obtain c where c: "c \<in> set cs" "unat a = above c bs"
      "above c bs + unat n \<le> unat (fst c) + unat (snd c)"
    using first_above_cases [OF a] by blast
  then show "inside (a, n) cs" unfolding inside_def using start by (intro bexI [of _ c]) auto
  show "blocks_apart (a, n) b" if "b \<in> set bs" for b
    using after [OF that] c(2) by (simp add: blocks_apart_def)
qed

text \<open>C21: Whatever buffers are allocated and released, in whatever order and with whatever failures,
  two live buffers never share memory and lie inside the memory of the pool, the pool's blocks are
  exactly those of the live buffers, and there is one object and one table for each of them.\<close>

theorem carveout_buffers_disjoint:
  assumes "gen_pool galloc" and "(carve_step galloc)\<^sup>*\<^sup>* ([], s) (bs, s')"
    and "pool (heap s)" and "blocks s = []" and "bufs s = 0" and "tables s = 0"
  shows "blocks_ok (map block_of bs) \<and> blocks s' = map block_of bs \<and>
    (\<forall>b \<in> set bs. inside (block_of b) (chunks (heap s))) \<and>
    bufs s' = int (length bs) \<and> tables s' = int (length bs)"
proof -
  have "carve_inv ([], s)" using assms(3-6) by (simp add: carve_inv_def)
  from gen_pool.pool_run_inv [OF assms(1,2) this] carve_run_heap [OF assms(2)] show ?thesis
    by (auto simp: carve_inv_def)
qed

definition example_heap :: carve_st where
  "example_heap = carve_empty\<lparr>heap := \<lparr>pool = True, chunks = [(4096, 1048576)], is_nomap = False, cbase = 4096,
     csize = 1048576\<rparr>\<rparr>"

definition carve_example :: carve_env where
  "carve_example = \<lparr>kzalloc_buf = True, table_rc = 0, export = 1, vmap_ok = \<lambda>_. True\<rparr>"

lemma example_allocated:
  "carveout_heap_allocate first_above carve_example 8192 example_heap =
     (Inr (1, \<lparr>bpage = 1, buf_len = 8192\<rparr>),
      example_heap\<lparr>bufs := 1, tables := 1, blocks := [(4096, 8192)]\<rparr>)"
  by (simp add: carveout_heap_allocate_def carveout_allocate_def carve_example_def example_heap_def
      carve_empty_def first_above_def above_def top_of_def CARVEOUT_ALLOCATE_FAIL_def PFN_DOWN_def IS_ERR_def Let_def)

theorem carveout_buffers_disjoint_witness:
  "blocks_ok (map block_of [\<lparr>bpage = 1, buf_len = 8192\<rparr>]) \<and>
   inside (block_of \<lparr>bpage = 1, buf_len = 8192\<rparr>) [(4096, 1048576)]"
proof -
  have "(carve_step first_above)\<^sup>*\<^sup>* ([], example_heap)
      ([\<lparr>bpage = 1, buf_len = 8192\<rparr>], example_heap\<lparr>bufs := 1, tables := 1, blocks := [(4096, 8192)]\<rparr>)"
    by (rule r_into_rtranclp, rule carve_step.allocated [OF example_allocated]) simp
  from carveout_buffers_disjoint [OF first_above.gen_pool_axioms this] show ?thesis
    by (simp add: example_heap_def carve_empty_def)
qed

text \<open>The pages of a run of bytes, whatever its length.\<close>

definition region_pages :: "u64 \<Rightarrow> u64 \<Rightarrow> u64 list" where
  "region_pages page sz = map (\<lambda>i. page + of_nat i) [0..<(unat sz + 4095) div 4096]"

lemma page_run_region:
  assumes "unat sz < 4294967296"
  shows "page_run page (ucast sz) = region_pages page sz"
proof -
  have "unat (ucast sz :: u32) = unat sz"
    using assms by (simp add: unsigned_ucast_eq take_bit_nat_eq_self)
  then show ?thesis by (simp add: page_run_def region_pages_def)
qed

text \<open>When the pages can be mapped, releasing a buffer below 4 GB clears each of its pages once, in
  order. Of a longer one only the remainder is cleared: of 4 GB, nothing.\<close>

lemma release_clears_run:
  assumes "\<And>j. vmap_ok e j"
  shows "zeroed (carveout_heap_free e b s) = zeroed s @ page_run (bpage b) (ucast (buf_len b))"
  using sglist_zero_all [of "vmap_ok e" "[]" 0 "page_run (bpage b) (ucast (buf_len b))" s] assms
  by (simp add: carveout_heap_free_def carveout_pages_zero_def carveout_free_def Let_def)

lemma release_clears:
  assumes "\<And>j. vmap_ok e j" and "unat (buf_len b) < 4294967296"
  shows "zeroed (carveout_heap_free e b s) = zeroed s @ region_pages (bpage b) (buf_len b)"
  using release_clears_run [of e b s] assms page_run_region [OF assms(2)] by simp

lemma large_release_uncleared:
  assumes "\<And>j. vmap_ok e j" and "buf_len b = 0x100000000"
  shows "zeroed (carveout_heap_free e b s) = zeroed s"
  using release_clears_run [of e b s] assms by (simp add: page_run_def)

text \<open>When they cannot be mapped, the result is dropped: the block goes back to the pool with the
  last owner's data.\<close>

lemma release_without_clearing:
  "blocks (carveout_heap_free (carve_example\<lparr>vmap_ok := \<lambda>_. False\<rparr>) \<lparr>bpage = 1, buf_len = 8192\<rparr>
     (example_heap\<lparr>blocks := [(4096, 8192)]\<rparr>)) = [] \<and>
   zeroed (carveout_heap_free (carve_example\<lparr>vmap_ok := \<lambda>_. False\<rparr>) \<lparr>bpage = 1, buf_len = 8192\<rparr>
     (example_heap\<lparr>blocks := [(4096, 8192)]\<rparr>)) = []"
proof -
  have "page_run 1 8192 = [1, 2]" by (simp add: page_run_def upt_rec)
  then show ?thesis
    by (simp add: carveout_heap_free_def carveout_pages_zero_def carveout_heap_clear_pages_def
        carveout_free_def example_heap_def carve_example_def carve_empty_def page_to_phys_def
        CARVEOUT_ALLOCATE_FAIL_def Let_def)
qed

text \<open>A pool whose memory could not be added is a heap all the same: it is created without an error,
  and no allocation from it succeeds.\<close>

lemma pool_add_ignored:
  assumes "gen_pool galloc" and "a \<noteq> 0" and "\<And>j. ok j" and "\<not> IS_ERR added"
  shows "\<exists>s. qcom_carveout_heap_create True ok True a added base n nomap = (0, Some s) \<and>
    (\<forall>e len. \<exists>r s'. carveout_heap_allocate galloc e len s = (Inl r, s'))"
proof -
  let ?s = "(carve_empty\<lparr>zeroed := page_run (PFN_DOWN base) (ucast n)\<rparr>)
    \<lparr>heap := \<lparr>pool = True, chunks = [], is_nomap = nomap, cbase = base, csize = n\<rparr>\<rparr>"
  have "carveout_pages_zero ok (PFN_DOWN base) n carve_empty =
      (0, carve_empty\<lparr>zeroed := page_run (PFN_DOWN base) (ucast n)\<rparr>)"
    using sglist_zero_all [of ok "[]" 0] assms(3) by (simp add: carveout_pages_zero_def carve_empty_def)
  then have c: "qcom_carveout_heap_create True ok True a added base n nomap = (0, Some ?s)"
    using assms(2,4) by (simp add: qcom_carveout_heap_create_def carveout_init_heap_memory_def gen_pool_add_def
        carve_empty_def Let_def)
  have "\<exists>r s'. carveout_heap_allocate galloc e len ?s = (Inl r, s')" for e len
  proof -
    obtain x s' where x: "carveout_heap_allocate galloc e len ?s = (x, s')" by fastforce
    have "pool (heap ?s)" by simp
    from gen_pool.allocate_result [OF assms(1) x this] x show ?thesis by (auto simp: inside_def)
  qed
  with c show ?thesis by blast
qed

text \<open>The pool of a heap that could not be created has been destroyed.\<close>

lemma create_failure_frees:
  "qcom_carveout_heap_create k ok p a added base n nomap = (r, x) \<Longrightarrow> r \<noteq> 0 \<Longrightarrow> x = None"
  by (auto simp: qcom_carveout_heap_create_def Let_def split: if_splits prod.splits)

end
