(* ===== verification/Profiler.thy ===== *)
theory Profiler
  imports KPrelude
begin

text \<open>
  Model of \<open>drivers/profiler.c\<close>, the bandwidth profiler: commands sent to the secure world
  through shared memory, counters read from memory-mapped registers whose place user space has
  configured, and the device file with its single user. The shared-memory allocator, the secure
  world, \<open>ioremap\<close> and the registers are the answers of \<open>prof_env\<close>; an allocation that
  fails leaves its structure as it was. Writing past an array, reading a register outside its
  mapping and freeing shared memory twice are crashes.
\<close>

section \<open>Data\<close>

definition LLCC_CHANNELS :: nat where "LLCC_CHANNELS = 6"
definition CABO_CHANNELS :: nat where "CABO_CHANNELS = 6"
definition NUM_REG_TYPES :: nat where "NUM_REG_TYPES = 2"
definition HF_COUNTERS :: nat where "HF_COUNTERS = 16"
definition SF_COUNTERS :: nat where "SF_COUNTERS = 12"
definition GEMNOC_COUNTERS :: nat where "GEMNOC_COUNTERS = 8"

text \<open>The counters, and the request they travel in; the old format has six totals.\<close>

record profiler_bw_cntrs =
  llcc_values :: "u32 list"
  cabo_values :: "u32 list"
  gemnoc_values :: "u32 list"
  mmnoc_hf_values :: "u32 list"
  mmnoc_sf_values :: "u32 list"

record profiler_bw_cntrs_req =
  req_cmd :: u32
  bwEnableFlags :: u32

datatype counters = Counters profiler_bw_cntrs | CountersBC "u32 list"

record reg_offset =
  llcc_offset :: "int list"
  cabo_offset :: "int list"
  gemnoc_offset :: "int list"
  mmnoc_hf_offset :: "int list"
  mmnoc_sf_offset :: "int list"

record device_param_init =
  num_llcc_channels :: int
  llcc_base :: u32
  llcc_map_size :: u32
  num_cabo_channels :: int
  num_gemnoc_metrics :: int
  gemnoc_base :: u32
  gemnoc_map_size :: u32
  num_hf_metrics :: int
  num_sf_metrics :: int
  mmnoc_base :: u32
  mmnoc_map_size :: u32

definition TZ_BW_SVC_START_ID :: u32 where "TZ_BW_SVC_START_ID = 1"
definition TZ_BW_SVC_GET_ID :: u32 where "TZ_BW_SVC_GET_ID = 2"
definition TZ_BW_SVC_STOP_ID :: u32 where "TZ_BW_SVC_STOP_ID = 3"
definition TZ_BW_SVC_VERSION :: u32 where "TZ_BW_SVC_VERSION = 1"
definition E_BW_SUCCESS :: u32 where "E_BW_SUCCESS = 0"

lemmas tz_ids = TZ_BW_SVC_START_ID_def TZ_BW_SVC_GET_ID_def TZ_BW_SVC_STOP_ID_def
  TZ_BW_SVC_VERSION_def E_BW_SUCCESS_def

text \<open>The union of the requests behind the common command; a stop request has nothing more.\<close>

datatype tz_bw_svc_req = StartReq u32 u32 | GetReq u64 u32 u32 | StopReq

record tz_bw_svc_buf =
  cmd_id :: u32
  bwreq :: tz_bw_svc_req
  resp_cmd :: u32
  resp_status :: u32
  req_size :: u32

definition zeroed_buf :: tz_bw_svc_buf where
  "zeroed_buf = \<lparr>cmd_id = 0, bwreq = StartReq 0 0, resp_cmd = 0, resp_status = 0, req_size = 0\<rparr>"

text \<open>A call of the secure world: the request, and the two halves of the shared memory.\<close>

record tz_call =
  tz_cmd :: u32
  tz_req :: tz_bw_svc_req
  in_buf :: u64
  in_size :: u32
  out_buf :: u64

text \<open>\<open>clk_enabled\<close> is the driver's balance of the clock, its enables less its disables;
  \<open>clk_refused\<close> counts the enables that failed, which the driver does not see.\<close>

record prof_st =
  offset_reg_values :: reg_offset
  dev_params :: device_param_init
  bw_profiling_disabled :: bool
  lock_held :: bool
  clk_enabled :: int
  clk_refused :: nat
  shm_allocs :: nat
  shm_live :: "u64 list"
  tz_log :: "tz_call list"
  iomaps :: nat

text \<open>The answers. \<open>mmio n a\<close> is what the register at \<open>a\<close> holds once the secure world has had \<open>n\<close>
  commands, so that reading a register before or after a command makes a difference.\<close>

record prof_env =
  alloc_shm :: "nat \<Rightarrow> u64 option"
  tz :: "tz_call \<Rightarrow> int \<times> u32 \<times> u32"
  tz_totals :: "u32 list"
  ioremap :: "u64 \<Rightarrow> u64 \<Rightarrow> ptr"
  mmio :: "nat \<Rightarrow> u64 \<Rightarrow> u32"
  in_missing :: int
  out_missing :: int
  kzalloc_buf :: bool
  clk_prepare_enable :: int

section \<open>Shared memory and commands\<close>

definition qtee_shmbridge_allocate_shm :: "prof_env \<Rightarrow> u64 \<Rightarrow> prof_st \<Rightarrow> bool \<times> u64 \<times> prof_st" where
  "qtee_shmbridge_allocate_shm e shm s =
     (let n = shm_allocs s; s = s\<lparr>shm_allocs := n + 1\<rparr> in
      case alloc_shm e n of
        None \<Rightarrow> (False, shm, s)
      | Some p \<Rightarrow> (True, p, s\<lparr>shm_live := p # shm_live s\<rparr>))"

text \<open>A structure that is still zero holds nothing.\<close>

definition qtee_shmbridge_free_shm :: "u64 \<Rightarrow> prof_st \<Rightarrow> prof_st option" where
  "qtee_shmbridge_free_shm shm s =
     (if shm = 0 then Some s
      else if shm \<in> set (shm_live s) then Some (s\<lparr>shm_live := remove1 shm (shm_live s)\<rparr>)
      else None)"

text \<open>The status of the response decides at the end, whatever went wrong before.\<close>

definition command_verdict :: "u32 \<Rightarrow> int \<Rightarrow> tz_bw_svc_buf \<Rightarrow> int" where
  "command_verdict qseos_cmd_id ret b =
     (if resp_status b \<noteq> E_BW_SUCCESS \<or> qseos_cmd_id \<noteq> resp_cmd b then - 1 else ret)"

definition bw_profiling_command ::
  "prof_env \<Rightarrow> tz_bw_svc_buf \<Rightarrow> prof_st \<Rightarrow> (int \<times> tz_bw_svc_buf \<times> prof_st) option" where
  "bw_profiling_command e b s =
     (let qseos_cmd_id = cmd_id b;
          (ok, shm, s) = qtee_shmbridge_allocate_shm e 0 s in
      if \<not> ok then do {
        s \<leftarrow> qtee_shmbridge_free_shm shm s;
        Some (command_verdict qseos_cmd_id (- ENOMEM) b, b, s)
      }
      else
        let call = \<lparr>tz_cmd = qseos_cmd_id, tz_req = bwreq b, in_buf = shm, in_size = req_size b,
                    out_buf = shm + ucast (req_size b)\<rparr>;
            known = qseos_cmd_id \<in> {TZ_BW_SVC_START_ID, TZ_BW_SVC_GET_ID, TZ_BW_SVC_STOP_ID};
            (tz_ret, rsp_cmd, rsp_status) = tz e call;
            ret = (if known then tz_ret else - EINVAL);
            s = (if known then s\<lparr>tz_log := tz_log s @ [call]\<rparr> else s);
            b = b\<lparr>resp_cmd := rsp_cmd, resp_status := rsp_status\<rparr> in do {
          s \<leftarrow> qtee_shmbridge_free_shm shm s;
          Some (command_verdict qseos_cmd_id ret b, b, s)
        })"

definition bw_profiling_start ::
  "prof_env \<Rightarrow> tz_bw_svc_buf \<Rightarrow> prof_st \<Rightarrow> (int \<times> tz_bw_svc_buf \<times> prof_st) option" where
  "bw_profiling_start e b s =
     (let flags = (case bwreq b of StartReq _ f \<Rightarrow> f | _ \<Rightarrow> 0) in
      bw_profiling_command e
        (b\<lparr>cmd_id := TZ_BW_SVC_START_ID, bwreq := StartReq TZ_BW_SVC_VERSION flags, req_size := 12\<rparr>) s)"

definition bw_profiling_stop ::
  "prof_env \<Rightarrow> tz_bw_svc_buf \<Rightarrow> prof_st \<Rightarrow> (int \<times> tz_bw_svc_buf \<times> prof_st) option" where
  "bw_profiling_stop e b s =
     bw_profiling_command e (b\<lparr>cmd_id := TZ_BW_SVC_STOP_ID, bwreq := StopReq, req_size := 4\<rparr>) s"

definition get_request :: "u64 \<Rightarrow> u32 \<Rightarrow> u32 \<Rightarrow> tz_bw_svc_buf \<Rightarrow> tz_bw_svc_buf" where
  "get_request shm bufsize type b =
     b\<lparr>cmd_id := TZ_BW_SVC_GET_ID, bwreq := GetReq shm bufsize type, req_size := 20\<rparr>"

section \<open>Reading the counters\<close>

text \<open>Array accesses and register reads with their bounds.\<close>

definition put_at :: "nat \<Rightarrow> u32 \<Rightarrow> u32 list \<Rightarrow> u32 list option" where
  "put_at i v xs = (if i < length xs then Some (xs[i := v]) else None)"

definition readl :: "prof_env \<Rightarrow> nat \<Rightarrow> u64 \<Rightarrow> u32 \<Rightarrow> int list \<Rightarrow> nat \<Rightarrow> u32 option" where
  "readl e now base map_size offs i =
     (if length offs \<le> i \<or> ioremap e base (ucast map_size) = 0 then None
      else if offs ! i < 0 \<or> uint map_size < offs ! i + 4 then None
      else Some (mmio e now (base + of_int (offs ! i))))"

text \<open>One assignment \<open>values[i] = readl(base + offsets[i])\<close>, and a loop of them.\<close>

definition read_into :: "prof_env \<Rightarrow> nat \<Rightarrow> u64 \<Rightarrow> u32 \<Rightarrow> int list \<Rightarrow> nat \<Rightarrow> u32 list \<Rightarrow> u32 list option" where
  "read_into e now base map_size offs i xs = do { v \<leftarrow> readl e now base map_size offs i; put_at i v xs }"

fun read_all :: "prof_env \<Rightarrow> nat \<Rightarrow> (nat \<Rightarrow> u64) \<Rightarrow> u32 \<Rightarrow> int list \<Rightarrow> nat list \<Rightarrow> u32 list \<Rightarrow> u32 list option" where
  "read_all e now base map_size offs [] xs = Some xs"
| "read_all e now base map_size offs (i # is) xs = do {
     xs \<leftarrow> read_into e now (base i) map_size offs i xs;
     read_all e now base map_size offs is xs
   }"

text \<open>The base of a channel: 32-bit arithmetic, as the code has it.\<close>

definition channel_base :: "device_param_init \<Rightarrow> nat \<Rightarrow> u64" where
  "channel_base p ch = ucast (llcc_base p + llcc_map_size p * of_nat ch)"

fun read_channels ::
  "prof_env \<Rightarrow> nat \<Rightarrow> device_param_init \<Rightarrow> reg_offset \<Rightarrow> nat list \<Rightarrow> profiler_bw_cntrs \<Rightarrow> profiler_bw_cntrs option" where
  "read_channels e now p offs [] c = Some c"
| "read_channels e now p offs (ch # chs) c = do {
     l \<leftarrow> read_into e now (channel_base p ch) (llcc_map_size p) (llcc_offset offs) (ch * 2) (llcc_values c);
     l \<leftarrow> read_into e now (channel_base p ch) (llcc_map_size p) (llcc_offset offs) (ch * 2 + 1) l;
     k \<leftarrow> read_into e now (channel_base p ch) (llcc_map_size p) (cabo_offset offs) (ch * 2) (cabo_values c);
     k \<leftarrow> read_into e now (channel_base p ch) (llcc_map_size p) (cabo_offset offs) (ch * 2 + 1) k;
     read_channels e now p offs chs (c\<lparr>llcc_values := l, cabo_values := k\<rparr>)
   }"

definition gemnoc_indices :: "nat \<Rightarrow> nat \<Rightarrow> nat list" where
  "gemnoc_indices channels metrics = concat (map (\<lambda>ch. map (\<lambda>gc. ch * metrics + gc) [0..<metrics]) [0..<channels])"

definition zero_counters :: profiler_bw_cntrs where
  "zero_counters =
     \<lparr>llcc_values = replicate (LLCC_CHANNELS * NUM_REG_TYPES) 0,
      cabo_values = replicate (CABO_CHANNELS * NUM_REG_TYPES) 0,
      gemnoc_values = replicate (LLCC_CHANNELS * GEMNOC_COUNTERS) 0,
      mmnoc_hf_values = replicate HF_COUNTERS 0, mmnoc_sf_values = replicate SF_COUNTERS 0\<rparr>"

definition read_counters :: "prof_env \<Rightarrow> nat \<Rightarrow> device_param_init \<Rightarrow> reg_offset \<Rightarrow> profiler_bw_cntrs option" where
  "read_counters e now p offs =
     (let gb = ucast (gemnoc_base p); mb = ucast (mmnoc_base p) in do {
        c \<leftarrow> read_channels e now p offs [0..<nat (num_llcc_channels p)] zero_counters;
        g \<leftarrow> read_all e now (\<lambda>_. gb) (gemnoc_map_size p) (gemnoc_offset offs)
               (gemnoc_indices (nat (num_llcc_channels p)) (nat (num_gemnoc_metrics p))) (gemnoc_values c);
        hf \<leftarrow> read_all e now (\<lambda>_. mb) (mmnoc_map_size p) (mmnoc_hf_offset offs)
               [0..<nat (num_hf_metrics p)] (mmnoc_hf_values c);
        sf \<leftarrow> read_all e now (\<lambda>_. mb) (mmnoc_map_size p) (mmnoc_sf_offset offs)
               [0..<nat (num_sf_metrics p)] (mmnoc_sf_values c);
        Some (c\<lparr>gemnoc_values := g, mmnoc_hf_values := hf, mmnoc_sf_values := sf\<rparr>)
      })"

section \<open>Requests\<close>

type_synonym get_result = "(int \<times> counters option \<times> tz_bw_svc_buf \<times> prof_st) option"

definition get_out :: "int \<Rightarrow> counters option \<Rightarrow> u64 \<Rightarrow> tz_bw_svc_buf \<Rightarrow> prof_st \<Rightarrow> get_result" where
  "get_out ret copied shm b s = do { s \<leftarrow> qtee_shmbridge_free_shm shm s; Some (ret, copied, b, s) }"

text \<open>The totals of the old format; a failed copy to user space is only logged.\<close>

definition bw_profiling_get_bc :: "prof_env \<Rightarrow> tz_bw_svc_buf \<Rightarrow> prof_st \<Rightarrow> get_result" where
  "bw_profiling_get_bc e b s =
     (let (ok, shm, s) = qtee_shmbridge_allocate_shm e 0 s in
      if \<not> ok then get_out (- ENOMEM) None shm b s
      else do {
        (ret, b, s) \<leftarrow> bw_profiling_command e (get_request shm 24 0 b) s;
        (if ret \<noteq> 0 then get_out ret None shm b s
         else get_out 0 (if out_missing e \<noteq> 0 then None else Some (CountersBC (take 6 (tz_totals e)))) shm b s)
      })"

text \<open>The size of the counters without the command word.\<close>

definition cntrs_size :: u32 where "cntrs_size = 404"

definition bw_profiling_get_new :: "prof_env \<Rightarrow> tz_bw_svc_buf \<Rightarrow> prof_st \<Rightarrow> get_result" where
  "bw_profiling_get_new e b s =
     (let (ok, shm, s) = qtee_shmbridge_allocate_shm e 0 s in
      if \<not> ok then get_out (- ENOMEM) None shm b s
      else do {
        (ret, b, s) \<leftarrow> bw_profiling_command e (get_request shm cntrs_size 0 b) s;
        (if ret \<noteq> 0 then get_out ret None shm b s
         else do {
           s \<leftarrow> qtee_shmbridge_free_shm shm s;
           c \<leftarrow> read_counters e (length (tz_log s)) (dev_params s) (offset_reg_values s);
           (let s = s\<lparr>iomaps := iomaps s + nat (num_llcc_channels (dev_params s)) + 2\<rparr>;
                (ok, shm, s) = qtee_shmbridge_allocate_shm e shm s in
            if \<not> ok then get_out (- ENOMEM) None shm b s
            else do {
              (ret, b, s) \<leftarrow> bw_profiling_command e (get_request shm cntrs_size 1 b) s;
              (if ret \<noteq> 0 then get_out ret None shm b s
               else get_out 0 (if out_missing e \<noteq> 0 then None else Some (Counters c)) shm b s)
            })
         })
      })"

definition bw_profiling_get :: "prof_env \<Rightarrow> tz_bw_svc_buf \<Rightarrow> prof_st \<Rightarrow> get_result" where
  "bw_profiling_get e b s =
     (if bw_profiling_disabled s then bw_profiling_get_bc e b s else bw_profiling_get_new e b s)"

definition profiler_get_bw_info ::
  "prof_env \<Rightarrow> profiler_bw_cntrs_req \<Rightarrow> prof_st \<Rightarrow> (int \<times> counters option \<times> prof_st) option" where
  "profiler_get_bw_info e u s =
     (if in_missing e \<noteq> 0 then Some (in_missing e, None, s)
      else if \<not> kzalloc_buf e then Some (- ENOMEM, None, s)
      else
        let b = (if \<not> bw_profiling_disabled s then zeroed_buf\<lparr>bwreq := StartReq 0 (bwEnableFlags u)\<rparr>
                 else zeroed_buf) in
        if req_cmd u = TZ_BW_SVC_START_ID
        then do { (ret, b, s) \<leftarrow> bw_profiling_start e b s; Some (ret, None, s) }
        else if req_cmd u = TZ_BW_SVC_GET_ID
        then do { (ret, copied, b, s) \<leftarrow> bw_profiling_get e b s; Some (ret, copied, s) }
        else if req_cmd u = TZ_BW_SVC_STOP_ID
        then do { (ret, b, s) \<leftarrow> bw_profiling_stop e b s; Some (ret, None, s) }
        else Some (- EINVAL, None, s))"

text \<open>\<open>u\<close> is what the copy leaves in the kernel's structure, complete or not.\<close>

definition profiler_set_bw_offsets :: "reg_offset \<Rightarrow> prof_st \<Rightarrow> int \<times> prof_st" where
  "profiler_set_bw_offsets u s = (0, s\<lparr>offset_reg_values := u\<rparr>)"

definition profiler_device_init :: "device_param_init \<Rightarrow> prof_st \<Rightarrow> int \<times> prof_st" where
  "profiler_device_init u s = (0, s\<lparr>dev_params := u\<rparr>)"

text \<open>The result of \<open>clk_prepare_enable\<close> is not looked at.\<close>

definition profiler_open :: "prof_env \<Rightarrow> prof_st \<Rightarrow> int \<times> prof_st" where
  "profiler_open e s =
     (if lock_held s then (- EBUSY, s)
      else let s = s\<lparr>lock_held := True\<rparr> in
        (0, if clk_prepare_enable e = 0 then s\<lparr>clk_enabled := clk_enabled s + 1\<rparr>
            else s\<lparr>clk_refused := clk_refused s + 1\<rparr>))"

datatype prof_request =
    PROFILER_IOCTL_GET_BW_INFO profiler_bw_cntrs_req
  | PROFILER_IOCTL_SET_OFFSETS reg_offset
  | PROFILER_IOCTL_DEVICE_INIT device_param_init
  | PROFILER_IOCTL_GET_BW_INFO_BC profiler_bw_cntrs_req
  | Prof_other

fun profiler_ioctl ::
  "prof_env \<Rightarrow> prof_request \<Rightarrow> prof_st \<Rightarrow> (int \<times> counters option \<times> prof_st) option" where
  "profiler_ioctl e (PROFILER_IOCTL_GET_BW_INFO u) s =
     profiler_get_bw_info e u (s\<lparr>bw_profiling_disabled := False\<rparr>)"
| "profiler_ioctl e (PROFILER_IOCTL_SET_OFFSETS u) s =
     (let (ret, s) = profiler_set_bw_offsets u s in Some (ret, None, s))"
| "profiler_ioctl e (PROFILER_IOCTL_DEVICE_INIT u) s =
     (let (ret, s) = profiler_device_init u s in Some (ret, None, s))"
| "profiler_ioctl e (PROFILER_IOCTL_GET_BW_INFO_BC u) s =
     profiler_get_bw_info e u (s\<lparr>bw_profiling_disabled := True\<rparr>)"
| "profiler_ioctl e Prof_other s = Some (- EINVAL, None, s)"

text \<open>The release gives the device up before it sends the stop command.\<close>

definition profiler_release :: "prof_env \<Rightarrow> prof_st \<Rightarrow> (int \<times> prof_st) option" where
  "profiler_release e s =
     (let s = s\<lparr>clk_enabled := clk_enabled s - 1, lock_held := False\<rparr> in
      if \<not> kzalloc_buf e then Some (- ENOMEM, s)
      else do { (ret, b, s) \<leftarrow> bw_profiling_stop e zeroed_buf s; Some (0, s) })"


section \<open>Shared memory is balanced\<close>

definition shm_ok :: "prof_env \<Rightarrow> bool" where
  "shm_ok e \<longleftrightarrow> (\<forall>n. alloc_shm e n \<noteq> Some 0)"

lemma bind_Some_prof: "Option.bind x f = Some y \<longleftrightarrow> (\<exists>a. x = Some a \<and> f a = Some y)"
  by (cases x) auto

lemma alloc_shm_cases:
  assumes "shm_ok e" and "qtee_shmbridge_allocate_shm e shm s = (ok, p, s')"
  shows "ok \<and> p \<noteq> 0 \<and> s' = s\<lparr>shm_allocs := shm_allocs s + 1, shm_live := p # shm_live s\<rparr> \<or>
    \<not> ok \<and> p = shm \<and> s' = s\<lparr>shm_allocs := shm_allocs s + 1\<rparr>"
  using assms by (auto simp: qtee_shmbridge_allocate_shm_def Let_def shm_ok_def split: option.splits)

lemma free_shm_head: "p \<noteq> 0 \<Longrightarrow> shm_live s = p # ps \<Longrightarrow> qtee_shmbridge_free_shm p s = Some (s\<lparr>shm_live := ps\<rparr>)"
  by (simp add: qtee_shmbridge_free_shm_def)

lemma free_shm_0 [simp]: "qtee_shmbridge_free_shm 0 s = Some s"
  by (simp add: qtee_shmbridge_free_shm_def)

lemma free_shm_dead: "p \<noteq> 0 \<Longrightarrow> shm_live s = [] \<Longrightarrow> qtee_shmbridge_free_shm p s = None"
  by (simp add: qtee_shmbridge_free_shm_def)

text \<open>What a command keeps: everything but the log, the count and the memory it used.\<close>

definition prof_kept :: "prof_st \<Rightarrow> prof_st \<Rightarrow> bool" where
  "prof_kept s s' \<longleftrightarrow> shm_live s' = shm_live s \<and> offset_reg_values s' = offset_reg_values s \<and>
     dev_params s' = dev_params s \<and> lock_held s' = lock_held s \<and> clk_enabled s' = clk_enabled s \<and>
     clk_refused s' = clk_refused s \<and>
     bw_profiling_disabled s' = bw_profiling_disabled s"

lemma prof_kept_refl [simp, intro]: "prof_kept s s"
  by (simp add: prof_kept_def)

lemma prof_kept_trans: "prof_kept s t \<Longrightarrow> prof_kept t u \<Longrightarrow> prof_kept s u"
  by (simp add: prof_kept_def)

lemma command_kept:
  assumes "shm_ok e" and "bw_profiling_command e b s = Some (r, b', s')"
  shows "prof_kept s s'"
proof -
  obtain ok p t where a: "qtee_shmbridge_allocate_shm e 0 s = (ok, p, t)"
    by (cases "qtee_shmbridge_allocate_shm e 0 s") auto
  show ?thesis
    using alloc_shm_cases [OF assms(1) a] assms(2) a
    by (auto simp: bw_profiling_command_def Let_def prof_kept_def free_shm_head split: prod.splits if_splits)
qed

lemma start_stop_kept:
  assumes "shm_ok e"
  shows "bw_profiling_start e b s = Some (r, b', s') \<Longrightarrow> prof_kept s s'"
    and "bw_profiling_stop e b s = Some (r, b', s') \<Longrightarrow> prof_kept s s'"
  using command_kept [OF assms] by (auto simp: bw_profiling_start_def bw_profiling_stop_def Let_def)

lemma get_out_kept:
  assumes "get_out ret o' shm b s = Some (r, o'', b', s')" and "shm_live s = shm # ps" and "shm \<noteq> 0"
  shows "s' = s\<lparr>shm_live := ps\<rparr>"
  using assms by (simp add: get_out_def free_shm_head)

lemma get_bc_kept:
  assumes ok: "shm_ok e" and "bw_profiling_get_bc e b s = Some (r, c, b', s')"
  shows "prof_kept s s'"
proof -
  obtain got p t where a: "qtee_shmbridge_allocate_shm e 0 s = (got, p, t)"
    by (cases "qtee_shmbridge_allocate_shm e 0 s") auto
  show ?thesis
  proof (cases "got")
    case False
    then show ?thesis
      using alloc_shm_cases [OF ok a] assms(2) a
      by (auto simp: bw_profiling_get_bc_def get_out_def prof_kept_def)
  next
    case True
    then obtain r1 b1 s1 where c: "bw_profiling_command e (get_request p 24 0 b) t = Some (r1, b1, s1)"
      using assms(2) a by (auto simp: bw_profiling_get_bc_def bind_Some_prof)
    have t: "p \<noteq> 0" "t = s\<lparr>shm_allocs := shm_allocs s + 1, shm_live := p # shm_live s\<rparr>"
      using alloc_shm_cases [OF ok a] True by auto
    have k: "prof_kept t s1" by (rule command_kept [OF ok c])
    then have "shm_live s1 = p # shm_live s" by (simp add: prof_kept_def t)
    then have "s' = s1\<lparr>shm_live := shm_live s\<rparr>"
      using assms(2) True a c t(1)
      by (auto simp: bw_profiling_get_bc_def get_out_def free_shm_head split: if_splits)
    with k t show ?thesis by (simp add: prof_kept_def)
  qed
qed

lemma get_new_kept:
  assumes ok: "shm_ok e" and none: "shm_live s = []" and "bw_profiling_get_new e b s = Some (r, c, b', s')"
  shows "prof_kept s s'"
proof -
  obtain got p t where a: "qtee_shmbridge_allocate_shm e 0 s = (got, p, t)"
    by (cases "qtee_shmbridge_allocate_shm e 0 s") auto
  show ?thesis
  proof (cases "got")
    case False
    then show ?thesis
      using alloc_shm_cases [OF ok a] assms(3) a
      by (auto simp: bw_profiling_get_new_def get_out_def prof_kept_def)
  next
    case True
    then obtain r1 b1 s1 where c: "bw_profiling_command e (get_request p cntrs_size 0 b) t = Some (r1, b1, s1)"
      using assms(3) a by (auto simp: bw_profiling_get_new_def bind_Some_prof)
    have t: "p \<noteq> 0" "t = s\<lparr>shm_allocs := shm_allocs s + 1, shm_live := [p]\<rparr>"
      using alloc_shm_cases [OF ok a] True none by auto
    have k1: "prof_kept t s1" by (rule command_kept [OF ok c])
    then have l1: "shm_live s1 = [p]" by (simp add: prof_kept_def t)
    show ?thesis
    proof (cases "r1 = 0")
      case False
      then have "s' = s1\<lparr>shm_live := []\<rparr>"
        using assms(3) True a c t(1) l1 by (simp add: bw_profiling_get_new_def get_out_def free_shm_head)
      with k1 t none show ?thesis by (simp add: prof_kept_def)
    next
      case r1: True
      define s2 where "s2 = s1\<lparr>shm_live := [], iomaps := iomaps s1 + nat (num_llcc_channels (dev_params s1)) + 2\<rparr>"
      obtain got2 p2 t2 where a2: "qtee_shmbridge_allocate_shm e p s2 = (got2, p2, t2)"
        by (cases "qtee_shmbridge_allocate_shm e p s2") auto
      have rest: "(if \<not> got2 then get_out (- ENOMEM) None p2 b1 t2
          else do {
            (ret, b, s) \<leftarrow> bw_profiling_command e (get_request p2 cntrs_size 1 b1) t2;
            (if ret \<noteq> 0 then get_out ret None p2 b s
             else get_out 0 (if out_missing e \<noteq> 0 then None else Some (Counters x)) p2 b s)
          }) = Some (r, c, b', s')" if "read_counters e (length (tz_log s1)) (dev_params s1) (offset_reg_values s1) = Some x" for x
        using assms(3) True a c t(1) l1 r1 that a2
        by (simp add: bw_profiling_get_new_def free_shm_head s2_def)
      obtain x where "read_counters e (length (tz_log s1)) (dev_params s1) (offset_reg_values s1) = Some x"
        using assms(3) True a c t(1) l1 r1
        by (cases "read_counters e (length (tz_log s1)) (dev_params s1) (offset_reg_values s1)")
          (auto simp: bw_profiling_get_new_def free_shm_head)
      note rest = rest [OF this]
      have live2: "shm_live s2 = []" by (simp add: s2_def)
      show ?thesis
      proof (cases "got2")
        case False
        then have "p2 = p" "shm_live t2 = []" using alloc_shm_cases [OF ok a2] live2 by auto
        then show ?thesis using rest False t(1) by (simp add: get_out_def free_shm_dead)
      next
        case got2: True
        then obtain r3 b3 s3 where c3: "bw_profiling_command e (get_request p2 cntrs_size 1 b1) t2 = Some (r3, b3, s3)"
          using rest by (auto simp: bind_Some_prof)
        have t2: "p2 \<noteq> 0" "t2 = s2\<lparr>shm_allocs := shm_allocs s2 + 1, shm_live := [p2]\<rparr>"
          using alloc_shm_cases [OF ok a2] got2 live2 by auto
        have k3: "prof_kept t2 s3" by (rule command_kept [OF ok c3])
        then have "shm_live s3 = [p2]" by (simp add: prof_kept_def t2)
        then have "s' = s3\<lparr>shm_live := []\<rparr>"
          using rest got2 c3 t2(1) by (simp add: get_out_def free_shm_head split: if_splits)
        with k1 k3 t t2 none show ?thesis by (simp add: prof_kept_def s2_def)
      qed
    qed
  qed
qed


lemma bw_info_kept:
  assumes ok: "shm_ok e" and none: "shm_live s = []" and "profiler_get_bw_info e u s = Some (r, c, s')"
  shows "prof_kept s s'"
proof -
  have get: "prof_kept s s'" if "bw_profiling_get e b s = Some (r, c, b', s')" for b b'
    using that get_bc_kept [OF ok] get_new_kept [OF ok none]
    by (auto simp: bw_profiling_get_def split: if_splits)
  show ?thesis
    using assms(3) get start_stop_kept [OF ok]
    by (fastforce simp: profiler_get_bw_info_def Let_def bind_Some_prof split: if_splits)
qed

section \<open>Runs\<close>

text \<open>Between two calls no shared memory is held, and the clock is enabled for the holder of the device,
  less the enables that failed.\<close>

definition prof_inv :: "prof_st \<Rightarrow> bool" where
  "prof_inv s \<longleftrightarrow> shm_live s = [] \<and>
     clk_enabled s = (if lock_held s then 1 else 0) - int (clk_refused s)"

lemma prof_inv_kept: "prof_inv s \<Longrightarrow> prof_kept s s' \<Longrightarrow> prof_inv s'"
  by (simp add: prof_inv_def prof_kept_def)

lemma ioctl_inv:
  assumes "prof_inv s" and "shm_ok e" and "profiler_ioctl e q s = Some (r, c, s')"
  shows "prof_inv s'"
proof (cases q)
  case (PROFILER_IOCTL_GET_BW_INFO u)
  let ?s = "s\<lparr>bw_profiling_disabled := False\<rparr>"
  have "prof_inv ?s" using assms(1) by (simp add: prof_inv_def)
  moreover have "prof_kept ?s s'"
    using assms PROFILER_IOCTL_GET_BW_INFO bw_info_kept [OF assms(2), of ?s] by (simp add: prof_inv_def)
  ultimately show ?thesis by (rule prof_inv_kept)
next
  case (PROFILER_IOCTL_GET_BW_INFO_BC u)
  let ?s = "s\<lparr>bw_profiling_disabled := True\<rparr>"
  have "prof_inv ?s" using assms(1) by (simp add: prof_inv_def)
  moreover have "prof_kept ?s s'"
    using assms PROFILER_IOCTL_GET_BW_INFO_BC bw_info_kept [OF assms(2), of ?s] by (simp add: prof_inv_def)
  ultimately show ?thesis by (rule prof_inv_kept)
qed (use assms in \<open>auto simp: prof_inv_def profiler_set_bw_offsets_def profiler_device_init_def\<close>)

lemma release_result:
  assumes "prof_inv s" and "lock_held s" and "shm_ok e" and "profiler_release e s = Some (r, s')"
  shows "prof_inv s' \<and> \<not> lock_held s' \<and> clk_refused s' = clk_refused s"
proof -
  let ?s = "s\<lparr>clk_enabled := clk_enabled s - 1, lock_held := False\<rparr>"
  have inv: "prof_inv ?s" using assms(1,2) by (simp add: prof_inv_def)
  have "prof_kept ?s s'"
    using assms(4) start_stop_kept(2) [OF assms(3)]
    by (auto simp: profiler_release_def Let_def bind_Some_prof split: if_splits)
  with inv show ?thesis using prof_inv_kept by (auto simp: prof_kept_def)
qed

lemma prof_open_inv: "profiler_open e s = (r, s') \<Longrightarrow> prof_inv s \<Longrightarrow> prof_inv s'"
  by (auto simp: profiler_open_def prof_inv_def Let_def split: if_splits)

lemma command_returns:
  assumes "shm_ok e"
  shows "\<exists>r b' s'. bw_profiling_command e b s = Some (r, b', s')"
proof -
  obtain ok p t where a: "qtee_shmbridge_allocate_shm e 0 s = (ok, p, t)"
    by (cases "qtee_shmbridge_allocate_shm e 0 s") auto
  show ?thesis
    using alloc_shm_cases [OF assms a] a
    by (auto simp: bw_profiling_command_def Let_def free_shm_head split: prod.splits)
qed

lemma release_returns: "shm_ok e \<Longrightarrow> \<exists>r s'. profiler_release e s = Some (r, s')"
  using command_returns [of e "zeroed_buf\<lparr>cmd_id := TZ_BW_SVC_STOP_ID, bwreq := StopReq, req_size := 4\<rparr>"
      "s\<lparr>clk_enabled := clk_enabled s - 1, lock_held := False\<rparr>"]
  by (auto simp: profiler_release_def bw_profiling_stop_def Let_def)

definition prof_init :: prof_st where
  "prof_init = \<lparr>offset_reg_values = \<lparr>llcc_offset = replicate 12 0, cabo_offset = replicate 12 0,
       gemnoc_offset = replicate 48 0, mmnoc_hf_offset = replicate 16 0, mmnoc_sf_offset = replicate 12 0\<rparr>,
     dev_params = \<lparr>num_llcc_channels = 0, llcc_base = 0, llcc_map_size = 0, num_cabo_channels = 0,
       num_gemnoc_metrics = 0, gemnoc_base = 0, gemnoc_map_size = 0, num_hf_metrics = 0, num_sf_metrics = 0,
       mmnoc_base = 0, mmnoc_map_size = 0\<rparr>,
     bw_profiling_disabled = False, lock_held = False, clk_enabled = 0, clk_refused = 0, shm_allocs = 0, shm_live = [],
     tz_log = [], iomaps = 0\<rparr>"

text \<open>An environment in which everything works; a register holds its own address.\<close>

definition prof_example :: prof_env where
  "prof_example = \<lparr>alloc_shm = (\<lambda>n. Some (if even n then 0x10000 else 0x20000)), tz = (\<lambda>c. (0, tz_cmd c, 0)),
     tz_totals = [1, 2, 3, 4, 5, 6], ioremap = (\<lambda>_ _. 1), mmio = (\<lambda>_. ucast), in_missing = 0, out_missing = 0,
     kzalloc_buf = True, clk_prepare_enable = 0\<rparr>"

lemma prof_example_shm: "shm_ok prof_example"
  by (simp add: shm_ok_def prof_example_def)

section \<open>The counters\<close>

text \<open>A register of the list is usable; its value.\<close>

definition reg_ok :: "prof_env \<Rightarrow> u64 \<Rightarrow> u32 \<Rightarrow> int list \<Rightarrow> nat \<Rightarrow> bool" where
  "reg_ok e base map_size offs i \<longleftrightarrow> i < length offs \<and> ioremap e base (ucast map_size) \<noteq> 0 \<and>
     0 \<le> offs ! i \<and> offs ! i + 4 \<le> uint map_size"

definition reg_val :: "prof_env \<Rightarrow> nat \<Rightarrow> u64 \<Rightarrow> int list \<Rightarrow> nat \<Rightarrow> u32" where
  "reg_val e now base offs i = mmio e now (base + of_int (offs ! i))"

lemma read_into_ok:
  "reg_ok e base sz offs i \<Longrightarrow> i < length xs \<Longrightarrow>
    read_into e now base sz offs i xs = Some (xs[i := reg_val e now base offs i])"
  by (simp add: read_into_def readl_def put_at_def reg_ok_def reg_val_def)

lemma read_all_append:
  "read_all e now base sz offs (is @ js) xs = Option.bind (read_all e now base sz offs is xs) (read_all e now base sz offs js)"
  by (induction "is" arbitrary: xs) (auto simp: Option.bind_assoc intro!: Option.bind_cong)

lemma read_all_upt:
  assumes "\<And>i. i < n \<Longrightarrow> reg_ok e (base i) sz offs i" and "n \<le> length xs"
  shows "read_all e now base sz offs [0..<n] xs =
    Some (map (\<lambda>i. reg_val e now (base i) offs i) [0..<n] @ drop n xs)"
  using assms
proof (induction n)
  case 0
  then show ?case by simp
next
  case (Suc n)
  let ?ys = "map (\<lambda>i. reg_val e now (base i) offs i) [0..<n] @ drop n xs"
  have "read_all e now base sz offs [0..<n] xs = Some ?ys" using Suc by simp
  moreover have "read_into e now (base n) sz offs n ?ys = Some (?ys[n := reg_val e now (base n) offs n])"
    using Suc.prems by (intro read_into_ok) auto
  moreover have "?ys[n := v] = map (\<lambda>i. reg_val e now (base i) offs i) [0..<n] @ v # drop (Suc n) xs" for v
    using Suc.prems(2) by (simp add: list_update_append Cons_nth_drop_Suc [symmetric])
  ultimately show ?case by (simp add: read_all_append)
qed

lemma gemnoc_indices_eq: "gemnoc_indices ch m = [0..<ch * m]"
proof (induction ch)
  case 0
  then show ?case by (simp add: gemnoc_indices_def)
next
  case (Suc ch)
  have "map (\<lambda>gc. ch * m + gc) [0..<m] = [ch * m..<ch * m + m]"
    by (rule nth_equalityI) auto
  then have "gemnoc_indices (Suc ch) m = gemnoc_indices ch m @ [ch * m..<ch * m + m]"
    by (simp add: gemnoc_indices_def)
  also have "\<dots> = [0..<ch * m + m]"
    unfolding Suc.IH by (rule upt_add_eq_append [symmetric]) simp
  finally show ?case by (simp add: add.commute)
qed

text \<open>The two registers of each channel are read as one list.\<close>

definition channel_regs :: "nat list \<Rightarrow> nat list" where
  "channel_regs chs = concat (map (\<lambda>ch. [ch * 2, ch * 2 + 1]) chs)"

lemma channel_regs_upt: "channel_regs [0..<n] = [0..<2 * n]"
  by (induction n) (auto simp: channel_regs_def)

lemma read_channels_eq:
  assumes "read_all e now (\<lambda>i. channel_base p (i div 2)) (llcc_map_size p) (llcc_offset offs) (channel_regs chs)
      (llcc_values c) = Some l"
    and "read_all e now (\<lambda>i. channel_base p (i div 2)) (llcc_map_size p) (cabo_offset offs) (channel_regs chs)
      (cabo_values c) = Some k"
  shows "read_channels e now p offs chs c = Some (c\<lparr>llcc_values := l, cabo_values := k\<rparr>)"
  using assms
proof (induction chs arbitrary: c)
  case Nil
  then show ?case by (simp add: channel_regs_def)
next
  case (Cons ch chs)
  have r: "channel_regs (ch # chs) = ch * 2 # (ch * 2 + 1) # channel_regs chs" by (simp add: channel_regs_def)
  from Cons.prems(1) obtain l1 l2 where
    "read_into e now (channel_base p ch) (llcc_map_size p) (llcc_offset offs) (ch * 2) (llcc_values c) = Some l1"
    "read_into e now (channel_base p ch) (llcc_map_size p) (llcc_offset offs) (ch * 2 + 1) l1 = Some l2"
    "read_all e now (\<lambda>i. channel_base p (i div 2)) (llcc_map_size p) (llcc_offset offs) (channel_regs chs) l2 = Some l"
    unfolding r by (auto simp: bind_Some_prof)
  moreover from Cons.prems(2) obtain k1 k2 where
    "read_into e now (channel_base p ch) (llcc_map_size p) (cabo_offset offs) (ch * 2) (cabo_values c) = Some k1"
    "read_into e now (channel_base p ch) (llcc_map_size p) (cabo_offset offs) (ch * 2 + 1) k1 = Some k2"
    "read_all e now (\<lambda>i. channel_base p (i div 2)) (llcc_map_size p) (cabo_offset offs) (channel_regs chs) k2 = Some k"
    unfolding r by (auto simp: bind_Some_prof)
  ultimately show ?case
    using Cons.IH [of "c\<lparr>llcc_values := l2, cabo_values := k2\<rparr>"] by simp
qed


text \<open>The configuration stays inside the arrays and the mappings.\<close>

definition regs_ok :: "prof_env \<Rightarrow> device_param_init \<Rightarrow> reg_offset \<Rightarrow> bool" where
  "regs_ok e p offs \<longleftrightarrow>
     nat (num_llcc_channels p) \<le> 6 \<and> nat (num_llcc_channels p) * nat (num_gemnoc_metrics p) \<le> 48 \<and>
     nat (num_hf_metrics p) \<le> 16 \<and> nat (num_sf_metrics p) \<le> 12 \<and>
     list_all (\<lambda>i. reg_ok e (channel_base p (i div 2)) (llcc_map_size p) (llcc_offset offs) i)
       [0..<2 * nat (num_llcc_channels p)] \<and>
     list_all (\<lambda>i. reg_ok e (channel_base p (i div 2)) (llcc_map_size p) (cabo_offset offs) i)
       [0..<2 * nat (num_llcc_channels p)] \<and>
     list_all (reg_ok e (ucast (gemnoc_base p)) (gemnoc_map_size p) (gemnoc_offset offs))
       [0..<nat (num_llcc_channels p) * nat (num_gemnoc_metrics p)] \<and>
     list_all (reg_ok e (ucast (mmnoc_base p)) (mmnoc_map_size p) (mmnoc_hf_offset offs)) [0..<nat (num_hf_metrics p)] \<and>
     list_all (reg_ok e (ucast (mmnoc_base p)) (mmnoc_map_size p) (mmnoc_sf_offset offs)) [0..<nat (num_sf_metrics p)]"

text \<open>The counters as a table: the first \<open>n\<close> are registers, the others zero.\<close>

definition counter_row :: "nat \<Rightarrow> nat \<Rightarrow> (nat \<Rightarrow> u32) \<Rightarrow> u32 list" where
  "counter_row len n f = map f [0..<n] @ replicate (len - n) 0"

definition expected_counters :: "prof_env \<Rightarrow> nat \<Rightarrow> device_param_init \<Rightarrow> reg_offset \<Rightarrow> profiler_bw_cntrs" where
  "expected_counters e now p offs =
     (let ch = nat (num_llcc_channels p) in
      \<lparr>llcc_values = counter_row 12 (2 * ch) (\<lambda>i. reg_val e now (channel_base p (i div 2)) (llcc_offset offs) i),
       cabo_values = counter_row 12 (2 * ch) (\<lambda>i. reg_val e now (channel_base p (i div 2)) (cabo_offset offs) i),
       gemnoc_values = counter_row 48 (ch * nat (num_gemnoc_metrics p))
         (reg_val e now (ucast (gemnoc_base p)) (gemnoc_offset offs)),
       mmnoc_hf_values = counter_row 16 (nat (num_hf_metrics p)) (reg_val e now (ucast (mmnoc_base p)) (mmnoc_hf_offset offs)),
       mmnoc_sf_values = counter_row 12 (nat (num_sf_metrics p)) (reg_val e now (ucast (mmnoc_base p)) (mmnoc_sf_offset offs))\<rparr>)"

lemma read_all_row:
  assumes "list_all (\<lambda>i. reg_ok e (base i) sz offs i) [0..<n]" and "n \<le> len"
  shows "read_all e now base sz offs [0..<n] (replicate len 0) = Some (counter_row len n (\<lambda>i. reg_val e now (base i) offs i))"
  using read_all_upt [of n e base sz offs "replicate len 0"] assms
  by (simp add: list_all_iff counter_row_def)

lemma zero_counters_eq:
  "zero_counters = \<lparr>llcc_values = replicate 12 0, cabo_values = replicate 12 0, gemnoc_values = replicate 48 0,
     mmnoc_hf_values = replicate 16 0, mmnoc_sf_values = replicate 12 0\<rparr>"
  by (simp add: zero_counters_def LLCC_CHANNELS_def CABO_CHANNELS_def NUM_REG_TYPES_def
      GEMNOC_COUNTERS_def HF_COUNTERS_def SF_COUNTERS_def)

lemma read_counters_expected:
  assumes "regs_ok e p offs"
  shows "read_counters e now p offs = Some (expected_counters e now p offs)"
proof -
  let ?ch = "nat (num_llcc_channels p)"
  have l: "read_all e now (\<lambda>i. channel_base p (i div 2)) (llcc_map_size p) (llcc_offset offs) (channel_regs [0..<?ch])
      (llcc_values zero_counters) = Some (llcc_values (expected_counters e now p offs))"
    unfolding channel_regs_upt zero_counters_eq profiler_bw_cntrs.simps expected_counters_def Let_def
    by (rule read_all_row) (use assms in \<open>simp_all add: regs_ok_def\<close>)
  have k: "read_all e now (\<lambda>i. channel_base p (i div 2)) (llcc_map_size p) (cabo_offset offs) (channel_regs [0..<?ch])
      (cabo_values zero_counters) = Some (cabo_values (expected_counters e now p offs))"
    unfolding channel_regs_upt zero_counters_eq profiler_bw_cntrs.simps expected_counters_def Let_def
    by (rule read_all_row) (use assms in \<open>simp_all add: regs_ok_def\<close>)
  have g: "read_all e now (\<lambda>_. ucast (gemnoc_base p)) (gemnoc_map_size p) (gemnoc_offset offs)
      [0..<?ch * nat (num_gemnoc_metrics p)] (replicate 48 0) = Some (gemnoc_values (expected_counters e now p offs))"
    unfolding expected_counters_def Let_def profiler_bw_cntrs.simps
    by (rule read_all_row) (use assms in \<open>simp_all add: regs_ok_def\<close>)
  have hf: "read_all e now (\<lambda>_. ucast (mmnoc_base p)) (mmnoc_map_size p) (mmnoc_hf_offset offs)
      [0..<nat (num_hf_metrics p)] (replicate 16 0) = Some (mmnoc_hf_values (expected_counters e now p offs))"
    unfolding expected_counters_def Let_def profiler_bw_cntrs.simps
    by (rule read_all_row) (use assms in \<open>simp_all add: regs_ok_def\<close>)
  have sf: "read_all e now (\<lambda>_. ucast (mmnoc_base p)) (mmnoc_map_size p) (mmnoc_sf_offset offs)
      [0..<nat (num_sf_metrics p)] (replicate 12 0) = Some (mmnoc_sf_values (expected_counters e now p offs))"
    unfolding expected_counters_def Let_def profiler_bw_cntrs.simps
    by (rule read_all_row) (use assms in \<open>simp_all add: regs_ok_def\<close>)
  note chs = read_channels_eq [OF l k, unfolded zero_counters_eq]
  obtain c where c: "c = expected_counters e now p offs" by simp
  show ?thesis
    unfolding read_counters_def Let_def zero_counters_eq gemnoc_indices_eq
    using g hf sf by (cases c) (simp add: chs c [symmetric])
qed

text \<open>Memory is there, the secure world obeys, and the caller's memory can be read and written.\<close>

definition all_works :: "prof_env \<Rightarrow> bool" where
  "all_works e \<longleftrightarrow> (\<forall>n. \<exists>p. alloc_shm e n = Some p \<and> p \<noteq> 0) \<and> (\<forall>c. tz e c = (0, tz_cmd c, E_BW_SUCCESS)) \<and>
     in_missing e = 0 \<and> out_missing e = 0 \<and> kzalloc_buf e"


lemma command_works:
  assumes "all_works e" and "cmd_id b \<in> {TZ_BW_SVC_START_ID, TZ_BW_SVC_GET_ID, TZ_BW_SVC_STOP_ID}"
  shows "\<exists>shm b' s'. bw_profiling_command e b s = Some (0, b', s') \<and> prof_kept s s' \<and>
    tz_log s' = tz_log s @ [\<lparr>tz_cmd = cmd_id b, tz_req = bwreq b, in_buf = shm, in_size = req_size b,
      out_buf = shm + ucast (req_size b)\<rparr>]"
proof -
  obtain p where p: "alloc_shm e (shm_allocs s) = Some p" "p \<noteq> 0"
    using assms(1) by (auto simp: all_works_def)
  then show ?thesis
    using assms
    by (auto simp: bw_profiling_command_def qtee_shmbridge_allocate_shm_def all_works_def Let_def
        free_shm_head command_verdict_def prof_kept_def)
qed

lemma shm_ok_works: "all_works e \<Longrightarrow> shm_ok e"
  unfolding shm_ok_def all_works_def by (metis option.inject)

text \<open>C29: With a configuration inside its bounds and everything working, a request for the counters
  first stops the profiling in the secure world, then reads every configured register and hands it
  out at its own place, with zero elsewhere, and resets the profiling afterwards: the values are
  those the registers hold after the command that stops and before the one that resets.\<close>

theorem profiler_counters_exact:
  assumes "all_works e" and "regs_ok e (dev_params s) (offset_reg_values s)" and "shm_live s = []"
    and "req_cmd u = TZ_BW_SVC_GET_ID"
  shows "\<exists>c1 c2 s'. profiler_ioctl e (PROFILER_IOCTL_GET_BW_INFO u) s =
      Some (0, Some (Counters (expected_counters e (length (tz_log s) + 1) (dev_params s) (offset_reg_values s))), s') \<and>
    tz_log s' = tz_log s @ [c1, c2] \<and> tz_cmd c1 = TZ_BW_SVC_GET_ID \<and> tz_cmd c2 = TZ_BW_SVC_GET_ID \<and>
    (\<exists>p. tz_req c1 = GetReq p cntrs_size 0) \<and> (\<exists>p. tz_req c2 = GetReq p cntrs_size 1)"
proof -
  let ?s = "s\<lparr>bw_profiling_disabled := False\<rparr>" and ?b = "zeroed_buf\<lparr>bwreq := StartReq 0 (bwEnableFlags u)\<rparr>"
  obtain p where p: "alloc_shm e (shm_allocs s) = Some p" "p \<noteq> 0"
    using assms(1) by (auto simp: all_works_def)
  define t where "t = ?s\<lparr>shm_allocs := shm_allocs s + 1, shm_live := [p]\<rparr>"
  obtain q1 b1 s1 where c1: "bw_profiling_command e (get_request p cntrs_size 0 ?b) t = Some (0, b1, s1)"
    "prof_kept t s1" "tz_log s1 = tz_log t @ [\<lparr>tz_cmd = TZ_BW_SVC_GET_ID, tz_req = GetReq p cntrs_size 0,
      in_buf = q1, in_size = 20, out_buf = q1 + ucast (20 :: u32)\<rparr>]"
    using command_works [OF assms(1), of "get_request p cntrs_size 0 ?b" t] by (auto simp: get_request_def)
  have l1: "shm_live s1 = [p]" "dev_params s1 = dev_params s" "offset_reg_values s1 = offset_reg_values s"
    "length (tz_log s1) = length (tz_log s) + 1"
    using c1(2,3) by (simp_all add: prof_kept_def t_def)
  define s2 where "s2 = s1\<lparr>shm_live := [], iomaps := iomaps s1 + nat (num_llcc_channels (dev_params s)) + 2\<rparr>"
  obtain p2 where p2: "alloc_shm e (shm_allocs s2) = Some p2" "p2 \<noteq> 0"
    using assms(1) by (auto simp: all_works_def)
  define t2 where "t2 = s2\<lparr>shm_allocs := shm_allocs s2 + 1, shm_live := [p2]\<rparr>"
  obtain q2 b2 s3 where c2: "bw_profiling_command e (get_request p2 cntrs_size 1 b1) t2 = Some (0, b2, s3)"
    "prof_kept t2 s3" "tz_log s3 = tz_log t2 @ [\<lparr>tz_cmd = TZ_BW_SVC_GET_ID, tz_req = GetReq p2 cntrs_size 1,
      in_buf = q2, in_size = 20, out_buf = q2 + ucast (20 :: u32)\<rparr>]"
    using command_works [OF assms(1), of "get_request p2 cntrs_size 1 b1" t2] by (auto simp: get_request_def)
  have l2: "shm_live s3 = [p2]" using c2(2) by (simp add: prof_kept_def t2_def)
  have a1: "qtee_shmbridge_allocate_shm e 0 ?s = (True, p, t)"
    using p assms(3) by (simp add: qtee_shmbridge_allocate_shm_def t_def)
  have a2: "qtee_shmbridge_allocate_shm e p s2 = (True, p2, t2)"
    using p2 by (simp add: qtee_shmbridge_allocate_shm_def t2_def s2_def)
  note rest = a2 [unfolded s2_def]
  have "bw_profiling_get e ?b ?s = Some (0, Some (Counters (expected_counters e (length (tz_log s) + 1) (dev_params s) (offset_reg_values s))),
      b2, s3\<lparr>shm_live := []\<rparr>)"
    using assms(1) c1(1) c2(1) rest p p2 l1 l2
    by (simp add: bw_profiling_get_def bw_profiling_get_new_def a1 free_shm_head
        read_counters_expected [OF assms(2)] get_out_def all_works_def Let_def)
  then have "profiler_ioctl e (PROFILER_IOCTL_GET_BW_INFO u) s =
      Some (0, Some (Counters (expected_counters e (length (tz_log s) + 1) (dev_params s) (offset_reg_values s))), s3\<lparr>shm_live := []\<rparr>)"
    using assms(1,4) by (simp add: profiler_get_bw_info_def all_works_def tz_ids Let_def)
  then show ?thesis using c1(3) c2(3) by (auto simp: t2_def s2_def t_def)
qed

text \<open>One channel with one counter of each kind, and pages of 4096 bytes.\<close>

definition prof_one :: prof_st where
  "prof_one = prof_init\<lparr>dev_params := \<lparr>num_llcc_channels = 1, llcc_base = 0x9200000, llcc_map_size = 0x1000,
     num_cabo_channels = 1, num_gemnoc_metrics = 1, gemnoc_base = 0x9100000, gemnoc_map_size = 0x1000,
     num_hf_metrics = 1, num_sf_metrics = 1, mmnoc_base = 0x1700000, mmnoc_map_size = 0x1000\<rparr>,
     lock_held := True, clk_enabled := 1\<rparr>"

lemma prof_one_regs: "regs_ok prof_example (dev_params prof_one) (offset_reg_values prof_one)"
  by (simp add: regs_ok_def prof_one_def prof_init_def prof_example_def reg_ok_def list_all_iff)

lemma prof_example_works: "all_works prof_example"
  by (simp add: all_works_def prof_example_def E_BW_SUCCESS_def)

theorem profiler_counters_exact_witness:
  "\<exists>s'. profiler_ioctl prof_example (PROFILER_IOCTL_GET_BW_INFO \<lparr>req_cmd = 2, bwEnableFlags = 0\<rparr>) prof_one =
      Some (0, Some (Counters (expected_counters prof_example 1 (dev_params prof_one) (offset_reg_values prof_one))), s')"
proof -
  have "shm_live prof_one = []" and "req_cmd \<lparr>req_cmd = 2, bwEnableFlags = 0\<rparr> = TZ_BW_SVC_GET_ID"
    by (simp_all add: prof_one_def prof_init_def tz_ids)
  moreover have "tz_log prof_one = []" by (simp add: prof_one_def prof_init_def)
  ultimately show ?thesis using profiler_counters_exact [OF prof_example_works prof_one_regs] by fastforce
qed

section \<open>Crashes\<close>

text \<open>Which requests can crash the kernel: one for the counters in the new format, whose configuration
  leaves the arrays or mappings or during which an allocation of shared memory fails.\<close>

definition may_crash :: "prof_env \<Rightarrow> prof_request \<Rightarrow> prof_st \<Rightarrow> bool" where
  "may_crash e q s \<longleftrightarrow>
     (\<exists>u. q = PROFILER_IOCTL_GET_BW_INFO u \<and> req_cmd u = TZ_BW_SVC_GET_ID) \<and>
     ((\<exists>n. alloc_shm e n = None) \<or> \<not> regs_ok e (dev_params s) (offset_reg_values s))"

lemma bind_None_prof: "Option.bind x f = None \<longleftrightarrow> x = None \<or> (\<exists>a. x = Some a \<and> f a = None)"
  by (cases x) auto

lemma start_stop_return:
  assumes "shm_ok e"
  shows "bw_profiling_start e b s \<noteq> None" "bw_profiling_stop e b s \<noteq> None"
  using command_returns [OF assms] unfolding bw_profiling_start_def bw_profiling_stop_def Let_def
  by (metis option.distinct(1))+

lemma get_bc_returns:
  assumes ok: "shm_ok e"
  shows "bw_profiling_get_bc e b s \<noteq> None"
proof -
  obtain got p t where a: "qtee_shmbridge_allocate_shm e 0 s = (got, p, t)"
    by (cases "qtee_shmbridge_allocate_shm e 0 s") auto
  obtain r b' s' where c: "bw_profiling_command e (get_request p 24 0 b) t = Some (r, b', s')"
    using command_returns [OF ok] by blast
  have "prof_kept t s'" by (rule command_kept [OF ok c])
  then show ?thesis
    using alloc_shm_cases [OF ok a] a c
    by (auto simp: bw_profiling_get_bc_def get_out_def free_shm_head prof_kept_def)
qed

lemma get_new_crash:
  assumes ok: "shm_ok e" and none: "shm_live s = []" and crash: "bw_profiling_get_new e b s = None"
  shows "(\<exists>n. alloc_shm e n = None) \<or> \<not> regs_ok e (dev_params s) (offset_reg_values s)"
proof (rule ccontr)
  assume "\<not> ?thesis"
  then have all: "\<And>n. alloc_shm e n \<noteq> None" and regs: "regs_ok e (dev_params s) (offset_reg_values s)"
    by auto
  have got: "\<exists>p. qtee_shmbridge_allocate_shm e shm t =
      (True, p, t\<lparr>shm_allocs := shm_allocs t + 1, shm_live := p # shm_live t\<rparr>) \<and> p \<noteq> 0" for shm t
    using all [of "shm_allocs t"] ok
    by (auto simp: qtee_shmbridge_allocate_shm_def shm_ok_def)
  obtain p t where a: "qtee_shmbridge_allocate_shm e 0 s = (True, p, t)" "p \<noteq> 0"
    "t = s\<lparr>shm_allocs := shm_allocs s + 1, shm_live := p # shm_live s\<rparr>"
    using got [of 0 s] by blast
  obtain r1 b1 s1 where c1: "bw_profiling_command e (get_request p cntrs_size 0 b) t = Some (r1, b1, s1)"
    using command_returns [OF ok] by blast
  have k1: "shm_live s1 = [p]" "dev_params s1 = dev_params s" "offset_reg_values s1 = offset_reg_values s"
    using command_kept [OF ok c1] none by (simp_all add: prof_kept_def a(3))
  show False
  proof (cases "r1 = 0")
    case False
    with crash a(1,2) c1 k1 show False
      by (simp add: bw_profiling_get_new_def get_out_def free_shm_head)
  next
    case True
    define s2 where "s2 = s1\<lparr>shm_live := [], iomaps := iomaps s1 + nat (num_llcc_channels (dev_params s)) + 2\<rparr>"
    have s2: "s1\<lparr>shm_live := [], iomaps := iomaps s1 + nat (num_llcc_channels (dev_params s1)) + 2\<rparr> = s2"
      by (simp add: s2_def k1)
    obtain p2 t2 where a2: "qtee_shmbridge_allocate_shm e p s2 = (True, p2, t2)" "p2 \<noteq> 0"
      "t2 = s2\<lparr>shm_allocs := shm_allocs s2 + 1, shm_live := p2 # shm_live s2\<rparr>"
      using got [of p s2] by blast
    obtain r2 b2 s3 where c2: "bw_profiling_command e (get_request p2 cntrs_size 1 b1) t2 = Some (r2, b2, s3)"
      using command_returns [OF ok] by blast
    have "shm_live s3 = [p2]"
      using command_kept [OF ok c2] by (simp add: prof_kept_def a2(3) s2_def)
    moreover have "read_counters e (length (tz_log s1)) (dev_params s1) (offset_reg_values s1) \<noteq> None"
      using read_counters_expected [OF regs] k1 by simp
    ultimately show False
      using crash a(1,2) c1 k1(1) True a2(1,2) c2 s2
      by (auto simp: bw_profiling_get_new_def get_out_def free_shm_head Let_def split: if_splits)
  qed
qed

lemma ioctl_crash:
  assumes "prof_inv s" and ok: "shm_ok e" and crash: "profiler_ioctl e q s = None"
  shows "may_crash e q s"
proof (cases q)
  case (PROFILER_IOCTL_GET_BW_INFO u)
  let ?s = "s\<lparr>bw_profiling_disabled := False\<rparr>" and ?b = "zeroed_buf\<lparr>bwreq := StartReq 0 (bwEnableFlags u)\<rparr>"
  have c: "profiler_get_bw_info e u ?s = None" using crash PROFILER_IOCTL_GET_BW_INFO by simp
  then have "req_cmd u = TZ_BW_SVC_GET_ID \<and> bw_profiling_get e ?b ?s = None"
    by (auto simp: profiler_get_bw_info_def Let_def bind_None_prof start_stop_return [OF ok] split: if_splits)
  moreover from this have "bw_profiling_get_new e ?b ?s = None" by (simp add: bw_profiling_get_def)
  ultimately show ?thesis
    using get_new_crash [OF ok, of ?s ?b] assms(1) PROFILER_IOCTL_GET_BW_INFO
    by (simp add: may_crash_def prof_inv_def)
next
  case (PROFILER_IOCTL_GET_BW_INFO_BC u)
  with crash have "profiler_get_bw_info e u (s\<lparr>bw_profiling_disabled := True\<rparr>) = None" by simp
  then have False
    by (auto simp: profiler_get_bw_info_def bw_profiling_get_def Let_def bind_None_prof
        start_stop_return [OF ok] get_bc_returns [OF ok] split: if_splits)
  then show ?thesis ..
qed (use crash in \<open>simp_all add: profiler_set_bw_offsets_def profiler_device_init_def\<close>)

section \<open>The device file\<close>

text \<open>What processes do with the file, one call after the other. Anyone can open it; requests and the
  release come from who holds it. \<open>None\<close> is a crash.\<close>

datatype prof_act = Prof_open prof_env | Prof_request prof_env prof_request | Prof_release prof_env

primrec prof_act_env :: "prof_act \<Rightarrow> prof_env" where
  "prof_act_env (Prof_open e) = e"
| "prof_act_env (Prof_request e q) = e"
| "prof_act_env (Prof_release e) = e"

fun prof_do :: "prof_act \<Rightarrow> prof_st \<Rightarrow> prof_st option" where
  "prof_do (Prof_open e) s = Some (snd (profiler_open e s))"
| "prof_do (Prof_request e q) s =
     (if lock_held s then map_option (\<lambda>(ret, out, s). s) (profiler_ioctl e q s) else Some s)"
| "prof_do (Prof_release e) s =
     (if lock_held s then map_option (\<lambda>(ret, s). s) (profiler_release e s) else Some s)"

primrec prof_exec :: "prof_act list \<Rightarrow> prof_st \<Rightarrow> prof_st option" where
  "prof_exec [] s = Some s"
| "prof_exec (a # acts) s = Option.bind (prof_do a s) (prof_exec acts)"

lemma prof_do_inv:
  assumes "prof_inv s" and "shm_ok (prof_act_env a)" and "prof_do a s = Some s'"
  shows "prof_inv s'"
proof (cases a)
  case (Prof_open e)
  with assms(3) have "profiler_open e s = (fst (profiler_open e s), s')" by auto
  then show ?thesis using assms(1) by (rule prof_open_inv)
qed (use assms in \<open>auto split: if_splits intro: ioctl_inv dest: release_result\<close>)

lemma prof_do_crash:
  assumes "prof_inv s" and "shm_ok (prof_act_env a)" and "prof_do a s = None"
  shows "\<exists>e q. a = Prof_request e q \<and> may_crash e q s"
proof (cases a)
  case (Prof_release e)
  with assms release_returns [of e s] show ?thesis by (auto split: if_splits)
qed (use assms in \<open>auto split: if_splits intro: ioctl_crash\<close>)

lemma prof_exec_inv:
  "prof_inv s \<Longrightarrow> \<forall>a \<in> set acts. shm_ok (prof_act_env a) \<Longrightarrow> prof_exec acts s = Some s' \<Longrightarrow> prof_inv s'"
  by (induction acts arbitrary: s) (auto simp: bind_Some_prof intro: prof_do_inv)

lemma prof_exec_crash:
  "prof_inv s \<Longrightarrow> \<forall>a \<in> set acts. shm_ok (prof_act_env a) \<Longrightarrow> prof_exec acts s = None \<Longrightarrow>
   \<exists>pre e q post s1. acts = pre @ Prof_request e q # post \<and> prof_exec pre s = Some s1 \<and> may_crash e q s1"
proof (induction acts arbitrary: s)
  case (Cons a acts)
  show ?case
  proof (cases "prof_do a s")
    case None
    with Cons.prems prof_do_crash [of s a] obtain e q where "a = Prof_request e q" "may_crash e q s" by auto
    then show ?thesis by (intro exI [of _ "[]"]) auto
  next
    case (Some s2)
    with Cons.prems have "prof_inv s2" using prof_do_inv [of s a s2] by simp
    moreover have "prof_exec acts s2 = None" using Cons.prems(3) Some by simp
    ultimately obtain pre e q post s1 where
      "acts = pre @ Prof_request e q # post" "prof_exec pre s2 = Some s1" "may_crash e q s1"
      using Cons.IH [of s2] Cons.prems(2) by auto
    with Some show ?thesis by (intro exI [of _ "a # pre"]) auto
  qed
qed simp

text \<open>C24: Whatever is done with the file, and however the requests fail: when the device is held, its
  release returns and gives it back. No shared memory is left, the next open succeeds, and the clock
  has been disabled once for every time it was enabled and once more for every open whose enable
  failed, so that it is off exactly when none has. The only calls that do not return are requests
  for the counters that crash the kernel: the configuration leaves the arrays or the mappings, or an
  allocation of shared memory fails.\<close>

theorem profiler_release_frees:
  assumes "prof_inv s" and "\<forall>a \<in> set acts. shm_ok (prof_act_env a)" and "shm_ok e"
  shows "case prof_exec acts s of
      Some s1 \<Rightarrow> lock_held s1 \<longrightarrow>
        (\<exists>r s'. profiler_release e s1 = Some (r, s') \<and> shm_live s' = [] \<and> \<not> lock_held s' \<and>
           clk_enabled s' = - int (clk_refused s') \<and> clk_refused s' = clk_refused s1 \<and>
           fst (profiler_open d s') = 0)
    | None \<Rightarrow> \<exists>pre d q post s1. acts = pre @ Prof_request d q # post \<and> prof_exec pre s = Some s1 \<and>
        may_crash d q s1"
proof (cases "prof_exec acts s")
  case None
  then show ?thesis using prof_exec_crash [OF assms(1,2)] by simp
next
  case (Some s1)
  then have inv: "prof_inv s1" by (rule prof_exec_inv [OF assms(1,2)])
  obtain r s' where r: "profiler_release e s1 = Some (r, s')" using release_returns [OF assms(3)] by blast
  have "\<exists>r s'. profiler_release e s1 = Some (r, s') \<and> shm_live s' = [] \<and> \<not> lock_held s' \<and>
      clk_enabled s' = - int (clk_refused s') \<and> clk_refused s' = clk_refused s1 \<and>
      fst (profiler_open d s') = 0" if "lock_held s1"
    using release_result [OF inv that assms(3) r] r by (simp add: prof_inv_def profiler_open_def Let_def)
  then show ?thesis using Some by simp
qed

text \<open>An open whose enable fails and a request for the counters, then the release.\<close>

definition clockless :: prof_env where
  "clockless = prof_example\<lparr>clk_prepare_enable := - 5\<rparr>"

definition clockless_acts :: "prof_act list" where
  "clockless_acts = [Prof_open clockless, Prof_request prof_example (PROFILER_IOCTL_SET_OFFSETS
     (offset_reg_values prof_init))]"

lemma clockless_run:
  "prof_exec clockless_acts prof_init = Some (prof_init\<lparr>lock_held := True, clk_refused := 1\<rparr>)"
  by (simp add: clockless_acts_def clockless_def profiler_open_def prof_init_def profiler_set_bw_offsets_def)

theorem profiler_release_frees_witness:
  "\<exists>r s'. profiler_release prof_example (prof_init\<lparr>lock_held := True, clk_refused := 1\<rparr>) = Some (r, s') \<and>
    shm_live s' = [] \<and> clk_enabled s' = - 1 \<and> fst (profiler_open prof_example s') = 0"
proof -
  have "prof_inv prof_init" by (simp add: prof_inv_def prof_init_def)
  moreover have "\<forall>a \<in> set clockless_acts. shm_ok (prof_act_env a)"
    by (simp add: clockless_acts_def clockless_def shm_ok_def prof_example_def)
  ultimately show ?thesis
    using profiler_release_frees [of prof_init clockless_acts prof_example prof_example]
    by (auto simp: clockless_run prof_example_shm)
qed

section \<open>Configurations and failures the code does not handle\<close>

lemma read_into_length: "read_into e now base sz offs i xs = Some ys \<Longrightarrow> length ys = length xs \<and> i < length xs"
  by (auto simp: read_into_def put_at_def bind_Some_prof split: if_splits)

lemma read_channels_bound:
  "read_channels e now p offs chs c = Some c' \<Longrightarrow> ch \<in> set chs \<Longrightarrow> 2 * ch + 1 < length (llcc_values c)"
proof (induction chs arbitrary: c)
  case (Cons x chs)
  then show ?case by (fastforce simp: bind_Some_prof dest!: read_into_length)
qed simp

lemma read_all_length: "read_all e now base sz offs is xs = Some ys \<Longrightarrow> length ys = length xs"
  by (induction "is" arbitrary: xs) (auto simp: bind_Some_prof dest: read_into_length)

text \<open>User space gives the number of channels; the arrays have room for six.\<close>

lemma too_many_channels_crash:
  assumes "6 < num_llcc_channels p"
  shows "read_counters e now p offs = None"
proof (rule ccontr)
  assume "read_counters e now p offs \<noteq> None"
  then obtain c where "read_channels e now p offs [0..<nat (num_llcc_channels p)] zero_counters = Some c"
    by (auto simp: read_counters_def Let_def bind_Some_prof)
  then have "2 * 6 + 1 < length (llcc_values zero_counters)"
    by (rule read_channels_bound) (use assms in simp)
  then show False by (simp add: zero_counters_eq)
qed

text \<open>When the second buffer cannot be had, the first is freed again.\<close>

lemma second_buffer_double_free:
  "profiler_ioctl (prof_example\<lparr>alloc_shm := (alloc_shm prof_example)(2 := None)\<rparr>)
     (PROFILER_IOCTL_GET_BW_INFO \<lparr>req_cmd = 2, bwEnableFlags = 0\<rparr>) prof_one = None"
  by code_simp

text \<open>Without memory for the message, the zero response decides: the error is \<open>- EPERM\<close>.\<close>

lemma command_without_memory:
  assumes "alloc_shm e (shm_allocs s) = None"
  shows "bw_profiling_start e zeroed_buf s = Some (- 1, zeroed_buf\<lparr>cmd_id := TZ_BW_SVC_START_ID,
    bwreq := StartReq TZ_BW_SVC_VERSION 0, req_size := 12\<rparr>, s\<lparr>shm_allocs := shm_allocs s + 1\<rparr>)"
  using assms by (simp add: bw_profiling_start_def bw_profiling_command_def qtee_shmbridge_allocate_shm_def
      command_verdict_def zeroed_buf_def tz_ids Let_def)

lemma unread_request_positive:
  "0 < in_missing e \<Longrightarrow> \<exists>r s'. profiler_ioctl e (PROFILER_IOCTL_GET_BW_INFO u) s = Some (r, None, s') \<and> 0 < r"
  by (simp add: profiler_get_bw_info_def)

lemma unwritten_counters_succeed:
  "\<exists>s'. profiler_ioctl (prof_example\<lparr>out_missing := 1\<rparr>)
     (PROFILER_IOCTL_GET_BW_INFO \<lparr>req_cmd = 2, bwEnableFlags = 0\<rparr>) prof_one = Some (0, None, s')"
  by (rule exI) code_simp

lemma mappings_accumulate:
  "map_option (\<lambda>(r, c, s). iomaps s) (profiler_ioctl prof_example
     (PROFILER_IOCTL_GET_BW_INFO \<lparr>req_cmd = 2, bwEnableFlags = 0\<rparr>) prof_one) = Some 3"
  by code_simp

section \<open>Probe and removal\<close>

text \<open>What the probe asks of the kernel, and what it holds afterwards.\<close>

record probe_env =
  probe_kzalloc :: bool
  qdss_clk :: ptr
  chrdev_ret :: int
  class_ret :: ptr
  class_dev_ret :: ptr
  cdev_ret :: int

record probe_st =
  profiler_set :: bool
  chrdev_region :: bool
  driver_class :: bool
  class_device :: bool
  cdev_added :: bool

definition bwprofiler_probe :: "probe_env \<Rightarrow> probe_st \<Rightarrow> int \<times> probe_st" where
  "bwprofiler_probe e s =
     (if \<not> probe_kzalloc e then (- ENOMEM, s\<lparr>profiler_set := False\<rparr>)
      else let s = s\<lparr>profiler_set := True\<rparr> in
        if IS_ERR_OR_NULL (qdss_clk e) then (PTR_ERR (qdss_clk e), s)
        else if chrdev_ret e < 0 then (chrdev_ret e, s)
        else let s = s\<lparr>chrdev_region := True\<rparr> in
          if IS_ERR (class_ret e) then (- ENOMEM, s\<lparr>chrdev_region := False\<rparr>)
          else let s = s\<lparr>driver_class := True\<rparr> in
            if IS_ERR (class_dev_ret e)
            then (- ENOMEM, s\<lparr>driver_class := False, chrdev_region := False\<rparr>)
            else let s = s\<lparr>class_device := True\<rparr> in
              if cdev_ret e < 0
              then (cdev_ret e, s\<lparr>class_device := False, driver_class := False, chrdev_region := False\<rparr>)
              else (0, s\<lparr>cdev_added := True\<rparr>))"

definition bwprofiler_remove :: "probe_st \<Rightarrow> int \<times> probe_st" where
  "bwprofiler_remove s = (0, s)"

definition unprobed :: probe_st where
  "unprobed = \<lparr>profiler_set = False, chrdev_region = False, driver_class = False, class_device = False,
     cdev_added = False\<rparr>"

text \<open>A probe that fails holds nothing; one that succeeds with a clock holds everything.\<close>

lemma probe_all_or_nothing:
  assumes "bwprofiler_probe e unprobed = (r, s')" and "qdss_clk e \<noteq> 0"
  shows "r < 0 \<and> \<not> chrdev_region s' \<and> \<not> driver_class s' \<and> \<not> class_device s' \<and> \<not> cdev_added s' \<or>
    r = 0 \<and> profiler_set s' \<and> chrdev_region s' \<and> driver_class s' \<and> class_device s' \<and> cdev_added s'"
  using assms
  by (auto simp: bwprofiler_probe_def unprobed_def Let_def IS_ERR_OR_NULL_def PTR_ERR_neg split: if_splits)

text \<open>A missing clock is no error pointer: the probe reports success without a device.\<close>

lemma null_clock_probes:
  "probe_kzalloc e \<Longrightarrow> qdss_clk e = 0 \<Longrightarrow>
    bwprofiler_probe e unprobed = (0, unprobed\<lparr>profiler_set := True\<rparr>)"
  by (simp add: bwprofiler_probe_def PTR_ERR_def)

end
