(* ===== verification/CmaHeap.thy ===== *)
theory CmaHeap
  imports SgOps
begin

text \<open>
  Model of \<open>drivers/qcom_cma_heap.c\<close>, the dma-buf heap over a contiguous-memory area:
  allocation with clearing and error paths, the release of a buffer, and the creation of the
  heap. The area's allocator, the signals of the process, the scatter table and the export are
  parameters. A page frame is a natural number and its content a word, 0 for a cleared page; the
  loop that clears page by page is a recursive function with a termination proof.
\<close>

section \<open>Data\<close>

record cma_heap =
  cma_max_align :: u32

text \<open>A buffer: its first page, its length, and the scatter entry that \<open>sg_set_page\<close> fills in, whose
  length has 32 bits.\<close>

record cma_buf =
  cma_page :: nat
  cma_len :: u64
  cma_sg :: scatterlist

record cma_st =
  ranges :: "(nat \<times> nat) list"
  infos :: int
  sg_tables :: int
  content :: "nat \<Rightarrow> u64"

record cma_env =
  kzalloc_info :: bool
  PageHighMem :: "nat \<Rightarrow> bool"
  fatal_signal_pending :: "nat \<Rightarrow> bool"
  sgt_ret :: int
  exported :: ptr

text \<open>The area's allocator sees the ranges in use, the number of pages and the alignment order.\<close>

type_synonym cma_alloc = "(nat \<times> nat) list \<Rightarrow> nat \<Rightarrow> nat \<Rightarrow> nat option"

definition cma_release :: "nat \<Rightarrow> nat \<Rightarrow> cma_st \<Rightarrow> cma_st" where
  "cma_release pages n s = s\<lparr>ranges := remove1 (pages, n) (ranges s)\<rparr>"

text \<open>\<open>get_order\<close>: the bits of the last page's index.\<close>

fun bits_needed :: "nat \<Rightarrow> nat" where
  "bits_needed n = (if n = 0 then 0 else Suc (bits_needed (n div 2)))"

declare bits_needed.simps [simp del]

definition get_order :: "u64 \<Rightarrow> nat" where
  "get_order sz = bits_needed (unat (drop_bit 12 (sz - 1)))"

section \<open>Clearing\<close>

lemma unat_dec: "0 < (n :: u64) \<Longrightarrow> unat (n - 1) = unat n - 1 \<and> 0 < unat n"
  by (simp add: unat_minus_one word_gt_0 unat_gt_0)

text \<open>The loop clears a page, gives up when the process is being killed, and goes on.\<close>

function cma_clear ::
  "(nat \<Rightarrow> bool) \<Rightarrow> nat \<Rightarrow> nat \<Rightarrow> u64 \<Rightarrow> (nat \<Rightarrow> u64) \<Rightarrow> bool \<times> (nat \<Rightarrow> u64)" where
  "cma_clear killed i page nr_clear_pages m =
     (if nr_clear_pages > 0 then
        (let m = m(page := 0) in
         if killed i then (False, m)
         else cma_clear killed (i + 1) (page + 1) (nr_clear_pages - 1) m)
      else (True, m))"
  by auto

termination
  by (relation "measure (\<lambda>(killed, i, page, n, m). unat n)") (use unat_dec in auto)

declare cma_clear.simps [simp del]

definition clear_range :: "nat \<Rightarrow> nat \<Rightarrow> (nat \<Rightarrow> u64) \<Rightarrow> nat \<Rightarrow> u64" where
  "clear_range page n m = (\<lambda>p. if page \<le> p \<and> p < page + n then 0 else m p)"

section \<open>Allocation and release\<close>

text \<open>The labels of the exit, from the last one taken.\<close>

definition free_info :: "int \<Rightarrow> cma_st \<Rightarrow> (int + ptr \<times> cma_buf) \<times> cma_st" where
  "free_info ret s = (Inl ret, s\<lparr>infos := infos s - 1\<rparr>)"

definition free_cma :: "nat \<Rightarrow> nat \<Rightarrow> int \<Rightarrow> cma_st \<Rightarrow> (int + ptr \<times> cma_buf) \<times> cma_st" where
  "free_cma pages n ret s = free_info ret (cma_release pages n s)"

definition free_sgtable :: "nat \<Rightarrow> nat \<Rightarrow> int \<Rightarrow> cma_st \<Rightarrow> (int + ptr \<times> cma_buf) \<times> cma_st" where
  "free_sgtable pages n ret s = free_cma pages n ret (s\<lparr>sg_tables := sg_tables s - 1\<rparr>)"

definition cma_heap_allocate ::
  "cma_alloc \<Rightarrow> cma_heap \<Rightarrow> cma_env \<Rightarrow> u64 \<Rightarrow> cma_st \<Rightarrow> (int + ptr \<times> cma_buf) \<times> cma_st" where
  "cma_heap_allocate cma_alloc h e len s =
     (let sz = PAGE_ALIGN len; nr_pages = drop_bit 12 sz; align = get_order sz in
      if \<not> kzalloc_info e then (Inl (- ENOMEM), s)
      else let s = s\<lparr>infos := infos s + 1\<rparr>;
               align = (if align > unat (cma_max_align h) then unat (cma_max_align h) else align);
               n = unat nr_pages in
      case cma_alloc (ranges s) n align of
        None \<Rightarrow> free_info (- ENOMEM) s
      | Some pages \<Rightarrow>
          let s = s\<lparr>ranges := (pages, n) # ranges s\<rparr>;
              (cleared, m) = (if PageHighMem e pages
                then cma_clear (fatal_signal_pending e) 0 pages nr_pages (content s)
                else (True, clear_range pages n (content s)));
              s = s\<lparr>content := m\<rparr> in
          if \<not> cleared then free_cma pages n (- ENOMEM) s
          else if sgt_ret e \<noteq> 0 then free_cma pages n (sgt_ret e) s
          else let s = s\<lparr>sg_tables := sg_tables s + 1\<rparr> in
          if IS_ERR (exported e) then free_sgtable pages n (PTR_ERR (exported e)) s
          else (Inr (exported e, \<lparr>cma_page = pages, cma_len = sz,
              cma_sg = \<lparr>sg_page = of_nat pages, sg_length = ucast sz, sg_offset = 0\<rparr>\<rparr>), s))"

definition cma_heap_free :: "cma_buf \<Rightarrow> cma_st \<Rightarrow> cma_st" where
  "cma_heap_free b s =
     (let s = cma_release (cma_page b) (unat (drop_bit 12 (cma_len b))) s in
      s\<lparr>sg_tables := sg_tables s - 1, infos := infos s - 1\<rparr>)"

section \<open>The heap\<close>

text \<open>\<open>default_align\<close> is \<open>CONFIG_CMA_ALIGNMENT\<close>; \<open>added\<close> is what \<open>dma_heap_add\<close> returns.\<close>

definition add_cma_heap :: "bool \<Rightarrow> u32 \<Rightarrow> ptr \<Rightarrow> u32 \<Rightarrow> int \<times> cma_heap option" where
  "add_cma_heap kzalloc_heap default_align added max_align =
     (if \<not> kzalloc_heap then (- ENOMEM, None)
      else let h = \<lparr>cma_max_align = default_align\<rparr>;
               h = (if max_align \<noteq> 0 then h\<lparr>cma_max_align := max_align\<rparr> else h) in
      if IS_ERR added then (PTR_ERR added, None) else (0, Some h))"

definition qcom_add_cma_heap :: "bool \<Rightarrow> u32 \<Rightarrow> ptr \<Rightarrow> u32 \<Rightarrow> int \<times> cma_heap option" where
  "qcom_add_cma_heap kzalloc_heap default_align added max_align =
     add_cma_heap kzalloc_heap default_align added max_align"

section \<open>Properties\<close>

text \<open>The order covers the size and is the least that does.\<close>

lemma bits_needed_bound: "n < 2 ^ bits_needed n"
  by (induction n rule: bits_needed.induct) (subst bits_needed.simps, auto)

lemma bits_needed_least: "n < 2 ^ k \<Longrightarrow> bits_needed n \<le> k"
proof (induction n arbitrary: k rule: bits_needed.induct)
  case (1 n)
  show ?case
  proof (cases "n = 0")
    case True
    then show ?thesis by (simp add: bits_needed.simps)
  next
    case False
    then obtain j where k: "k = Suc j" using "1.prems" by (cases k) auto
    then have "n div 2 < 2 ^ j" using "1.prems" by auto
    with "1.IH" False k show ?thesis by (subst bits_needed.simps) auto
  qed
qed

lemma cma_clear_eq:
  "cma_clear killed i page n m =
     (let k = length (takeWhile (\<lambda>j. \<not> killed (i + j)) [0..<unat n]) in
      (k = unat n, clear_range page (min (unat n) (Suc k)) m))"
proof (induction killed i page n m rule: cma_clear.induct)
  case (1 killed i page n m)
  show ?case
  proof (cases "0 < n")
    case False
    then have "n = 0" by (simp add: word_gt_0)
    then show ?thesis by (auto simp: cma_clear.simps clear_range_def fun_eq_iff)
  next
    case True
    then have u: "unat n = Suc (unat (n - 1))" using unat_dec [of n] by simp
    have step: "clear_range (Suc page) j (m(page := 0)) = clear_range page (Suc j) m" for j
      by (rule ext) (auto simp: clear_range_def)
    have tw: "takeWhile (\<lambda>j. \<not> killed (i + j)) [0..<Suc j] =
        (if killed i then [] else 0 # map Suc (takeWhile (\<lambda>j. \<not> killed (i + 1 + j)) [0..<j]))" for j
      unfolding upt_conv_Cons [OF zero_less_Suc] map_Suc_upt [symmetric]
      by (simp add: takeWhile_map comp_def)
    show ?thesis
    proof (cases "killed i")
      case True
      with \<open>0 < n\<close> show ?thesis
        by (subst cma_clear.simps) (simp add: u tw clear_range_def fun_eq_iff del: upt_Suc)
    next
      case False
      with \<open>0 < n\<close> show ?thesis
        using "1.IH" [OF \<open>0 < n\<close> refl False]
        by (subst cma_clear.simps) (simp add: u tw step [unfolded fun_upd_def] fun_upd_def Let_def del: upt_Suc)
    qed
  qed
qed

text \<open>C38: The clearing loop returns for every number of pages and every sequence of signals: it
  reports success exactly when no kill arrived at one of its pages, and it has then cleared the
  pages up to and including the one at which it stopped, and no other.\<close>

theorem cma_clear_returns:
  "\<exists>ok m'. cma_clear killed 0 page n m = (ok, m') \<and>
     (ok \<longleftrightarrow> list_all (\<lambda>j. \<not> killed j) [0..<unat n]) \<and>
     m' = clear_range page (min (unat n) (Suc (length (takeWhile (\<lambda>j. \<not> killed j) [0..<unat n])))) m"
proof -
  let ?k = "length (takeWhile (\<lambda>j. \<not> killed j) [0..<unat n])"
  have "?k = unat n \<longleftrightarrow> list_all (\<lambda>j. \<not> killed j) [0..<unat n]"
  proof
    assume k: "?k = unat n"
    then have "takeWhile (\<lambda>j. \<not> killed j) [0..<unat n] = [0..<unat n]"
      by (metis takeWhile_eq_take take_all_iff length_upt diff_zero order_refl)
    then show "list_all (\<lambda>j. \<not> killed j) [0..<unat n]"
      unfolding takeWhile_eq_all_conv list_all_iff .
  next
    assume "list_all (\<lambda>j. \<not> killed j) [0..<unat n]"
    then have "takeWhile (\<lambda>j. \<not> killed j) [0..<unat n] = [0..<unat n]"
      unfolding takeWhile_eq_all_conv list_all_iff .
    then show "?k = unat n" by (metis length_upt diff_zero)
  qed
  then show ?thesis using cma_clear_eq [of killed 0 page n m] by (simp add: Let_def)
qed

lemma mask_12: "(4095 :: u64) = mask 12"
  by (simp add: mask_eq_exp_minus_1)

lemma PAGE_ALIGN_unat:
  assumes "unat len \<le> 18446744073709547520"
  shows "unat (PAGE_ALIGN len) = 4096 * ((unat len + 4095) div 4096)"
proof -
  have u: "unat (len + 4095) = unat len + 4095"
    using assms by (simp add: unat_add_u64)
  have "PAGE_ALIGN len = push_bit 12 (drop_bit 12 (len + 4095))"
    unfolding PAGE_ALIGN_def mask_12
    by (rule bit_eqI) (auto simp: bit_simps not_less)
  moreover have "(unat len + 4095) div 4096 * 4096 \<le> 18446744073709551615"
    using assms by simp
  then have "unat (push_bit 12 (drop_bit 12 (len + 4095))) = 4096 * ((unat len + 4095) div 4096)"
    unfolding unsigned_push_bit_eq unat_drop_bit_eq u unfolding drop_bit_eq_div push_bit_eq_mult
    by (subst take_bit_nat_eq_self) simp_all
  ultimately show ?thesis by simp
qed

definition pages_for :: "u64 \<Rightarrow> nat" where "pages_for len = (unat len + 4095) div 4096"

lemma nr_pages_unat:
  "unat len \<le> 18446744073709547520 \<Longrightarrow> unat (drop_bit 12 (PAGE_ALIGN len)) = pages_for len"
  unfolding unat_drop_bit_eq unfolding pages_for_def drop_bit_eq_div by (simp add: PAGE_ALIGN_unat)

lemma cma_release_new [simp]: "cma_release p n (s\<lparr>ranges := (p, n) # rs\<rparr>) = s\<lparr>ranges := rs\<rparr>"
  by (simp add: cma_release_def)

lemmas cma_exits = free_info_def free_cma_def free_sgtable_def cma_release_def

lemma cma_clear_success:
  assumes "cma_clear killed 0 page n m = (True, m')"
  shows "m' = clear_range page (unat n) m"
proof -
  have "cma_clear killed 0 page n m =
      (let k = length (takeWhile (\<lambda>j. \<not> killed (0 + j)) [0..<unat n]) in
       (k = unat n, clear_range page (min (unat n) (Suc k)) m))"
    by (rule cma_clear_eq)
  with assms show ?thesis by (auto simp: Let_def)
qed

lemma cma_clear_only:
  assumes "cma_clear killed 0 page n m = (ok, m')"
  shows "m' p = m p \<or> m' p = 0"
  using assms cma_clear_eq [of killed 0 page n m] by (auto simp: Let_def clear_range_def)

lemma cma_allocate_success:
  assumes "cma_heap_allocate ca h e len s = (Inr (d, b), s')"
  shows "\<exists>n. n = unat (drop_bit 12 (PAGE_ALIGN len)) \<and> cma_len b = PAGE_ALIGN len \<and> d = exported e \<and>
    cma_sg b = \<lparr>sg_page = of_nat (cma_page b), sg_length = ucast (cma_len b), sg_offset = 0\<rparr> \<and>
    ca (ranges s) n (min (get_order (PAGE_ALIGN len)) (unat (cma_max_align h))) = Some (cma_page b) \<and>
    s' = s\<lparr>ranges := (cma_page b, n) # ranges s, infos := infos s + 1, sg_tables := sg_tables s + 1,
      content := clear_range (cma_page b) n (content s)\<rparr>"
  using assms
  by (auto simp: cma_heap_allocate_def cma_exits Let_def min_def dest: cma_clear_success
      split: if_splits option.splits prod.splits)

lemma cma_allocate_failure:
  assumes "cma_heap_allocate ca h e len s = (Inl r, s')"
  shows "s' = s\<lparr>content := content s'\<rparr> \<and> (\<forall>p. content s' p = content s p \<or> content s' p = 0)"
  using assms
  by (auto simp: cma_heap_allocate_def cma_exits Let_def clear_range_def dest: cma_clear_only
      split: if_splits option.splits prod.splits)

text \<open>C26: A buffer the heap hands out is the requested length rounded up to pages, taken from the area
  with the capped alignment; all its pages are cleared and no other page is touched, and its release
  leaves the area and the bookkeeping as before the allocation. A failed allocation leaves them so
  at once.\<close>

theorem cma_buffer_lifecycle:
  assumes "unat len \<le> 18446744073709547520"
  shows "case cma_heap_allocate ca h e len s of
      (Inr (d, b), s') \<Rightarrow>
        unat (cma_len b) = 4096 * pages_for len \<and>
        ca (ranges s) (pages_for len) (min (get_order (cma_len b)) (unat (cma_max_align h))) = Some (cma_page b) \<and>
        ranges s' = (cma_page b, pages_for len) # ranges s \<and>
        content s' = clear_range (cma_page b) (pages_for len) (content s) \<and>
        cma_heap_free b s' = s\<lparr>content := content s'\<rparr>
    | (Inl r, s') \<Rightarrow> s' = s\<lparr>content := content s'\<rparr>"
proof -
  obtain x s' where x: "cma_heap_allocate ca h e len s = (x, s')" by fastforce
  show ?thesis
  proof (cases x)
    case (Inl r)
    then show ?thesis using cma_allocate_failure [of ca h e len s r s'] x by simp
  next
    case (Inr db)
    obtain d b where db: "db = (d, b)" by (cases db)
    then have a: "cma_heap_allocate ca h e len s = (Inr (d, b), s')" using x Inr by simp
    show ?thesis
      using cma_allocate_success [OF a] nr_pages_unat [OF assms] PAGE_ALIGN_unat [OF assms]
      by (auto simp: a pages_for_def cma_heap_free_def cma_release_def Let_def)
  qed
qed

definition cma_demo_env :: cma_env where
  "cma_demo_env = \<lparr>kzalloc_info = True, PageHighMem = (\<lambda>_. True), fatal_signal_pending = (\<lambda>_. False),
     sgt_ret = 0, exported = 0x1000\<rparr>"

definition cma_demo_st :: cma_st where
  "cma_demo_st = \<lparr>ranges = [], infos = 0, sg_tables = 0, content = (\<lambda>_. 7)\<rparr>"

theorem cma_buffer_lifecycle_witness:
  "case cma_heap_allocate (\<lambda>rs n al. Some 256) \<lparr>cma_max_align = 8\<rparr> cma_demo_env 5000 cma_demo_st of
      (Inr (d, b), s') \<Rightarrow>
        unat (cma_len b) = 4096 * pages_for 5000 \<and>
        Some 256 = Some (cma_page b) \<and>
        ranges s' = (cma_page b, pages_for 5000) # ranges cma_demo_st \<and>
        content s' = clear_range (cma_page b) (pages_for 5000) (content cma_demo_st) \<and>
        cma_heap_free b s' = cma_demo_st\<lparr>content := content s'\<rparr>
    | (Inl r, s') \<Rightarrow> s' = cma_demo_st\<lparr>content := content s'\<rparr>"
  by (rule cma_buffer_lifecycle [where len = 5000 and ca = "\<lambda>rs n al. Some 256"]) simp

text \<open>A length within a page of the largest word: the aligned size is 0, and so is the buffer.\<close>

lemma huge_length_wraps: "PAGE_ALIGN (- 1) = 0 \<and> drop_bit 12 (PAGE_ALIGN (- 1)) = 0"
  by (simp add: PAGE_ALIGN_def)

text \<open>The reference order: the least power of two of pages that holds the size.\<close>

lemma get_order_least:
  assumes "0 < sz"
  shows "unat sz \<le> 4096 * 2 ^ get_order sz" and "unat sz \<le> 4096 * 2 ^ k \<Longrightarrow> get_order sz \<le> k"
proof -
  have u: "unat (sz - 1) = unat sz - 1" "0 < unat sz" using unat_dec [OF assms] by auto
  have o: "get_order sz = bits_needed ((unat sz - 1) div 4096)"
    unfolding get_order_def unat_drop_bit_eq u unfolding drop_bit_eq_div by simp
  have "(unat sz - 1) div 4096 < 2 ^ get_order sz"
    unfolding o by (rule bits_needed_bound)
  then have "unat sz - 1 < 2 ^ get_order sz * 4096" by (simp add: div_less_iff_less_mult)
  then show "unat sz \<le> 4096 * 2 ^ get_order sz" by (simp add: mult.commute)
  assume "unat sz \<le> 4096 * 2 ^ k"
  then have "unat sz - 1 < 2 ^ k * 4096" using u(2) by (simp add: mult.commute)
  then have "(unat sz - 1) div 4096 < 2 ^ k" by (simp add: div_less_iff_less_mult)
  then show "get_order sz \<le> k"
    unfolding o by (rule bits_needed_least)
qed

section \<open>The buffer in a process\<close>

text \<open>The helper buffer behind the dma-buf, as the shared operations see it.\<close>

definition cma_sg_buffer :: "cma_buf \<Rightarrow> sg_st" where
  "cma_sg_buffer b = \<lparr>attachments = [], blen = cma_len b,
     btable = \<lparr>sgl = [cma_sg b], nents = 1, orig_nents = 1\<rparr>, vmap_cnt = 0, vaddr = 0, objs = 0,
     dma_maps = (\<lambda>_. 0), vmaps = []\<rparr>"

lemma ucast_len:
  fixes sz :: u64
  assumes "unat sz < 4294967296"
  shows "unat (ucast sz :: u32) = unat sz"
  using assms by (simp add: unsigned_ucast_eq take_bit_nat_eq_self)

lemma cma_sg_aligned:
  assumes "cma_heap_allocate ca h e len s = (Inr (d, b), s')" and "0 < unat len" "unat len \<le> 4294963200"
  shows "sg_aligned [cma_sg b]" and "unat (sg_length (cma_sg b)) = 4096 * pages_for len"
    and "sg_page (cma_sg b) = of_nat (cma_page b)"
proof -
  have "unat (PAGE_ALIGN len) = 4096 * pages_for len"
    using assms(3) by (simp add: PAGE_ALIGN_unat pages_for_def)
  moreover have "4096 * pages_for len < 4294967296" and p: "0 < pages_for len"
    using assms(2,3) by (simp_all add: pages_for_def div_greater_zero_iff)
  ultimately have l: "unat (ucast (PAGE_ALIGN len) :: u32) = 4096 * pages_for len"
    by (simp add: ucast_len)
  from cma_allocate_success [OF assms(1)] l
  show "unat (sg_length (cma_sg b)) = 4096 * pages_for len" "sg_page (cma_sg b) = of_nat (cma_page b)"
    by auto
  then show "sg_aligned [cma_sg b]" using p by (simp add: sg_aligned_def)
qed

lemma mmap_reference_pages: "(a, p) \<in> set (mmap_reference ps start n k) \<Longrightarrow> p \<in> set ps"
  by (auto simp: mmap_reference_def dest!: set_zip_rightD in_set_takeD in_set_dropD)

text \<open>C23: A process that maps a buffer of the CMA heap, below 4 GB, sees only pages of that buffer's own
  range, and every one of them was cleared when the buffer was handed out.\<close>

theorem cma_mmap_cleared:
  assumes "cma_heap_allocate ca h e len s = (Inr (d, b), s')" and "0 < unat len" and "unat len \<le> 4294963200"
    and "unat (vm_end vma) = unat (vm_start vma) + 4096 * n" and "0 < n" and "unat (vm_pgoff vma) < 2 ^ 52"
    and "qcom_sg_mmap remap vma (cma_sg_buffer b) = (ret, calls)" and "(addr, pfn) \<in> set (mapped_pages calls)"
  shows "ret = 0 \<and> (\<exists>i < pages_for len. pfn = of_nat (cma_page b + i) \<and> content s' (cma_page b + i) = 0)"
proof -
  note sg = cma_sg_aligned [OF assms(1-3)]
  have t: "take (nents (btable (cma_sg_buffer b))) (sgl (btable (cma_sg_buffer b))) = [cma_sg b]"
    by (simp add: cma_sg_buffer_def)
  have m: "ret = 0" "requested_pages calls = mmap_reference (entry_pages (cma_sg b)) (unat (vm_start vma)) n (unat (vm_pgoff vma))"
    using mmap_requests_reference [of "cma_sg_buffer b" vma n remap] sg(1) assms(4-7) by (simp_all add: t)
  have "(addr, pfn) \<in> set (requested_pages calls)" using assms(8) mapped_pages_sub by blast
  then have "pfn \<in> set (entry_pages (cma_sg b))" unfolding m(2) by (rule mmap_reference_pages)
  then obtain i where i: "i < pages_for len" "pfn = of_nat (cma_page b + i)"
    by (auto simp: entry_pages_def sg(2,3))
  have "unat (drop_bit 12 (PAGE_ALIGN len)) = pages_for len"
    using assms(3) by (simp add: nr_pages_unat)
  with cma_allocate_success [OF assms(1)] i(1) have "content s' (cma_page b + i) = 0"
    by (auto simp: clear_range_def)
  with i m(1) show ?thesis by blast
qed

definition demo_vma :: vm_area where
  "demo_vma = \<lparr>vm_start = 0x10000, vm_end = 0x12000, vm_pgoff = 0\<rparr>"

lemma demo_allocated:
  "\<exists>b s'. cma_heap_allocate (\<lambda>rs n al. Some 256) \<lparr>cma_max_align = 8\<rparr> cma_demo_env 5000 cma_demo_st =
    (Inr (0x1000, b), s')"
proof -
  have "\<exists>m. cma_clear (\<lambda>_. False) 0 256 n (\<lambda>_. 7) = (True, m)" for n
    using cma_clear_eq [of "\<lambda>_. False" 0 256 n "\<lambda>_. 7"] by (simp add: Let_def takeWhile_eq_all_conv [THEN iffD2])
  then obtain m where "cma_clear (\<lambda>_. False) 0 256 (drop_bit 12 (PAGE_ALIGN 5000)) (\<lambda>_. 7) = (True, m)"
    by blast
  then show ?thesis
    by (simp add: cma_heap_allocate_def cma_demo_env_def cma_demo_st_def IS_ERR_def Let_def)
qed

lemma demo_mapped:
  assumes "cma_heap_allocate (\<lambda>rs n al. Some 256) \<lparr>cma_max_align = 8\<rparr> cma_demo_env 5000 cma_demo_st = (Inr (d, b), s')"
  shows "(0x10000, 256) \<in> set (mapped_pages (snd (qcom_sg_mmap (\<lambda>_. (0, 0)) demo_vma (cma_sg_buffer b))))"
proof -
  have l: "0 < unat (5000 :: u64)" "unat (5000 :: u64) \<le> 4294963200" by simp_all
  note sg = cma_sg_aligned [OF assms l]
  have "cma_page b = 256" using cma_allocate_success [OF assms] by auto
  then have e: "entry_pages (cma_sg b) = [256, 257]"
    by (simp add: entry_pages_def sg(2,3) pages_for_def upt_rec)
  have "sg_aligned (take (nents (btable (cma_sg_buffer b))) (sgl (btable (cma_sg_buffer b))))"
    using sg(1) by (simp add: cma_sg_buffer_def)
  from mmap_pages_reference [OF this, of demo_vma 2 "\<lambda>_. (0, 0)"] show ?thesis
    by (simp add: demo_vma_def cma_sg_buffer_def e mmap_reference_def upt_rec)
qed

theorem cma_mmap_cleared_witness:
  "\<exists>b s'. cma_heap_allocate (\<lambda>rs n al. Some 256) \<lparr>cma_max_align = 8\<rparr> cma_demo_env 5000 cma_demo_st =
      (Inr (0x1000, b), s') \<and>
    (\<exists>i < pages_for 5000. (256 :: u64) = of_nat (cma_page b + i) \<and> content s' (cma_page b + i) = 0)"
proof -
  obtain b s' where a: "cma_heap_allocate (\<lambda>rs n al. Some 256) \<lparr>cma_max_align = 8\<rparr> cma_demo_env 5000 cma_demo_st =
      (Inr (0x1000, b), s')"
    using demo_allocated by blast
  obtain ret calls where q: "qcom_sg_mmap (\<lambda>_. (0, 0)) demo_vma (cma_sg_buffer b) = (ret, calls)" by fastforce
  have m: "(0x10000, 256) \<in> set (mapped_pages calls)" using demo_mapped [OF a] q by simp
  have v: "unat (vm_end demo_vma) = unat (vm_start demo_vma) + 4096 * 2" "unat (vm_pgoff demo_vma) < 2 ^ 52"
    by (simp_all add: demo_vma_def)
  from cma_mmap_cleared [OF a _ _ v(1) _ v(2) q m] a show ?thesis by auto
qed

text \<open>A buffer of 4 GB has a scatter entry of length 0: nothing of it can be mapped.\<close>

lemma large_buffer_truncated:
  assumes "cma_heap_allocate ca h e 0x100000000 s = (Inr (d, b), s')"
  shows "unat (cma_len b) = 0x100000000 \<and> sg_length (cma_sg b) = 0"
proof -
  have "unat (PAGE_ALIGN 0x100000000) = 0x100000000" by (simp add: PAGE_ALIGN_unat)
  then have "PAGE_ALIGN 0x100000000 = 0x100000000" by (simp add: word_unat_eq_iff)
  with cma_allocate_success [OF assms] show ?thesis by auto
qed

end
