(* ===== verification/HeapSetup.thy ===== *)
theory HeapSetup
  imports CarveoutHeap CmaHeap
begin

text \<open>
  Model of \<open>drivers/qcom_dt_parser.c\<close>, which reads the heaps from the device tree and sets up
  their memory regions, and of \<open>drivers/qcom_dma_heap.c\<close>, whose probe creates a heap of the
  carveout or the CMA component for each. A device-tree node is a record of what the kernel's
  functions answer for it; the state counts references to nodes and lists the devices made and the
  memory regions set up for them. A device is named by its heap's index.
\<close>

section \<open>Data\<close>

text \<open>A memory region: whether it is known and has operations, and its address.\<close>

record mem_node =
  rmem_ops :: "bool option"
  device_init :: int
  basep :: "u64 option"
  translated :: u64
  no_map :: bool

text \<open>A heap node; a property that cannot be read is its error.\<close>

record dt_node =
  new_dev :: bool
  dma_heap_name :: "int + string"
  dma_heap_type :: "int + u32"
  qcom_token :: "int + u32"
  qcom_max_align :: "int + u32"
  memory_region :: "mem_node option"

record platform_heap =
  ph_type :: u32
  ph_name :: string
  ph_base :: u64
  ph_size :: u64
  ph_dev :: nat
  ph_is_nomap :: bool
  ph_token :: u32
  ph_max_align :: u32

record dt_st =
  node_refs :: int
  mem_refs :: int
  ready :: "nat list"
  devices :: "nat list"
  pdata_allocs :: int

definition HEAP_TYPE_CARVEOUT :: u32 where "HEAP_TYPE_CARVEOUT = 1"
definition HEAP_TYPE_CMA :: u32 where "HEAP_TYPE_CMA = 2"
definition OF_BAD_ADDR :: u64 where "OF_BAD_ADDR = - 1"

definition zero_heap :: platform_heap where
  "zero_heap = \<lparr>ph_type = 0, ph_name = [], ph_base = 0, ph_size = 0, ph_dev = 0, ph_is_nomap = False,
     ph_token = 0, ph_max_align = 0\<rparr>"

section \<open>Parsing\<close>

definition populate_heap :: "dt_node \<Rightarrow> platform_heap \<Rightarrow> int \<times> platform_heap" where
  "populate_heap node h =
     (case dma_heap_name node of Inl ret \<Rightarrow> (ret, h) | Inr nm \<Rightarrow>
      let h = h\<lparr>ph_name := nm\<rparr> in
      case dma_heap_type node of Inl ret \<Rightarrow> (ret, h) | Inr ty \<Rightarrow>
      let h = h\<lparr>ph_type := ty\<rparr>;
          (ret, h) = (case qcom_token node of Inl r \<Rightarrow> (r, h) | Inr v \<Rightarrow> (0, h\<lparr>ph_token := v\<rparr>)) in
      if ret \<noteq> 0 \<and> ret \<noteq> - EINVAL then (ret, h)
      else let (ret, h) = (case qcom_max_align node of Inl r \<Rightarrow> (r, h) | Inr v \<Rightarrow> (0, h\<lparr>ph_max_align := v\<rparr>)) in
      if ret \<noteq> 0 \<and> ret \<noteq> - EINVAL then (ret, h) else (0, h))"

definition of_reserved_mem_device_release :: "nat \<Rightarrow> dt_st \<Rightarrow> dt_st" where
  "of_reserved_mem_device_release dev s = s\<lparr>ready := filter (\<lambda>d. d \<noteq> dev) (ready s)\<rparr>"

definition heap_dt_init :: "mem_node \<Rightarrow> platform_heap \<Rightarrow> dt_st \<Rightarrow> int \<times> platform_heap \<times> dt_st" where
  "heap_dt_init m h s =
     (case rmem_ops m of None \<Rightarrow> (- EINVAL, h, s) | Some ops \<Rightarrow>
      if ops \<and> device_init m \<noteq> 0 then (device_init m, h, s)
      else let s = (if ops then s\<lparr>ready := ph_dev h # ready s\<rparr> else s);
               (ret, h, s) = (case basep m of None \<Rightarrow> (0, h, s) | Some sz \<Rightarrow>
                  if translated m \<noteq> OF_BAD_ADDR then (0, h\<lparr>ph_base := translated m, ph_size := sz\<rparr>, s)
                  else (- EINVAL, h, of_reserved_mem_device_release (ph_dev h) s)) in
      (ret, h\<lparr>ph_is_nomap := no_map m\<rparr>, s))"

text \<open>The heaps below \<open>idx\<close>, the last first.\<close>

fun release_reserved_memory_regions :: "dt_node list \<Rightarrow> nat \<Rightarrow> dt_st \<Rightarrow> dt_st" where
  "release_reserved_memory_regions nodes 0 s = s"
| "release_reserved_memory_regions nodes (Suc idx) s =
     release_reserved_memory_regions nodes idx
       (if memory_region (nodes ! idx) \<noteq> None then of_reserved_mem_device_release idx s else s)"

definition free_pdata :: "dt_st \<Rightarrow> dt_st" where
  "free_pdata s = s\<lparr>pdata_allocs := pdata_allocs s - 1\<rparr>"

text \<open>The loop over the nodes: the error that ends it, and the heaps filled in so far. The iterator
  holds the node of the iteration.\<close>

fun parse_nodes :: "dt_node list \<Rightarrow> platform_heap list \<Rightarrow> dt_st \<Rightarrow> int \<times> platform_heap list \<times> dt_st" where
  "parse_nodes [] hs s = (0, hs, s)"
| "parse_nodes (node # nodes) hs s =
     (let s = s\<lparr>node_refs := node_refs s + 1\<rparr> in
      if \<not> new_dev node then (- EINVAL, hs, s)
      else let s = s\<lparr>devices := length hs # devices s\<rparr>;
               (ret, h) = populate_heap node (zero_heap\<lparr>ph_dev := length hs\<rparr>) in
      if ret \<noteq> 0 then (ret, hs, s)
      else case memory_region node of
        None \<Rightarrow> parse_nodes nodes (hs @ [h]) (s\<lparr>node_refs := node_refs s - 1\<rparr>)
      | Some m \<Rightarrow>
          let s = s\<lparr>mem_refs := mem_refs s + 1\<rparr>; (ret, h, s) = heap_dt_init m h s in
          if ret \<noteq> 0 then (ret, hs, s)
          else parse_nodes nodes (hs @ [h]) (s\<lparr>mem_refs := mem_refs s - 1, node_refs := node_refs s - 1\<rparr>))"

definition parse_heap_dt ::
  "bool \<Rightarrow> bool \<Rightarrow> dt_node list \<Rightarrow> dt_st \<Rightarrow> (int + platform_heap list) \<times> dt_st" where
  "parse_heap_dt kzalloc_pdata kcalloc_heaps nodes s =
     (if \<not> kzalloc_pdata then (Inl (- ENOMEM), s)
      else let s = s\<lparr>pdata_allocs := pdata_allocs s + 1\<rparr> in
      if nodes = [] then (Inr [], s)
      else if \<not> kcalloc_heaps then (Inl (- ENOMEM), s\<lparr>pdata_allocs := pdata_allocs s - 1\<rparr>)
      else let (ret, hs, s) = parse_nodes nodes [] s in
      if ret \<noteq> 0 then
        (let s = s\<lparr>node_refs := node_refs s - 1\<rparr>;
             s = release_reserved_memory_regions nodes (length hs) s in
         (Inl ret, free_pdata s))
      else (Inr hs, s))"

section \<open>The probe\<close>

text \<open>What the kernel answers while a heap is created.\<close>

record create_env =
  kzalloc_heap :: bool
  vmaps :: "nat \<Rightarrow> bool"
  pool_made :: bool
  pool_added :: int
  heap_added :: ptr
  CONFIG_CMA_ALIGNMENT :: u32

datatype dma_heap = Carveout carve_st | Cma cma_heap

definition create_heap :: "create_env \<Rightarrow> platform_heap \<Rightarrow> int \<Rightarrow> int \<times> dma_heap option" where
  "create_heap e h ret =
     (if ph_type h = HEAP_TYPE_CARVEOUT then
        (let (ret, c) = qcom_carveout_heap_create (kzalloc_heap e) (vmaps e) (pool_made e) (pool_added e) (heap_added e)
                          (ph_base h) (ph_size h) (ph_is_nomap h) in (ret, map_option Carveout c))
      else if ph_type h = HEAP_TYPE_CMA then
        (let (ret, c) = qcom_add_cma_heap (kzalloc_heap e) (CONFIG_CMA_ALIGNMENT e) (heap_added e) (ph_max_align h) in
         (ret, map_option Cma c))
      else (ret, None))"

fun create_heaps ::
  "(nat \<Rightarrow> create_env) \<Rightarrow> platform_heap list \<Rightarrow> int \<Rightarrow> int \<times> (platform_heap \<times> dma_heap) list" where
  "create_heaps env [] ret = (ret, [])"
| "create_heaps env (h # hs) ret =
     (let (ret, obj) = create_heap (env 0) h ret;
          (ret, objs) = create_heaps (\<lambda>i. env (Suc i)) hs ret in
      (ret, (case obj of None \<Rightarrow> [] | Some x \<Rightarrow> [(h, x)]) @ objs))"

definition qcom_dma_heap_probe ::
  "bool \<Rightarrow> bool \<Rightarrow> (nat \<Rightarrow> create_env) \<Rightarrow> dt_node list \<Rightarrow> dt_st \<Rightarrow> int \<times> (platform_heap \<times> dma_heap) list \<times> dt_st" where
  "qcom_dma_heap_probe k1 k2 env nodes s =
     (case parse_heap_dt k1 k2 nodes s of
        (Inl err, s) \<Rightarrow> (err, [], s)
      | (Inr hs, s) \<Rightarrow> let (ret, created) = create_heaps env hs 0 in (ret, created, free_pdata s))"

section \<open>The heap a node describes\<close>

definition prop_missing :: "int + 'a \<Rightarrow> bool" where
  "prop_missing p \<longleftrightarrow> (case p of Inl r \<Rightarrow> r = - EINVAL | Inr _ \<Rightarrow> True)"

definition isr :: "'a + 'b \<Rightarrow> bool" where "isr p \<longleftrightarrow> (case p of Inl _ \<Rightarrow> False | Inr _ \<Rightarrow> True)"

definition from_prop :: "'a \<Rightarrow> int + 'a \<Rightarrow> 'a" where
  "from_prop d p = (case p of Inl _ \<Rightarrow> d | Inr v \<Rightarrow> v)"

definition region_good :: "mem_node \<Rightarrow> bool" where
  "region_good m \<longleftrightarrow> rmem_ops m \<noteq> None \<and> (rmem_ops m = Some True \<longrightarrow> device_init m = 0) \<and>
     (basep m \<noteq> None \<longrightarrow> translated m \<noteq> OF_BAD_ADDR)"

definition node_good :: "dt_node \<Rightarrow> bool" where
  "node_good n \<longleftrightarrow> new_dev n \<and> isr (dma_heap_name n) \<and> isr (dma_heap_type n) \<and>
     prop_missing (qcom_token n) \<and> prop_missing (qcom_max_align n) \<and>
     (case memory_region n of None \<Rightarrow> True | Some m \<Rightarrow> region_good m)"

definition node_heap :: "nat \<Rightarrow> dt_node \<Rightarrow> platform_heap" where
  "node_heap i n =
     \<lparr>ph_type = from_prop 0 (dma_heap_type n), ph_name = from_prop [] (dma_heap_name n),
      ph_base = (case memory_region n of Some m \<Rightarrow> if basep m = None then 0 else translated m | None \<Rightarrow> 0),
      ph_size = (case memory_region n of Some m \<Rightarrow> (case basep m of None \<Rightarrow> 0 | Some z \<Rightarrow> z) | None \<Rightarrow> 0),
      ph_dev = i,
      ph_is_nomap = (case memory_region n of Some m \<Rightarrow> no_map m | None \<Rightarrow> False),
      ph_token = from_prop 0 (qcom_token n), ph_max_align = from_prop 0 (qcom_max_align n)\<rparr>"

definition managed :: "dt_node \<Rightarrow> bool" where
  "managed n \<longleftrightarrow> (case memory_region n of Some m \<Rightarrow> rmem_ops m = Some True | None \<Rightarrow> False)"

text \<open>Errors of the kernel's functions are not zero.\<close>

definition prop_ok :: "int + 'a \<Rightarrow> bool" where "prop_ok p \<longleftrightarrow> (case p of Inl r \<Rightarrow> r \<noteq> 0 | Inr _ \<Rightarrow> True)"

definition node_ok :: "dt_node \<Rightarrow> bool" where
  "node_ok n \<longleftrightarrow> prop_ok (dma_heap_name n) \<and> prop_ok (dma_heap_type n) \<and> prop_ok (qcom_token n) \<and>
     prop_ok (qcom_max_align n)"

lemma populate_good:
  assumes "node_ok n"
  shows "isr (dma_heap_name n) \<and> isr (dma_heap_type n) \<and> prop_missing (qcom_token n) \<and>
      prop_missing (qcom_max_align n) \<Longrightarrow>
    populate_heap n (zero_heap\<lparr>ph_dev := i\<rparr>) =
      (0, zero_heap\<lparr>ph_dev := i, ph_type := from_prop 0 (dma_heap_type n), ph_name := from_prop [] (dma_heap_name n),
        ph_token := from_prop 0 (qcom_token n), ph_max_align := from_prop 0 (qcom_max_align n)\<rparr>)"
    and "\<not> (isr (dma_heap_name n) \<and> isr (dma_heap_type n) \<and> prop_missing (qcom_token n) \<and>
      prop_missing (qcom_max_align n)) \<Longrightarrow> fst (populate_heap n h) \<noteq> 0"
  using assms
  by (auto simp: populate_heap_def node_ok_def isr_def prop_missing_def prop_ok_def from_prop_def zero_heap_def
      Let_def split: sum.splits)

lemma region_result:
  assumes "heap_dt_init m h s = (ret, h', s')" and "ph_dev h \<notin> set (ready s)"
  shows "region_good m \<and> ret = 0 \<and>
      h' = h\<lparr>ph_is_nomap := no_map m, ph_base := (if basep m = None then ph_base h else translated m),
             ph_size := (case basep m of None \<Rightarrow> ph_size h | Some z \<Rightarrow> z)\<rparr> \<and>
      s' = (if rmem_ops m = Some True then s\<lparr>ready := ph_dev h # ready s\<rparr> else s) \<or>
    \<not> region_good m \<and> ret \<noteq> 0 \<and> s' = s"
proof -
  have f: "filter (\<lambda>d. d \<noteq> ph_dev h) (ready s) = ready s"
    using assms(2) by (auto simp: filter_id_conv)
  show ?thesis
    using assms(1)
    by (auto simp: heap_dt_init_def region_good_def of_reserved_mem_device_release_def f Let_def
        split: option.splits if_splits)
qed

section \<open>All nodes\<close>

fun node_heaps :: "nat \<Rightarrow> dt_node list \<Rightarrow> platform_heap list" where
  "node_heaps i [] = []"
| "node_heaps i (n # ns) = node_heap i n # node_heaps (Suc i) ns"

fun region_ids :: "nat \<Rightarrow> dt_node list \<Rightarrow> nat list" where
  "region_ids i [] = []"
| "region_ids i (n # ns) = region_ids (Suc i) ns @ (if managed n then [i] else [])"

lemma length_node_heaps [simp]: "length (node_heaps i ns) = length ns"
  by (induction ns arbitrary: i) auto

lemma region_ids_set: "set (region_ids i ns) = {i + j | j. j < length ns \<and> managed (ns ! j)}"
proof (induction ns arbitrary: i)
  case (Cons n ns)
  have "{i + j | j. j < length (n # ns) \<and> managed ((n # ns) ! j)} =
      {Suc i + j | j. j < length ns \<and> managed (ns ! j)} \<union> (if managed n then {i} else {})"
    by (auto simp: nth_Cons gr0_conv_Suc split: nat.splits)
  with Cons show ?case by auto
qed simp

text \<open>What the loop leaves: everything set up, or the good nodes before the first bad one.\<close>

definition parsed :: "dt_node list \<Rightarrow> platform_heap list \<Rightarrow> dt_st \<Rightarrow> dt_st \<Rightarrow> bool" where
  "parsed nodes hs s s' \<longleftrightarrow> ready s' = region_ids (length hs) nodes @ ready s \<and> node_refs s' = node_refs s \<and>
     mem_refs s' = mem_refs s \<and> pdata_allocs s' = pdata_allocs s"

lemma node_good_iff:
  "node_good n \<longleftrightarrow> new_dev n \<and> (isr (dma_heap_name n) \<and> isr (dma_heap_type n) \<and>
     prop_missing (qcom_token n) \<and> prop_missing (qcom_max_align n)) \<and>
     (\<forall>m. memory_region n = Some m \<longrightarrow> region_good m)"
  by (auto simp: node_good_def split: option.splits)

lemma parse_node_good:
  assumes "node_ok n" and "node_good n" and "length hs \<notin> set (ready s)"
  shows "\<exists>s1. parse_nodes (n # nodes) hs s = parse_nodes nodes (hs @ [node_heap (length hs) n]) s1 \<and>
    ready s1 = (if managed n then length hs # ready s else ready s) \<and> node_refs s1 = node_refs s \<and>
    mem_refs s1 = mem_refs s \<and> pdata_allocs s1 = pdata_allocs s"
proof -
  let ?h = "zero_heap\<lparr>ph_dev := length hs, ph_type := from_prop 0 (dma_heap_type n),
    ph_name := from_prop [] (dma_heap_name n), ph_token := from_prop 0 (qcom_token n),
    ph_max_align := from_prop 0 (qcom_max_align n)\<rparr>"
  have g: "new_dev n" "populate_heap n (zero_heap\<lparr>ph_dev := length hs\<rparr>) = (0, ?h)"
    "\<And>m. memory_region n = Some m \<Longrightarrow> region_good m"
    using assms(2) populate_good(1) [OF assms(1)] unfolding node_good_iff by auto
  show ?thesis
  proof (cases "memory_region n")
    case None
    with g show ?thesis
      by (intro exI conjI, subst parse_nodes.simps, simp add: Let_def node_heap_def zero_heap_def)
        (auto simp: managed_def)
  next
    case (Some m)
    let ?s = "s\<lparr>node_refs := node_refs s + 1, devices := length hs # devices s, mem_refs := mem_refs s + 1\<rparr>"
    obtain ret h' s' where r: "heap_dt_init m ?h ?s = (ret, h', s')" by (cases "heap_dt_init m ?h ?s") auto
    from region_result [OF r] g(3) [OF Some] assms(3)
    have h: "ret = 0" "h' = node_heap (length hs) n"
        "s' = (if rmem_ops m = Some True then ?s\<lparr>ready := length hs # ready s\<rparr> else ?s)"
      using Some by (auto simp: node_heap_def zero_heap_def split: option.splits)
    show ?thesis
      using g Some r h by (subst parse_nodes.simps) (auto simp: Let_def managed_def)
  qed
qed

lemma parse_node_bad:
  assumes "node_ok n" and "\<not> node_good n" and "length hs \<notin> set (ready s)"
    and "parse_nodes (n # nodes) hs s = (ret, hs', s')"
  shows "ret \<noteq> 0 \<and> hs' = hs \<and> ready s' = ready s \<and> node_refs s' = node_refs s + 1 \<and>
    mem_refs s \<le> mem_refs s' \<and> pdata_allocs s' = pdata_allocs s"
proof (cases "new_dev n \<and> fst (populate_heap n (zero_heap\<lparr>ph_dev := length hs\<rparr>)) = 0")
  case False
  then show ?thesis
    using assms(4) by (cases "new_dev n"; cases "populate_heap n (zero_heap\<lparr>ph_dev := length hs\<rparr>)") (auto simp: Let_def)
next
  case True
  obtain h where p: "populate_heap n (zero_heap\<lparr>ph_dev := length hs\<rparr>) = (0, h)"
    using True by (cases "populate_heap n (zero_heap\<lparr>ph_dev := length hs\<rparr>)") auto
  have props: "isr (dma_heap_name n) \<and> isr (dma_heap_type n) \<and> prop_missing (qcom_token n) \<and>
      prop_missing (qcom_max_align n)"
    using True populate_good(2) [OF assms(1)] by blast
  then obtain m where m: "memory_region n = Some m" "\<not> region_good m"
    using assms(2) True unfolding node_good_iff by blast
  have dev: "ph_dev h = length hs" using p props populate_good(1) [OF assms(1)] by auto
  let ?s = "s\<lparr>node_refs := node_refs s + 1, devices := length hs # devices s, mem_refs := mem_refs s + 1\<rparr>"
  obtain r h' s1 where r: "heap_dt_init m h ?s = (r, h', s1)" by (cases "heap_dt_init m h ?s") auto
  from region_result [OF r] m(2) assms(3) dev have "r \<noteq> 0" "s1 = ?s" by auto
  with assms(4) True p m r show ?thesis by (auto simp: Let_def)
qed

lemma parse_nodes_result:
  assumes "list_all node_ok nodes" and "list_all (\<lambda>d. d < length hs) (ready s)"
    and "parse_nodes nodes hs s = (ret, hs', s')"
  shows "list_all node_good nodes \<and> ret = 0 \<and> hs' = hs @ node_heaps (length hs) nodes \<and> parsed nodes hs s s' \<or>
    (\<exists>k < length nodes. \<not> node_good (nodes ! k) \<and> ret \<noteq> 0 \<and> length hs' = length hs + k \<and>
      ready s' = region_ids (length hs) (take k nodes) @ ready s \<and> node_refs s' = node_refs s + 1 \<and>
      mem_refs s \<le> mem_refs s' \<and> pdata_allocs s' = pdata_allocs s)"
  using assms
proof (induction nodes arbitrary: hs s)
  case Nil
  then show ?case by (simp add: parsed_def)
next
  case (Cons n nodes)
  have fresh: "length hs \<notin> set (ready s)" using Cons.prems(2) by (auto simp: list_all_iff)
  have ok: "node_ok n" "list_all node_ok nodes" using Cons.prems(1) by auto
  show ?case
  proof (cases "node_good n")
    case False
    then show ?thesis using parse_node_bad [OF ok(1) False fresh Cons.prems(3)] by fastforce
  next
    case True
    from parse_node_good [OF ok(1) True fresh, of nodes] obtain s1 where
      s1: "parse_nodes (n # nodes) hs s = parse_nodes nodes (hs @ [node_heap (length hs) n]) s1"
        "ready s1 = (if managed n then length hs # ready s else ready s)" "node_refs s1 = node_refs s"
        "mem_refs s1 = mem_refs s" "pdata_allocs s1 = pdata_allocs s" by blast
    have "list_all (\<lambda>d. d < length (hs @ [node_heap (length hs) n])) (ready s1)"
      using Cons.prems(2) s1(2) by (auto simp: list_all_iff)
    note IH = Cons.IH [OF ok(2) this, folded s1(1), OF Cons.prems(3)]
    let ?k = "\<lambda>k. k < length nodes \<and> \<not> node_good (nodes ! k) \<and> ret \<noteq> 0 \<and>
      length hs' = length (hs @ [node_heap (length hs) n]) + k \<and>
      ready s' = region_ids (length (hs @ [node_heap (length hs) n])) (take k nodes) @ ready s1 \<and>
      node_refs s' = node_refs s1 + 1 \<and> mem_refs s1 \<le> mem_refs s' \<and> pdata_allocs s' = pdata_allocs s1"
    show ?thesis
    proof (cases "\<exists>k. ?k k")
      case False
      then show ?thesis using IH True s1 by (auto simp: parsed_def)
    next
      case True
      then obtain k where "?k k" by blast
      then show ?thesis using s1 by (intro disjI2 exI [of _ "Suc k"]) auto
    qed
  qed
qed

lemma release_regions_fields:
  "ready (release_reserved_memory_regions nodes k s) =
      filter (\<lambda>d. \<not> (d < k \<and> memory_region (nodes ! d) \<noteq> None)) (ready s) \<and>
    node_refs (release_reserved_memory_regions nodes k s) = node_refs s \<and>
    mem_refs (release_reserved_memory_regions nodes k s) = mem_refs s \<and>
    pdata_allocs (release_reserved_memory_regions nodes k s) = pdata_allocs s"
  by (induction nodes k s rule: release_reserved_memory_regions.induct)
    (auto simp: of_reserved_mem_device_release_def less_Suc_eq intro!: filter_cong)

lemma parsed_heaps:
  assumes "list_all node_ok nodes" and "ready s = []"
  shows "case parse_heap_dt True True nodes s of
      (Inr hs, s') \<Rightarrow> list_all node_good nodes \<and> hs = node_heaps 0 nodes \<and> ready s' = region_ids 0 nodes \<and>
        node_refs s' = node_refs s \<and> mem_refs s' = mem_refs s \<and> pdata_allocs s' = pdata_allocs s + 1
    | (Inl ret, s') \<Rightarrow> \<not> list_all node_good nodes \<and> ret \<noteq> 0 \<and> ready s' = [] \<and>
        node_refs s' = node_refs s \<and> pdata_allocs s' = pdata_allocs s"
proof (cases "nodes = []")
  case True
  then show ?thesis using assms(2) by (simp add: parse_heap_dt_def Let_def)
next
  case False
  let ?s = "s\<lparr>pdata_allocs := pdata_allocs s + 1\<rparr>"
  obtain ret hs s1 where p: "parse_nodes nodes [] ?s = (ret, hs, s1)" by (cases "parse_nodes nodes [] ?s") auto
  have "list_all (\<lambda>d. d < length ([] :: platform_heap list)) (ready ?s)" using assms(2) by simp
  note r = parse_nodes_result [OF assms(1) this p]
  show ?thesis
  proof (cases "ret = 0")
    case True
    then show ?thesis using r p False assms(2) by (simp add: parse_heap_dt_def parsed_def Let_def)
  next
    case ret: False
    from r ret obtain k where k: "k < length nodes" "\<not> node_good (nodes ! k)" "length hs = k"
        "ready s1 = region_ids 0 (take k nodes)" "node_refs s1 = node_refs s + 1" "pdata_allocs s1 = pdata_allocs s + 1"
      using assms(2) by auto
    have "\<not> list_all node_good nodes" using k(1,2) by (auto simp: list_all_length)
    moreover have "\<forall>d \<in> set (ready s1). d < k \<and> memory_region (nodes ! d) \<noteq> None"
      using k(1) by (auto simp: k(4) region_ids_set managed_def split: option.splits)
    then have "filter (\<lambda>d. \<not> (d < k \<and> memory_region (nodes ! d) \<noteq> None)) (ready s1) = []"
      by (simp add: filter_empty_conv)
    ultimately show ?thesis
      using p ret False k(3,5,6)
      by (simp add: parse_heap_dt_def Let_def free_pdata_def release_regions_fields)
  qed
qed

text \<open>C28: Reading the heaps of a device tree is all or nothing. It succeeds exactly when every node
  is good, and the heaps are then those the nodes describe, in order, with the memory regions that
  have operations set up. Otherwise it returns an error, no memory region stays set up, and the
  references to the heap nodes and the platform data are given back.\<close>

theorem heap_dt_all_or_nothing:
  assumes "list_all node_ok nodes" and "ready s = []"
  shows "case parse_heap_dt True True nodes s of
      (Inr hs, s') \<Rightarrow> list_all node_good nodes \<and> hs = node_heaps 0 nodes \<and> ready s' = region_ids 0 nodes \<and>
        node_refs s' = node_refs s \<and> mem_refs s' = mem_refs s \<and> pdata_allocs s' = pdata_allocs s + 1
    | (Inl ret, s') \<Rightarrow> \<not> list_all node_good nodes \<and> ret \<noteq> 0 \<and> ready s' = [] \<and>
        node_refs s' = node_refs s \<and> pdata_allocs s' = pdata_allocs s"
  using parsed_heaps [OF assms] .

text \<open>Two heaps over one carveout and one CMA region.\<close>

definition demo_region :: "bool \<Rightarrow> u64 \<Rightarrow> mem_node" where
  "demo_region ops base = \<lparr>rmem_ops = Some ops, device_init = 0, basep = Some 0x100000, translated = base,
     no_map = \<not> ops\<rparr>"

definition demo_node :: "u32 \<Rightarrow> mem_node \<Rightarrow> dt_node" where
  "demo_node ty m = \<lparr>new_dev = True, dma_heap_name = Inr ''heap'', dma_heap_type = Inr ty,
     qcom_token = Inl (- EINVAL), qcom_max_align = Inl (- EINVAL), memory_region = Some m\<rparr>"

definition demo_tree :: "dt_node list" where
  "demo_tree = [demo_node 1 (demo_region False 0x80000000), demo_node 2 (demo_region True 0x90000000)]"

definition demo_dt_st :: dt_st where
  "demo_dt_st = \<lparr>node_refs = 0, mem_refs = 0, ready = [], devices = [], pdata_allocs = 0\<rparr>"

lemmas demo_defs = demo_tree_def demo_node_def demo_region_def demo_dt_st_def

lemma demo_st_allocs: "pdata_allocs demo_dt_st = 0"
  by (simp add: demo_dt_st_def)

lemma demo_tree_ok: "list_all node_ok demo_tree" "ready demo_dt_st = []" "list_all node_good demo_tree"
  by (simp_all add: demo_defs node_ok_def prop_ok_def node_good_def isr_def prop_missing_def region_good_def
      OF_BAD_ADDR_def)

theorem heap_dt_all_or_nothing_witness:
  "\<exists>s'. parse_heap_dt True True demo_tree demo_dt_st = (Inr (node_heaps 0 demo_tree), s') \<and>
    ready s' = region_ids 0 demo_tree \<and> pdata_allocs s' = 1"
proof -
  obtain x s' where x: "parse_heap_dt True True demo_tree demo_dt_st = (x, s')" by fastforce
  show ?thesis
    using heap_dt_all_or_nothing [OF demo_tree_ok(1,2)] demo_tree_ok(3) demo_st_allocs
    by (cases x) (auto simp: x)
qed

section \<open>Creating the heaps\<close>

definition creates :: "create_env \<Rightarrow> bool" where
  "creates e \<longleftrightarrow> kzalloc_heap e \<and> (\<forall>i. vmaps e i) \<and> pool_made e \<and> pool_added e = 0 \<and> \<not> IS_ERR (heap_added e)"

definition known_type :: "platform_heap \<Rightarrow> bool" where
  "known_type h \<longleftrightarrow> ph_type h = HEAP_TYPE_CARVEOUT \<or> ph_type h = HEAP_TYPE_CMA"

text \<open>A heap made for its data: the memory of its pool is the region, from which alone it hands out
  buffers, or the alignment is the configured one.\<close>

definition heap_made :: "u32 \<Rightarrow> platform_heap \<Rightarrow> dma_heap \<Rightarrow> bool" where
  "heap_made default_align h obj \<longleftrightarrow>
     (case obj of
        Carveout c \<Rightarrow> ph_type h = HEAP_TYPE_CARVEOUT \<and> blocks c = [] \<and>
          heap c = \<lparr>pool = True, chunks = [(ph_base h, ph_size h)], is_nomap = ph_is_nomap h,
            cbase = ph_base h, csize = ph_size h\<rparr> \<and>
          (\<forall>galloc bs c' b. gen_pool galloc \<longrightarrow> (carve_step galloc)\<^sup>*\<^sup>* ([], c) (bs, c') \<longrightarrow> b \<in> set bs \<longrightarrow>
            unat (ph_base h) \<le> unat (page_to_phys (bpage b)) \<and>
            unat (page_to_phys (bpage b)) + unat (buf_len b) \<le> unat (ph_base h) + unat (ph_size h)) \<and>
          (unat (ph_size h) < 4294967296 \<longrightarrow> zeroed c = region_pages (PFN_DOWN (ph_base h)) (ph_size h))
      | Cma m \<Rightarrow> ph_type h = HEAP_TYPE_CMA \<and>
          cma_max_align m = (if ph_max_align h = 0 then default_align else ph_max_align h))"

text \<open>The buffers of a new heap lie in the memory of its pool.\<close>

lemma buffers_in_region:
  assumes "gen_pool galloc" "(carve_step galloc)\<^sup>*\<^sup>* ([], c) (bs, c')" "b \<in> set bs"
    and "pool (heap c)" "chunks (heap c) = [(base, sz)]" "blocks c = []" "bufs c = 0" "tables c = 0"
  shows "unat base \<le> unat (page_to_phys (bpage b)) \<and>
    unat (page_to_phys (bpage b)) + unat (buf_len b) \<le> unat base + unat sz"
proof -
  have "carve_inv ([], c)" using assms(4,6-8) by (simp add: carve_inv_def)
  from gen_pool.pool_run_inv [OF assms(1,2) this] carve_run_heap [OF assms(2)] assms(3,5)
  show ?thesis by (auto simp: carve_inv_def inside_def block_of_def)
qed

lemma create_heap_made:
  assumes "creates e"
  shows "known_type h \<Longrightarrow> \<exists>obj. create_heap e h ret = (0, Some obj) \<and> heap_made (CONFIG_CMA_ALIGNMENT e) h obj"
    and "\<not> known_type h \<Longrightarrow> create_heap e h ret = (ret, None)"
proof -
  have v: "vmaps e = (\<lambda>_. True)" and a: "\<not> IS_ERR (heap_added e)"
    using assms by (auto simp: creates_def fun_eq_iff)
  have z: "carveout_heap_sglist_zero (\<lambda>_. True) i [] ps s = (0, s\<lparr>zeroed := zeroed s @ ps\<rparr>)" for i ps s
    by (simp add: sglist_zero_all)
  let ?c = "\<lparr>heap = \<lparr>pool = True, chunks = [(ph_base h, ph_size h)], is_nomap = ph_is_nomap h,
    cbase = ph_base h, csize = ph_size h\<rparr>, blocks = [], bufs = 0, tables = 0,
    zeroed = page_run (PFN_DOWN (ph_base h)) (ucast (ph_size h))\<rparr>"
  have co: "create_heap e h ret = (0, Some (Carveout ?c))" if "ph_type h = HEAP_TYPE_CARVEOUT"
    using that assms z a v
    by (simp add: create_heap_def qcom_carveout_heap_create_def carveout_init_heap_memory_def gen_pool_add_def
        carveout_pages_zero_def creates_def carve_empty_def Let_def)
  have made: "heap_made al h (Carveout ?c)" if "ph_type h = HEAP_TYPE_CARVEOUT" for al
  proof -
    have "unat (ph_base h) \<le> unat (page_to_phys (bpage b)) \<and>
        unat (page_to_phys (bpage b)) + unat (buf_len b) \<le> unat (ph_base h) + unat (ph_size h)"
      if "gen_pool galloc" "(carve_step galloc)\<^sup>*\<^sup>* ([], ?c) (bs, c')" "b \<in> set bs" for galloc bs c' b
      by (rule buffers_in_region [OF that]) simp_all
    then show ?thesis unfolding heap_made_def using that by (auto simp: page_run_region)
  qed
  show "known_type h \<Longrightarrow> \<exists>obj. create_heap e h ret = (0, Some obj) \<and> heap_made (CONFIG_CMA_ALIGNMENT e) h obj"
    using co made assms
    by (auto simp: known_type_def create_heap_def qcom_add_cma_heap_def add_cma_heap_def heap_made_def creates_def
        HEAP_TYPE_CARVEOUT_def HEAP_TYPE_CMA_def Let_def)
  show "\<not> known_type h \<Longrightarrow> create_heap e h ret = (ret, None)"
    by (simp add: known_type_def create_heap_def)
qed

lemma create_heaps_made:
  assumes "\<And>i. creates (env i) \<and> CONFIG_CMA_ALIGNMENT (env i) = al"
  shows "\<exists>objs. create_heaps env hs 0 = (0, objs) \<and> map fst objs = filter known_type hs \<and>
    list_all (\<lambda>(h, obj). heap_made al h obj) objs"
  using assms
proof (induction hs arbitrary: env)
  case Nil
  then show ?case by simp
next
  case (Cons h hs)
  obtain objs where o: "create_heaps (\<lambda>i. env (Suc i)) hs 0 = (0, objs)" "map fst objs = filter known_type hs"
      "list_all (\<lambda>(h, obj). heap_made al h obj) objs"
    using Cons.IH [of "\<lambda>i. env (Suc i)"] Cons.prems by blast
  show ?case
    using create_heap_made [of "env 0" h 0] Cons.prems [of 0] o by (cases "known_type h") auto
qed

text \<open>C22: On a device tree of good nodes, with everything working, the probe succeeds and makes a heap
  for every node of a known type, in order: a carveout heap whose pool has exactly the memory of its
  region, cleared when it is below 4 GB, and hands out only buffers inside it, whatever is allocated
  and released, and a CMA heap with the node's alignment or the configured one. The parsed data is
  freed and the memory regions stay set up. Everything working includes \<open>gen_pool_add\<close>, whose
  failure the code does not see.\<close>

theorem heap_probe_complete:
  assumes "list_all node_ok nodes" and "list_all node_good nodes" and "ready s = []"
    and "\<And>i. creates (env i) \<and> CONFIG_CMA_ALIGNMENT (env i) = al"
  shows "\<exists>created s'. qcom_dma_heap_probe True True env nodes s = (0, created, s') \<and>
    map fst created = filter known_type (node_heaps 0 nodes) \<and>
    list_all (\<lambda>(h, obj). heap_made al h obj) created \<and>
    ready s' = region_ids 0 nodes \<and> pdata_allocs s' = pdata_allocs s"
proof -
  obtain x s1 where x: "parse_heap_dt True True nodes s = (x, s1)" by fastforce
  obtain hs where hs: "x = Inr hs" "hs = node_heaps 0 nodes" "ready s1 = region_ids 0 nodes"
      "pdata_allocs s1 = pdata_allocs s + 1"
    using parsed_heaps [OF assms(1,3)] assms(2) by (cases x) (auto simp: x)
  show ?thesis
    using create_heaps_made [OF assms(4), of "\<lambda>i. i" hs] x hs
    by (auto simp: qcom_dma_heap_probe_def free_pdata_def)
qed

definition demo_create :: "nat \<Rightarrow> create_env" where
  "demo_create i = \<lparr>kzalloc_heap = True, vmaps = (\<lambda>_. True), pool_made = True, pool_added = 0, heap_added = 0x1000,
     CONFIG_CMA_ALIGNMENT = 8\<rparr>"

lemma demo_creates: "creates (demo_create i) \<and> CONFIG_CMA_ALIGNMENT (demo_create i) = 8"
  by (simp add: creates_def demo_create_def IS_ERR_def)

theorem heap_probe_complete_witness:
  "\<exists>created s'. qcom_dma_heap_probe True True demo_create demo_tree demo_dt_st = (0, created, s') \<and>
    map fst created = filter known_type (node_heaps 0 demo_tree) \<and>
    list_all (\<lambda>(h, obj). heap_made 8 h obj) created \<and>
    ready s' = region_ids 0 demo_tree \<and> pdata_allocs s' = pdata_allocs demo_dt_st"
  by (rule heap_probe_complete [OF demo_tree_ok(1,3,2) demo_creates])

section \<open>Failures\<close>

text \<open>A region that cannot be set up leaves the reference to its node behind.\<close>

lemma region_failure_leaks:
  assumes "new_dev n" and "populate_heap n (zero_heap\<lparr>ph_dev := 0\<rparr>) = (0, h)" and "memory_region n = Some m"
    and "rmem_ops m = None"
  shows "\<exists>s'. parse_heap_dt True True [n] s = (Inl (- EINVAL), s') \<and> mem_refs s' = mem_refs s + 1"
  using assms by (simp add: parse_heap_dt_def heap_dt_init_def free_pdata_def Let_def)

text \<open>The device made for a node whose properties are bad is not taken back.\<close>

lemma failed_parse_keeps_devices:
  assumes "new_dev n" and "dma_heap_name n = Inl (- EINVAL)"
  shows "\<exists>s'. parse_heap_dt True True [n] s = (Inl (- EINVAL), s') \<and> devices s' = 0 # devices s"
  using assms by (simp add: parse_heap_dt_def populate_heap_def free_pdata_def Let_def)

text \<open>The result of the probe is that of the last heap: earlier failures are lost, and a node of an
  unknown type repeats the failure before it.\<close>

lemma earlier_failure_masked:
  assumes "creates (env 1)" and "known_type h2"
  shows "fst (create_heaps env [h1, h2] ret) = 0"
proof -
  obtain r o1 where "create_heap (env 0) h1 ret = (r, o1)" by fastforce
  moreover obtain o2 where "create_heap (env 1) h2 r = (0, Some o2)"
    using create_heap_made(1) [OF assms, of r] by blast
  ultimately show ?thesis by simp
qed

lemma unknown_type_repeats:
  assumes "\<not> kzalloc_heap (env 0)" and "ph_type h1 = HEAP_TYPE_CMA" and "\<not> known_type h2"
  shows "create_heaps env [h1, h2] 0 = (- ENOMEM, [])"
  using assms by (simp add: create_heap_def qcom_add_cma_heap_def add_cma_heap_def known_type_def
      HEAP_TYPE_CARVEOUT_def HEAP_TYPE_CMA_def)

end
