(* ===== verification/HeapIsolation.thy ===== *)
theory HeapIsolation
  imports CarveoutHeap CmaHeap
begin

text \<open>
  The heaps as the processes see them: a buffer of the carveout heap of \<open>drivers/qcom_carveout_heap.c\<close>
  mapped through the shared operations of \<open>drivers/qcom_sg_ops.c\<close>.
\<close>

section \<open>Processes that map different buffers\<close>

text \<open>The helper buffer behind a carveout dma-buf, as the shared operations see it.\<close>

definition carve_sg_buffer :: "carve_buf \<Rightarrow> sg_st" where
  "carve_sg_buffer b = \<lparr>attachments = [], blen = buf_len b,
     btable = \<lparr>sgl = [\<lparr>sg_page = bpage b, sg_length = ucast (buf_len b), sg_offset = 0\<rparr>], nents = 1, orig_nents = 1\<rparr>,
     vmap_cnt = 0, vaddr = 0, objs = 0, dma_maps = (\<lambda>_. 0), vmaps = []\<rparr>"

text \<open>A buffer of whole pages below 4 GB, and an area of a process to map it into.\<close>

definition whole_pages :: "carve_buf \<Rightarrow> bool" where
  "whole_pages b \<longleftrightarrow> 4096 dvd unat (buf_len b) \<and> 0 < unat (buf_len b) \<and> unat (buf_len b) < 4294967296"

definition vma_ok :: "vm_area \<Rightarrow> bool" where
  "vma_ok vma \<longleftrightarrow> unat (vm_pgoff vma) < 2 ^ 52 \<and> unat (vm_start vma) < unat (vm_end vma) \<and>
     4096 dvd unat (vm_end vma) - unat (vm_start vma)"

text \<open>The frames a process sees of a buffer.\<close>

definition seen_frames :: "vm_area \<Rightarrow> carve_buf \<Rightarrow> u64 set" where
  "seen_frames vma b = snd ` set (mapped_pages (snd (qcom_sg_mmap (\<lambda>_. (0, 0)) vma (carve_sg_buffer b))))"

lemma seen_frames_run:
  assumes "whole_pages b" and "vma_ok vma" and "p \<in> seen_frames vma b"
  shows "\<exists>i < unat (buf_len b) div 4096. p = bpage b + of_nat i"
proof -
  let ?sg = "\<lparr>sg_page = bpage b, sg_length = ucast (buf_len b), sg_offset = 0\<rparr>"
  have len: "unat (sg_length ?sg) = unat (buf_len b)" using assms(1) by (simp add: whole_pages_def ucast_len)
  have t: "take (nents (btable (carve_sg_buffer b))) (sgl (btable (carve_sg_buffer b))) = [?sg]"
    by (simp add: carve_sg_buffer_def)
  have al: "sg_aligned [?sg]" using assms(1) len by (simp add: sg_aligned_def whole_pages_def)
  obtain n where n: "unat (vm_end vma) - unat (vm_start vma) = 4096 * n"
    using assms(2) unfolding vma_ok_def by (elim conjE dvdE)
  have e: "unat (vm_end vma) = unat (vm_start vma) + 4096 * n" and "0 < n" and o: "unat (vm_pgoff vma) < 2 ^ 52"
    using assms(2) n by (auto simp: vma_ok_def)
  then have "mapped_pages (snd (qcom_sg_mmap (\<lambda>_. (0, 0)) vma (carve_sg_buffer b))) =
      mmap_reference (entry_pages ?sg) (unat (vm_start vma)) n (unat (vm_pgoff vma))"
    using mmap_pages_reference [of "carve_sg_buffer b" vma n "\<lambda>_. (0, 0)"] al by (simp add: t)
  then obtain a where "(a, p) \<in> set (mmap_reference (entry_pages ?sg) (unat (vm_start vma)) n (unat (vm_pgoff vma)))"
    using assms(3) by (auto simp: seen_frames_def)
  then have "p \<in> set (entry_pages ?sg)" by (rule mmap_reference_pages)
  then show ?thesis using len by (auto simp: entry_pages_def)
qed

text \<open>The first frame of a live buffer is that of a block.\<close>

lemma live_frames:
  "(carve_step galloc)\<^sup>*\<^sup>* x y \<Longrightarrow> \<forall>b \<in> set (fst x). unat (bpage b) < 2 ^ 52 \<Longrightarrow>
    \<forall>b \<in> set (fst y). unat (bpage b) < 2 ^ 52"
proof (induction rule: rtranclp_induct)
  case (step y z)
  have pfn: "unat (PFN_DOWN a) < 2 ^ 52" for a
    unfolding PFN_DOWN_def unat_drop_bit_eq unfolding drop_bit_eq_div
    by (rule less_mult_imp_div_less) (use unat_u64_bound [of a] in simp)
  from step.hyps(2) show ?case
  proof cases
    case (allocated e len s p b s' bs)
    then have "\<exists>a. bpage b = PFN_DOWN a"
      by (auto simp: carveout_heap_allocate_def carve_out_err_def Let_def split: if_splits prod.splits)
    then show ?thesis using step.IH step.prems allocated(1,2) pfn by auto
  next
    case (freed b bs s e)
    then show ?thesis using step.IH step.prems by (auto dest: subsetD [OF set_remove1_subset])
  qed (use step.IH step.prems in auto)
qed simp

lemma blocks_ok_nth:
  "blocks_ok bs \<Longrightarrow> i < length bs \<Longrightarrow> j < length bs \<Longrightarrow> i \<noteq> j \<Longrightarrow> blocks_apart (bs ! i) (bs ! j)"
proof (induction bs arbitrary: i j)
  case (Cons b bs)
  then show ?case
    by (cases i; cases j) (auto simp: blocks_apart_def)
qed simp

lemma phys_of_frame: "unat p < 2 ^ 52 \<Longrightarrow> unat (page_to_phys p) = 4096 * unat p"
  unfolding page_to_phys_def unsigned_push_bit_eq unfolding push_bit_eq_mult
  by (subst take_bit_nat_eq_self) simp_all

lemma frame_add:
  assumes "unat (p :: u64) < 2 ^ 52" and "i < 2 ^ 20"
  shows "unat (p + of_nat i) = unat p + i"
proof -
  have "unat (of_nat i :: u64) = i" using assms(2) by (simp add: unat_of_nat take_bit_nat_eq_self)
  then show ?thesis using assms by (simp add: unat_add_u64)
qed

lemma apart_frames:
  assumes "blocks_apart (block_of b) (block_of c)" and "whole_pages b" "whole_pages c"
    and "unat (bpage b) < 2 ^ 52" "unat (bpage c) < 2 ^ 52"
    and "i < unat (buf_len b) div 4096" "j < unat (buf_len c) div 4096"
  shows "bpage b + of_nat i \<noteq> bpage c + of_nat j"
proof
  assume eq: "bpage b + of_nat i = bpage c + of_nat j"
  have "unat (buf_len x) div 4096 < 2 ^ 20" if "whole_pages x" for x
    by (rule less_mult_imp_div_less) (use that in \<open>simp add: whole_pages_def\<close>)
  then have "i < 2 ^ 20" "j < 2 ^ 20" using assms(2,3,6,7) by (meson less_trans)+
  then have f: "unat (bpage b) + i = unat (bpage c) + j"
    using eq frame_add [OF assms(4)] frame_add [OF assms(5)] by metis
  have "4096 * i < unat (buf_len b)" "4096 * j < unat (buf_len c)" using assms(6,7) by simp_all
  then show False
    using assms(1) f unfolding blocks_apart_def block_of_def fst_conv snd_conv
      phys_of_frame [OF assms(4)] phys_of_frame [OF assms(5)] by linarith
qed

text \<open>C12: Two processes that map two different live buffers of a carveout heap never see a common page
  frame, whatever buffers were allocated and released before and wherever the buffers are mapped.\<close>

theorem carveout_processes_isolated:
  assumes "gen_pool galloc" and "(carve_step galloc)\<^sup>*\<^sup>* ([], s) (bs, s')"
    and "pool (heap s)" "blocks s = []" "bufs s = 0" "tables s = 0"
    and "i < length bs" "j < length bs" "i \<noteq> j" and "whole_pages (bs ! i)" "whole_pages (bs ! j)"
    and "vma_ok v" "vma_ok w"
  shows "seen_frames v (bs ! i) \<inter> seen_frames w (bs ! j) = {}"
proof -
  have "carve_inv ([], s)" using assms(3-6) by (simp add: carve_inv_def)
  from gen_pool.pool_run_inv [OF assms(1,2) this] have "blocks_ok (map block_of bs)" by (auto simp: carve_inv_def)
  from blocks_ok_nth [OF this, of i j] have apart: "blocks_apart (block_of (bs ! i)) (block_of (bs ! j))"
    using assms(7-9) by simp
  have "unat (bpage (bs ! i)) < 2 ^ 52" "unat (bpage (bs ! j)) < 2 ^ 52"
    using live_frames [OF assms(2)] assms(7,8) by auto
  note ap = apart_frames [OF apart assms(10,11) this]
  show ?thesis
    using seen_frames_run [OF assms(10,12)] seen_frames_run [OF assms(11,13)] ap by blast
qed

definition two_buffers :: "carve_buf list" where
  "two_buffers = [\<lparr>bpage = 3, buf_len = 4096\<rparr>, \<lparr>bpage = 1, buf_len = 8192\<rparr>]"

lemma two_allocated:
  "\<exists>s'. (carve_step first_above)\<^sup>*\<^sup>* ([], example_heap) (two_buffers, s')"
proof -
  let ?s = "example_heap\<lparr>bufs := 1, tables := 1, blocks := [(4096, 8192)]\<rparr>"
  have 1: "carve_step first_above ([], example_heap) ([\<lparr>bpage = 1, buf_len = 8192\<rparr>], ?s)"
    by (rule carve_step.allocated [OF example_allocated]) simp
  have "\<exists>s'. carveout_heap_allocate first_above carve_example 4096 ?s =
      (Inr (1, \<lparr>bpage = 3, buf_len = 4096\<rparr>), s')"
    by (simp add: carveout_heap_allocate_def carveout_allocate_def carve_example_def example_heap_def
        carve_empty_def first_above_def above_def top_of_def CARVEOUT_ALLOCATE_FAIL_def PFN_DOWN_def IS_ERR_def Let_def)
  then obtain s' where "carve_step first_above ([\<lparr>bpage = 1, buf_len = 8192\<rparr>], ?s) (two_buffers, s')"
    unfolding two_buffers_def using carve_step.allocated [where len = 4096] by fastforce
  with 1 show ?thesis by (blast intro: rtranclp.intros)
qed

theorem carveout_processes_isolated_witness:
  "seen_frames demo_vma (two_buffers ! 0) \<inter> seen_frames demo_vma (two_buffers ! 1) = {}"
proof -
  obtain s' where r: "(carve_step first_above)\<^sup>*\<^sup>* ([], example_heap) (two_buffers, s')"
    using two_allocated by blast
  have h: "pool (heap example_heap)" "blocks example_heap = []" "bufs example_heap = 0" "tables example_heap = 0"
    by (simp_all add: example_heap_def carve_empty_def)
  show ?thesis
    by (rule carveout_processes_isolated [OF first_above.gen_pool_axioms r h])
      (simp_all add: two_buffers_def whole_pages_def vma_ok_def demo_vma_def)
qed

end
