(* ===== verification/Uscmi.thy ===== *)
theory Uscmi
  imports KPrelude
begin

text \<open>
  Model of \<open>drivers/qcom_uscmi.c\<close> and \<open>include/uapi/misc/qcom_uscmi.h\<close>, the device through
  which user space asks for power, performance and reset operations. Devices are numbers; the
  kernel's power domains, operating points and reset lines answer through \<open>scmi_env\<close>. The state
  counts the runtime-power references each device holds, the references to operating points and
  reset controls, and the releases the driver core will make at the end. Reading a string without
  its end, and a domain past the list, are crashes.
\<close>

section \<open>Interface\<close>

definition NAME_LEN :: nat where "NAME_LEN = 32"

record scmi_oper_ioctl =
  proto :: u32
  oper :: u32
  level :: u32
  name_buf :: string

datatype scmi_cmd = SCMI_IOCTL_PRF | SCMI_IOCTL_RST | SCMI_IOCTL_PWR | Scmi_other

definition SCMI_PRF_LVL_SET :: u32 where "SCMI_PRF_LVL_SET = 0"
definition SCMI_RST_ASSERT :: u32 where "SCMI_RST_ASSERT = 0"
definition SCMI_RST_DEASSERT :: u32 where "SCMI_RST_DEASSERT = 1"
definition SCMI_RST_RESET :: u32 where "SCMI_RST_RESET = 2"
definition SCMI_PWR_OFF :: u32 where "SCMI_PWR_OFF = 0"
definition SCMI_PWR_ON :: u32 where "SCMI_PWR_ON = 1"
definition SCMI_PROTO_PERFORMANCE :: u32 where "SCMI_PROTO_PERFORMANCE = 0"
definition SCMI_PROTO_RESET :: u32 where "SCMI_PROTO_RESET = 1"
definition SCMI_PROTO_POWER :: u32 where "SCMI_PROTO_POWER = 2"

section \<open>State\<close>

text \<open>The device, its power domains when there are several, and the names the device tree gives them.\<close>

record qcom_uscmi_dev =
  udev :: nat
  pd_list :: "nat list option"
  power_domain_names :: "string list"

datatype reset_op = Assert | Deassert | Reset

record scmi_st =
  usage :: "nat \<Rightarrow> int"
  opp_refs :: int
  opp_set :: "(nat \<times> u32) list"
  rst_refs :: int
  rst_devres :: nat
  rst_done :: "reset_op list"

record scmi_env =
  req_read :: bool
  genpd_on :: "nat \<Rightarrow> bool"
  resume_and_get :: "nat \<Rightarrow> int"
  put_sync :: "nat \<Rightarrow> int"
  opp_count :: "nat \<Rightarrow> int"
  find_level :: "nat \<Rightarrow> u32 \<Rightarrow> ptr"
  set_opp :: "nat \<Rightarrow> int"
  reset_get :: "string option \<Rightarrow> ptr"
  reset_ret :: "reset_op \<Rightarrow> int"

section \<open>Runtime power\<close>

text \<open>Getting takes a reference only when it succeeds; putting drops it whatever it returns.\<close>

definition pm_runtime_resume_and_get :: "scmi_env \<Rightarrow> nat \<Rightarrow> scmi_st \<Rightarrow> int \<times> scmi_st" where
  "pm_runtime_resume_and_get e d s =
     (if resume_and_get e d < 0 then (resume_and_get e d, s)
      else (resume_and_get e d, s\<lparr>usage := (usage s)(d := usage s d + 1)\<rparr>))"

definition pm_runtime_put_sync :: "scmi_env \<Rightarrow> nat \<Rightarrow> scmi_st \<Rightarrow> int \<times> scmi_st" where
  "pm_runtime_put_sync e d s = (put_sync e d, s\<lparr>usage := (usage s)(d := usage s d - 1)\<rparr>)"

section \<open>Requests\<close>

text \<open>The string in a buffer, if it ends there.\<close>

definition c_string :: "string \<Rightarrow> string option" where
  "c_string buf = (if CHR 0x00 \<in> set buf then Some (takeWhile (\<lambda>c. c \<noteq> CHR 0x00) buf) else None)"

fun match_string :: "string list \<Rightarrow> string \<Rightarrow> int" where
  "match_string [] nm = - 61"
| "match_string (x # xs) nm =
     (if x = nm then 0 else let i = match_string xs nm in if i < 0 then i else i + 1)"

text \<open>The outer \<open>None\<close> is a crash, the inner one NULL.\<close>

definition get_pd_dev :: "qcom_uscmi_dev \<Rightarrow> string \<Rightarrow> nat option option" where
  "get_pd_dev uscmi buf =
     (case pd_list uscmi of
        None \<Rightarrow> Some (Some (udev uscmi))
      | Some pds \<Rightarrow> do {
          nm \<leftarrow> c_string buf;
          let index = (if nm \<noteq> [] then match_string (power_domain_names uscmi) nm else - EINVAL);
          (if index < 0 then Some None
           else if nat index < length pds then Some (Some (pds ! nat index)) else None)
        })"

definition do_power_operation ::
  "qcom_uscmi_dev \<Rightarrow> scmi_env \<Rightarrow> scmi_oper_ioctl \<Rightarrow> scmi_st \<Rightarrow> (int \<times> scmi_st) option" where
  "do_power_operation uscmi e req s = do {
     dev \<leftarrow> get_pd_dev uscmi (name_buf req);
     (case dev of
        None \<Rightarrow> Some (- EINVAL, s)
      | Some d \<Rightarrow>
          if proto req \<noteq> SCMI_PROTO_POWER then Some (- EINVAL, s)
          else let (ret, s) =
              (if oper req = SCMI_PWR_OFF then (if genpd_on e d then pm_runtime_put_sync e d s else (0, s))
               else if oper req = SCMI_PWR_ON then
                 (if \<not> genpd_on e d then pm_runtime_resume_and_get e d s else (0, s))
               else (- EINVAL, s)) in
            Some (if ret \<ge> 0 then 0 else ret, s))
   }"

definition dev_pm_opp_apply_level :: "scmi_env \<Rightarrow> nat \<Rightarrow> u32 \<Rightarrow> scmi_st \<Rightarrow> int \<times> scmi_st" where
  "dev_pm_opp_apply_level e d lvl s =
     (if IS_ERR (find_level e d lvl) then (- EINVAL, s)
      else let s = s\<lparr>opp_refs := opp_refs s + 1\<rparr>;
               ret = set_opp e d;
               s = (if ret = 0 then s\<lparr>opp_set := opp_set s @ [(d, lvl)]\<rparr> else s);
               s = s\<lparr>opp_refs := opp_refs s - 1\<rparr> in
           (ret, s))"

definition do_performance_operation ::
  "qcom_uscmi_dev \<Rightarrow> scmi_env \<Rightarrow> scmi_oper_ioctl \<Rightarrow> scmi_st \<Rightarrow> (int \<times> scmi_st) option" where
  "do_performance_operation uscmi e req s = do {
     dev \<leftarrow> get_pd_dev uscmi (name_buf req);
     (case dev of
        None \<Rightarrow> Some (- EINVAL, s)
      | Some d \<Rightarrow>
          if proto req \<noteq> SCMI_PROTO_PERFORMANCE then Some (- EINVAL, s)
          else if opp_count e d \<le> 0 then Some (- EINVAL, s)
          else let (ret, s) =
                (if oper req = SCMI_PRF_LVL_SET then dev_pm_opp_apply_level e d (level req) s else (- EINVAL, s)) in
            if ret = 0 \<and> pd_list uscmi \<noteq> None
            then (let (ret, s) = pm_runtime_resume_and_get e d s in
                  Some (if ret \<ge> 0 then pm_runtime_put_sync e d s else (ret, s)))
            else Some (ret, s))
   }"

definition reset_op_of :: "u32 \<Rightarrow> reset_op option" where
  "reset_op_of n =
     (if n = SCMI_RST_ASSERT then Some Assert else if n = SCMI_RST_DEASSERT then Some Deassert
      else if n = SCMI_RST_RESET then Some Reset else None)"

text \<open>The control is obtained with automatic release, and released here as well.\<close>

definition do_reset_operation ::
  "qcom_uscmi_dev \<Rightarrow> scmi_env \<Rightarrow> scmi_oper_ioctl \<Rightarrow> scmi_st \<Rightarrow> (int \<times> scmi_st) option" where
  "do_reset_operation uscmi e req s = do {
     nm \<leftarrow> c_string (name_buf req);
     (if proto req \<noteq> SCMI_PROTO_RESET then Some (- EINVAL, s)
      else let rstc = reset_get e (if nm \<noteq> [] then Some nm else None) in
        if IS_ERR_OR_NULL rstc then Some (- ENODEV, s)
        else let s = s\<lparr>rst_refs := rst_refs s + 1, rst_devres := rst_devres s + 1\<rparr>;
                 (ret, s) = (case reset_op_of (oper req) of
                     None \<Rightarrow> (- EINVAL, s)
                   | Some r \<Rightarrow> (reset_ret e r, s\<lparr>rst_done := rst_done s @ [r]\<rparr>));
                 s = s\<lparr>rst_refs := rst_refs s - 1\<rparr> in
          Some (ret, s))
   }"

text \<open>Opening and closing the device do nothing.\<close>

definition qcom_uscmi_open :: "scmi_st \<Rightarrow> int \<times> scmi_st" where "qcom_uscmi_open s = (0, s)"

definition qcom_uscmi_release :: "scmi_st \<Rightarrow> int \<times> scmi_st" where "qcom_uscmi_release s = (0, s)"

definition qcom_uscmi_ioctl ::
  "qcom_uscmi_dev \<Rightarrow> scmi_env \<Rightarrow> scmi_cmd \<Rightarrow> scmi_oper_ioctl \<Rightarrow> scmi_st \<Rightarrow> (int \<times> scmi_st) option" where
  "qcom_uscmi_ioctl uscmi e cmd req s =
     (if \<not> req_read e then Some (- EFAULT, s)
      else case cmd of
        SCMI_IOCTL_PRF \<Rightarrow> do_performance_operation uscmi e req s
      | SCMI_IOCTL_RST \<Rightarrow> do_reset_operation uscmi e req s
      | SCMI_IOCTL_PWR \<Rightarrow> do_power_operation uscmi e req s
      | Scmi_other \<Rightarrow> Some (- ENOTTY, s))"

section \<open>Probe\<close>

record uscmi_probe_env =
  uscmi_kzalloc :: bool
  dev_pm_domain :: bool
  attach_list :: "int + nat list option"
  misc_ret :: int

record uscmi_probe_st =
  pd_attached :: bool
  misc_registered :: bool
  runtime_enabled :: bool
  runtime_forbidden :: bool

definition qcom_uscmi_probe ::
  "uscmi_probe_env \<Rightarrow> nat \<Rightarrow> string list \<Rightarrow> uscmi_probe_st \<Rightarrow> int \<times> qcom_uscmi_dev option \<times> uscmi_probe_st" where
  "qcom_uscmi_probe e d names s =
     (if \<not> uscmi_kzalloc e then (- ENOMEM, None, s)
      else let attach = (if \<not> dev_pm_domain e then attach_list e else Inr None) in
      case attach of Inl err \<Rightarrow> (err, None, s)
      | Inr pds \<Rightarrow>
        let s = s\<lparr>pd_attached := (pds \<noteq> None)\<rparr> in
        if misc_ret e \<noteq> 0 then (misc_ret e, None, s\<lparr>pd_attached := False\<rparr>)
        else let s = s\<lparr>misc_registered := True\<rparr>;
                 s = (if pds = None then s\<lparr>runtime_enabled := True\<rparr> else s);
                 s = s\<lparr>runtime_forbidden := True\<rparr> in
          (0, Some \<lparr>udev = d, pd_list = pds, power_domain_names = names\<rparr>, s))"

section \<open>What a request changes\<close>

lemma bind_Some_scmi: "Option.bind x f = Some y \<longleftrightarrow> (\<exists>a. x = Some a \<and> f a = Some y)"
  by (cases x) auto

text \<open>The driver is the only user of its power domains: a domain is on when it holds a reference.\<close>

definition sole_user :: "scmi_env \<Rightarrow> scmi_st \<Rightarrow> bool" where
  "sole_user e s \<longleftrightarrow> (\<forall>d. genpd_on e d \<longleftrightarrow> 0 < usage s d)"

definition scmi_inv :: "scmi_st \<Rightarrow> bool" where
  "scmi_inv s \<longleftrightarrow> (\<forall>d. usage s d = 0 \<or> usage s d = 1) \<and> opp_refs s = 0 \<and> rst_refs s = 0"

text \<open>Power: one reference taken or dropped, or nothing.\<close>

definition power_done :: "scmi_env \<Rightarrow> nat \<Rightarrow> u32 \<Rightarrow> scmi_st \<Rightarrow> scmi_st \<Rightarrow> bool" where
  "power_done e d op s s' \<longleftrightarrow>
     op = SCMI_PWR_OFF \<and> s' = (if genpd_on e d then s\<lparr>usage := (usage s)(d := usage s d - 1)\<rparr> else s) \<or>
     op = SCMI_PWR_ON \<and> s' = (if genpd_on e d then s else s\<lparr>usage := (usage s)(d := usage s d + 1)\<rparr>)"

lemma power_effect:
  assumes "do_power_operation u e req s = Some (ret, s')"
  shows "s' = s \<and> ret < 0 \<or>
    (\<exists>d. get_pd_dev u (name_buf req) = Some (Some d) \<and> power_done e d (oper req) s s')"
proof -
  obtain dev where dev: "get_pd_dev u (name_buf req) = Some dev"
    using assms by (cases "get_pd_dev u (name_buf req)") (auto simp: do_power_operation_def)
  show ?thesis
  proof (cases dev)
    case None
    then show ?thesis using assms dev by (simp add: do_power_operation_def)
  next
    case (Some d)
    show ?thesis
      using assms dev Some
      by (simp add: do_power_operation_def pm_runtime_put_sync_def pm_runtime_resume_and_get_def power_done_def
          split: if_splits)
  qed
qed

lemma apply_level_kept:
  "usage (snd (dev_pm_opp_apply_level e d l s)) = usage s \<and>
   opp_refs (snd (dev_pm_opp_apply_level e d l s)) = opp_refs s \<and>
   rst_refs (snd (dev_pm_opp_apply_level e d l s)) = rst_refs s"
  by (simp add: dev_pm_opp_apply_level_def Let_def)

lemma get_put_kept:
  "(case pm_runtime_resume_and_get e d s of
      (r, t) \<Rightarrow> Some (if 0 \<le> r then pm_runtime_put_sync e d t else (r, t))) =
    Some (if resume_and_get e d < 0 then resume_and_get e d else put_sync e d, s)"
  by (simp add: pm_runtime_resume_and_get_def pm_runtime_put_sync_def)

lemma performance_kept:
  assumes "do_performance_operation u e req s = Some (ret, s')"
  shows "usage s' = usage s \<and> opp_refs s' = opp_refs s \<and> rst_refs s' = rst_refs s"
proof -
  obtain dev where dev: "get_pd_dev u (name_buf req) = Some dev"
    using assms by (cases "get_pd_dev u (name_buf req)") (auto simp: do_performance_operation_def)
  show ?thesis
  proof (cases dev)
    case None
    then show ?thesis using assms dev by (simp add: do_performance_operation_def)
  next
    case (Some d)
    let ?r = "if oper req = SCMI_PRF_LVL_SET then dev_pm_opp_apply_level e d (level req) s else (- EINVAL, s)"
    obtain r t where r: "?r = (r, t)" by fastforce
    then have k: "usage t = usage s \<and> opp_refs t = opp_refs s \<and> rst_refs t = rst_refs s"
      using apply_level_kept [of e d "level req" s] by (auto split: if_splits)
    have "s' = s \<or> s' = t"
      using assms dev Some r
      by (simp add: do_performance_operation_def Let_def get_put_kept split: if_splits)
    with k show ?thesis by blast
  qed
qed

lemma reset_kept:
  assumes "do_reset_operation u e req s = Some (ret, s')"
  shows "usage s' = usage s \<and> opp_refs s' = opp_refs s \<and> rst_refs s' = rst_refs s"
  using assms
  by (auto simp: do_reset_operation_def bind_Some_scmi Let_def split: option.splits if_splits)

lemma power_inv:
  assumes "do_power_operation u e req s = Some (ret, s')" and "scmi_inv s" and "sole_user e s"
  shows "scmi_inv s'"
proof -
  have u: "usage s d = (if genpd_on e d then 1 else 0)" for d
    using assms(2,3) unfolding scmi_inv_def sole_user_def by (metis less_irrefl zero_less_one)
  show ?thesis
    using power_effect [OF assms(1)] assms(2) u
    by (auto simp: scmi_inv_def power_done_def split: if_splits)
qed

section \<open>Runs\<close>

inductive scmi_step :: "qcom_uscmi_dev \<Rightarrow> scmi_st \<Rightarrow> scmi_st \<Rightarrow> bool" for uscmi where
  scmi_request: "sole_user e s \<Longrightarrow> qcom_uscmi_ioctl uscmi e cmd req s = Some (ret, s') \<Longrightarrow> scmi_step uscmi s s'"

inductive_cases scmi_step_cases: "scmi_step uscmi s s'"

lemma ioctl_scmi_inv:
  assumes "qcom_uscmi_ioctl u e cmd req s = Some (ret, s')" and "scmi_inv s" and "sole_user e s"
  shows "scmi_inv s'"
  using assms power_inv [of u e req s ret s'] performance_kept [of u e req s ret s'] reset_kept [of u e req s ret s']
  by (cases cmd) (auto simp: qcom_uscmi_ioctl_def scmi_inv_def split: if_splits)

lemma scmi_run_inv: "(scmi_step u)\<^sup>*\<^sup>* s s' \<Longrightarrow> scmi_inv s \<Longrightarrow> scmi_inv s'"
  by (induction rule: rtranclp_induct) (auto elim!: scmi_step_cases intro: ioctl_scmi_inv)

text \<open>C25: While the driver is the only user of its domains, whatever requests came before, a power
  request that succeeds leaves the domain it names with exactly one reference when it switches it
  on and with none when it switches it off; the other domains keep theirs, and no reference to an
  operating point or a reset control is left.\<close>

theorem uscmi_power_exact:
  assumes "scmi_inv s0" and "(scmi_step u)\<^sup>*\<^sup>* s0 s" and "sole_user e s"
    and "qcom_uscmi_ioctl u e SCMI_IOCTL_PWR req s = Some (0, s')"
  shows "\<exists>d. get_pd_dev u (name_buf req) = Some (Some d) \<and>
    (oper req = SCMI_PWR_ON \<and> usage s' = (usage s)(d := 1) \<or>
     oper req = SCMI_PWR_OFF \<and> usage s' = (usage s)(d := 0)) \<and> opp_refs s' = 0 \<and> rst_refs s' = 0"
proof -
  have inv: "scmi_inv s" by (rule scmi_run_inv [OF assms(2,1)])
  then have u: "usage s d = (if genpd_on e d then 1 else 0)" for d
    using assms(3) unfolding scmi_inv_def sole_user_def by (metis less_irrefl zero_less_one)
  have "do_power_operation u e req s = Some (0, s')"
    using assms(4) by (simp add: qcom_uscmi_ioctl_def split: if_splits)
  then obtain d where d: "get_pd_dev u (name_buf req) = Some (Some d)" "power_done e d (oper req) s s'"
    using power_effect by fastforce
  moreover have "usage s = (usage s)(d := usage s d)" by simp
  ultimately show ?thesis
    using inv u [of d] by (auto simp: scmi_inv_def power_done_def fun_upd_idem)
qed

definition scmi_init :: scmi_st where
  "scmi_init = \<lparr>usage = (\<lambda>_. 0), opp_refs = 0, opp_set = [], rst_refs = 0, rst_devres = 0, rst_done = []\<rparr>"

definition scmi_example :: "(nat \<Rightarrow> bool) \<Rightarrow> scmi_env" where
  "scmi_example on = \<lparr>req_read = True, genpd_on = on, resume_and_get = (\<lambda>_. 0), put_sync = (\<lambda>_. 0),
     opp_count = (\<lambda>_. 3), find_level = (\<lambda>_ _. 0x1000), set_opp = (\<lambda>_. 0), reset_get = (\<lambda>_. 0x2000),
     reset_ret = (\<lambda>_. 0)\<rparr>"

definition uscmi_example :: qcom_uscmi_dev where
  "uscmi_example = \<lparr>udev = 0, pd_list = Some [1, 2], power_domain_names = [''core'', ''mem'']\<rparr>"

definition scmi_req :: "u32 \<Rightarrow> u32 \<Rightarrow> string \<Rightarrow> scmi_oper_ioctl" where
  "scmi_req pr op nm = \<lparr>proto = pr, oper = op, level = 1, name_buf = nm @ replicate (32 - length nm) (CHR 0x00)\<rparr>"

theorem uscmi_power_exact_witness:
  "\<exists>s'. qcom_uscmi_ioctl uscmi_example (scmi_example (\<lambda>_. False)) SCMI_IOCTL_PWR (scmi_req 2 1 ''mem'') scmi_init =
      Some (0, s') \<and> usage s' = (usage scmi_init)(2 := 1)"
proof -
  have n: "get_pd_dev uscmi_example (name_buf (scmi_req 2 1 ''mem'')) = Some (Some 2)"
    by (simp add: get_pd_dev_def uscmi_example_def scmi_req_def c_string_def)
  then obtain s' where s': "qcom_uscmi_ioctl uscmi_example (scmi_example (\<lambda>_. False)) SCMI_IOCTL_PWR
      (scmi_req 2 1 ''mem'') scmi_init = Some (0, s')"
    by (simp add: qcom_uscmi_ioctl_def do_power_operation_def scmi_example_def scmi_req_def SCMI_PROTO_POWER_def
        SCMI_PWR_OFF_def SCMI_PWR_ON_def pm_runtime_resume_and_get_def)
  have "scmi_inv scmi_init" "sole_user (scmi_example (\<lambda>_. False)) scmi_init"
    by (simp_all add: scmi_inv_def scmi_init_def sole_user_def scmi_example_def)
  from uscmi_power_exact [OF this(1) rtranclp.rtrancl_refl this(2) s'] n s' show ?thesis
    by (auto simp: scmi_req_def SCMI_PWR_ON_def SCMI_PWR_OFF_def)
qed

section \<open>Behaviour outside those conditions\<close>

text \<open>When another user has the domain on, switching on takes no reference, yet reports success;
  switching off then drops one that was never taken.\<close>

lemma on_without_reference:
  assumes "genpd_on e d" and "get_pd_dev u (name_buf r1) = Some (Some d)" and "name_buf r2 = name_buf r1"
    and "proto r1 = SCMI_PROTO_POWER" "proto r2 = SCMI_PROTO_POWER"
    and "oper r1 = SCMI_PWR_ON" "oper r2 = SCMI_PWR_OFF" and "0 \<le> put_sync e d" and "req_read e"
  shows "qcom_uscmi_ioctl u e SCMI_IOCTL_PWR r1 s = Some (0, s)"
    and "qcom_uscmi_ioctl u e SCMI_IOCTL_PWR r2 s = Some (0, s\<lparr>usage := (usage s)(d := usage s d - 1)\<rparr>)"
  using assms
  by (simp_all add: qcom_uscmi_ioctl_def do_power_operation_def SCMI_PWR_ON_def SCMI_PWR_OFF_def
      pm_runtime_put_sync_def)

text \<open>A name that fills its buffer is read past the end.\<close>

lemma unterminated_name_crashes:
  assumes "CHR 0x00 \<notin> set (name_buf req)" and "req_read e"
  shows "qcom_uscmi_ioctl u e SCMI_IOCTL_RST req s = None"
    and "pd_list u = Some pds \<Longrightarrow> qcom_uscmi_ioctl u e SCMI_IOCTL_PWR req s = None"
  using assms
  by (simp_all add: qcom_uscmi_ioctl_def do_reset_operation_def do_power_operation_def get_pd_dev_def c_string_def)

text \<open>A reset control is released by the request and will be released again with the device.\<close>

lemma reset_released_twice:
  assumes "do_reset_operation u e req s = Some (ret, s')" and "rst_done s' \<noteq> rst_done s"
  shows "rst_refs s' - int (rst_devres s') = rst_refs s - int (rst_devres s) - 1"
  using assms
  by (auto simp: do_reset_operation_def bind_Some_scmi Let_def split: option.splits if_splits)

text \<open>A probe that fails keeps nothing; one that succeeds registers the device.\<close>

lemma uscmi_probe_all_or_nothing:
  assumes "qcom_uscmi_probe e d names s = (ret, u, s')" and "\<not> pd_attached s \<and> \<not> misc_registered s"
  shows "u = None \<and> \<not> pd_attached s' \<and> \<not> misc_registered s' \<or>
    ret = 0 \<and> u \<noteq> None \<and> misc_registered s' \<and> runtime_forbidden s' \<and>
    (pd_attached s' \<longleftrightarrow> (\<exists>v. u = Some v \<and> pd_list v \<noteq> None))"
  using assms by (auto simp: qcom_uscmi_probe_def Let_def split: sum.splits if_splits)

end
