(* ===== verification/DloadMode.thy ===== *)
theory DloadMode
  imports KPrelude
begin

text \<open>
  Model of \<open>drivers/qcom_dload_mode.c\<close>, the sysfs file that selects what is dumped when the
  system crashes. The mode lives twice: in the driver and in a register of the secure world, which
  the state holds as a map from addresses to values. The device tree and the results of the kernel's
  and the secure world's calls are parameters.
\<close>

section \<open>State\<close>

definition QCOM_DOWNLOAD_FULLDUMP :: u32 where "QCOM_DOWNLOAD_FULLDUMP = 0x10"
definition QCOM_DOWNLOAD_MINIDUMP :: u32 where "QCOM_DOWNLOAD_MINIDUMP = 0x20"
definition QCOM_DOWNLOAD_BOTHDUMP :: u32 where
  "QCOM_DOWNLOAD_BOTHDUMP = or QCOM_DOWNLOAD_FULLDUMP QCOM_DOWNLOAD_MINIDUMP"

record dload_st =
  dump_mode :: u32
  dload_mode_addr :: u64
  scm_regs :: "u64 \<Rightarrow> u32"
  kobj_added :: bool
  sysfs_file :: bool

record dload_env =
  readl_ret :: int
  writel_ret :: int
  scm_node :: bool
  tcsr_node :: bool
  tcsr_resource :: "int + u64"
  dload_offset :: "int + u32"
  kobject_ret :: int
  sysfs_ret :: int

text \<open>What the load of the module leaves: a full dump.\<close>

definition dload_init :: "(u64 \<Rightarrow> u32) \<Rightarrow> dload_st" where
  "dload_init regs = \<lparr>dump_mode = QCOM_DOWNLOAD_FULLDUMP, dload_mode_addr = 0, scm_regs = regs,
     kobj_added = False, sysfs_file = False\<rparr>"

section \<open>The register\<close>

definition get_dump_mode :: "dload_env \<Rightarrow> dload_st \<Rightarrow> int \<times> u32" where
  "get_dump_mode e s = (readl_ret e, scm_regs s (dload_mode_addr s))"

definition set_dump_mode :: "dload_env \<Rightarrow> u32 \<Rightarrow> dload_st \<Rightarrow> int \<times> dload_st" where
  "set_dump_mode e mode s =
     (if writel_ret e \<noteq> 0 then (writel_ret e, s)
      else (0, s\<lparr>scm_regs := (scm_regs s)(dload_mode_addr s := mode), dump_mode := mode\<rparr>))"

section \<open>The sysfs file\<close>

abbreviation (input) newline :: char where "newline \<equiv> CHR 0x0A"

text \<open>The bytes of a write are a string of C: a function that reads them as text sees them up to the
  first NUL, be it among them or the one kernfs puts behind them. \<open>sysfs_streq\<close> compares two such
  strings, equal up to one newline at the end of either.\<close>

definition c_string :: "string \<Rightarrow> string" where
  "c_string bytes = takeWhile (\<lambda>c. c \<noteq> CHR 0x00) bytes"

definition sysfs_streq :: "string \<Rightarrow> string \<Rightarrow> bool" where
  "sysfs_streq s1 s2 =
     (let a = c_string s1; b = c_string s2 in a = b \<or> a = b @ [newline] \<or> b = a @ [newline])"

definition dload_mode_show :: "dload_st \<Rightarrow> string" where
  "dload_mode_show s =
     (let mode = (if dump_mode s = QCOM_DOWNLOAD_FULLDUMP then ''full''
                  else if dump_mode s = QCOM_DOWNLOAD_MINIDUMP then ''mini''
                  else if dump_mode s = QCOM_DOWNLOAD_BOTHDUMP then ''both'' else ''unknown'') in
      ''DLOAD dump type: '' @ mode @ [newline])"

text \<open>The result is the error or the number of bytes taken.\<close>

definition dload_mode_store :: "dload_env \<Rightarrow> string \<Rightarrow> dload_st \<Rightarrow> int \<times> dload_st" where
  "dload_mode_store e buf s =
     (let mode = (if sysfs_streq buf ''full'' then Some QCOM_DOWNLOAD_FULLDUMP
                  else if sysfs_streq buf ''mini'' then Some QCOM_DOWNLOAD_MINIDUMP
                  else if sysfs_streq buf ''both'' then Some QCOM_DOWNLOAD_BOTHDUMP else None) in
      case mode of
        None \<Rightarrow> (- EINVAL, s)
      | Some m \<Rightarrow> let (ret, s) = set_dump_mode e m s in (if ret \<noteq> 0 then ret else int (length buf), s))"

record reset_attribute =
  attr_show_op :: "(dload_st \<Rightarrow> string) option"
  attr_store_op :: "(dload_env \<Rightarrow> string \<Rightarrow> dload_st \<Rightarrow> int \<times> dload_st) option"

definition attr_dload_mode :: reset_attribute where
  "attr_dload_mode = \<lparr>attr_show_op = Some dload_mode_show, attr_store_op = Some dload_mode_store\<rparr>"

definition attr_show :: "reset_attribute \<Rightarrow> dload_st \<Rightarrow> int + string" where
  "attr_show a s = (case attr_show_op a of None \<Rightarrow> Inl (- EIO) | Some f \<Rightarrow> Inr (f s))"

definition attr_store :: "reset_attribute \<Rightarrow> dload_env \<Rightarrow> string \<Rightarrow> dload_st \<Rightarrow> int \<times> dload_st" where
  "attr_store a e buf s = (case attr_store_op a of None \<Rightarrow> (- EIO, s) | Some f \<Rightarrow> f e buf s)"

section \<open>Probe\<close>

definition qcom_scm_find_dload_mode_address :: "dload_env \<Rightarrow> u64 \<Rightarrow> int \<times> u64" where
  "qcom_scm_find_dload_mode_address e addr =
     (if \<not> tcsr_node e then (- 1, addr)
      else case tcsr_resource e of Inl ret \<Rightarrow> (ret, addr)
      | Inr start \<Rightarrow>
          case dload_offset e of Inl ret \<Rightarrow> (ret, addr) | Inr offset \<Rightarrow> (0, start + ucast offset))"

definition qcom_dload_mode_probe :: "dload_env \<Rightarrow> dload_st \<Rightarrow> int \<times> dload_st" where
  "qcom_dload_mode_probe e s =
     (if \<not> scm_node e then (- ENODEV, s)
      else let (ret, addr) = qcom_scm_find_dload_mode_address e (dload_mode_addr s);
               s = s\<lparr>dload_mode_addr := addr\<rparr> in
        if ret < 0 then (ret, s)
        else if kobject_ret e \<noteq> 0 then (kobject_ret e, s)
        else let s = s\<lparr>kobj_added := True\<rparr> in
          if sysfs_ret e \<noteq> 0 then (sysfs_ret e, s\<lparr>kobj_added := False\<rparr>)
          else let s = s\<lparr>sysfs_file := True\<rparr>; (ret, temp) = get_dump_mode e s in
            (0, s\<lparr>dump_mode := (if ret \<noteq> 0 then dump_mode s else temp)\<rparr>))"

section \<open>Properties\<close>

lemmas dload_modes = QCOM_DOWNLOAD_FULLDUMP_def QCOM_DOWNLOAD_MINIDUMP_def QCOM_DOWNLOAD_BOTHDUMP_def

definition mode_names :: "(string \<times> u32) list" where
  "mode_names = [(''full'', 0x10), (''mini'', 0x20), (''both'', 0x30)]"

lemma both_mode: "QCOM_DOWNLOAD_BOTHDUMP = 0x30"
  by (simp add: dload_modes)

text \<open>What is written is what is shown and what the register holds.\<close>

lemma set_then_show:
  assumes "set_dump_mode e m s = (0, s')" and "(nm, m) \<in> set mode_names"
  shows "attr_show attr_dload_mode s' = Inr (''DLOAD dump type: '' @ nm @ [newline]) \<and>
    scm_regs s' = (scm_regs s)(dload_mode_addr s := m)"
proof -
  have s': "dump_mode s' = m" "scm_regs s' = (scm_regs s)(dload_mode_addr s := m)"
    using assms(1) by (auto simp: set_dump_mode_def split: if_splits)
  then show ?thesis
    using assms(2)
    by (auto simp: attr_show_def attr_dload_mode_def dload_mode_show_def mode_names_def both_mode
        QCOM_DOWNLOAD_FULLDUMP_def QCOM_DOWNLOAD_MINIDUMP_def)
qed

lemma streq_name:
  "(nm, m) \<in> set mode_names \<Longrightarrow>
     sysfs_streq buf nm \<longleftrightarrow> c_string buf = nm \<or> c_string buf = nm @ [newline]"
  by (auto simp: sysfs_streq_def c_string_def mode_names_def Let_def)

lemma streq_names:
  "find (\<lambda>(nm, m). sysfs_streq buf nm) mode_names =
   find (\<lambda>(nm, m). c_string buf = nm \<or> c_string buf = nm @ [newline]) mode_names"
  by (rule find_cong) (auto simp: streq_name)

lemma store_known:
  "dload_mode_store e buf s =
    (case find (\<lambda>(nm, m). sysfs_streq buf nm) mode_names of
       None \<Rightarrow> (- EINVAL, s)
     | Some (nm, m) \<Rightarrow>
         (if writel_ret e \<noteq> 0 then (writel_ret e, s) else (int (length buf), snd (set_dump_mode e m s))))"
  by (simp add: dload_mode_store_def mode_names_def both_mode set_dump_mode_def
      QCOM_DOWNLOAD_FULLDUMP_def QCOM_DOWNLOAD_MINIDUMP_def)

text \<open>C39: Writing one of the three names to the file, with or without a newline, is a round trip:
  when the secure world accepts it, the call takes all bytes, reading the file gives that name back,
  and the register of the secure world holds its mode and nothing else changed there. If it refuses
  the write, its error is returned and nothing changes. What counts is the text up to the first NUL
  among the bytes, whatever follows it; for any other text the call fails with \<open>-EINVAL\<close> and nothing
  changes.\<close>

theorem dload_store_show:
  "case find (\<lambda>(nm, m). c_string buf = nm \<or> c_string buf = nm @ [newline]) mode_names of
     None \<Rightarrow> attr_store attr_dload_mode e buf s = (- EINVAL, s)
   | Some (nm, m) \<Rightarrow>
       if writel_ret e \<noteq> 0 then attr_store attr_dload_mode e buf s = (writel_ret e, s)
       else \<exists>s'. attr_store attr_dload_mode e buf s = (int (length buf), s') \<and>
         attr_show attr_dload_mode s' = Inr (''DLOAD dump type: '' @ nm @ [newline]) \<and>
         scm_regs s' = (scm_regs s)(dload_mode_addr s := m)"
proof (cases "find (\<lambda>(nm, m). c_string buf = nm \<or> c_string buf = nm @ [newline]) mode_names")
  case None
  then show ?thesis by (simp add: attr_store_def attr_dload_mode_def store_known streq_names)
next
  case (Some p)
  then obtain nm m where p: "p = (nm, m)" "(nm, m) \<in> set mode_names"
    by (cases p) (auto simp: find_Some_iff dest: nth_mem)
  have st: "attr_store attr_dload_mode e buf s =
      (if writel_ret e \<noteq> 0 then (writel_ret e, s) else (int (length buf), snd (set_dump_mode e m s)))"
    by (simp add: attr_store_def attr_dload_mode_def store_known streq_names Some p(1))
  have sh: "set_dump_mode e m s = (0, snd (set_dump_mode e m s))" if "writel_ret e = 0"
    using that by (simp add: set_dump_mode_def)
  show ?thesis using Some p(1) st set_then_show [OF sh p(2)] by simp
qed

text \<open>A write of a name with a NUL behind it is accepted.\<close>

lemma name_then_nul:
  "writel_ret e = 0 \<Longrightarrow>
   fst (attr_store attr_dload_mode e (''full'' @ CHR 0x00 # rest) s) = 5 + int (length rest)"
  by (simp add: attr_store_def attr_dload_mode_def dload_mode_store_def sysfs_streq_def c_string_def
      set_dump_mode_def)

text \<open>The probe takes the mode over from the register; a mode that cannot be read stays the default.\<close>

lemma probe_takes_mode:
  assumes "qcom_dload_mode_probe e (dload_init regs) = (0, s')" and "tcsr_resource e = Inr start"
    and "dload_offset e = Inr offset" and "tcsr_node e"
  shows "dload_mode_addr s' = start + ucast offset \<and> sysfs_file s' \<and>
    dump_mode s' = (if readl_ret e = 0 then regs (start + ucast offset) else QCOM_DOWNLOAD_FULLDUMP)"
  using assms
  by (auto simp: qcom_dload_mode_probe_def dload_init_def get_dump_mode_def qcom_scm_find_dload_mode_address_def
      Let_def split: if_splits)

text \<open>A register value that is none of the modes is shown as unknown.\<close>

lemma foreign_mode_unknown:
  "dump_mode s \<notin> snd ` set mode_names \<Longrightarrow> dload_mode_show s = ''DLOAD dump type: unknown'' @ [newline]"
  by (simp add: dload_mode_show_def mode_names_def both_mode QCOM_DOWNLOAD_FULLDUMP_def QCOM_DOWNLOAD_MINIDUMP_def)

end
