(* ===== verification/PlatformDrivers.thy ===== *)
theory PlatformDrivers
  imports KiumdVfio
begin

text \<open>
  The small drivers and the registration of the devices: \<open>drivers/vfio_iommu_qcom.c\<close> (the VFIO
  back end that accepts the groups kiumd can map for), \<open>drivers/apps_pinctrl.c\<close>,
  \<open>drivers/kiumd_kgsl.c\<close>, and the probe functions of \<open>drivers/kiumd.c\<close>,
  \<open>drivers/scm_user_intf.c\<close> and \<open>drivers/iommu_iova_map.c\<close>. Results of the kernel are
  parameters; the state counts what a driver holds.
\<close>

section \<open>VFIO back end\<close>

text \<open>The requests of the container; numbers are opaque.\<close>

datatype vfio_cmd =
    VFIO_CHECK_EXTENSION | VFIO_IOMMU_GET_INFO | VFIO_IOMMU_MAP_DMA | VFIO_IOMMU_UNMAP_DMA
  | VFIO_IOMMU_DIRTY_PAGES | Vfio_other

datatype vfio_extension = VFIO_SPAPR_TCE_IOMMU | Vfio_ext_other

fun vfio_iommu_qcom_check_extension :: "vfio_extension \<Rightarrow> int" where
  "vfio_iommu_qcom_check_extension VFIO_SPAPR_TCE_IOMMU = 1"
| "vfio_iommu_qcom_check_extension Vfio_ext_other = 0"

fun vfio_iommu_qcom_ioctl :: "vfio_cmd \<Rightarrow> vfio_extension \<Rightarrow> int" where
  "vfio_iommu_qcom_ioctl VFIO_CHECK_EXTENSION arg = vfio_iommu_qcom_check_extension arg"
| "vfio_iommu_qcom_ioctl Vfio_other arg = - ENOTTY"
| "vfio_iommu_qcom_ioctl _ arg = 0"

definition vfio_iommu_qcom_attach_group :: "world \<Rightarrow> ptr \<Rightarrow> int" where
  "vfio_iommu_qcom_attach_group w grp = (if kiumd_iommu_group_default_domain w grp = 0 then - EINVAL else 0)"

text \<open>A group that attaches is one for which kiumd finds a DMA domain, and no other does.\<close>

lemma attach_gives_domain:
  assumes "dev \<noteq> 0"
  shows "vfio_iommu_qcom_attach_group w (w_iommu_group w dev) = 0 \<longleftrightarrow>
    (\<exists>d. kiumd_iommu_get_dma_domain w dev = Some d \<and> d \<noteq> 0)"
  using assms
  by (simp add: vfio_iommu_qcom_attach_group_def kiumd_iommu_group_default_domain_def kiumd_iommu_get_dma_domain_def)

text \<open>Mapping through the container succeeds without doing anything.\<close>

lemma container_map_is_noop: "vfio_iommu_qcom_ioctl VFIO_IOMMU_MAP_DMA arg = 0"
  by simp

text \<open>The other callbacks. The container's data is the NULL that \<open>open\<close> returns, and no callback
  keeps a state. Pages and the transferred data are handed through unchanged; the first component of
  each result is what the callback returns.\<close>

definition vfio_iommu_qcom_open :: "u64 \<Rightarrow> ptr" where "vfio_iommu_qcom_open arg = 0"

definition vfio_iommu_qcom_release :: "ptr \<Rightarrow> 's \<Rightarrow> 's" where "vfio_iommu_qcom_release d s = s"

definition vfio_iommu_qcom_detach_group :: "ptr \<Rightarrow> ptr \<Rightarrow> 's \<Rightarrow> 's" where
  "vfio_iommu_qcom_detach_group d grp s = s"

definition vfio_iommu_qcom_pin_pages :: "ptr \<Rightarrow> ptr \<Rightarrow> u64 \<Rightarrow> int \<Rightarrow> int \<Rightarrow> ptr list \<Rightarrow> int \<times> ptr list" where
  "vfio_iommu_qcom_pin_pages d grp user_iova npage prot pages = (0, pages)"

definition vfio_iommu_qcom_unpin_pages :: "ptr \<Rightarrow> u64 \<Rightarrow> int \<Rightarrow> 's \<Rightarrow> 's" where
  "vfio_iommu_qcom_unpin_pages d user_iova npage s = s"

definition vfio_iommu_qcom_register_device :: "ptr \<Rightarrow> ptr \<Rightarrow> 's \<Rightarrow> 's" where
  "vfio_iommu_qcom_register_device d vdev s = s"

definition vfio_iommu_qcom_unregister_device :: "ptr \<Rightarrow> ptr \<Rightarrow> 's \<Rightarrow> 's" where
  "vfio_iommu_qcom_unregister_device d vdev s = s"

definition vfio_iommu_qcom_dma_rw :: "ptr \<Rightarrow> u64 \<Rightarrow> u8 list \<Rightarrow> bool \<Rightarrow> int \<times> u8 list" where
  "vfio_iommu_qcom_dma_rw d user_iova buf wr = (0, buf)"

definition vfio_iommu_qcom_group_iommu_domain :: "ptr \<Rightarrow> ptr \<Rightarrow> ptr" where
  "vfio_iommu_qcom_group_iommu_domain d grp = 0"

text \<open>A container's session: it is opened, told about groups, devices and pages, and released.\<close>

datatype vfio_call =
    Vfio_open u64 | Vfio_release | Vfio_ioctl vfio_cmd vfio_extension | Vfio_attach ptr | Vfio_detach ptr
  | Vfio_pin ptr u64 int int "ptr list" | Vfio_unpin u64 int | Vfio_register ptr | Vfio_unregister ptr
  | Vfio_dma_rw u64 "u8 list" bool | Vfio_domain ptr

text \<open>What a call returns, and the memory it was given, afterwards.\<close>

datatype vfio_reply = Reply int | Pinned int "ptr list" | Moved int "u8 list" | Domain ptr | Nothing

fun vfio_iommu_driver_ops_qcom :: "world \<Rightarrow> ptr \<Rightarrow> vfio_call \<Rightarrow> vfio_reply" where
  "vfio_iommu_driver_ops_qcom w d (Vfio_open arg) = Domain (vfio_iommu_qcom_open arg)"
| "vfio_iommu_driver_ops_qcom w d Vfio_release = vfio_iommu_qcom_release d Nothing"
| "vfio_iommu_driver_ops_qcom w d (Vfio_ioctl cmd arg) = Reply (vfio_iommu_qcom_ioctl cmd arg)"
| "vfio_iommu_driver_ops_qcom w d (Vfio_attach grp) = Reply (vfio_iommu_qcom_attach_group w grp)"
| "vfio_iommu_driver_ops_qcom w d (Vfio_detach grp) = vfio_iommu_qcom_detach_group d grp Nothing"
| "vfio_iommu_driver_ops_qcom w d (Vfio_pin grp iova n prot pages) =
     (case vfio_iommu_qcom_pin_pages d grp iova n prot pages of (r, p) \<Rightarrow> Pinned r p)"
| "vfio_iommu_driver_ops_qcom w d (Vfio_unpin iova n) = vfio_iommu_qcom_unpin_pages d iova n Nothing"
| "vfio_iommu_driver_ops_qcom w d (Vfio_register v) = vfio_iommu_qcom_register_device d v Nothing"
| "vfio_iommu_driver_ops_qcom w d (Vfio_unregister v) = vfio_iommu_qcom_unregister_device d v Nothing"
| "vfio_iommu_driver_ops_qcom w d (Vfio_dma_rw iova buf wr) =
     (case vfio_iommu_qcom_dma_rw d iova buf wr of (r, b) \<Rightarrow> Moved r b)"
| "vfio_iommu_driver_ops_qcom w d (Vfio_domain grp) = Domain (vfio_iommu_qcom_group_iommu_domain d grp)"

lemmas vfio_callbacks = vfio_iommu_qcom_open_def vfio_iommu_qcom_release_def
  vfio_iommu_qcom_detach_group_def vfio_iommu_qcom_pin_pages_def vfio_iommu_qcom_unpin_pages_def
  vfio_iommu_qcom_register_device_def vfio_iommu_qcom_unregister_device_def vfio_iommu_qcom_dma_rw_def
  vfio_iommu_qcom_group_iommu_domain_def

text \<open>Reading a device's memory through the container reports success and leaves the caller's
  buffer as it was.\<close>

lemma dma_rw_moves_nothing: "vfio_iommu_driver_ops_qcom w d (Vfio_dma_rw iova buf False) = Moved 0 buf"
  by (simp add: vfio_callbacks)

lemma ioctl_refuses: "vfio_iommu_qcom_ioctl cmd arg < 0 \<longleftrightarrow> cmd = Vfio_other"
  by (cases cmd; cases arg) auto

text \<open>No callback pins a page, hands out a domain or changes the caller's memory; the calls that
  fail are unknown requests and the attachment of a group without a default domain.\<close>

lemma vfio_driver_inert:
  "case vfio_iommu_driver_ops_qcom w d c of
     Pinned r p \<Rightarrow> r = 0 \<and> (\<exists>grp iova n prot. c = Vfio_pin grp iova n prot p)
   | Moved r b \<Rightarrow> r = 0 \<and> (\<exists>iova wr. c = Vfio_dma_rw iova b wr)
   | Domain p \<Rightarrow> p = 0
   | Reply r \<Rightarrow> r < 0 \<longleftrightarrow> (\<exists>arg. c = Vfio_ioctl Vfio_other arg)
       \<or> (\<exists>grp. c = Vfio_attach grp \<and> kiumd_iommu_group_default_domain w grp = 0)
   | Nothing \<Rightarrow> True"
  by (cases "(w, d, c)" rule: vfio_iommu_driver_ops_qcom.cases)
     (auto simp: vfio_callbacks vfio_iommu_qcom_attach_group_def ioctl_refuses)

text \<open>Registration with the VFIO core, whose answer is the module's.\<close>

definition vfio_iommu_qcom_init :: "int \<Rightarrow> nat \<Rightarrow> int \<times> nat" where
  "vfio_iommu_qcom_init register_rc n = (register_rc, if register_rc = 0 then n + 1 else n)"

definition vfio_iommu_qcom_exit :: "nat \<Rightarrow> nat" where
  "vfio_iommu_qcom_exit n = n - 1"

lemma vfio_load_unload: "fst (vfio_iommu_qcom_init rc n) = 0 \<Longrightarrow> vfio_iommu_qcom_exit (snd (vfio_iommu_qcom_init rc n)) = n"
  by (simp add: vfio_iommu_qcom_init_def vfio_iommu_qcom_exit_def)

section \<open>Pin control and the GPU's SMMU device\<close>

definition apps_pinctrl_probe :: "ptr \<Rightarrow> ptr \<Rightarrow> int \<Rightarrow> int" where
  "apps_pinctrl_probe pinctrl appsdefault select_ret =
     (if IS_ERR_OR_NULL pinctrl then PTR_ERR pinctrl
      else if IS_ERR_OR_NULL appsdefault then PTR_ERR appsdefault
      else select_ret)"

lemma missing_pinctrl_probes: "apps_pinctrl_probe 0 st ret = 0"
  by (simp add: apps_pinctrl_probe_def PTR_ERR_def)

text \<open>The second component is the driver data of the device.\<close>

definition kiumd_kgsl_probe :: "ptr \<Rightarrow> int \<Rightarrow> ptr \<Rightarrow> int \<times> ptr" where
  "kiumd_kgsl_probe adrenodevice dma_ret drvdata =
     (if adrenodevice = 0 then (- ENOMEM, drvdata)
      else if dma_ret \<noteq> 0 then (dma_ret, adrenodevice) else (0, adrenodevice))"

definition kiumd_kgsl_remove :: "ptr \<Rightarrow> int \<times> ptr" where
  "kiumd_kgsl_remove drvdata = (0, 0)"

section \<open>Registration of the devices\<close>

text \<open>Structures allocated for misc devices, the devices registered, and the fault object.\<close>

record reg_st =
  misc_structs :: int
  misc_live :: "string list"
  smmu_obj :: bool
  dev_refs :: int

record reg_env =
  reg_kzalloc :: bool
  dt_dev_name :: "string option"
  node_name :: string
  misc_ret :: int
  kobject_ok :: bool
  scm_up :: bool

definition misc_register :: "reg_env \<Rightarrow> string \<Rightarrow> reg_st \<Rightarrow> int \<times> reg_st" where
  "misc_register e nm s =
     (if misc_ret e \<noteq> 0 then (misc_ret e, s) else (0, s\<lparr>misc_live := nm # misc_live s\<rparr>))"

definition kiumd_probe :: "reg_env \<Rightarrow> reg_st \<Rightarrow> int \<times> reg_st" where
  "kiumd_probe e s =
     (if \<not> reg_kzalloc e then (- ENOMEM, s)
      else let s = s\<lparr>misc_structs := misc_structs s + 1\<rparr>;
               devname = (case dt_dev_name e of Some nm \<Rightarrow> nm | None \<Rightarrow> node_name e);
               (err, s) = misc_register e devname s in
        if err \<noteq> 0 then (err, s)
        else let s = s\<lparr>smmu_obj := kobject_ok e\<rparr> in
          if \<not> kobject_ok e then (- ENOMEM, s) else (0, s))"

definition iommu_iova_open :: "'s \<Rightarrow> int \<times> 's" where "iommu_iova_open s = (0, s)"

definition iommu_iova_ioctl :: "u32 \<Rightarrow> u64 \<Rightarrow> 's \<Rightarrow> int \<times> 's" where "iommu_iova_ioctl cmd arg s = (0, s)"

definition iommu_iova_init :: "reg_env \<Rightarrow> reg_st \<Rightarrow> int \<times> reg_st" where
  "iommu_iova_init e s =
     (if \<not> reg_kzalloc e then (- ENOMEM, s)
      else let s = s\<lparr>misc_structs := misc_structs s + 1\<rparr>; (err, s) = misc_register e ''iommumap'' s in
        if err \<noteq> 0 then (err, s) else (0, s))"

text \<open>The structure is the device's own and goes away with it; the check for the secure world only
  logs.\<close>

definition qcom_scm_intf_probe :: "reg_env \<Rightarrow> reg_st \<Rightarrow> int \<times> reg_st" where
  "qcom_scm_intf_probe e s =
     (if \<not> reg_kzalloc e then (- ENOMEM, s)
      else let (ret, s) = misc_register e ''scmnode'' s in
        if ret \<noteq> 0 then (ret, s) else (0, s))"

definition qcom_scm_intf_remove :: "reg_st \<Rightarrow> int \<times> reg_st" where
  "qcom_scm_intf_remove s = (0, s\<lparr>dev_refs := dev_refs s - 1, misc_live := remove1 ''scmnode'' (misc_live s)\<rparr>)"

text \<open>A probe of kiumd that succeeds leaves the device and the fault object.\<close>

lemma kiumd_probe_ok:
  assumes "kiumd_probe e s = (0, s')"
  shows "smmu_obj s' \<and> misc_structs s' = misc_structs s + 1 \<and>
    misc_live s' = (case dt_dev_name e of Some nm \<Rightarrow> nm | None \<Rightarrow> node_name e) # misc_live s"
  using assms by (auto simp: kiumd_probe_def misc_register_def Let_def split: if_splits option.splits)

text \<open>When registration fails the structure is lost; when the fault object fails the device stays.\<close>

lemma kiumd_probe_leaks:
  assumes "reg_kzalloc e" and "misc_ret e \<noteq> 0"
  shows "kiumd_probe e s = (misc_ret e, s\<lparr>misc_structs := misc_structs s + 1\<rparr>)"
    and "iommu_iova_init e s = (misc_ret e, s\<lparr>misc_structs := misc_structs s + 1\<rparr>)"
  using assms by (simp_all add: kiumd_probe_def iommu_iova_init_def misc_register_def)

lemma kiumd_probe_keeps_device:
  assumes "reg_kzalloc e" and "misc_ret e = 0" and "\<not> kobject_ok e"
  shows "\<exists>s'. kiumd_probe e s = (- ENOMEM, s') \<and> misc_live s' \<noteq> misc_live s"
  using assms by (simp add: kiumd_probe_def misc_register_def Let_def)

text \<open>Loading and unloading the secure-call driver restores the registrations but drops a reference
  that was not taken.\<close>

lemma scm_probe_remove:
  assumes "qcom_scm_intf_probe e s = (0, s')"
  shows "qcom_scm_intf_remove s' = (0, s\<lparr>dev_refs := dev_refs s - 1\<rparr>)"
  using assms by (auto simp: qcom_scm_intf_probe_def qcom_scm_intf_remove_def misc_register_def split: if_splits)

section \<open>Hiding the pages of a scatter table\<close>

definition kiumd_mangle_sg_table :: "u64 list \<Rightarrow> u64 list" where
  "kiumd_mangle_sg_table links = map (\<lambda>page_link. xor page_link (not 0xff)) links"

text \<open>Mangling twice restores the table, and the low bits, which hold the chain and end marks, are
  never touched.\<close>

lemma mangle_involution: "kiumd_mangle_sg_table (kiumd_mangle_sg_table links) = links"
  by (simp add: kiumd_mangle_sg_table_def comp_def xor.assoc)

lemma mangle_keeps_marks: "map (and 0xff) (kiumd_mangle_sg_table links) = map (and 0xff) links"
proof -
  have "and 0xff (xor x (not 0xff)) = and 0xff x" for x :: u64
    by (rule bit_eqI) (auto simp: bit_simps)
  then show ?thesis by (simp add: kiumd_mangle_sg_table_def)
qed

end
