(* ===== verification/Interleave.thy ===== *)
theory Interleave
  imports KPrelude
begin

text \<open>
  Interleavings of kernel threads. A thread is a program counter with its local values; a step of
  a thread takes the shared state and is atomic, as wide as the code makes it atomic (a section
  under a lock, one atomic instruction, one read of a shared structure). The outcome \<open>None\<close> is a
  crash. A schedule is the list of the threads that step, in order. The locale
  \<open>thread_invariant\<close> gives every model of threads its proof rule: an invariant that each step
  keeps, without a crash, holds after every schedule. The weaker \<open>thread_safety\<close> is for threads
  that may crash.
\<close>

type_synonym ('p, 's) thread_step = "'p \<Rightarrow> 's \<Rightarrow> ('p \<times> 's) option"

fun run_sched :: "('p, 's) thread_step \<Rightarrow> nat list \<Rightarrow> 'p list \<times> 's \<Rightarrow> ('p list \<times> 's) option" where
  "run_sched step [] c = Some c"
| "run_sched step (i # is) (ps, s) =
     (if i < length ps then
        (case step (ps ! i) s of
           None \<Rightarrow> None
         | Some (p', s') \<Rightarrow> run_sched step is (ps[i := p'], s'))
      else run_sched step is (ps, s))"

lemma run_sched_append:
  "run_sched step (is @ js) c = Option.bind (run_sched step is c) (run_sched step js)"
  by (induction step "is" c rule: run_sched.induct) (auto split: option.splits)

text \<open>A schedule that crashes has a first step that does.\<close>

lemma run_crash:
  "run_sched step sch (ps, s) = None \<Longrightarrow>
   \<exists>pre i post ps' s'. sch = pre @ i # post \<and> run_sched step pre (ps, s) = Some (ps', s') \<and>
     i < length ps' \<and> step (ps' ! i) s' = None"
proof (induction sch arbitrary: ps s)
  case (Cons i sch)
  show ?case
  proof (cases "i < length ps \<and> step (ps ! i) s = None")
    case True
    then show ?thesis by (intro exI [of _ "[]"]) auto
  next
    case False
    define c where "c = (if i < length ps then case step (ps ! i) s of Some (p', s') \<Rightarrow> (ps[i := p'], s') | None \<Rightarrow> (ps, s)
      else (ps, s))"
    have st: "run_sched step (i # is) (ps, s) = run_sched step is c" for "is"
      using False by (auto simp: c_def split: option.splits)
    obtain ps1 s1 where "c = (ps1, s1)" by (cases c)
    with Cons.IH [of ps1 s1] Cons.prems st obtain pre j post ps' s' where
      "sch = pre @ j # post" "run_sched step pre c = Some (ps', s')" "j < length ps'" "step (ps' ! j) s' = None"
      by auto
    then show ?thesis using st [of pre] by (intro exI [of _ "i # pre"]) auto
  qed
qed simp

lemma run_sched_length:
  "run_sched step is (ps, s) = Some (ps', s') \<Longrightarrow> length ps' = length ps"
  by (induction step "is" "(ps, s)" arbitrary: ps s rule: run_sched.induct)
     (auto split: if_splits option.splits)

lemma list_update_all:
  "\<forall>p \<in> set ps. P p \<Longrightarrow> P q \<Longrightarrow> \<forall>p \<in> set (ps[i := q]). P p"
  using set_update_subset_insert [of ps i q] by auto

locale thread_invariant =
  fixes step :: "('p, 's) thread_step"
    and inv :: "'p list \<Rightarrow> 's \<Rightarrow> bool"
  assumes kept: "inv ps s \<Longrightarrow> i < length ps \<Longrightarrow>
    \<exists>p' s'. step (ps ! i) s = Some (p', s') \<and> inv (ps[i := p']) s'"
begin

lemma run_kept:
  "inv ps s \<Longrightarrow>
     \<exists>ps' s'. run_sched step sch (ps, s) = Some (ps', s') \<and> inv ps' s' \<and> length ps' = length ps"
proof (induction sch arbitrary: ps s)
  case (Cons i sch)
  show ?case
  proof (cases "i < length ps")
    case True
    from kept [OF Cons.prems this] obtain p' s' where
      "step (ps ! i) s = Some (p', s')" "inv (ps[i := p']) s'" by blast
    with Cons.IH [of "ps[i := p']" s'] True show ?thesis by simp
  next
    case False
    with Cons show ?thesis by simp
  qed
qed simp

end

text \<open>The other threads do not touch a thread's counter: when every step of a thread brings it closer
  to its end, the schedule bounds the steps it still has to take, and what no step changes stays.
  \<open>within n p\<close> says that a thread at \<open>p\<close> ends within \<open>n\<close> steps of its own.\<close>

lemma within_run:
  assumes "\<And>n p s p' s'. step p s = Some (p', s') \<Longrightarrow> within n p \<Longrightarrow> within (n - 1 :: nat) p'"
    and "run_sched step sch (ps, s) = Some (ps', s')" "j < length ps" "within n (ps ! j)"
  shows "within (n - count_list sch j) (ps' ! j)"
  using assms(2-4)
proof (induction sch arbitrary: ps s n)
  case (Cons i sch)
  show ?case
  proof (cases "i < length ps")
    case True
    with Cons.prems obtain p' s1 where st: "step (ps ! i) s = Some (p', s1)"
      and run: "run_sched step sch (ps[i := p'], s1) = Some (ps', s')"
      by (auto split: option.splits)
    show ?thesis
    proof (cases "i = j")
      case j: True
      with assms(1) [OF st] Cons.prems have "within (n - 1) (ps[i := p'] ! j)" by simp
      from Cons.IH [OF run _ this] Cons.prems j show ?thesis by simp
    next
      case False
      with Cons.IH [OF run, of n] Cons.prems show ?thesis by simp
    qed
  next
    case False
    with Cons show ?thesis by auto
  qed
qed simp

lemma rank_run:
  assumes "\<And>p s p' s'. step p s = Some (p', s') \<Longrightarrow> rank p' \<le> rank p - (1 :: nat)"
    and "run_sched step sch (ps, s) = Some (ps', s')" "j < length ps"
  shows "rank (ps' ! j) \<le> rank (ps ! j) - count_list sch j"
proof (rule within_run [where within = "\<lambda>n p. rank p \<le> n", OF _ assms(2,3)])
  fix n p s p' s'
  assume "step p s = Some (p', s')" "rank p \<le> n"
  with assms(1) [of p s p' s'] show "rank p' \<le> n - 1" by linarith
qed simp

lemma label_run:
  assumes "\<And>p s p' s'. step p s = Some (p', s') \<Longrightarrow> label p' = label p"
    and "run_sched step sch (ps, s) = Some (ps', s')" "j < length ps"
  shows "label (ps' ! j) = label (ps ! j)"
  using assms(2,3)
proof (induction sch arbitrary: ps s)
  case (Cons i sch)
  then show ?case
    using assms(1) [of "ps ! i" s]
    by (cases "i = j") (auto split: if_splits option.splits)
qed simp

lemma sum_update:
  fixes f :: "'p \<Rightarrow> nat"
  assumes "i < length ps"
  shows "(\<Sum>p \<leftarrow> ps[i := q]. f p) + f (ps ! i) = (\<Sum>p \<leftarrow> ps. f p) + f q"
  using assms by (induction ps arbitrary: i) (auto split: nat.splits)

text \<open>Where a step may crash, the invariant holds as long as no step has.\<close>

locale thread_safety =
  fixes step :: "('p, 's) thread_step"
    and inv :: "'p list \<Rightarrow> 's \<Rightarrow> bool"
  assumes preserved: "inv ps s \<Longrightarrow> i < length ps \<Longrightarrow> step (ps ! i) s = Some (p', s') \<Longrightarrow> inv (ps[i := p']) s'"
begin

lemma run_safe:
  "inv ps s \<Longrightarrow> run_sched step sch (ps, s) = Some (ps', s') \<Longrightarrow> inv ps' s'"
proof (induction sch arbitrary: ps s)
  case (Cons i sch)
  then show ?case
    using preserved [OF Cons.prems(1), of i] by (auto split: if_splits option.splits)
qed simp

end

sublocale thread_invariant \<subseteq> safe: thread_safety step inv
proof
  fix ps s i p' s'
  assume "inv ps s" "i < length ps" "step (ps ! i) s = Some (p', s')"
  with kept [of ps s i] show "inv (ps[i := p']) s'" by auto
qed

end
