(* ===== verification/KiumdThreads.thy ===== *)
theory KiumdThreads
  imports IovaBitmap Interleave
begin

text \<open>
  Concurrent requests for addresses of the GPU page tables. The ioctl handlers of
  \<open>drivers/kiumd.c\<close> call \<open>get_map_offset\<close> and \<open>clear_map_iova\<close> without a lock, on bitmaps that all
  processes share. A thread here is one such call, and its steps are single loads and stores of
  64-bit words: the search reads the bitmap word by word, setting or clearing bits loads each word
  and stores it back, and the hint is read and written on its own; between any two of them the other
  requests run. The kernel's search is a parameter, as a resumption: it asks for the content of
  a word and goes on with the answer. Run without interruption a call is the function of theory
  IovaBitmap. A word is the set of its set bits. A release is given the number of the first page,
  and passes the address of that page to \<open>clear_map_iova\<close>.
\<close>

section \<open>A search that reads words\<close>

datatype scan = Done u64 | Read nat "nat set \<Rightarrow> scan"

definition word_bits :: "nat \<Rightarrow> nat set" where
  "word_bits w = {64 * w ..< 64 * w + 64}"

text \<open>The rest of a search after the reads of a log, which names each word and what was found.\<close>

fun after_reads :: "scan \<Rightarrow> (nat \<times> nat set) list \<Rightarrow> scan option" where
  "after_reads sc [] = Some sc"
| "after_reads (Done r) (x # log) = None"
| "after_reads (Read w k) ((w', v) # log) = (if w = w' then after_reads (k v) log else None)"

text \<open>The result of a search while nothing else happens.\<close>

primrec undisturbed :: "bitmap \<Rightarrow> scan \<Rightarrow> u64" where
  "undisturbed m (Done r) = r"
| "undisturbed m (Read w k) = undisturbed m (k (m \<inter> word_bits w))"

text \<open>What \<open>bitmap_find_next_zero_area\<close> promises however the bitmap changes meanwhile: an area it
  returns lies inside the bitmap and each of its bits was clear in a word it read; otherwise the
  result is beyond the end by at most the length; and it ends within a number of reads.\<close>

locale word_search =
  fixes find_area :: "u64 \<Rightarrow> u64 \<Rightarrow> u32 \<Rightarrow> scan" and reads :: nat
  assumes seen_clear:
      "after_reads (find_area (of_nat KGSL_PT_MEM_PAGES) st nr) log = Some (Done r) \<Longrightarrow> 0 < nr \<Longrightarrow>
       unat r < KGSL_PT_MEM_PAGES \<Longrightarrow>
       unat r + unat nr \<le> KGSL_PT_MEM_PAGES
       \<and> (\<forall>b \<in> area (unat r) (unat nr). \<exists>(w, v) \<in> set log. b \<in> word_bits w \<and> b \<notin> v)"
    and beyond:
      "after_reads (find_area (of_nat KGSL_PT_MEM_PAGES) st nr) log = Some (Done r) \<Longrightarrow> 0 < nr \<Longrightarrow>
       unat r \<le> KGSL_PT_MEM_PAGES + unat nr"
    and bounded:
      "after_reads (find_area (of_nat KGSL_PT_MEM_PAGES) st nr) log = Some sc \<Longrightarrow> length log \<le> reads"

section \<open>A call as a thread\<close>

text \<open>The program counters: the two searches, the update of the words of an area (the words still
  to do, and the content of the first when it is loaded), and the end.\<close>

datatype alloc_pc =
  Start u64 int
| Searching bool u64 int scan
| Found u64 int u64
| Updating bool u64 int u64 "nat list" "nat set option"
| Marked u64 int u64
| Returned u64 int int
| Clear nat u64 int
| Cleared u64 int

definition set_pt_map :: "int \<Rightarrow> bitmap \<Rightarrow> pt_maps \<Rightarrow> pt_maps" where
  "set_pt_map sel m s =
     (if sel = KGSL_GLOBAL_PT then s\<lparr>global_map := m\<rparr> else s\<lparr>perprocess_map := m\<rparr>)"

definition set_pt_last :: "int \<Rightarrow> u64 \<Rightarrow> pt_maps \<Rightarrow> pt_maps" where
  "set_pt_last sel l s =
     (if sel = KGSL_GLOBAL_PT then s\<lparr>last_offset_global := l\<rparr> else s\<lparr>last_offset_perprocess := l\<rparr>)"

text \<open>The area of \<open>bitmap_set\<close> and \<open>bitmap_clear\<close> after the cut to 32 bits, and its words.\<close>

definition bits_of_call :: "u64 \<Rightarrow> u64 \<Rightarrow> nat set" where
  "bits_of_call bitno sz =
     area (unat (ucast bitno :: u32)) (unat (ucast (drop_bit PAGE_SHIFT sz) :: u32))"

definition words_of :: "nat \<Rightarrow> nat \<Rightarrow> nat list" where
  "words_of start n = (if n = 0 then [] else [start div 64 ..< (start + n - 1) div 64 + 1])"

text \<open>Beginning an update; a bit outside the array is memory corruption.\<close>

definition begin_update :: "bool \<Rightarrow> u64 \<Rightarrow> int \<Rightarrow> u64 \<Rightarrow> alloc_pc option" where
  "begin_update setting sz sel bitno =
     (let start = unat (ucast bitno :: u32); n = unat (ucast (drop_bit PAGE_SHIFT sz) :: u32) in
      if n = 0 \<or> start + n \<le> KGSL_PT_MEM_PAGES
      then Some (Updating setting sz sel bitno (words_of start n) None) else None)"

definition clear_bit_no :: "u64 \<Rightarrow> int \<Rightarrow> u64" where
  "clear_bit_no iova sel =
     drop_bit PAGE_SHIFT (if sel = KGSL_GLOBAL_PT then iova AND NOT KGSL_GLOBAL_PT_BASE_IOVA
                          else iova - KGSL_PER_PROCESS_PT_BASE_IOVA)"

fun alloc_step :: "(u64 \<Rightarrow> u64 \<Rightarrow> u32 \<Rightarrow> scan) \<Rightarrow> (alloc_pc, pt_maps) thread_step" where
  "alloc_step find_area (Start sz sel) s =
     (if sel \<noteq> KGSL_GLOBAL_PT \<and> sel \<noteq> KGSL_PER_PROCESS_PT then Some (Returned sz sel (- EINVAL), s)
      else if sz = 0 \<or> drop_bit PAGE_SHIFT sz = 0 then Some (Returned sz sel (- EINVAL), s)
      else Some (Searching True sz sel (find_area (of_nat KGSL_PT_MEM_PAGES) (pt_last sel s)
                   (ucast (drop_bit PAGE_SHIFT sz))), s))"
| "alloc_step find_area (Searching first sz sel (Read w k)) s =
     Some (Searching first sz sel (k (pt_map sel s \<inter> word_bits w)), s)"
| "alloc_step find_area (Searching first sz sel (Done bitno)) s =
     (if first then
        (if bitno + drop_bit PAGE_SHIFT sz \<ge> of_nat KGSL_PT_MEM_PAGES
         then Some (Searching False sz sel (find_area (of_nat KGSL_PT_MEM_PAGES) 0
                      (ucast (drop_bit PAGE_SHIFT sz))), s)
         else Some (Found sz sel bitno, s))
      else if bitno \<ge> of_nat KGSL_PT_MEM_PAGES then Some (Returned sz sel (- ENOSPC), s)
      else Some (Found sz sel bitno, s))"
| "alloc_step find_area (Found sz sel bitno) s =
     map_option (\<lambda>p. (p, s)) (begin_update True sz sel bitno)"
| "alloc_step find_area (Updating setting sz sel bitno [] v) s =
     Some (if setting then Marked sz sel bitno else Cleared sz sel, s)"
| "alloc_step find_area (Updating setting sz sel bitno (w # ws) None) s =
     Some (Updating setting sz sel bitno (w # ws) (Some (pt_map sel s \<inter> word_bits w)), s)"
| "alloc_step find_area (Updating setting sz sel bitno (w # ws) (Some v)) s =
     (let bits = bits_of_call bitno sz \<inter> word_bits w;
          v = (if setting then v \<union> bits else v - bits) in
      Some (Updating setting sz sel bitno ws None,
            set_pt_map sel ((pt_map sel s - word_bits w) \<union> v) s))"
| "alloc_step find_area (Marked sz sel bitno) s =
     Some (Returned sz sel (sint (push_bit PAGE_SHIFT bitno)),
           set_pt_last sel ((bitno + drop_bit PAGE_SHIFT sz) mod of_nat KGSL_PT_MEM_PAGES) s)"
| "alloc_step find_area (Returned sz sel r) s = Some (Returned sz sel r, s)"
| "alloc_step find_area (Clear b sz sel) s =
     (if sel = KGSL_GLOBAL_PT \<or> sel = KGSL_PER_PROCESS_PT
      then map_option (\<lambda>p. (p, s))
             (begin_update False sz sel (clear_bit_no (map_iova (of_nat (b * 4096)) sel) sel))
      else Some (Cleared sz sel, s))"
| "alloc_step find_area (Cleared sz sel) s = Some (Cleared sz sel, s)"

section \<open>A call that is not interrupted\<close>

lemma pt_map_set [simp]: "pt_map sel (set_pt_map sel m s) = m"
  by (simp add: pt_map_def set_pt_map_def)

lemma pt_map_set_last [simp]: "pt_map sel' (set_pt_last sel l s) = pt_map sel' s"
  by (simp add: pt_map_def set_pt_last_def)

lemma set_pt_map_id [simp]: "set_pt_map sel (pt_map sel s) s = s"
  by (simp add: pt_map_def set_pt_map_def)

lemma set_pt_map_twice [simp]: "set_pt_map sel m (set_pt_map sel m' s) = set_pt_map sel m s"
  by (simp add: set_pt_map_def)

text \<open>One thread alone reaches a later point.\<close>

definition reaches :: "('p, 's) thread_step \<Rightarrow> 'p \<times> 's \<Rightarrow> 'p \<times> 's \<Rightarrow> bool" where
  "reaches step a b \<longleftrightarrow>
     (\<exists>n. run_sched step (replicate n 0) ([fst a], snd a) = Some ([fst b], snd b))"

lemma reaches_refl: "reaches step a a"
  unfolding reaches_def by (rule exI [of _ 0]) simp

lemma reaches_step:
  assumes "step (fst a) (snd a) = Some b" "reaches step b c"
  shows "reaches step a c"
proof -
  from assms(2) obtain n where "run_sched step (replicate n 0) ([fst b], snd b) = Some ([fst c], snd c)"
    by (auto simp: reaches_def)
  with assms(1) show ?thesis unfolding reaches_def by (intro exI [of _ "Suc n"]) (cases b; simp)
qed

lemma reaches_one: "step (fst a) (snd a) = Some b \<Longrightarrow> reaches step a b"
  by (rule reaches_step [OF _ reaches_refl])

lemma reaches_trans:
  assumes "reaches step a b" "reaches step b c"
  shows "reaches step a c"
proof -
  from assms obtain n k where "run_sched step (replicate n 0) ([fst a], snd a) = Some ([fst b], snd b)"
    "run_sched step (replicate k 0) ([fst b], snd b) = Some ([fst c], snd c)" by (auto simp: reaches_def)
  then have "run_sched step (replicate (n + k) 0) ([fst a], snd a) = Some ([fst c], snd c)"
    by (simp add: replicate_add run_sched_append)
  then show ?thesis unfolding reaches_def by blast
qed

lemma search_alone:
  "reaches (alloc_step find_area) (Searching first sz sel sc, s)
     (Searching first sz sel (Done (undisturbed (pt_map sel s) sc)), s)"
proof (induction sc)
  case (Read w k)
  show ?case
    by (rule reaches_step [where b = "(Searching first sz sel (k (pt_map sel s \<inter> word_bits w)), s)"])
      (simp_all add: Read)
qed (simp add: reaches_refl)

lemma words_of_cover:
  assumes "b \<in> area start n"
  shows "\<exists>w \<in> set (words_of start n). b \<in> word_bits w"
proof -
  have "b \<in> word_bits (b div 64)" by (auto simp: word_bits_def)
  moreover from assms have n: "0 < n" "start \<le> b" "b \<le> start + n - 1" by (auto simp: area_def)
  then have "start div 64 \<le> b div 64" "b div 64 \<le> (start + n - 1) div 64" by (auto intro: div_le_mono)
  with n have "b div 64 \<in> set (words_of start n)" by (auto simp: words_of_def)
  ultimately show ?thesis by blast
qed

lemma update_alone:
  "reaches (alloc_step find_area) (Updating setting sz sel bitno ws None, s)
     (Updating setting sz sel bitno [] None,
      set_pt_map sel (let bits = bits_of_call bitno sz \<inter> (\<Union>w \<in> set ws. word_bits w) in
        if setting then pt_map sel s \<union> bits else pt_map sel s - bits) s)"
proof (induction ws arbitrary: s)
  case (Cons w ws)
  let ?b = "bits_of_call bitno sz" and ?m = "pt_map sel s"
  let ?s = "set_pt_map sel (if setting then ?m \<union> ?b \<inter> word_bits w else ?m - ?b \<inter> word_bits w) s"
  have "?m - word_bits w \<union> (?m \<inter> word_bits w \<union> ?b \<inter> word_bits w) = ?m \<union> ?b \<inter> word_bits w"
    "?m - word_bits w \<union> (?m \<inter> word_bits w - ?b \<inter> word_bits w) = ?m - ?b \<inter> word_bits w" by blast+
  then have "alloc_step find_area (Updating setting sz sel bitno (w # ws) (Some (?m \<inter> word_bits w))) s
      = Some (Updating setting sz sel bitno ws None, ?s)" by simp
  moreover have "set_pt_map sel (let bits = ?b \<inter> (\<Union>w \<in> set ws. word_bits w) in
        if setting then pt_map sel ?s \<union> bits else pt_map sel ?s - bits) ?s
    = set_pt_map sel (let bits = ?b \<inter> (\<Union>w \<in> set (w # ws). word_bits w) in
        if setting then ?m \<union> bits else ?m - bits) s"
    by (simp add: Let_def) (intro conjI impI arg_cong [where f = "\<lambda>m. set_pt_map sel m s"]; blast)
  moreover have "alloc_step find_area (Updating setting sz sel bitno (w # ws) None) s
      = Some (Updating setting sz sel bitno (w # ws) (Some (?m \<inter> word_bits w)), s)" by simp
  ultimately show ?case
    using Cons.IH [of ?s]
    by (metis (no_types, lifting) fst_conv snd_conv reaches_step)
qed (simp add: reaches_refl)

lemma whole_update_alone:
  assumes "begin_update setting sz sel bitno = Some p"
  shows "reaches (alloc_step find_area) (p, s) (if setting then Marked sz sel bitno else Cleared sz sel,
      set_pt_map sel (if setting then pt_map sel s \<union> bits_of_call bitno sz
                      else pt_map sel s - bits_of_call bitno sz) s)"
proof -
  let ?ws = "words_of (unat (ucast bitno :: u32)) (unat (ucast (drop_bit PAGE_SHIFT sz) :: u32))"
  have "bits_of_call bitno sz \<inter> (\<Union>w \<in> set ?ws. word_bits w) = bits_of_call bitno sz"
    using words_of_cover unfolding bits_of_call_def by blast
  moreover have "p = Updating setting sz sel bitno ?ws None"
    using assms by (auto simp: begin_update_def Let_def split: if_splits)
  moreover have "reaches (alloc_step find_area) (Updating setting sz sel bitno [] None, t)
      (if setting then Marked sz sel bitno else Cleared sz sel, t)" for t
    by (rule reaches_step [OF _ reaches_refl]) simp
  ultimately show ?thesis using reaches_trans [OF update_alone] by (metis (no_types, lifting))
qed

lemma bitmap_set_words:
  "bitmap_set m (ucast bitno) (ucast (drop_bit PAGE_SHIFT sz)) =
     map_option (\<lambda>_. m \<union> bits_of_call bitno sz) (begin_update True sz sel bitno)"
  "bitmap_clear m (ucast bitno) (ucast (drop_bit PAGE_SHIFT sz)) =
     map_option (\<lambda>_. m - bits_of_call bitno sz) (begin_update False sz sel bitno)"
  by (auto simp: bitmap_set_def bitmap_clear_def begin_update_def bits_of_call_def area_def Let_def)

definition search_of :: "(u64 \<Rightarrow> u64 \<Rightarrow> u32 \<Rightarrow> scan) \<Rightarrow> zero_area" where
  "search_of find_area m sz st nr = undisturbed m (find_area sz st nr)"

lemma take_alone:
  "case take_area (pt_map sel s) bitno sz of
     None \<Rightarrow> alloc_step find_area (Found sz sel bitno) s = None
   | Some (r, m, lst) \<Rightarrow> reaches (alloc_step find_area) (Found sz sel bitno, s)
       (Returned sz sel r, set_pt_last sel lst (set_pt_map sel m s))"
proof (cases "begin_update True sz sel bitno")
  case (Some p)
  let ?s = "set_pt_map sel (pt_map sel s \<union> bits_of_call bitno sz) s"
  have marked: "reaches (alloc_step find_area) (Marked sz sel bitno, ?s)
      (Returned sz sel (sint (push_bit 12 bitno)),
       set_pt_last sel ((bitno + drop_bit 12 sz) mod of_nat KGSL_PT_MEM_PAGES) ?s)"
    by (rule reaches_one) simp
  have "reaches (alloc_step find_area) (p, s) (Marked sz sel bitno, ?s)"
    using whole_update_alone [OF Some, of find_area s] by simp
  from reaches_trans [OF this marked]
  have "reaches (alloc_step find_area) (p, s) (Returned sz sel (sint (push_bit 12 bitno)),
       set_pt_last sel ((bitno + drop_bit 12 sz) mod of_nat KGSL_PT_MEM_PAGES) ?s)" .
  moreover have "take_area (pt_map sel s) bitno sz = Some (sint (push_bit 12 bitno),
      pt_map sel s \<union> bits_of_call bitno sz, (bitno + drop_bit 12 sz) mod of_nat KGSL_PT_MEM_PAGES)"
    by (simp add: take_area_def bitmap_set_words(1) [where sel = sel] Some)
  moreover have "alloc_step find_area (Found sz sel bitno) s = Some (p, s)" using Some by simp
  ultimately show ?thesis
    using reaches_step [of "alloc_step find_area" "(Found sz sel bitno, s)" "(p, s)"] by simp
qed (simp add: take_area_def bitmap_set_words(1) [where sel = sel])

text \<open>\<open>crashes_alone\<close>: the thread comes to a step that crashes.\<close>

definition crashes_alone :: "('p, 's) thread_step \<Rightarrow> 'p \<times> 's \<Rightarrow> bool" where
  "crashes_alone step a \<longleftrightarrow> (\<exists>p s. reaches step a (p, s) \<and> step p s = None)"

text \<open>Each call is the function of the sequential model: a thread that is not interrupted ends with
  the result, the bitmaps and the hints of \<open>get_map_offset\<close>, or crashes when it does; and
  a release ends with the bitmaps of \<open>clear_map_iova\<close>.\<close>

theorem undisturbed_call:
  "case get_map_offset (search_of find_area) sz sel s of
     None \<Rightarrow> crashes_alone (alloc_step find_area) (Start sz sel, s)
   | Some (r, s') \<Rightarrow> reaches (alloc_step find_area) (Start sz sel, s) (Returned sz sel r, s')"
proof (cases "sel = KGSL_GLOBAL_PT \<or> sel = KGSL_PER_PROCESS_PT")
  case sel: True
  let ?nr = "ucast (drop_bit 12 sz) :: u32" and ?pages = "of_nat KGSL_PT_MEM_PAGES :: u64"
  let ?m = "pt_map sel s" and ?step = "alloc_step find_area"
  have gm: "get_map_offset (search_of find_area) sz sel s =
      map_option (\<lambda>(r, m, lst). (r, set_pt_last sel lst (set_pt_map sel m s)))
        (find_and_take (search_of find_area) ?m (pt_last sel s) sz)"
    using sel by (auto simp: get_map_offset_def pt_map_def pt_last_def set_pt_map_def set_pt_last_def
        split: option.splits)
  have id: "set_pt_last sel (pt_last sel s) (set_pt_map sel (pt_map sel s) s) = s"
    by (simp add: pt_map_def pt_last_def set_pt_map_def set_pt_last_def)
  show ?thesis
  proof (cases "sz = 0 \<or> drop_bit 12 sz = 0")
    case True
    with sel have "?step (Start sz sel) s = Some (Returned sz sel (- EINVAL), s)" by auto
    then have "reaches ?step (Start sz sel, s) (Returned sz sel (- EINVAL), s)"
      by (intro reaches_one) (simp only: fst_conv snd_conv)
    moreover from True have "get_map_offset (search_of find_area) sz sel s = Some (- EINVAL, s)"
      using id by (simp add: gm find_and_take_def)
    ultimately show ?thesis by simp
  next
    case False
    let ?b1 = "search_of find_area ?m ?pages (pt_last sel s) ?nr"
    let ?b2 = "search_of find_area ?m ?pages 0 ?nr"
    have "?step (Start sz sel) s = Some (Searching True sz sel (find_area ?pages (pt_last sel s) ?nr), s)"
      using sel False by auto
    then have first: "reaches ?step (Start sz sel, s) (Searching True sz sel (Done ?b1), s)"
      using reaches_step [OF _ search_alone [of find_area True sz sel "find_area ?pages (pt_last sel s) ?nr" s],
          of "(Start sz sel, s)"]
      by (simp only: fst_conv snd_conv search_of_def)
    have found: "case take_area ?m b sz of
         None \<Rightarrow> crashes_alone ?step (Start sz sel, s)
       | Some (r, m, lst) \<Rightarrow> reaches ?step (Start sz sel, s)
           (Returned sz sel r, set_pt_last sel lst (set_pt_map sel m s))"
      if "reaches ?step (Start sz sel, s) (Found sz sel b, s)" for b
    proof (cases "take_area ?m b sz")
      case None
      with take_alone [where sel = sel and s = s and bitno = b and sz = sz and find_area = find_area]
      have "?step (Found sz sel b) s = None" by (simp only: option.case)
      with that None show ?thesis unfolding crashes_alone_def by (auto simp del: alloc_step.simps)
    next
      case (Some x)
      with take_alone [where sel = sel and s = s and bitno = b and sz = sz and find_area = find_area]
        reaches_trans [OF that] show ?thesis by (cases x) (simp del: alloc_step.simps)
    qed
    show ?thesis
    proof (cases "?pages \<le> ?b1 + drop_bit 12 sz")
      case hit: False
      have "reaches ?step (Start sz sel, s) (Found sz sel ?b1, s)"
        by (rule reaches_trans [OF first], rule reaches_one) (simp add: hit)
      from found [OF this] hit False show ?thesis
        by (auto simp: gm find_and_take_def Let_def split: option.splits)
    next
      case again: True
      have second: "reaches ?step (Start sz sel, s) (Searching False sz sel (Done ?b2), s)"
      proof (rule reaches_trans [OF first], rule reaches_step)
        show "?step (fst (Searching True sz sel (Done ?b1), s)) (snd (Searching True sz sel (Done ?b1), s))
            = Some (Searching False sz sel (find_area ?pages 0 ?nr), s)" using again by simp
        show "reaches ?step (Searching False sz sel (find_area ?pages 0 ?nr), s)
            (Searching False sz sel (Done ?b2), s)"
          using search_alone [of find_area False sz sel "find_area ?pages 0 ?nr" s] by (simp add: search_of_def)
      qed
      show ?thesis
      proof (cases "?pages \<le> ?b2")
        case True
        have "reaches ?step (Start sz sel, s) (Returned sz sel (- ENOSPC), s)"
          by (rule reaches_trans [OF second], rule reaches_one) (simp add: True)
        with again False True id show ?thesis by (simp add: gm find_and_take_def Let_def)
      next
        case hit: False
        have "reaches ?step (Start sz sel, s) (Found sz sel ?b2, s)"
          by (rule reaches_trans [OF second], rule reaches_one) (simp add: hit)
        from found [OF this] hit again False show ?thesis
          by (auto simp: gm find_and_take_def Let_def split: option.splits)
      qed
    qed
  qed
next
  case False
  then have "alloc_step find_area (Start sz sel) s = Some (Returned sz sel (- EINVAL), s)" by simp
  then have "reaches (alloc_step find_area) (Start sz sel, s) (Returned sz sel (- EINVAL), s)"
    by (intro reaches_one) (simp only: fst_conv snd_conv)
  with False show ?thesis by (simp add: get_map_offset_def)
qed

theorem undisturbed_release:
  assumes "clear_map_iova (map_iova (of_nat (b * 4096)) sel) sz sel s = Some s'"
  shows "reaches (alloc_step find_area) (Clear b sz sel, s) (Cleared sz sel, s')"
proof (cases "sel = KGSL_GLOBAL_PT \<or> sel = KGSL_PER_PROCESS_PT")
  case True
  let ?bit = "clear_bit_no (map_iova (of_nat (b * 4096)) sel) sel"
  obtain p where p: "begin_update False sz sel ?bit = Some p"
    and s': "s' = set_pt_map sel (pt_map sel s - bits_of_call ?bit sz) s"
    using True assms
    by (auto simp: clear_map_iova_def clear_bit_no_def bitmap_set_words(2) [where sel = sel]
        set_pt_map_def pt_map_def Let_def simp del: of_nat_mult split: option.splits)
  have "alloc_step find_area (Clear b sz sel) s = Some (p, s)"
    using True p by (simp del: of_nat_mult)
  moreover have "reaches (alloc_step find_area) (p, s) (Cleared sz sel, s')"
    using whole_update_alone [OF p, of find_area s] s' by simp
  ultimately show ?thesis
    by (intro reaches_step [where b = "(p, s)" and a = "(Clear b sz sel, s)"]) (simp_all only: fst_conv snd_conv)
next
  case False
  with assms have "s' = s" by (simp add: clear_map_iova_def)
  moreover from False have "alloc_step find_area (Clear b sz sel) s = Some (Cleared sz sel, s)" by simp
  ultimately show ?thesis by (intro reaches_one) (simp only: fst_conv snd_conv)
qed

section \<open>Any interleaving\<close>

definition valid_sel :: "int \<Rightarrow> bool" where
  "valid_sel sel \<longleftrightarrow> sel = KGSL_GLOBAL_PT \<or> sel = KGSL_PER_PROCESS_PT"

definition in_table :: "nat \<Rightarrow> u64 \<Rightarrow> bool" where
  "in_table b sz \<longleftrightarrow> 0 < page_count sz \<and> b + page_count sz \<le> KGSL_PT_MEM_PAGES"

text \<open>A search in progress: it is what is left of a search after a log of reads. It has seen the bits
  of \<open>A\<close> set when every word of the log had them.\<close>

definition searched ::
  "(u64 \<Rightarrow> u64 \<Rightarrow> u32 \<Rightarrow> scan) \<Rightarrow> u64 \<Rightarrow> scan \<Rightarrow> (nat \<times> nat set) list \<Rightarrow> bool" where
  "searched find_area sz sc log \<longleftrightarrow>
     (\<exists>st. after_reads (find_area (of_nat KGSL_PT_MEM_PAGES) st (ucast (drop_bit PAGE_SHIFT sz))) log = Some sc)"

definition saw :: "nat set \<Rightarrow> (nat \<times> nat set) list \<Rightarrow> bool" where
  "saw A log \<longleftrightarrow> (\<forall>(w, v) \<in> set log. A \<inter> word_bits w \<subseteq> v)"

text \<open>What holds of every call while the pages \<open>A\<close> of table \<open>sel\<close> stay in use: its search has an
  origin, the area it updates lies in the table, a release does not cover a page of \<open>A\<close>, and a
  word that is loaded has the bits of \<open>A\<close>.\<close>

fun loaded_ok :: "nat set \<Rightarrow> nat list \<Rightarrow> nat set option \<Rightarrow> bool" where
  "loaded_ok A (w # ws) (Some x) = (A \<inter> word_bits w \<subseteq> x)"
| "loaded_ok A _ _ = True"

fun thread_ok :: "(u64 \<Rightarrow> u64 \<Rightarrow> u32 \<Rightarrow> scan) \<Rightarrow> int \<Rightarrow> nat set \<Rightarrow> alloc_pc \<Rightarrow> bool" where
  "thread_ok f sel A (Start sz sel') = (page_count sz < 4294967296)"
| "thread_ok f sel A (Searching first sz sel' sc) =
     (valid_sel sel' \<and> 0 < page_count sz \<and> page_count sz < 4294967296 \<and> (\<exists>log. searched f sz sc log))"
| "thread_ok f sel A (Found sz sel' b) = (valid_sel sel' \<and> in_table (unat b) sz)"
| "thread_ok f sel A (Updating setting sz sel' b ws v) =
     (valid_sel sel' \<and> in_table (unat b) sz
      \<and> (sel' = sel \<longrightarrow> (setting \<or> area (unat b) (page_count sz) \<inter> A = {}) \<and> loaded_ok A ws v))"
| "thread_ok f sel A (Marked sz sel' b) = (valid_sel sel' \<and> in_table (unat b) sz)"
| "thread_ok f sel A (Returned sz sel' r) =
     (r < 0 \<or> valid_sel sel' \<and> r mod 4096 = 0 \<and> in_table (nat r div 4096) sz)"
| "thread_ok f sel A (Clear b sz sel') =
     (valid_sel sel' \<and> in_table b sz \<and> (sel' = sel \<longrightarrow> area b (page_count sz) \<inter> A = {}))"
| "thread_ok f sel A (Cleared sz sel') = True"

text \<open>A request that keeps off the pages \<open>A\<close>: the words it has read had them, and the area it chose
  meets none of them.\<close>

fun avoids :: "(u64 \<Rightarrow> u64 \<Rightarrow> u32 \<Rightarrow> scan) \<Rightarrow> int \<Rightarrow> nat set \<Rightarrow> alloc_pc \<Rightarrow> bool" where
  "avoids f sel A (Searching first sz sel' sc) = (sel' = sel \<longrightarrow> (\<exists>log. searched f sz sc log \<and> saw A log))"
| "avoids f sel A (Found sz sel' b) = (sel' = sel \<longrightarrow> area (unat b) (page_count sz) \<inter> A = {})"
| "avoids f sel A (Updating setting sz sel' b ws v) =
     (setting \<longrightarrow> sel' = sel \<longrightarrow> area (unat b) (page_count sz) \<inter> A = {})"
| "avoids f sel A (Marked sz sel' b) = (sel' = sel \<longrightarrow> area (unat b) (page_count sz) \<inter> A = {})"
| "avoids f sel A (Returned sz sel' r) =
     (sel' = sel \<longrightarrow> 0 \<le> r \<longrightarrow> area (nat r div 4096) (page_count sz) \<inter> A = {})"
| "avoids f sel A _ = True"

definition keeps_off ::
  "(u64 \<Rightarrow> u64 \<Rightarrow> u32 \<Rightarrow> scan) \<Rightarrow> int \<Rightarrow> nat set \<Rightarrow> nat \<Rightarrow> alloc_pc list \<Rightarrow> pt_maps \<Rightarrow> bool" where
  "keeps_off f sel A j ps s \<longleftrightarrow>
     valid_sel sel \<and> (\<forall>p \<in> set ps. thread_ok f sel A p) \<and> A \<subseteq> pt_map sel s
     \<and> j < length ps \<and> avoids f sel A (ps ! j)"

text \<open>A call ends within a number of its own steps: what is left of its searches, a load and a store
  for each word, and the steps between.\<close>

definition update_steps :: "u64 \<Rightarrow> nat" where
  "update_steps sz = 2 * (page_count sz div 64 + 2) + 2"

definition call_steps :: "nat \<Rightarrow> u64 \<Rightarrow> nat" where
  "call_steps reads sz = 2 * reads + update_steps sz + 4"

fun ends_within :: "(u64 \<Rightarrow> u64 \<Rightarrow> u32 \<Rightarrow> scan) \<Rightarrow> nat \<Rightarrow> nat \<Rightarrow> alloc_pc \<Rightarrow> bool" where
  "ends_within f reads n (Start sz sel) = (page_count sz < 4294967296 \<and> call_steps reads sz \<le> n)"
| "ends_within f reads n (Searching first sz sel sc) =
     (page_count sz < 4294967296 \<and> (\<exists>log. searched f sz sc log \<and> length log \<le> reads
        \<and> (reads - length log) + 1 + (if first then reads + 1 else 0) + update_steps sz + 1 \<le> n))"
| "ends_within f reads n (Found sz sel b) = (page_count sz < 4294967296 \<and> update_steps sz + 1 \<le> n)"
| "ends_within f reads n (Updating setting sz sel b ws v) =
     (2 * length ws + 2 - (if ws = [] \<or> v = None then 0 else 1) \<le> n)"
| "ends_within f reads n (Marked sz sel b) = (1 \<le> n)"
| "ends_within f reads n (Returned sz sel r) = True"
| "ends_within f reads n (Clear b sz sel) = False"
| "ends_within f reads n (Cleared sz sel) = True"


lemma bits_in_table:
  assumes "in_table (unat b) sz"
  shows "unat (ucast (drop_bit 12 sz) :: u32) = page_count sz" "unat (ucast b :: u32) = unat b"
    and "bits_of_call b sz = area (unat b) (page_count sz)"
proof -
  have "page_count sz < 4294967296" using assms by (simp add: in_table_def KGSL_PT_MEM_PAGES_def)
  then show n: "unat (ucast (drop_bit 12 sz) :: u32) = page_count sz" by (rule unat_pages_u32)
  show b: "unat (ucast b :: u32) = unat b"
    using assms by (simp add: in_table_def KGSL_PT_MEM_PAGES_def unsigned_ucast_eq take_bit_eq_mod)
  show "bits_of_call b sz = area (unat b) (page_count sz)" by (simp add: bits_of_call_def n b)
qed

lemma update_in_table:
  assumes "in_table (unat b) sz"
  shows "begin_update setting sz sel b = Some (Updating setting sz sel b (words_of (unat b) (page_count sz)) None)"
  using assms by (simp add: begin_update_def bits_in_table [OF assms] in_table_def)

lemma clear_bit:
  assumes "in_table b sz" "valid_sel sel"
  shows "unat (clear_bit_no (map_iova (of_nat (b * 4096)) sel) sel) = b"
proof -
  let ?a = "of_nat (b * 4096) :: u64"
  have a: "unat ?a = b * 4096"
    using assms(1) by (intro unat_page_address) (simp add: in_table_def KGSL_PT_MEM_PAGES_def)
  have g: "(KGSL_GLOBAL_PT_BASE_IOVA + ?a) AND NOT KGSL_GLOBAL_PT_BASE_IOVA = ?a"
    using assms(1) a by (intro global_offset) (simp add: in_table_def KGSL_PT_MEM_PAGES_def)
  have "unat (drop_bit 12 ?a) = b" unfolding unat_pages page_count_def a by simp
  with g assms(2) show ?thesis
    by (auto simp: clear_bit_no_def map_iova_def valid_sel_def simp del: of_nat_mult)
qed

lemma returned_in_table:
  assumes "in_table (unat (b :: u64)) sz"
  shows "sint (push_bit 12 b) = int (unat b * 4096)"
  using assms by (intro sint_page_address) (simp add: in_table_def KGSL_PT_MEM_PAGES_def)

lemma pt_map_other: "valid_sel sel \<Longrightarrow> valid_sel sel' \<Longrightarrow> sel \<noteq> sel' \<Longrightarrow>
    pt_map sel' (set_pt_map sel m s) = pt_map sel' s"
  by (auto simp: pt_map_def set_pt_map_def valid_sel_def)

lemma words_of_length: "length (words_of start n) \<le> n div 64 + 2"
proof (cases n)
  case (Suc k)
  have "(start mod 64 + k mod 64) div 64 \<le> 1" by (simp add: less_mult_imp_div_less Suc_leI flip: less_Suc_eq_le)
  with div_add1_eq [of start k 64] have "(start + k) div 64 \<le> start div 64 + k div 64 + 1" by linarith
  moreover have "k div 64 \<le> Suc k div 64" by (intro div_le_mono) simp
  ultimately have "(start + k) div 64 + 1 - start div 64 \<le> Suc k div 64 + 2" by linarith
  moreover have "length (words_of start n) = (start + k) div 64 + 1 - start div 64"
    using div_le_mono [of start "start + k" 64] by (simp add: words_of_def Suc Suc_diff_le)
  ultimately show ?thesis by (simp only: Suc)
qed (simp add: words_of_def)

lemma loaded_none [simp]: "loaded_ok A ws None"
  by (cases ws) simp_all

lemma searched_start: "searched f sz (f (of_nat KGSL_PT_MEM_PAGES) st (ucast (drop_bit 12 sz))) []"
  by (auto simp: searched_def)

lemma after_reads_snoc:
  "after_reads sc log = Some (Read w k) \<Longrightarrow> after_reads sc (log @ [(w, v)]) = Some (k v)"
  by (induction sc log rule: after_reads.induct) (auto split: if_splits)

lemma searched_read:
  assumes "searched f sz (Read w k) log"
  shows "searched f sz (k v) (log @ [(w, v)])"
  using assms after_reads_snoc unfolding searched_def by blast

lemma saw_read: "saw A log \<Longrightarrow> A \<inter> word_bits w \<subseteq> v \<Longrightarrow> saw A (log @ [(w, v)])"
  by (auto simp: saw_def)

lemma saw_empty [simp]: "saw {} log" "saw A []"
  by (auto simp: saw_def)

context word_search
begin

lemma search_done:
  assumes "searched find_area sz (Done r) log" "0 < page_count sz" "page_count sz < 4294967296"
  shows "unat (r + drop_bit 12 sz) = unat r + page_count sz"
    and "unat r < KGSL_PT_MEM_PAGES \<Longrightarrow> in_table (unat r) sz"
    and "unat r < KGSL_PT_MEM_PAGES \<Longrightarrow> saw A log \<Longrightarrow> area (unat r) (page_count sz) \<inter> A = {}"
proof -
  let ?nr = "ucast (drop_bit 12 sz) :: u32"
  have nr: "unat ?nr = page_count sz" using assms(3) by (rule unat_pages_u32)
  with assms(2) have pos: "0 < ?nr" by (simp add: word_less_unat)
  from assms(1) obtain st where log: "after_reads (find_area (of_nat KGSL_PT_MEM_PAGES) st ?nr) log = Some (Done r)"
    by (auto simp: searched_def)
  from beyond [OF log pos] nr assms(3) show "unat (r + drop_bit 12 sz) = unat r + page_count sz"
    by (simp add: unat_add_u64 unat_pages KGSL_PT_MEM_PAGES_def)
  assume lt: "unat r < KGSL_PT_MEM_PAGES"
  note seen = seen_clear [OF log pos lt, unfolded nr]
  from seen assms(2) show "in_table (unat r) sz" by (simp add: in_table_def)
  assume saw: "saw A log"
  show "area (unat r) (page_count sz) \<inter> A = {}"
  proof (intro equals0I)
    fix b assume b: "b \<in> area (unat r) (page_count sz) \<inter> A"
    with seen obtain w v where "(w, v) \<in> set log" "b \<in> word_bits w" "b \<notin> v" by blast
    with saw b show False by (auto simp: saw_def)
  qed
qed

text \<open>One step, from any shared state: no crash; the thread stays well-formed; the pages \<open>A\<close>
  stay marked; a thread that keeps off them goes on to.\<close>

lemma step_start:
  assumes "thread_ok find_area sel A (Start sz sel')"
  shows "\<exists>p'. alloc_step find_area (Start sz sel') s = Some (p', s) \<and> thread_ok find_area sel A p'
     \<and> avoids find_area sel A p'"
proof (cases "valid_sel sel' \<and> 0 < page_count sz")
  case True
  let ?sc = "find_area (of_nat KGSL_PT_MEM_PAGES) (pt_last sel' s) (ucast (drop_bit 12 sz))"
  have "alloc_step find_area (Start sz sel') s = Some (Searching True sz sel' ?sc, s)"
    using True by (auto simp: valid_sel_def unat_eq_0_u64 unat_pages page_count_def)
  moreover have "searched find_area sz ?sc []" by (rule searched_start)
  then have "thread_ok find_area sel A (Searching True sz sel' ?sc)"
    "avoids find_area sel A (Searching True sz sel' ?sc)"
    using True assms saw_empty(2) by auto
  ultimately show ?thesis by blast
next
  case False
  then have "alloc_step find_area (Start sz sel') s = Some (Returned sz sel' (- EINVAL), s)"
    by (auto simp: valid_sel_def unat_eq_0_u64 unat_pages page_count_def)
  then show ?thesis by simp
qed

lemma step_search:
  assumes "thread_ok find_area sel A (Searching first sz sel' sc)" "A \<subseteq> pt_map sel s"
  shows "\<exists>p'. alloc_step find_area (Searching first sz sel' sc) s = Some (p', s) \<and> thread_ok find_area sel A p'
     \<and> (avoids find_area sel A (Searching first sz sel' sc) \<longrightarrow> avoids find_area sel A p')"
proof (cases sc)
  case (Read w k)
  let ?v = "pt_map sel' s \<inter> word_bits w"
  let ?p = "Searching first sz sel' (k ?v)"
  have step: "alloc_step find_area (Searching first sz sel' sc) s = Some (?p, s)" using Read by simp
  have ok: "thread_ok find_area sel A ?p"
    using assms(1) Read searched_read [of find_area sz w k _ ?v] by auto
  have "avoids find_area sel A ?p" if "avoids find_area sel A (Searching first sz sel' sc)"
  proof -
    have "\<exists>log. searched find_area sz (k ?v) log \<and> saw A log" if sel: "sel' = sel"
    proof -
      from \<open>avoids find_area sel A (Searching first sz sel' sc)\<close> Read sel obtain log where
        "searched find_area sz (Read w k) log" "saw A log" by auto
      moreover have "A \<inter> word_bits w \<subseteq> ?v" using assms(2) sel by blast
      ultimately show ?thesis using searched_read saw_read by blast
    qed
    then show ?thesis by simp
  qed
  with step ok show ?thesis by blast
next
  case (Done r)
  have pages: "(of_nat KGSL_PT_MEM_PAGES :: u64) = 0xC0000" by (simp add: KGSL_PT_MEM_PAGES_def)
  from assms(1) Done obtain log where log: "searched find_area sz (Done r) log"
    and n: "0 < page_count sz" "page_count sz < 4294967296" and sel': "valid_sel sel'" by auto
  note d = search_done [OF _ n]
  have lt: "unat r < KGSL_PT_MEM_PAGES" if "(if first then r + drop_bit 12 sz else r) < of_nat KGSL_PT_MEM_PAGES"
    using that d(1) [OF log] by (auto simp: pages word_less_unat KGSL_PT_MEM_PAGES_def split: if_splits)
  have found: "thread_ok find_area sel A (Found sz sel' r)
      \<and> (avoids find_area sel A (Searching first sz sel' sc) \<longrightarrow> avoids find_area sel A (Found sz sel' r))"
    if "unat r < KGSL_PT_MEM_PAGES"
    using d(2) [OF log that] d(3) [OF _ that] sel' Done by auto
  let ?sc = "find_area (of_nat KGSL_PT_MEM_PAGES) 0 (ucast (drop_bit 12 sz))"
  have again: "thread_ok find_area sel A (Searching False sz sel' ?sc)"
    "avoids find_area sel A (Searching False sz sel' ?sc)"
    using searched_start [of find_area sz 0] n sel' saw_empty(2) by auto
  show ?thesis
  proof (cases "(if first then r + drop_bit 12 sz else r) < of_nat KGSL_PT_MEM_PAGES")
    case True
    with Done have "alloc_step find_area (Searching first sz sel' sc) s = Some (Found sz sel' r, s)"
      by (simp add: not_le split: if_splits)
    with found [OF lt [OF True]] show ?thesis by blast
  next
    case False
    with Done have "alloc_step find_area (Searching first sz sel' sc) s =
        Some (if first then Searching False sz sel' ?sc else Returned sz sel' (- ENOSPC), s)"
      by (simp add: not_le split: if_splits)
    with again show ?thesis by (cases first) auto
  qed
qed

lemma step_update:
  assumes "thread_ok find_area sel A (Updating setting sz sel' b ws v)" "A \<subseteq> pt_map sel s" "valid_sel sel"
  shows "\<exists>p' s'. alloc_step find_area (Updating setting sz sel' b ws v) s = Some (p', s')
     \<and> thread_ok find_area sel A p' \<and> A \<subseteq> pt_map sel s'
     \<and> (avoids find_area sel A (Updating setting sz sel' b ws v) \<longrightarrow> avoids find_area sel A p')"
proof (cases ws)
  case (Cons w ws')
  note ok = assms(1) [unfolded Cons]
  then have t: "in_table (unat b) sz" and sel': "valid_sel sel'" by simp_all
  show ?thesis
  proof (cases v)
    case (Some x)
    let ?bits = "bits_of_call b sz \<inter> word_bits w"
    let ?s' = "set_pt_map sel' (pt_map sel' s - word_bits w \<union> (if setting then x \<union> ?bits else x - ?bits)) s"
    have "A \<subseteq> pt_map sel ?s'"
    proof (cases "sel' = sel")
      case True
      with ok Some have "A \<inter> word_bits w \<subseteq> x" "setting \<or> bits_of_call b sz \<inter> A = {}"
        by (auto simp: bits_in_table [OF t])
      with True assms(2) show ?thesis by auto
    qed (use assms(2,3) sel' pt_map_other in simp)
    with ok Cons Some show ?thesis by (auto simp: Let_def)
  qed (use ok assms(2) Cons in auto)
qed (use assms in auto)

lemma alloc_step_ok:
  assumes "thread_ok find_area sel A p" "A \<subseteq> pt_map sel s" "valid_sel sel"
  shows "\<exists>p' s'. alloc_step find_area p s = Some (p', s') \<and> thread_ok find_area sel A p'
     \<and> A \<subseteq> pt_map sel s' \<and> (avoids find_area sel A p \<longrightarrow> avoids find_area sel A p')"
proof (cases p)
  case (Start sz sel')
  with step_start assms show ?thesis by blast
next
  case (Searching first sz sel' sc)
  with step_search assms show ?thesis by blast
next
  case (Found sz sel' b)
  with assms update_in_table [of b sz True sel'] show ?thesis by auto
next
  case (Updating setting sz sel' b ws v)
  with step_update assms show ?thesis by blast
next
  case (Marked sz sel' b)
  moreover from this assms have "sint (push_bit 12 b) = int (unat b * 4096)"
    by (intro returned_in_table [of b sz]) simp
  moreover have "nat (int (unat b * 4096)) div 4096 = unat b" by (simp only: nat_int)
  moreover have "int (unat b * 4096) mod 4096 = 0" by simp
  ultimately show ?thesis using assms by (auto simp del: of_nat_mult)
next
  case (Clear b sz sel')
  let ?bit = "clear_bit_no (map_iova (of_nat (b * 4096)) sel') sel'"
  from Clear assms have "unat ?bit = b" by (intro clear_bit [of b sz]) simp_all
  with Clear assms update_in_table [of ?bit sz False sel'] show ?thesis
    by (auto simp: valid_sel_def simp del: of_nat_mult)
qed (use assms in auto)

text \<open>The step bounds.\<close>

lemma ends_step:
  assumes "alloc_step find_area p s = Some (p', s')" "ends_within find_area reads n p"
  shows "ends_within find_area reads (n - 1) p'"
proof (cases p)
  case (Start sz sel)
  with assms searched_start [of find_area sz "pt_last sel s"] show ?thesis
    by (auto simp: call_steps_def split: if_splits intro!: exI [of _ "[]"])
next
  case (Searching first sz sel sc)
  from assms(2) Searching obtain log where log: "searched find_area sz sc log" "length log \<le> reads"
    and n: "(reads - length log) + 1 + (if first then reads + 1 else 0) + update_steps sz + 1 \<le> n"
    and sz: "page_count sz < 4294967296" by auto
  show ?thesis
  proof (cases sc)
    case (Read w k)
    let ?v = "pt_map sel s \<inter> word_bits w"
    from searched_read [of find_area sz w k log ?v] log(1) Read
    have l: "searched find_area sz (k ?v) (log @ [(w, ?v)])" by simp
    with bounded have "length (log @ [(w, ?v)]) \<le> reads" unfolding searched_def by blast
    with l n sz assms(1) Searching Read show ?thesis
      by (auto intro!: exI [of _ "log @ [(w, ?v)]"])
  next
    case (Done r)
    with assms(1) n sz Searching searched_start [of find_area sz 0] show ?thesis
      by (auto split: if_splits intro!: exI [of _ "[]"])
  qed
next
  case (Found sz sel b)
  with assms show ?thesis
    using words_of_length [of "unat (ucast b :: u32)" "unat (ucast (drop_bit 12 sz) :: u32)"]
      unat_pages_u32 [of sz]
    by (auto simp: begin_update_def Let_def update_steps_def split: if_splits)
next
  case (Updating setting sz sel b ws v)
  with assms show ?thesis by (cases ws; cases v) (auto simp: Let_def split: if_splits)
qed (use assms in \<open>auto split: if_splits\<close>)

end

sublocale word_search \<subseteq>
    calls: thread_invariant "alloc_step find_area" "keeps_off find_area sel A j" for sel A j
proof
  fix ps s i
  assume ps: "keeps_off find_area sel A j ps s" and i: "i < length ps"
  then have "thread_ok find_area sel A (ps ! i)" "A \<subseteq> pt_map sel s" "valid_sel sel"
    by (simp_all add: keeps_off_def)
  from alloc_step_ok [OF this] obtain p' s' where
    p': "alloc_step find_area (ps ! i) s = Some (p', s')" "thread_ok find_area sel A p'" "A \<subseteq> pt_map sel s'"
    "avoids find_area sel A (ps ! i) \<longrightarrow> avoids find_area sel A p'" by blast
  have "avoids find_area sel A (ps[i := p'] ! j)"
    using ps i p'(4) by (cases "i = j") (auto simp: keeps_off_def)
  then show "\<exists>p' s'. alloc_step find_area (ps ! i) s = Some (p', s') \<and> keeps_off find_area sel A j (ps[i := p']) s'"
    using ps p'(1-3) list_update_all [of ps "thread_ok find_area sel A" p' i]
    by (auto simp: keeps_off_def)
qed

text \<open>A thread stays the request it is.\<close>

fun request_of :: "alloc_pc \<Rightarrow> bool \<times> u64 \<times> int" where
  "request_of (Start sz sel) = (True, sz, sel)"
| "request_of (Searching first sz sel sc) = (True, sz, sel)"
| "request_of (Found sz sel b) = (True, sz, sel)"
| "request_of (Updating setting sz sel b ws v) = (setting, sz, sel)"
| "request_of (Marked sz sel b) = (True, sz, sel)"
| "request_of (Returned sz sel r) = (True, sz, sel)"
| "request_of (Clear b sz sel) = (False, sz, sel)"
| "request_of (Cleared sz sel) = (False, sz, sel)"

lemma request_step: "alloc_step f p s = Some (p', s') \<Longrightarrow> request_of p' = request_of p"
  by (cases "(f, p, s)" rule: alloc_step.cases) (auto simp: begin_update_def Let_def split: if_splits)

lemma request_run:
  "run_sched (alloc_step f) sch (ps, s) = Some (ps', s') \<Longrightarrow> j < length ps \<Longrightarrow>
     request_of (ps' ! j) = request_of (ps ! j)"
  by (rule label_run [where label = request_of, rotated]) (auto dest: request_step)

lemma call_done:
  "ends_within f reads 0 p \<Longrightarrow> request_of p = (True, sz, sel) \<Longrightarrow> \<exists>r. p = Returned sz sel r"
  by (cases p) (auto simp: call_steps_def split: if_splits)

context word_search
begin

lemma late_call:
  assumes "keeps_off find_area sel A j ps s" "ps ! j = Start sz sel"
  shows "\<exists>ps' s'. run_sched (alloc_step find_area) sch (ps, s) = Some (ps', s') \<and> A \<subseteq> pt_map sel s'
     \<and> (call_steps reads sz \<le> count_list sch j \<longrightarrow> (\<exists>r. ps' ! j = Returned sz sel r
          \<and> (0 \<le> r \<longrightarrow> r mod 4096 = 0 \<and> in_table (nat r div 4096) sz
                     \<and> area (nat r div 4096) (page_count sz) \<inter> A = {})))"
proof -
  from calls.run_kept [OF assms(1), of sch] obtain ps' s' where
    run: "run_sched (alloc_step find_area) sch (ps, s) = Some (ps', s')"
    and inv: "keeps_off find_area sel A j ps' s'" by blast
  have j: "j < length ps" and ok: "thread_ok find_area sel A (ps ! j)"
    using assms(1) by (auto simp: keeps_off_def)
  have "ends_within find_area reads (call_steps reads sz) (ps ! j)" using assms(2) ok by simp
  from within_run [where within = "ends_within find_area reads", OF ends_step run j this]
  have "\<exists>r. ps' ! j = Returned sz sel r" if "call_steps reads sz \<le> count_list sch j"
    using request_run [OF run j] assms(2) that by (intro call_done) auto
  moreover have "thread_ok find_area sel A (ps' ! j)" "avoids find_area sel A (ps' ! j)" "A \<subseteq> pt_map sel s'"
    using inv by (auto simp: keeps_off_def)
  ultimately show ?thesis using run by fastforce
qed

end

section \<open>A search by single bits\<close>

text \<open>A search with that promise: it reads the word of each bit in turn and counts the clear bits.\<close>

function scan_bits :: "nat \<Rightarrow> nat \<Rightarrow> nat \<Rightarrow> nat \<Rightarrow> scan" where
  "scan_bits end nr pos run =
     (if run = nr then Done (of_nat (pos - nr))
      else if end \<le> pos then Done (of_nat end)
      else Read (pos div 64) (\<lambda>v. scan_bits end nr (Suc pos) (if pos \<in> v then 0 else Suc run)))"
  by pat_completeness auto
termination
  by (relation "measure (\<lambda>(end, nr, pos, run). end - pos)") auto

declare scan_bits.simps [simp del]

definition bit_search :: "u64 \<Rightarrow> u64 \<Rightarrow> u32 \<Rightarrow> scan" where
  "bit_search sz st nr = scan_bits (unat sz) (unat nr) (unat st) 0"

lemma scan_bits_read:
  assumes "after_reads (scan_bits end nr pos run) ((w, v) # log) = Some sc"
  shows "run \<noteq> nr" "pos < end" "w = pos div 64"
    and "after_reads (scan_bits end nr (Suc pos) (if pos \<in> v then 0 else Suc run)) log = Some sc"
  using assms scan_bits.simps [of "end" nr pos run] by (auto split: if_splits)

lemma scan_bits_done:
  assumes "scan_bits end nr pos run = Done r"
  shows "run = nr \<and> r = of_nat (pos - nr) \<or> run \<noteq> nr \<and> end \<le> pos \<and> r = of_nat end"
  using assms scan_bits.simps [of "end" nr pos run] by (auto split: if_splits)

lemma scan_bits_length: "after_reads (scan_bits end nr pos run) log = Some sc \<Longrightarrow> length log \<le> end - pos"
proof (induction log arbitrary: pos run)
  case (Cons x log)
  obtain w v where x: "x = (w, v)" by fastforce
  from scan_bits_read [OF Cons.prems [unfolded x]] Cons.IH [of "Suc pos"] show ?case by fastforce
qed simp

lemma scan_bits_seen:
  assumes "after_reads (scan_bits end nr pos run) log = Some (Done r)" "run \<le> pos" "run \<le> nr" "0 < nr"
    and "end < 18446744073709551616" "pos \<le> end \<or> run < nr"
    and "\<forall>b \<in> {pos - run ..< pos}. \<exists>(w, v) \<in> set seen. b \<in> word_bits w \<and> b \<notin> v"
  shows "unat r = end \<or> unat r + nr \<le> end
     \<and> (\<forall>b \<in> area (unat r) nr. \<exists>(w, v) \<in> set (seen @ log). b \<in> word_bits w \<and> b \<notin> v)"
  using assms
proof (induction log arbitrary: pos run seen)
  case Nil
  from Nil.prems(1) scan_bits_done [of "end" nr pos run r]
  consider "run = nr" "r = of_nat (pos - nr)" | "run \<noteq> nr" "end \<le> pos" "r = of_nat end" by auto
  then show ?case
  proof cases
    case 1
    with Nil.prems(2,5,6) have "unat r = pos - nr" by (simp add: unat_of_nat del: of_nat_diff)
    with 1 Nil.prems show ?thesis by (auto simp: area_def)
  next
    case 2
    with Nil.prems(5) show ?thesis by (simp add: unat_of_nat)
  qed
next
  case (Cons x log)
  obtain w v where x: "x = (w, v)" by fastforce
  let ?run = "if pos \<in> v then 0 else Suc run"
  note c = scan_bits_read [OF Cons.prems(1) [unfolded x]]
  have pos: "pos \<in> word_bits w" by (auto simp: c(3) word_bits_def)
  have seen: "\<forall>b \<in> {Suc pos - ?run ..< Suc pos}. \<exists>(w, v) \<in> set (seen @ [x]). b \<in> word_bits w \<and> b \<notin> v"
  proof
    fix b assume b: "b \<in> {Suc pos - ?run ..< Suc pos}"
    then have out: "pos \<notin> v" by auto
    show "\<exists>(w, v) \<in> set (seen @ [x]). b \<in> word_bits w \<and> b \<notin> v"
    proof (cases "b = pos")
      case True
      with pos out show ?thesis by (auto simp: x)
    next
      case False
      with b out have "b \<in> {pos - run ..< pos}" by auto
      from bspec [OF Cons.prems(7) this] show ?thesis by auto
    qed
  qed
  from Cons.IH [OF c(4) _ _ Cons.prems(4,5) _ seen] Cons.prems(2,3) c(1,2) show ?case by auto
qed

interpretation bits: word_search bit_search KGSL_PT_MEM_PAGES
proof
  fix st :: u64 and nr :: u32 and log r
  assume log: "after_reads (bit_search (of_nat KGSL_PT_MEM_PAGES) st nr) log = Some (Done r)"
  have pages: "unat (of_nat KGSL_PT_MEM_PAGES :: u64) = KGSL_PT_MEM_PAGES"
    by (simp add: KGSL_PT_MEM_PAGES_def)
  assume nr: "0 < nr"
  note log' = log [unfolded bit_search_def pages]
  have seen: "unat r = KGSL_PT_MEM_PAGES \<or> unat r + unat nr \<le> KGSL_PT_MEM_PAGES
      \<and> (\<forall>b \<in> area (unat r) (unat nr). \<exists>(w, v) \<in> set log. b \<in> word_bits w \<and> b \<notin> v)"
    using scan_bits_seen [OF log', of "[]"] nr by (simp add: KGSL_PT_MEM_PAGES_def word_less_unat)
  then show "unat r \<le> KGSL_PT_MEM_PAGES + unat nr" by auto
  assume "unat r < KGSL_PT_MEM_PAGES"
  with seen show "unat r + unat nr \<le> KGSL_PT_MEM_PAGES
      \<and> (\<forall>b \<in> area (unat r) (unat nr). \<exists>(w, v) \<in> set log. b \<in> word_bits w \<and> b \<notin> v)" by auto
next
  fix st :: u64 and nr :: u32 and log sc
  assume "after_reads (bit_search (of_nat KGSL_PT_MEM_PAGES) st nr) log = Some sc"
  then show "length log \<le> KGSL_PT_MEM_PAGES"
    using scan_bits_length [of "unat (of_nat KGSL_PT_MEM_PAGES :: u64)"]
    by (fastforce simp: bit_search_def KGSL_PT_MEM_PAGES_def)
qed

section \<open>Properties\<close>








section \<open>What the missing lock allows\<close>

text \<open>Two calls that both search before either has marked its pages get the same address: two
  processes then map their buffers at one place of the shared page table, and the first release
  frees the pages of both.\<close>

lemma search_page:
  "alloc_step bit_search (Start 0x1000 1) init_maps = Some (Searching True 0x1000 1 (bit_search 0xC0000 0 1), init_maps)"
  by (simp add: word_le_nat_alt init_maps_def pt_last_def KGSL_PT_MEM_PAGES_def)

lemma read_page:
  "alloc_step bit_search (Searching True 0x1000 1 (bit_search 0xC0000 0 1)) init_maps
     = Some (Searching True 0x1000 1 (Done 0), init_maps)"
  by (subst bit_search_def, subst scan_bits.simps)
     (simp add: scan_bits.simps [of "0xC0000" "Suc 0" "Suc 0"] pt_map_def init_maps_def)

lemma found_page:
  "alloc_step bit_search (Searching True 0x1000 1 (Done 0)) s = Some (Found 0x1000 1 0, s)"
  by (simp add: word_le_nat_alt KGSL_PT_MEM_PAGES_def)

lemma same_address_twice:
  "map_option fst (run_sched (alloc_step bit_search) [0, 1, 0, 1, 0, 1, 0, 1, 0, 0, 0, 1, 1, 1, 0, 1]
       ([Start 0x1000 1, Start 0x1000 1], init_maps))
     = Some [Returned 0x1000 1 0, Returned 0x1000 1 0]"
  by (simp add: search_page read_page found_page begin_update_def words_of_def Let_def
      KGSL_PT_MEM_PAGES_def del: alloc_step.simps(1-3))

text \<open>The updates of a word are not atomic: a request that has loaded the word when another one stores
  its bit writes the old content back, and the other's page counts as free while it is in use.\<close>

lemma lost_update:
  "map_option (\<lambda>(ps, s). (ps, global_map s))
     (run_sched (alloc_step bit_search) [0, 1, 0, 1, 0, 1, 0, 1, 0, 1]
       ([Found 0x1000 1 0, Found 0x1000 1 1], init_maps))
     = Some ([Returned 0x1000 1 0, Returned 0x1000 1 0x1000], {1})"
  by (simp add: begin_update_def words_of_def init_maps_def KGSL_PT_MEM_PAGES_def pt_map_def
      set_pt_map_def set_pt_last_def bits_of_call_def area_def word_bits_def Let_def)

end
