(* ===== verification/KiumdMmioThreads.thy ===== *)
theory KiumdMmioThreads
  imports KiumdRequests Interleave
begin

text \<open>
  Concurrent requests to map and unmap device registers, of threads that share one context of
  \<open>drivers/kiumd.c\<close>. A section under \<open>smmu_lock\<close> is one step, and so is the section under the
  mutex of the cookie in which \<open>kiumd_mmio_smmu_map\<close> maps the resource. Between these sections a
  thread holds the address of a table entry and no lock: using or freeing an entry that another
  thread has freed meanwhile is a crash. Run without interruption the threads are the functions of
  theory KiumdMap.
\<close>

section \<open>Requests as threads\<close>

record thread_st = map_st +
  freed_nodes :: "nat set"

datatype mmio_pc =
  Map_start mmio_env "kiumd_smmu_mmio_map option"
| Map_checked mmio_env kiumd_smmu_mmio_map ptr ptr
| Map_mapped mmio_env kiumd_smmu_mmio_map ptr u64
| Map_added mmio_env kiumd_smmu_mmio_map smmu_map_data
| Map_undo smmu_map_data
| Map_ret int "kiumd_smmu_mmio_map option"
| Unmap_start "kiumd_smmu_mmio_map option"
| Unmap_found smmu_map_data
| Unmap_released smmu_map_data
| Unmap_ret int

definition live :: "smmu_map_data \<Rightarrow> thread_st \<Rightarrow> bool" where
  "live x s \<longleftrightarrow> sm_node x \<notin> freed_nodes s"

text \<open>Taking the entry out of the table and freeing it with its context.\<close>

definition free_entry :: "smmu_map_data \<Rightarrow> thread_st \<Rightarrow> thread_st" where
  "free_entry x s =
     (let s = release MmioObj (del_entry x s) in s\<lparr>freed_nodes := insert (sm_node x) (freed_nodes s)\<rparr>)"

text \<open>Up to the end of the search for the address, and from there to the end of the mapping.\<close>

definition mmio_check :: "world \<Rightarrow> mmio_env \<Rightarrow> kiumd_smmu_mmio_map option \<Rightarrow> thread_st
    \<Rightarrow> (mmio_pc \<times> thread_st) option" where
  "mmio_check w e arg s =
     (case arg of
        None \<Rightarrow> Some (Map_ret (- EFAULT) None, s)
      | Some m \<Rightarrow>
          (case kiumd_get_vfio_device w (mm_vfio_fd m) s of
             (vfio_dev, s) \<Rightarrow>
               if vfio_dev = 0 then Some (Map_ret (- EINVAL) None, s)
               else (case kiumd_get_dma_cookie w vfio_dev of
                 None \<Rightarrow> None
               | Some cookie \<Rightarrow>
                   if cookie = 0 then Some (Map_ret (- EINVAL) None, s)
                   else if iova_in_use m (smmu_table s) then Some (Map_ret (- EINVAL) None, s)
                   else Some (Map_checked e m cookie (w_dev w vfio_dev), s))))"

definition mmio_prepare :: "mmio_env \<Rightarrow> kiumd_smmu_mmio_map \<Rightarrow> ptr \<Rightarrow> ptr \<Rightarrow> thread_st
    \<Rightarrow> mmio_pc \<times> thread_st" where
  "mmio_prepare e m cookie dev s =
     (if \<not> x_kzalloc_smap e then (Map_ret (- ENOMEM) None, s)
      else let s = acquire SmapObj s in
        if \<not> x_kzalloc_ctx e then (Map_ret (- ENOMEM) None, release SmapObj s)
        else let s = acquire MmioObj s in
          if \<not> x_strndup_user e then (Map_ret (- EINVAL) None, release SmapObj s)
          else let s = acquire RegName s in
            if \<not> x_is_platform e
            then (Map_ret (x_uninitialised e) None, release SmapObj (release RegName s))
            else (case x_resource e of
              None \<Rightarrow> (Map_ret (- EINVAL) None, release SmapObj (release RegName s))
            | Some (addr, sz) \<Rightarrow>
                let ret = x_mapping_error e; s = mmio_dma_map e m cookie dev s in
                if ret \<noteq> 0 then (Map_ret ret None, release SmapObj (release RegName s))
                else (Map_mapped e m dev sz, s)))"

definition mmio_insert :: "(int \<Rightarrow> nat) \<Rightarrow> mmio_env \<Rightarrow> kiumd_smmu_mmio_map \<Rightarrow> ptr \<Rightarrow> u64 \<Rightarrow> thread_st
    \<Rightarrow> mmio_pc \<times> thread_st" where
  "mmio_insert hash e m dev sz s =
     (let iova = x_dma_map_resource e;
          smap = mmio_entry \<lparr>mc_dev = dev, mc_iova = iova, mc_size = sz\<rparr> s
      in (Map_added e (m\<lparr>mm_iova := iova, reg_len := sz, mm_id := sm_id smap\<rparr>) smap, add_entry hash smap s))"

fun mmio_thread :: "world \<Rightarrow> (int \<Rightarrow> nat) \<Rightarrow> (mmio_pc, thread_st) thread_step" where
  "mmio_thread w hash (Map_start e arg) s = mmio_check w e arg s"
| "mmio_thread w hash (Map_checked e m cookie dev) s = Some (mmio_prepare e m cookie dev s)"
| "mmio_thread w hash (Map_mapped e m dev sz) s = Some (mmio_insert hash e m dev sz s)"
| "mmio_thread w hash (Map_added e m smap) s =
     (if x_copy_to_user e then Some (Map_ret 0 (Some m), release RegName s)
      else case sm_context smap of
        None \<Rightarrow> None
      | Some c \<Rightarrow> Some (Map_undo smap, release (MmioMap (mc_dev c) (mc_iova c)) s))"
| "mmio_thread w hash (Map_undo smap) s =
     (if live smap s then Some (Map_ret (- EFAULT) None, free_entry smap (release RegName s)) else None)"
| "mmio_thread w hash (Map_ret ret out) s = Some (Map_ret ret out, s)"
| "mmio_thread w hash (Unmap_start arg) s =
     (case arg of
        None \<Rightarrow> Some (Unmap_ret (- EFAULT), s)
      | Some m \<Rightarrow>
          if mm_id m < 0 then Some (Unmap_ret (- EFAULT), s)
          else (case hash_find hash (\<lambda>x. sm_context x \<noteq> None) (mm_id m) (smmu_table s) of
            None \<Rightarrow> Some (Unmap_ret (- ENOENT), s)
          | Some smap \<Rightarrow> Some (Unmap_found smap, s)))"
| "mmio_thread w hash (Unmap_found smap) s =
     (if \<not> live smap s then None
      else case sm_context smap of
        None \<Rightarrow> Some (Unmap_ret (- EINVAL), s)
      | Some c \<Rightarrow> Some (Unmap_released smap, release (MmioMap (mc_dev c) (mc_iova c)) s))"
| "mmio_thread w hash (Unmap_released smap) s =
     (if live smap s then Some (Unmap_ret 0, free_entry smap s) else None)"
| "mmio_thread w hash (Unmap_ret ret) s = Some (Unmap_ret ret, s)"

section \<open>Requests that are not interrupted\<close>

lemma freed_fields [simp]:
  "freed_nodes (acquire r s) = freed_nodes s" "freed_nodes (release r s) = freed_nodes s"
  "freed_nodes (add_entry h x s) = freed_nodes s" "freed_nodes (del_entry x s) = freed_nodes s"
  "freed_nodes (fput f s) = freed_nodes s" "freed_nodes (set_cookie_mutex c b s) = freed_nodes s"
  "freed_nodes (snd (kiumd_set_dma_cookie c ty i s)) = freed_nodes s"
  "freed_nodes (mmio_dma_map e m c d s) = freed_nodes s"
  by (simp_all add: acquire_def release_def add_entry_def del_entry_def fput_def set_cookie_mutex_def
      kiumd_set_dma_cookie_def mmio_dma_map_def Let_def)

lemma free_entry_fields [simp]:
  "freed_nodes (free_entry x s) = insert (sm_node x) (freed_nodes s)"
  "smmu_table (free_entry x s) = hash_del (sm_node x) (smmu_table s)"
  "ctx_id (free_entry x s) = ctx_id s" "next_node (free_entry x s) = next_node s"
  by (simp_all add: free_entry_def Let_def)

text \<open>The state without the record of what was freed.\<close>

definition unmarked :: "thread_st \<Rightarrow> thread_st" where
  "unmarked s = s\<lparr>freed_nodes := {}\<rparr>"

lemma unmarked_free: "unmarked (free_entry x s) = unmarked (release MmioObj (del_entry x s))"
  by (simp add: unmarked_def free_entry_def Let_def)

lemma unmap_alone:
  assumes "\<And>i x. hash_find hash (\<lambda>x. sm_context x \<noteq> None) i (smmu_table s) = Some x \<Longrightarrow> live x s"
  shows "\<exists>s'. run_sched (mmio_thread w hash) [0, 0, 0] ([Unmap_start arg], s)
       = Some ([Unmap_ret (fst (kiumd_mmio_smmu_unmap hash arg s))], s')
     \<and> unmarked s' = unmarked (snd (kiumd_mmio_smmu_unmap hash arg s))"
  using assms
  by (auto simp: kiumd_mmio_smmu_unmap_def unmarked_free live_def split: option.splits)

lemma release_order:
  "release r (release q s) = release q (release r s)"
  "del_entry x (release r s) = release r (del_entry x s)"
  by (auto simp: release_def del_entry_def fun_upd_def fun_eq_iff)

lemma map_alone:
  assumes "kiumd_mmio_smmu_map w hash e arg s = Some (ret, out, s2)" "next_node s \<notin> freed_nodes s"
  shows "\<exists>s'. run_sched (mmio_thread w hash) [0, 0, 0, 0, 0] ([Map_start e arg], s)
       = Some ([Map_ret ret out], s') \<and> unmarked s' = unmarked s2"
  using assms
  by (auto simp: kiumd_mmio_smmu_map_def mmio_check_def mmio_prepare_def mmio_insert_def mmio_finish_def
      reg_free_def get_vfio_device_eq get_dma_cookie_eq Let_def live_def mmio_entry_def unmarked_free
      release_order split: option.splits if_splits)

section \<open>Any interleaving\<close>

fun mmio_target :: "mmio_pc \<Rightarrow> int option" where
  "mmio_target (Unmap_start (Some m)) = Some (mm_id m)"
| "mmio_target (Unmap_found x) = Some (sm_id x)"
| "mmio_target (Unmap_released x) = Some (sm_id x)"
| "mmio_target _ = None"

text \<open>The entries a thread may still add.\<close>

fun may_add :: "mmio_pc \<Rightarrow> nat" where
  "may_add (Map_start e arg) = 1"
| "may_add (Map_checked e m cookie dev) = 1"
| "may_add (Map_mapped e m dev sz) = 1"
| "may_add _ = 0"

text \<open>What holds of a thread whose mapping requests can all copy their result out.\<close>

fun pc_in :: "thread_st \<Rightarrow> mmio_pc \<Rightarrow> bool" where
  "pc_in s (Map_start e arg) = x_copy_to_user e"
| "pc_in s (Map_checked e m cookie dev) = x_copy_to_user e"
| "pc_in s (Map_mapped e m dev sz) = x_copy_to_user e"
| "pc_in s (Map_added e m smap) = x_copy_to_user e"
| "pc_in s (Map_undo x) = False"
| "pc_in s (Unmap_found x) = (x \<in> set (hash_entries (smmu_table s)) \<and> sm_context x \<noteq> None)"
| "pc_in s (Unmap_released x) = (x \<in> set (hash_entries (smmu_table s)))"
| "pc_in s _ = True"

definition regs_ok :: "(int \<Rightarrow> nat) \<Rightarrow> thread_st \<Rightarrow> bool" where
  "regs_ok hash s \<longleftrightarrow> ids_inv hash s
     \<and> freed_nodes s \<inter> sm_node ` set (hash_entries (smmu_table s)) = {} \<and> freed_nodes s \<subseteq> {..< next_node s}"

text \<open>The three ways a step may change the table.\<close>

inductive step_effect :: "(int \<Rightarrow> nat) \<Rightarrow> mmio_pc \<Rightarrow> thread_st \<Rightarrow> mmio_pc \<Rightarrow> thread_st \<Rightarrow> bool"
  for hash where
  kept: "table_kept s s' \<Longrightarrow> freed_nodes s' = freed_nodes s \<Longrightarrow> may_add p' \<le> may_add p
     \<Longrightarrow> step_effect hash p s p' s'"
| added: "table_added hash s s' \<Longrightarrow> freed_nodes s' = freed_nodes s \<Longrightarrow> may_add p = 1 \<Longrightarrow> may_add p' = 0
     \<Longrightarrow> step_effect hash p s p' s'"
| deleted: "smmu_table s' = hash_del (sm_node x) (smmu_table s) \<Longrightarrow> ctx_id s' = ctx_id s
     \<Longrightarrow> next_node s' = next_node s \<Longrightarrow> freed_nodes s' = insert (sm_node x) (freed_nodes s)
     \<Longrightarrow> step_effect hash (Unmap_released x) s (Unmap_ret 0) s'"

lemma mmio_check_effect:
  assumes "mmio_check w e arg s = Some (p', s')"
  shows "table_kept s s' \<and> freed_nodes s' = freed_nodes s \<and> may_add p' \<le> 1 \<and> mmio_target p' = None
     \<and> (x_copy_to_user e \<longrightarrow> pc_in s' p')"
  using assms
  by (auto simp: mmio_check_def get_vfio_device_eq get_dma_cookie_eq table_kept_def
      split: option.splits if_splits)

lemma mmio_check_total: "\<exists>p' s'. mmio_check w e arg s = Some (p', s')"
  by (auto simp: mmio_check_def get_vfio_device_eq get_dma_cookie_eq split: option.splits)

lemma mmio_prepare_effect:
  assumes "mmio_prepare e m cookie dev s = (p', s')"
  shows "table_kept s s' \<and> freed_nodes s' = freed_nodes s \<and> may_add p' \<le> 1 \<and> mmio_target p' = None
     \<and> (x_copy_to_user e \<longrightarrow> pc_in s' p')"
  using assms
  by (auto simp: mmio_prepare_def Let_def table_kept_def split: option.splits if_splits)

lemma mmio_insert_effect:
  assumes "mmio_insert hash e m dev sz s = (p', s')"
  shows "table_added hash s s' \<and> freed_nodes s' = freed_nodes s \<and> may_add p' = 0 \<and> mmio_target p' = None
     \<and> (x_copy_to_user e \<longrightarrow> pc_in s' p')"
proof -
  let ?x = "mmio_entry \<lparr>mc_dev = dev, mc_iova = x_dma_map_resource e, mc_size = sz\<rparr> s"
  have "sm_id ?x = ctx_id s" "sm_node ?x = next_node s" by (simp_all add: mmio_entry_def)
  with assms show ?thesis by (auto simp: mmio_insert_def Let_def table_added_def)
qed

context table_hash
begin

lemma regs_live: "regs_ok hash s \<Longrightarrow> x \<in> set (hash_entries (smmu_table s)) \<Longrightarrow> live x s"
  by (auto simp: regs_ok_def live_def)

lemma entry_of_id:
  assumes "regs_ok hash s" "x \<in> set (hash_entries (smmu_table s))" "y \<in> set (hash_entries (smmu_table s))"
    and "sm_id x = sm_id y"
  shows "x = y"
proof -
  have "inj_on sm_id (set (hash_entries (smmu_table s)))"
    using assms(1) by (simp add: regs_ok_def ids_inv_def entries_unique_def distinct_map)
  from inj_onD [OF this assms(4,2,3)] show ?thesis .
qed

lemma entry_of_node:
  assumes "regs_ok hash s" "x \<in> set (hash_entries (smmu_table s))" "y \<in> set (hash_entries (smmu_table s))"
    and "sm_node x = sm_node y"
  shows "x = y"
proof -
  have "inj_on sm_node (set (hash_entries (smmu_table s)))"
    using assms(1) by (simp add: regs_ok_def ids_inv_def entries_unique_def distinct_map)
  from inj_onD [OF this assms(4,2,3)] show ?thesis .
qed

lemma mmio_thread_ok:
  assumes ok: "regs_ok hash s" and p: "pc_in s p"
  shows "\<exists>p' s'. mmio_thread w hash p s = Some (p', s') \<and> step_effect hash p s p' s'
     \<and> pc_in s' p' \<and> mmio_target p' \<in> {None, mmio_target p}"
proof (cases p)
  case (Map_start e arg)
  with mmio_check_total [of w e arg s] mmio_check_effect [of w e arg s] p show ?thesis
    by (fastforce simp: step_effect.simps)
next
  case (Map_checked e m cookie dev)
  with mmio_prepare_effect [of e m cookie dev s] p show ?thesis
    by (cases "mmio_prepare e m cookie dev s") (simp add: step_effect.simps)
next
  case (Map_mapped e m dev sz)
  with mmio_insert_effect [of hash e m dev sz s] p show ?thesis
    by (cases "mmio_insert hash e m dev sz s") (simp add: step_effect.simps)
next
  case (Map_added e m smap)
  with p show ?thesis by (simp add: step_effect.simps table_kept_def)
next
  case (Unmap_start arg)
  then show ?thesis
    using buckets.lookup_sound [of "smmu_table s" "\<lambda>x. sm_context x \<noteq> None"] ok
    by (auto simp: step_effect.simps table_kept_def regs_ok_def ids_inv_def entries_unique_def
        split: option.splits)
next
  case (Unmap_found x)
  with p regs_live [OF ok, of x] show ?thesis by (auto simp: step_effect.simps table_kept_def)
next
  case (Unmap_released x)
  with p regs_live [OF ok, of x] show ?thesis by (auto simp: step_effect.simps table_kept_def)
qed (use p in \<open>auto simp: step_effect.simps table_kept_def\<close>)

text \<open>What a step does to the shared state and to the other threads' entries.\<close>

lemma added_regs_ok:
  assumes "regs_ok hash s" "ctx_id s < 2147483647" "table_added hash s s'" "freed_nodes s' = freed_nodes s"
  shows "regs_ok hash s' \<and> ctx_id s' = ctx_id s + 1
     \<and> set (hash_entries (smmu_table s)) \<subseteq> set (hash_entries (smmu_table s'))"
proof -
  from assms(3) obtain x where x: "sm_id x = ctx_id s" "sm_node x = next_node s"
      "smmu_table s' = hash_add hash x (smmu_table s)" "ctx_id s' = wrap32 (ctx_id s + 1)"
      "next_node s' = Suc (next_node s)" by (auto simp: table_added_def)
  have ok: "ids_inv hash s" "freed_nodes s \<inter> sm_node ` set (hash_entries (smmu_table s)) = {}"
      "freed_nodes s \<subseteq> {..< next_node s}" using assms(1) by (simp_all add: regs_ok_def)
  have e: "set (hash_entries (smmu_table s')) = insert x (set (hash_entries (smmu_table s)))"
    by (simp add: x(3))
  have "ids_inv hash s'" by (rule ids_add [OF ok(1) assms(2) x])
  moreover have "freed_nodes s' \<inter> sm_node ` set (hash_entries (smmu_table s')) = {}"
    using ok(2,3) by (auto simp: e x(2) assms(4))
  moreover have "freed_nodes s' \<subseteq> {..< next_node s'}" using ok(3) by (auto simp: x(5) assms(4))
  moreover have "ctx_id s' = ctx_id s + 1" using x(4) assms(2) ok(1) by (simp add: ids_inv_def)
  ultimately show ?thesis by (auto simp: regs_ok_def e)
qed

lemma deleted_regs_ok:
  assumes "regs_ok hash s" "y \<in> set (hash_entries (smmu_table s))"
    and del: "smmu_table s' = hash_del (sm_node y) (smmu_table s)" "ctx_id s' = ctx_id s"
      "next_node s' = next_node s" and freed: "freed_nodes s' = insert (sm_node y) (freed_nodes s)"
  shows "regs_ok hash s'
     \<and> (\<forall>x \<in> set (hash_entries (smmu_table s)). sm_id y \<noteq> sm_id x \<longrightarrow> x \<in> set (hash_entries (smmu_table s')))"
proof -
  have ok: "ids_inv hash s" "freed_nodes s \<inter> sm_node ` set (hash_entries (smmu_table s)) = {}"
      "freed_nodes s \<subseteq> {..< next_node s}" using assms(1) by (simp_all add: regs_ok_def)
  have e: "set (hash_entries (smmu_table s')) = {x \<in> set (hash_entries (smmu_table s)). sm_node x \<noteq> sm_node y}"
    by (simp add: del(1) buckets.set_del)
  have "sm_node y < next_node s" using ok(1) assms(2) by (simp add: ids_inv_def)
  then have "freed_nodes s' \<subseteq> {..< next_node s'}" using ok(3) by (simp add: freed del(3))
  moreover have "freed_nodes s' \<inter> sm_node ` set (hash_entries (smmu_table s')) = {}"
    using ok(2) by (auto simp: e freed)
  ultimately have "regs_ok hash s'" using ids_del [OF ok(1) del] by (simp add: regs_ok_def)
  moreover have "x \<in> set (hash_entries (smmu_table s'))"
    if "x \<in> set (hash_entries (smmu_table s))" "sm_id y \<noteq> sm_id x" for x
    using entry_of_node [OF assms(1,2) that(1)] that by (auto simp: e)
  ultimately show ?thesis by blast
qed

lemma effect_kept:
  assumes "regs_ok hash s" "step_effect hash p s p' s'" "pc_in s p" "ctx_id s + int (may_add p) \<le> 2147483647"
  shows "regs_ok hash s' \<and> ctx_id s' + int (may_add p') \<le> ctx_id s + int (may_add p)
     \<and> freed_nodes s \<subseteq> freed_nodes s'
     \<and> (\<forall>x \<in> set (hash_entries (smmu_table s)). mmio_target p \<noteq> Some (sm_id x) \<or> mmio_target p' \<noteq> None
          \<longrightarrow> x \<in> set (hash_entries (smmu_table s')))"
  using assms(2)
proof cases
  case kept
  with assms(1) show ?thesis by (simp add: table_kept_def regs_ok_def ids_inv_def)
next
  case added
  with added_regs_ok [OF assms(1) _ added(1,2)] assms(4) show ?thesis by auto
next
  case (deleted y)
  with deleted_regs_ok [OF assms(1) _ deleted(3-6)] assms(3) show ?thesis by auto
qed

lemma other_pc_in:
  assumes "\<forall>x \<in> set (hash_entries (smmu_table s)). mmio_target p \<noteq> Some (sm_id x)
          \<longrightarrow> x \<in> set (hash_entries (smmu_table s'))"
    and "pc_in s q" "mmio_target q = None \<or> mmio_target q \<noteq> mmio_target p"
  shows "pc_in s' q"
  using assms by (cases q) auto

text \<open>A thread that unmaps the registers of entry \<open>x\<close> gets to them.\<close>

lemma unmap_progress:
  assumes "regs_ok hash s" "pc_in s p" "mmio_target p = Some (sm_id x)"
    and x: "x \<in> set (hash_entries (smmu_table s))" "sm_context x \<noteq> None"
    and st: "mmio_thread w hash p s = Some (p', s')"
  shows "mmio_target p' = Some (sm_id x) \<or> p' = Unmap_ret 0 \<and> sm_node x \<in> freed_nodes s'"
proof (cases p)
  case (Unmap_start arg)
  with assms(3) obtain m where m: "arg = Some m" "mm_id m = sm_id x" by (cases arg) auto
  have "ids_inv hash s" using assms(1) by (simp add: regs_ok_def)
  from ids_find [OF this x(1), of "\<lambda>x. sm_context x \<noteq> None"] x(2)
  have "hash_find hash (\<lambda>x. sm_context x \<noteq> None) (sm_id x) (smmu_table s) = Some x" by simp
  moreover have "0 \<le> sm_id x" using \<open>ids_inv hash s\<close> x(1) by (simp add: ids_inv_def)
  ultimately show ?thesis using st m Unmap_start by auto
next
  case (Unmap_found y)
  with assms(2,3) entry_of_id [OF assms(1) x(1), of y] st show ?thesis
    by (auto split: if_splits option.splits)
next
  case (Unmap_released y)
  with assms(2,3) entry_of_id [OF assms(1) x(1), of y] st show ?thesis
    by (auto split: if_splits)
qed (use assms(3) in auto)

end

section \<open>Threads that unmap different registers\<close>

text \<open>Any number of requests on one context, no two of which unmap the same id. Thread \<open>j\<close> unmaps
  the registers of the entry \<open>x\<close>; no thread unmaps an entry of \<open>K\<close>.\<close>

definition separate :: "mmio_pc list \<Rightarrow> bool" where
  "separate ps \<longleftrightarrow> (\<forall>i < length ps. \<forall>k < length ps. i \<noteq> k \<longrightarrow>
     mmio_target (ps ! i) = None \<or> mmio_target (ps ! i) \<noteq> mmio_target (ps ! k))"

definition unmaps :: "(int \<Rightarrow> nat) \<Rightarrow> nat \<Rightarrow> smmu_map_data \<Rightarrow> smmu_map_data set \<Rightarrow> mmio_pc list \<Rightarrow> thread_st \<Rightarrow> bool"
  where
  "unmaps hash j x K ps s \<longleftrightarrow>
     regs_ok hash s \<and> ctx_id s + int (\<Sum>p \<leftarrow> ps. may_add p) \<le> 2147483647
     \<and> (\<forall>p \<in> set ps. pc_in s p) \<and> separate ps
     \<and> K \<subseteq> set (hash_entries (smmu_table s)) \<and> (\<forall>p \<in> set ps. \<forall>y \<in> K. mmio_target p \<noteq> Some (sm_id y))
     \<and> j < length ps \<and> sm_context x \<noteq> None
     \<and> (mmio_target (ps ! j) = Some (sm_id x) \<and> x \<in> set (hash_entries (smmu_table s))
        \<or> ps ! j = Unmap_ret 0 \<and> sm_node x \<in> freed_nodes s)"

lemma separate_update:
  assumes "separate ps" "mmio_target p' = None \<or> mmio_target p' = mmio_target (ps ! i)" "i < length ps"
  shows "separate (ps[i := p'])"
proof -
  have "mmio_target (ps[i := p'] ! k) = None \<or> mmio_target (ps[i := p'] ! k) = mmio_target (ps ! k)" for k
    using assms(2,3) by (cases "i = k") auto
  with assms(1) show ?thesis unfolding separate_def by (metis length_list_update)
qed

text \<open>The initial situation: no request has taken its first step.\<close>

fun mmio_steps_left :: "mmio_pc \<Rightarrow> nat" where
  "mmio_steps_left (Map_start e arg) = 5"
| "mmio_steps_left (Map_checked e m cookie dev) = 4"
| "mmio_steps_left (Map_mapped e m dev sz) = 3"
| "mmio_steps_left (Map_added e m smap) = 2"
| "mmio_steps_left (Map_undo smap) = 1"
| "mmio_steps_left (Unmap_start arg) = 3"
| "mmio_steps_left (Unmap_found x) = 2"
| "mmio_steps_left (Unmap_released x) = 1"
| "mmio_steps_left _ = 0"

lemma mmio_steps_left_step:
  "mmio_thread w hash p s = Some (p', s') \<Longrightarrow> mmio_steps_left p' \<le> mmio_steps_left p - 1"
  by (cases p) (auto simp: mmio_check_def mmio_prepare_def mmio_insert_def get_vfio_device_eq
      get_dma_cookie_eq Let_def split: if_splits option.splits)

lemma mmio_steps_left_run:
  "run_sched (mmio_thread w hash) sch (ps, s) = Some (ps', s') \<Longrightarrow> j < length ps \<Longrightarrow>
     mmio_steps_left (ps' ! j) \<le> mmio_steps_left (ps ! j) - count_list sch j"
  by (rule rank_run [where rank = mmio_steps_left, rotated]) (auto dest: mmio_steps_left_step)

lemma no_steps_no_target: "mmio_steps_left p = 0 \<Longrightarrow> mmio_target p = None"
  by (cases p) auto

lemma target_steps: "mmio_target p \<noteq> None \<Longrightarrow> mmio_steps_left p \<le> 3"
  by (cases p) auto

sublocale table_hash \<subseteq>
    regs: thread_invariant "mmio_thread w hash" "unmaps hash j x K" for w j x K
proof
  fix ps s i
  assume inv: "unmaps hash j x K ps s" and i: "i < length ps"
  let ?p = "ps ! i"
  have ok: "regs_ok hash s" and p: "pc_in s ?p" and sep: "separate ps"
    and sum: "ctx_id s + int (\<Sum>p \<leftarrow> ps. may_add p) \<le> 2147483647"
    using inv i by (simp_all add: unmaps_def)
  from mmio_thread_ok [OF ok p, of w] obtain p' s' where
    st: "mmio_thread w hash ?p s = Some (p', s')" "step_effect hash ?p s p' s'" "pc_in s' p'"
    and tgt: "mmio_target p' = None \<or> mmio_target p' = mmio_target ?p" by auto
  have "may_add ?p \<le> (\<Sum>p \<leftarrow> ps. may_add p)"
    using i by (intro member_le_sum_list) auto
  with sum have "ctx_id s + int (may_add ?p) \<le> 2147483647" by linarith
  note eff = effect_kept [OF ok st(2) p this]
  have "ctx_id s' + int (\<Sum>p \<leftarrow> ps[i := p']. may_add p) \<le> 2147483647"
    using sum_update [OF i, of may_add p'] eff sum by linarith
  moreover have "\<forall>q \<in> set (ps[i := p']). pc_in s' q"
  proof
    fix q assume "q \<in> set (ps[i := p'])"
    then obtain k where k: "k < length ps" "q = ps[i := p'] ! k" by (auto simp: in_set_conv_nth)
    show "pc_in s' q"
    proof (cases "i = k")
      case True
      with k st(3) show ?thesis by simp
    next
      case False
      then have q: "q = ps ! k" "pc_in s (ps ! k)" using k inv by (simp_all add: unmaps_def)
      have "mmio_target (ps ! k) = None \<or> mmio_target (ps ! k) \<noteq> mmio_target ?p"
        using sep i k(1) False by (auto simp: separate_def)
      with other_pc_in [of s ?p s' "ps ! k"] eff q show ?thesis by blast
    qed
  qed
  moreover have "separate (ps[i := p'])" by (rule separate_update [OF sep tgt i])
  moreover have "K \<subseteq> set (hash_entries (smmu_table s'))"
    using inv i eff by (fastforce simp: unmaps_def)
  moreover have "\<forall>q \<in> set (ps[i := p']). \<forall>y \<in> K. mmio_target q \<noteq> Some (sm_id y)"
    using inv i tgt by (intro list_update_all) (auto simp: unmaps_def)
  moreover have "mmio_target (ps[i := p'] ! j) = Some (sm_id x) \<and> x \<in> set (hash_entries (smmu_table s'))
        \<or> ps[i := p'] ! j = Unmap_ret 0 \<and> sm_node x \<in> freed_nodes s'"
  proof (cases "ps ! j = Unmap_ret 0 \<and> sm_node x \<in> freed_nodes s")
    case True
    with st(1) eff i show ?thesis by (cases "i = j") auto
  next
    case False
    with inv have x: "mmio_target (ps ! j) = Some (sm_id x)" "x \<in> set (hash_entries (smmu_table s))"
      "sm_context x \<noteq> None" and j: "j < length ps" by (auto simp: unmaps_def)
    show ?thesis
    proof (cases "i = j")
      case True
      with unmap_progress [OF ok p _ x(2,3) st(1)] x(1,2) eff i show ?thesis by auto
    next
      case other: False
      with sep i j have "mmio_target ?p = None \<or> mmio_target ?p \<noteq> mmio_target (ps ! j)"
        by (simp add: separate_def)
      with x(1,2) eff other show ?thesis by auto
    qed
  qed
  ultimately show "\<exists>p' s'. mmio_thread w hash ?p s = Some (p', s') \<and> unmaps hash j x K (ps[i := p']) s'"
    using st(1) eff inv by (auto simp: unmaps_def)
qed

context table_hash
begin

lemma unmaps_run:
  assumes "unmaps hash j x K ps s"
  shows "\<exists>ps' s'. run_sched (mmio_thread w hash) sch (ps, s) = Some (ps', s') \<and> ids_inv hash s'
     \<and> K \<subseteq> set (hash_entries (smmu_table s'))
     \<and> (3 \<le> count_list sch j \<longrightarrow> ps' ! j = Unmap_ret 0 \<and> x \<notin> set (hash_entries (smmu_table s')))"
proof -
  from regs.run_kept [OF assms, where sch = sch and w = w] obtain ps' s' where
    run: "run_sched (mmio_thread w hash) sch (ps, s) = Some (ps', s')" and inv: "unmaps hash j x K ps' s'"
    by blast
  have j: "j < length ps" using assms by (simp add: unmaps_def)
  have "mmio_steps_left (ps ! j) \<le> 3"
    using assms target_steps [of "ps ! j"] by (auto simp: unmaps_def)
  with mmio_steps_left_run [OF run j] no_steps_no_target [of "ps' ! j"]
  have "mmio_target (ps' ! j) = None" if "3 \<le> count_list sch j" using that by simp
  with run inv show ?thesis by (fastforce simp: unmaps_def regs_ok_def)
qed

end

section \<open>Properties\<close>

text \<open>C15: Concurrent register mappings. Let threads that share a context run any map and unmap
  requests for device registers, no two of which unmap the same id, with map requests that copy
  their result out. Under every schedule no thread touches or frees an entry that another has freed,
  the ids in the table stay unique, every entry that no request names survives, and the thread that
  unmaps a mapped range succeeds after three steps of its own, however the others run, and leaves
  its entry out of the table for good.\<close>

theorem concurrent_unmaps:
  assumes "table_hash hash" "unmaps hash j x K ps s"
  shows "\<exists>ps' s'. run_sched (mmio_thread w hash) sch (ps, s) = Some (ps', s') \<and> ids_inv hash s'
     \<and> K \<subseteq> set (hash_entries (smmu_table s'))
     \<and> (3 \<le> count_list sch j \<longrightarrow> ps' ! j = Unmap_ret 0 \<and> x \<notin> set (hash_entries (smmu_table s')))"
  using assms by (rule table_hash.unmaps_run)

text \<open>A context with two mapped ranges: one thread unmaps the first, another maps a range.\<close>

definition example_regs :: "int \<Rightarrow> nat \<Rightarrow> smmu_map_data" where
  "example_regs i n =
     \<lparr>sm_id = i, sgt_ptr = 0, dmabuf_ptr = 0, dmabufattach = 0, dma_dir = 0, sm_ptselect = 0,
      sm_is_iova_zero = 0, sm_vfio_dev = 0,
      sm_context = Some \<lparr>mc_dev = 0x400, mc_iova = 0xB000, mc_size = 0x1000\<rparr>, sm_node = n\<rparr>"

definition example_thread_st :: thread_st where
  "example_thread_st = (map_st.extend example_ctx (thread_st.fields {}))
     \<lparr>smmu_table := hash_add mod_hash (example_regs 1 1) (hash_add mod_hash (example_regs 0 0) empty_table),
      ctx_id := 2, next_node := 2\<rparr>"

definition example_threads :: "mmio_pc list" where
  "example_threads = [Map_start example_mmio_env (Some example_mmio_user), Unmap_start (Some example_mmio_user)]"

lemma example_entries:
  "set (hash_entries (smmu_table example_thread_st)) = {example_regs 1 1, example_regs 0 0}"
  by (simp add: example_thread_st_def mod_table.entries_hash_add)

lemma example_unmaps:
  "unmaps mod_hash 1 (example_regs 0 0) {example_regs 1 1} example_threads example_thread_st"
proof -
  have "mset (hash_entries (smmu_table example_thread_st)) = mset [example_regs 1 1, example_regs 0 0]"
    by (simp add: example_thread_st_def mod_table.buckets.entries_add)
  from distinct_map_mset [OF this, of sm_id] distinct_map_mset [OF this, of sm_node]
  have "entries_unique mod_hash (smmu_table example_thread_st)"
    by (simp add: entries_unique_def example_thread_st_def example_regs_def mod_table.buckets.good_add)
  moreover have "ctx_id example_thread_st = 2" "next_node example_thread_st = 2"
    "freed_nodes example_thread_st = {}"
    by (simp_all add: example_thread_st_def map_st.defs thread_st.defs)
  moreover have "separate example_threads"
    by (auto simp: separate_def example_threads_def less_Suc_eq)
  ultimately show ?thesis
    by (simp add: unmaps_def regs_ok_def ids_inv_def example_entries example_threads_def)
       (simp add: example_regs_def example_mmio_env_def example_mmio_user_def)
qed

theorem concurrent_unmaps_witness:
  "\<exists>ps' s'. run_sched (mmio_thread example_world mod_hash) [1, 0, 0, 1, 0, 1, 0]
         (example_threads, example_thread_st) = Some (ps', s') \<and> ids_inv mod_hash s'
     \<and> {example_regs 1 1} \<subseteq> set (hash_entries (smmu_table s'))
     \<and> (3 \<le> count_list [1, 0, 0, 1, 0, 1, 0] (1 :: nat) \<longrightarrow>
          ps' ! 1 = Unmap_ret 0 \<and> example_regs 0 0 \<notin> set (hash_entries (smmu_table s')))"
  by (rule concurrent_unmaps [OF mod_table.table_hash_axioms example_unmaps])

section \<open>What the released lock allows\<close>

text \<open>Two unmap requests for the same id that both find the entry before one frees it: the second
  takes a freed entry out of the table and frees it again.\<close>

lemma double_unmap_crashes:
  assumes "hash_find hash (\<lambda>x. sm_context x \<noteq> None) (mm_id m) (smmu_table s) = Some x" "0 \<le> mm_id m"
    and "live x s" "sm_context x = Some c"
  shows "run_sched (mmio_thread w hash) [0, 1, 0, 1, 0, 1] ([Unmap_start (Some m), Unmap_start (Some m)], s)
           = None"
  using assms by (simp add: live_def)

text \<open>The check that a fixed address is unused does not reserve it: when it passes for one request
  it passes for a second one for the same address, before either has entered its mapping.\<close>

lemma fixed_address_checked_twice:
  assumes "mmio_check w e (Some m) s = Some (Map_checked e m cookie dev, s1)"
  shows "run_sched (mmio_thread w hash) [0, 1] ([Map_start e (Some m), Map_start e2 (Some m)], s)
           = Some ([Map_checked e m cookie dev, Map_checked e2 m cookie dev], s1)"
  using assms
  by (auto simp: mmio_check_def get_vfio_device_eq get_dma_cookie_eq split: if_splits option.splits)

end
