(* ===== verification/ProfilerSessions.thy ===== *)
theory ProfilerSessions
  imports Profiler Interleave
begin

text \<open>
  Processes that use the bandwidth profiler of \<open>drivers/profiler.c\<close> at the same time. A process opens
  the device, makes its requests and releases it. The release gives the device up in one step and
  sends the stop command to the secure world in another, after the lock: between the two another
  process can open the device and start a measurement. The device stays exclusive all the same, and
  its clock is enabled for the one session that holds it, less the enables that failed unseen. The
  environment of a closed session answers its open, each request has one of its own, and the last
  one answers the stop command.
\<close>

section \<open>A session as a thread\<close>

datatype prof_pc =
  Prof_closed prof_env "(prof_env \<times> prof_request) list" prof_env
| Prof_opened "(prof_env \<times> prof_request) list" prof_env
| Prof_released prof_env
| Prof_ended int

text \<open>The two halves of \<open>profiler_release\<close>.\<close>

definition release_device :: "prof_st \<Rightarrow> prof_st" where
  "release_device s = s\<lparr>clk_enabled := clk_enabled s - 1, lock_held := False\<rparr>"

definition release_stop :: "prof_env \<Rightarrow> prof_st \<Rightarrow> (int \<times> prof_st) option" where
  "release_stop e s =
     (if \<not> kzalloc_buf e then Some (- ENOMEM, s)
      else do { (ret, b, s) \<leftarrow> bw_profiling_stop e zeroed_buf s; Some (0, s) })"

lemma release_halves: "profiler_release e s = release_stop e (release_device s)"
  by (simp add: profiler_release_def release_stop_def release_device_def)

fun prof_thread :: "(prof_pc, prof_st) thread_step" where
  "prof_thread (Prof_closed d reqs e) s =
     (case profiler_open d s of (ret, s) \<Rightarrow>
        Some (if ret \<noteq> 0 then Prof_ended ret else Prof_opened reqs e, s))"
| "prof_thread (Prof_opened ((d, q) # reqs) e) s =
     map_option (\<lambda>(ret, out, s). (Prof_opened reqs e, s)) (profiler_ioctl d q s)"
| "prof_thread (Prof_opened [] e) s = Some (Prof_released e, release_device s)"
| "prof_thread (Prof_released e) s = map_option (\<lambda>(ret, s). (Prof_ended ret, s)) (release_stop e s)"
| "prof_thread (Prof_ended ret) s = Some (Prof_ended ret, s)"

section \<open>Exclusive sessions\<close>

fun in_session :: "prof_pc \<Rightarrow> nat" where
  "in_session (Prof_opened reqs e) = 1"
| "in_session _ = 0"

fun good_env :: "prof_pc \<Rightarrow> bool" where
  "good_env (Prof_closed d reqs e) = (shm_ok e \<and> (\<forall>(d, q) \<in> set reqs. shm_ok d))"
| "good_env (Prof_opened reqs e) = (shm_ok e \<and> (\<forall>(d, q) \<in> set reqs. shm_ok d))"
| "good_env (Prof_released e) = shm_ok e"
| "good_env (Prof_ended ret) = True"

definition sessions_inv :: "prof_pc list \<Rightarrow> prof_st \<Rightarrow> bool" where
  "sessions_inv ps s \<longleftrightarrow> prof_inv s \<and> (\<forall>p \<in> set ps. good_env p)
     \<and> (\<Sum>p \<leftarrow> ps. in_session p) = (if lock_held s then 1 else 0)"

lemma ioctl_lock:
  assumes "prof_inv s" "shm_ok d" "profiler_ioctl d q s = Some (r, c, s')"
  shows "lock_held s' = lock_held s"
proof (cases q)
  case (PROFILER_IOCTL_GET_BW_INFO u)
  with assms bw_info_kept [OF assms(2), of "s\<lparr>bw_profiling_disabled := False\<rparr>" u r c s'] show ?thesis
    by (simp add: prof_inv_def prof_kept_def)
next
  case (PROFILER_IOCTL_GET_BW_INFO_BC u)
  with assms bw_info_kept [OF assms(2), of "s\<lparr>bw_profiling_disabled := True\<rparr>" u r c s'] show ?thesis
    by (simp add: prof_inv_def prof_kept_def)
qed (use assms in \<open>auto simp: profiler_set_bw_offsets_def profiler_device_init_def\<close>)

lemma stop_kept:
  assumes "shm_ok e" "release_stop e s = Some (r, s')"
  shows "prof_kept s s'"
  using assms start_stop_kept(2) [OF assms(1)]
  by (auto simp: release_stop_def bind_Some_prof split: if_splits)

text \<open>A step of a session keeps the state consistent and moves the lock with the session.\<close>

lemma prof_thread_step:
  assumes inv: "prof_inv s" and good: "good_env p" and lock: "in_session p = 1 \<longrightarrow> lock_held s"
    and st: "prof_thread p s = Some (p', s')"
  shows "prof_inv s' \<and> good_env p' \<and>
     int (in_session p') - int (in_session p) = (if lock_held s' then 1 else 0) - (if lock_held s then 1 else 0)"
proof (cases "(p, s)" rule: prof_thread.cases)
  case (1 d reqs e s1)
  with st good prof_open_inv [of d s "fst (profiler_open d s)" "snd (profiler_open d s)"] inv show ?thesis
    by (auto simp: profiler_open_def Let_def split: if_splits)
next
  case (2 d q reqs e s1)
  then obtain r c where "profiler_ioctl d q s = Some (r, c, s')" "p' = Prof_opened reqs e"
    using st by auto
  with 2 good ioctl_inv [OF inv, of d q r c s'] ioctl_lock [OF inv, of d q r c s'] show ?thesis by auto
next
  case (3 e s1)
  with st good inv lock show ?thesis by (auto simp: release_device_def prof_inv_def)
next
  case (4 e s1)
  then obtain r where r: "release_stop e s = Some (r, s')" "p' = Prof_ended r" using st by auto
  with 4 good have "prof_kept s s'" by (intro stop_kept) auto
  with prof_inv_kept [OF inv this] r 4 show ?thesis by (auto simp: prof_kept_def)
next
  case (5 ret s1)
  with st inv show ?thesis by auto
qed

interpretation sessions: thread_safety prof_thread sessions_inv
proof
  fix ps s i p' s'
  assume inv: "sessions_inv ps s" and i: "i < length ps" and st: "prof_thread (ps ! i) s = Some (p', s')"
  have "in_session (ps ! i) \<le> (\<Sum>p \<leftarrow> ps. in_session p)" using i by (intro member_le_sum_list) auto
  with inv have lock: "in_session (ps ! i) = 1 \<longrightarrow> lock_held s" by (auto simp: sessions_inv_def split: if_splits)
  have "prof_inv s" "good_env (ps ! i)" using inv i by (auto simp: sessions_inv_def)
  note step = prof_thread_step [OF this lock st]
  define n n' where "n = (\<Sum>p \<leftarrow> ps. in_session p)" and "n' = (\<Sum>p \<leftarrow> ps[i := p']. in_session p)"
  have "n' + in_session (ps ! i) = n + in_session p'" "n = (if lock_held s then 1 else 0)"
    using sum_update [OF i, of in_session p'] inv by (simp_all add: n_def n'_def sessions_inv_def)
  with step have "n' = (if lock_held s' then 1 else 0)" by (auto split: if_splits)
  then have "(\<Sum>p \<leftarrow> ps[i := p']. in_session p) = (if lock_held s' then 1 else 0)" by (simp add: n'_def)
  moreover have "\<forall>q \<in> set (ps[i := p']). good_env q"
    using inv step by (intro list_update_all) (auto simp: sessions_inv_def)
  ultimately show "sessions_inv (ps[i := p']) s'" using step by (simp add: sessions_inv_def)
qed

text \<open>The steps of a session that can crash are its requests.\<close>

lemma prof_thread_crash:
  assumes "prof_inv s" "good_env p" "prof_thread p s = None"
  shows "\<exists>d q reqs e. p = Prof_opened ((d, q) # reqs) e \<and> may_crash d q s"
proof (cases "(p, s)" rule: prof_thread.cases)
  case (2 d q reqs e s1)
  with assms ioctl_crash [of s d q] show ?thesis by auto
next
  case (4 e s1)
  with assms start_stop_return(2) [of e zeroed_buf s] show ?thesis
    by (auto simp: release_stop_def bind_None_prof split: if_splits)
qed (use assms in \<open>auto simp: split: prod.splits\<close>)

text \<open>C27: Whatever processes do with the device at the same time, in whatever order their steps come,
  at most one session is open at any moment, no shared memory is left between steps, and the
  driver's balance of the clock is one for the session that is open, less the enables that have
  failed unseen. A schedule can stop early only because a session makes a request that crashes the
  kernel: it asks for the counters with a configuration that leaves the arrays or the mappings, or
  an allocation of shared memory fails meanwhile.\<close>

theorem one_session_at_a_time:
  assumes "sessions_inv ps s"
  shows "case run_sched prof_thread sch (ps, s) of
      Some (ps', s') \<Rightarrow> (\<Sum>p \<leftarrow> ps'. in_session p) = (if lock_held s' then 1 else 0) \<and>
        clk_enabled s' = (if lock_held s' then 1 else 0) - int (clk_refused s') \<and> shm_live s' = []
    | None \<Rightarrow> \<exists>pre i post ps' s' d q reqs e. sch = pre @ i # post \<and>
        run_sched prof_thread pre (ps, s) = Some (ps', s') \<and> i < length ps' \<and>
        ps' ! i = Prof_opened ((d, q) # reqs) e \<and> may_crash d q s'"
proof (cases "run_sched prof_thread sch (ps, s)")
  case None
  from run_crash [OF this] obtain pre i post ps' s' where c: "sch = pre @ i # post"
    "run_sched prof_thread pre (ps, s) = Some (ps', s')" "i < length ps'" "prof_thread (ps' ! i) s' = None"
    by blast
  have "sessions_inv ps' s'" by (rule sessions.run_safe [OF assms c(2)])
  then have "prof_inv s'" "good_env (ps' ! i)" using c(3) by (simp_all add: sessions_inv_def)
  from prof_thread_crash [OF this c(4)] c(1-3) show ?thesis unfolding None option.case by blast
next
  case (Some c)
  then show ?thesis
    using sessions.run_safe [OF assms, of sch "fst c" "snd c"]
    by (cases c) (simp add: sessions_inv_def prof_inv_def)
qed

section \<open>The stop that comes too late\<close>

text \<open>One process releases the device; before it sends its stop command another opens the device and
  starts a measurement. The stop command of the first ends the measurement of the second.\<close>

definition start_request :: prof_request where
  "start_request = PROFILER_IOCTL_GET_BW_INFO \<lparr>req_cmd = TZ_BW_SVC_START_ID, bwEnableFlags = 1\<rparr>"

lemma late_stop:
  "\<exists>s'. run_sched prof_thread [0, 0, 1, 1, 0]
       ([Prof_closed prof_example [] prof_example, Prof_closed prof_example [(prof_example, start_request)] prof_example], prof_init)
       = Some ([Prof_ended 0, Prof_opened [] prof_example], s')
     \<and> lock_held s' \<and> map tz_cmd (tz_log s') = [TZ_BW_SVC_START_ID, TZ_BW_SVC_STOP_ID]"
  by (simp add: start_request_def prof_example_def prof_init_def profiler_open_def release_device_def
      release_stop_def profiler_get_bw_info_def bw_profiling_start_def bw_profiling_stop_def
      bw_profiling_command_def qtee_shmbridge_allocate_shm_def qtee_shmbridge_free_shm_def zeroed_buf_def
      Let_def TZ_BW_SVC_START_ID_def TZ_BW_SVC_STOP_ID_def TZ_BW_SVC_GET_ID_def)

theorem one_session_at_a_time_witness:
  "\<exists>ps' s'. run_sched prof_thread [0, 0, 1, 1, 0]
       ([Prof_closed prof_example [] prof_example,
         Prof_closed prof_example [(prof_example, start_request)] prof_example], prof_init)
       = Some (ps', s') \<and> clk_enabled s' = (if lock_held s' then 1 else 0) - int (clk_refused s') \<and>
         shm_live s' = []"
proof -
  let ?ps = "[Prof_closed prof_example [] prof_example,
    Prof_closed prof_example [(prof_example, start_request)] prof_example]"
  have "sessions_inv ?ps prof_init"
    by (simp add: sessions_inv_def prof_inv_def prof_init_def prof_example_shm)
  note safe = one_session_at_a_time [OF this, of "[0, 0, 1, 1, 0]"]
  obtain s' where "run_sched prof_thread [0, 0, 1, 1, 0] (?ps, prof_init) =
      Some ([Prof_ended 0, Prof_opened [] prof_example], s')"
    using late_stop by blast
  with safe show ?thesis by (auto simp del: run_sched.simps)
qed

end
