(* ===== verification/SmmuAccess.thy ===== *)
theory SmmuAccess
  imports SmmuRegs Interleave
begin

text \<open>
  Model of the inline functions of \<open>drivers/arm-smmu.h\<close>: the addresses of the register pages, the
  register accessors with the hooks of an implementation, the control words of the second
  translation stage, and the lock-free allocator of context banks and stream entries,
  \<open>__arm_smmu_alloc_bitmap\<close>. The relaxed reads and writes of the bus are a memory from addresses to
  bytes; a hook is a parameter that replaces the access.
\<close>

section \<open>Register pages\<close>

text \<open>What the accessors read of a device: the base address, the page size and how many pages
  the global registers take.\<close>

record smmu_window =
  sw_base :: ptr
  pgshift :: nat
  numpage :: nat

definition ARM_SMMU_GR0 :: nat where "ARM_SMMU_GR0 = 0"
definition ARM_SMMU_GR1 :: nat where "ARM_SMMU_GR1 = 1"

definition ARM_SMMU_CB :: "smmu_window \<Rightarrow> nat \<Rightarrow> nat" where
  "ARM_SMMU_CB smmu n = numpage smmu + n"

text \<open>The page number is an \<open>int\<close> of C: it is shifted in 32 bits and extended with its sign when it is
  added to the base.\<close>

definition arm_smmu_page :: "smmu_window \<Rightarrow> nat \<Rightarrow> ptr" where
  "arm_smmu_page smmu n = sw_base smmu + scast (push_bit (pgshift smmu) (of_nat n :: u32))"

definition reg_addr :: "smmu_window \<Rightarrow> nat \<Rightarrow> nat \<Rightarrow> ptr" where
  "reg_addr smmu page offset = arm_smmu_page smmu page + of_nat offset"

section \<open>Accessors\<close>

type_synonym iomem = "ptr \<Rightarrow> u8"

text \<open>Little-endian accesses of four and eight bytes, as the relaxed accessors of the bus make.\<close>

definition read_bytes :: "nat \<Rightarrow> iomem \<Rightarrow> ptr \<Rightarrow> nat" where
  "read_bytes n mem a = (\<Sum>i < n. unat (mem (a + of_nat i)) * 256 ^ i)"

definition write_bytes :: "nat \<Rightarrow> nat \<Rightarrow> ptr \<Rightarrow> iomem \<Rightarrow> iomem" where
  "write_bytes n v a mem =
     (\<lambda>b. if unat (b - a) < n then of_nat (v div 256 ^ unat (b - a)) else mem b)"

definition readl_relaxed :: "iomem \<Rightarrow> ptr \<Rightarrow> u32" where
  "readl_relaxed mem a = of_nat (read_bytes 4 mem a)"

definition readq_relaxed :: "iomem \<Rightarrow> ptr \<Rightarrow> u64" where
  "readq_relaxed mem a = of_nat (read_bytes 8 mem a)"

definition writel_relaxed :: "u32 \<Rightarrow> ptr \<Rightarrow> iomem \<Rightarrow> iomem" where
  "writel_relaxed v a mem = write_bytes 4 (unat v) a mem"

definition writeq_relaxed :: "u64 \<Rightarrow> ptr \<Rightarrow> iomem \<Rightarrow> iomem" where
  "writeq_relaxed v a mem = write_bytes 8 (unat v) a mem"

text \<open>The hooks of an implementation; each may be missing, and so may the implementation. The last one
  writes the control register of a bank, possibly with bits of its own.\<close>

record arm_smmu_impl =
  read_reg :: "(smmu_window \<Rightarrow> nat \<Rightarrow> nat \<Rightarrow> iomem \<Rightarrow> u32) option"
  write_reg :: "(smmu_window \<Rightarrow> nat \<Rightarrow> nat \<Rightarrow> u32 \<Rightarrow> iomem \<Rightarrow> iomem) option"
  read_reg64 :: "(smmu_window \<Rightarrow> nat \<Rightarrow> nat \<Rightarrow> iomem \<Rightarrow> u64) option"
  write_reg64 :: "(smmu_window \<Rightarrow> nat \<Rightarrow> nat \<Rightarrow> u64 \<Rightarrow> iomem \<Rightarrow> iomem) option"
  write_sctlr :: "(smmu_window \<Rightarrow> nat \<Rightarrow> u32 \<Rightarrow> iomem \<Rightarrow> iomem) option"

definition arm_smmu_readl :: "arm_smmu_impl option \<Rightarrow> smmu_window \<Rightarrow> nat \<Rightarrow> nat \<Rightarrow> iomem \<Rightarrow> u32" where
  "arm_smmu_readl impl smmu page offset mem =
     (case Option.bind impl read_reg of
        Some f \<Rightarrow> f smmu page offset mem
      | None \<Rightarrow> readl_relaxed mem (reg_addr smmu page offset))"

definition arm_smmu_writel ::
  "arm_smmu_impl option \<Rightarrow> smmu_window \<Rightarrow> nat \<Rightarrow> nat \<Rightarrow> u32 \<Rightarrow> iomem \<Rightarrow> iomem" where
  "arm_smmu_writel impl smmu page offset val mem =
     (case Option.bind impl write_reg of
        Some f \<Rightarrow> f smmu page offset val mem
      | None \<Rightarrow> writel_relaxed val (reg_addr smmu page offset) mem)"

definition arm_smmu_readq :: "arm_smmu_impl option \<Rightarrow> smmu_window \<Rightarrow> nat \<Rightarrow> nat \<Rightarrow> iomem \<Rightarrow> u64" where
  "arm_smmu_readq impl smmu page offset mem =
     (case Option.bind impl read_reg64 of
        Some f \<Rightarrow> f smmu page offset mem
      | None \<Rightarrow> readq_relaxed mem (reg_addr smmu page offset))"

definition arm_smmu_writeq ::
  "arm_smmu_impl option \<Rightarrow> smmu_window \<Rightarrow> nat \<Rightarrow> nat \<Rightarrow> u64 \<Rightarrow> iomem \<Rightarrow> iomem" where
  "arm_smmu_writeq impl smmu page offset val mem =
     (case Option.bind impl write_reg64 of
        Some f \<Rightarrow> f smmu page offset val mem
      | None \<Rightarrow> writeq_relaxed val (reg_addr smmu page offset) mem)"

text \<open>The named accessors of the global and context-bank registers.\<close>

definition arm_smmu_gr0_read :: "arm_smmu_impl option \<Rightarrow> smmu_window \<Rightarrow> nat \<Rightarrow> iomem \<Rightarrow> u32" where
  "arm_smmu_gr0_read impl s off = arm_smmu_readl impl s ARM_SMMU_GR0 off"

definition arm_smmu_gr0_write :: "arm_smmu_impl option \<Rightarrow> smmu_window \<Rightarrow> nat \<Rightarrow> u32 \<Rightarrow> iomem \<Rightarrow> iomem" where
  "arm_smmu_gr0_write impl s off v = arm_smmu_writel impl s ARM_SMMU_GR0 off v"

definition arm_smmu_gr1_read :: "arm_smmu_impl option \<Rightarrow> smmu_window \<Rightarrow> nat \<Rightarrow> iomem \<Rightarrow> u32" where
  "arm_smmu_gr1_read impl s off = arm_smmu_readl impl s ARM_SMMU_GR1 off"

definition arm_smmu_gr1_write :: "arm_smmu_impl option \<Rightarrow> smmu_window \<Rightarrow> nat \<Rightarrow> u32 \<Rightarrow> iomem \<Rightarrow> iomem" where
  "arm_smmu_gr1_write impl s off v = arm_smmu_writel impl s ARM_SMMU_GR1 off v"

definition arm_smmu_cb_write ::
  "arm_smmu_impl option \<Rightarrow> smmu_window \<Rightarrow> nat \<Rightarrow> nat \<Rightarrow> u32 \<Rightarrow> iomem \<Rightarrow> iomem" where
  "arm_smmu_cb_write impl s n off v = arm_smmu_writel impl s (ARM_SMMU_CB s n) off v"

definition arm_smmu_cb_writeq ::
  "arm_smmu_impl option \<Rightarrow> smmu_window \<Rightarrow> nat \<Rightarrow> nat \<Rightarrow> u64 \<Rightarrow> iomem \<Rightarrow> iomem" where
  "arm_smmu_cb_writeq impl s n off v = arm_smmu_writeq impl s (ARM_SMMU_CB s n) off v"

definition arm_smmu_cb_read ::
  "arm_smmu_impl option \<Rightarrow> smmu_window \<Rightarrow> nat \<Rightarrow> nat \<Rightarrow> iomem \<Rightarrow> u32" where
  "arm_smmu_cb_read impl s n off = arm_smmu_readl impl s (ARM_SMMU_CB s n) off"

definition arm_smmu_cb_readq ::
  "arm_smmu_impl option \<Rightarrow> smmu_window \<Rightarrow> nat \<Rightarrow> nat \<Rightarrow> iomem \<Rightarrow> u64" where
  "arm_smmu_cb_readq impl s n off = arm_smmu_readq impl s (ARM_SMMU_CB s n) off"

text \<open>The log of register writes of the context-bank code, carried out on one device. Calling the
  hook for the control register when it is missing crashes.\<close>

fun bus_write :: "arm_smmu_impl option \<Rightarrow> smmu_window \<Rightarrow> reg_write \<Rightarrow> iomem \<Rightarrow> iomem option" where
  "bus_write impl s (Gr1Write d off v) mem = Some (arm_smmu_gr1_write impl s off v mem)"
| "bus_write impl s (CbWrite d n off v) mem = Some (arm_smmu_cb_write impl s n off v mem)"
| "bus_write impl s (CbWriteq d n off v) mem = Some (arm_smmu_cb_writeq impl s n off v mem)"
| "bus_write impl s (WriteSctlr d n v) mem =
     map_option (\<lambda>f. f s n v mem) (Option.bind impl write_sctlr)"

fun bus_writes :: "arm_smmu_impl option \<Rightarrow> smmu_window \<Rightarrow> reg_write list \<Rightarrow> iomem \<Rightarrow> iomem option" where
  "bus_writes impl s [] mem = Some mem"
| "bus_writes impl s (r # rs) mem = Option.bind (bus_write impl s r mem) (bus_writes impl s rs)"

text \<open>An implementation whose only hook for registers is \<open>write_sctlr\<close>, writing \<open>g n v\<close> to the control
  register of bank \<open>n\<close> when asked to write \<open>v\<close>.\<close>

definition sctlr_hook :: "(nat \<Rightarrow> u32 \<Rightarrow> u32) \<Rightarrow> arm_smmu_impl \<Rightarrow> bool" where
  "sctlr_hook g i \<longleftrightarrow> read_reg i = None \<and> write_reg i = None \<and> read_reg64 i = None \<and> write_reg64 i = None
     \<and> write_sctlr i = Some (\<lambda>s n v. arm_smmu_cb_write (Some i) s n ARM_SMMU_CB_SCTLR (g n v))"

section \<open>The window of a device\<close>

text \<open>Pages of at least 4 KB, the two global pages among the first \<open>numpage\<close>, then room for the
  128 context banks the driver supports, all inside the address space and within the 2 GB that the
  shift of \<open>arm_smmu_page\<close> reaches without an overflow.\<close>

definition ARM_SMMU_MAX_CBS :: nat where "ARM_SMMU_MAX_CBS = 128"

definition window_ok :: "smmu_window \<Rightarrow> bool" where
  "window_ok s \<longleftrightarrow> 12 \<le> pgshift s \<and> 2 \<le> numpage s
     \<and> (numpage s + ARM_SMMU_MAX_CBS) * 2 ^ pgshift s \<le> 2147483648
     \<and> unat (sw_base s) + (numpage s + ARM_SMMU_MAX_CBS) * 2 ^ pgshift s \<le> 18446744073709551616"

definition reg_in :: "smmu_window \<Rightarrow> nat \<Rightarrow> nat \<Rightarrow> nat \<Rightarrow> bool" where
  "reg_in s page off n \<longleftrightarrow> page < numpage s + ARM_SMMU_MAX_CBS \<and> off + n \<le> 2 ^ pgshift s"

lemma page_in_window:
  assumes "window_ok s" "page < numpage s + ARM_SMMU_MAX_CBS"
  shows "unat (sw_base s) + page * 2 ^ pgshift s + 2 ^ pgshift s \<le> 18446744073709551616"
    and "page * 2 ^ pgshift s < 2147483648"
proof -
  have "Suc page * 2 ^ pgshift s \<le> (numpage s + ARM_SMMU_MAX_CBS) * 2 ^ pgshift s"
    using assms(2) by (intro mult_right_mono) simp_all
  moreover have "0 < (2 :: nat) ^ pgshift s" by simp
  ultimately show "unat (sw_base s) + page * 2 ^ pgshift s + 2 ^ pgshift s \<le> 18446744073709551616"
    and "page * 2 ^ pgshift s < 2147483648"
    using assms(1) unfolding window_ok_def mult_Suc by linarith+
qed

lemma scast_small: "n < 2147483648 \<Longrightarrow> scast (of_nat n :: u32) = (of_nat n :: u64)"
  by (simp add: signed_of_nat signed_take_bit_int_eq_self)

lemma page_addr:
  assumes "window_ok s" "page < numpage s + ARM_SMMU_MAX_CBS"
  shows "arm_smmu_page s page = sw_base s + of_nat (page * 2 ^ pgshift s)"
proof -
  have "push_bit (pgshift s) (of_nat page :: u32) = of_nat (page * 2 ^ pgshift s)"
    by (simp add: push_bit_eq_mult)
  then show ?thesis
    unfolding arm_smmu_page_def by (simp only: scast_small [OF page_in_window(2) [OF assms]])
qed

text \<open>A window of 2 GB or more: the address of a page in its upper part lies below the base.\<close>

lemma page_overflows:
  "arm_smmu_page \<lparr>sw_base = 0x100000000, pgshift = 16, numpage = 32768\<rparr> 32768 = 0x80000000"
  by (simp add: arm_smmu_page_def)

lemma unat_reg_addr:
  assumes "window_ok s" "reg_in s page off n" "0 < n"
  shows "unat (reg_addr s page off) = unat (sw_base s) + page * 2 ^ pgshift s + off"
proof -
  have lt: "unat (sw_base s) + (page * 2 ^ pgshift s + off) < 18446744073709551616"
    using page_in_window(1) [OF assms(1), of page] assms(2,3) by (simp add: reg_in_def)
  have u: "unat (of_nat (page * 2 ^ pgshift s + off) :: u64) = page * 2 ^ pgshift s + off"
    using lt by (simp add: unat_of_nat del: of_nat_add of_nat_mult)
  have "reg_addr s page off = sw_base s + of_nat (page * 2 ^ pgshift s + off)"
    using assms(2) by (simp add: reg_addr_def page_addr [OF assms(1)] reg_in_def add.assoc)
  then show ?thesis
    using lt u by (simp add: unat_add_u64 del: of_nat_add of_nat_mult)
qed

section \<open>Bytes\<close>

lemma in_access:
  assumes "unat a + n \<le> 18446744073709551616"
  shows "unat (b - a :: u64) < n \<longleftrightarrow> unat a \<le> unat b \<and> unat b < unat a + n"
  using assms unat_u64_bound [of a] by (auto simp: unat_sub_if')

lemma access_offset:
  assumes "unat (a :: u64) + n \<le> 18446744073709551616" "i < n"
  shows "unat (a + of_nat i) = unat a + i"
proof -
  have "unat (of_nat i :: u64) = i" using assms by (simp add: unat_of_nat)
  with assms show ?thesis by (simp add: unat_add_u64)
qed

lemma digits: "(\<Sum>i < n. unat (of_nat (v div 256 ^ i) :: u8) * 256 ^ i) = v mod 256 ^ n"
proof (induction n)
  case (Suc n)
  have "v mod 256 ^ Suc n = v mod (256 ^ n * 256)" by (simp add: mult.commute)
  also have "\<dots> = 256 ^ n * (v div 256 ^ n mod 256) + v mod 256 ^ n" by (rule mod_mult2_eq)
  finally show ?case using Suc by (simp add: unat_of_nat)
qed simp

lemma read_write_same:
  assumes "unat a + n \<le> 18446744073709551616"
  shows "read_bytes n (write_bytes n v a mem) a = v mod 256 ^ n"
proof -
  have "unat (of_nat i :: u64) = i" if "i < n" for i
    using that assms by (simp add: unat_of_nat)
  then have "read_bytes n (write_bytes n v a mem) a
      = (\<Sum>i < n. unat (of_nat (v div 256 ^ i) :: u8) * 256 ^ i)"
    unfolding read_bytes_def write_bytes_def by (intro sum.cong) auto
  then show ?thesis by (simp only: digits)
qed

lemma write_other:
  assumes "unat a + n \<le> 18446744073709551616" "unat b < unat a \<or> unat a + n \<le> unat b"
  shows "write_bytes n v a mem b = mem b"
  using in_access [OF assms(1), of b] assms(2) by (auto simp: write_bytes_def)

lemma read_other:
  assumes "unat a + n \<le> 18446744073709551616" "unat b + m \<le> 18446744073709551616"
    and "unat b + m \<le> unat a \<or> unat a + n \<le> unat b"
  shows "read_bytes m (write_bytes n v a mem) b = read_bytes m mem b"
  unfolding read_bytes_def
  using assms by (intro sum.cong refl arg_cong2 [where f = "(*)"] arg_cong [where f = unat] write_other)
    (auto simp: access_offset)

section \<open>Registers\<close>

text \<open>A register of \<open>n\<close> bytes read after a write of the same register, or of another one.\<close>

definition reg_val :: "smmu_window \<Rightarrow> nat \<Rightarrow> nat \<Rightarrow> nat \<Rightarrow> iomem \<Rightarrow> nat" where
  "reg_val s page off n mem = read_bytes n mem (reg_addr s page off)"

definition reg_put :: "smmu_window \<Rightarrow> nat \<Rightarrow> nat \<Rightarrow> nat \<Rightarrow> nat \<Rightarrow> iomem \<Rightarrow> iomem" where
  "reg_put s page off n v = write_bytes n v (reg_addr s page off)"

lemma reg_end:
  assumes "window_ok s" "reg_in s page off n" "0 < n"
  shows "unat (reg_addr s page off) + n \<le> unat (sw_base s) + page * 2 ^ pgshift s + 2 ^ pgshift s"
    and "unat (reg_addr s page off) + n \<le> 18446744073709551616"
  using unat_reg_addr [OF assms] page_in_window(1) [OF assms(1), of page] assms(2)
  by (simp_all add: reg_in_def)

lemma reg_val_same:
  assumes "window_ok s" "reg_in s page off n" "0 < n"
  shows "reg_val s page off n (reg_put s page off n v mem) = v mod 256 ^ n"
  unfolding reg_val_def reg_put_def by (rule read_write_same [OF reg_end(2) [OF assms]])

lemma reg_val_other:
  assumes w: "window_ok s" and r: "reg_in s page off n" "0 < n" "reg_in s page' off' m" "0 < m"
    and "page \<noteq> page' \<or> off + n \<le> off' \<or> off' + m \<le> off"
  shows "reg_val s page off n (reg_put s page' off' m v mem) = reg_val s page off n mem"
proof -
  have pages: "unat (reg_addr s p o1) + k \<le> unat (reg_addr s q o2)"
    if "reg_in s p o1 k" "reg_in s q o2 l" "0 < k" "0 < l" "p < q" for p q o1 o2 k l
  proof -
    have "Suc p * 2 ^ pgshift s \<le> q * 2 ^ pgshift s" using that(5) by (intro mult_right_mono) simp_all
    with reg_end(1) [OF w that(1,3)] unat_reg_addr [OF w that(2,4)] show ?thesis by simp
  qed
  have "unat (reg_addr s page off) + n \<le> unat (reg_addr s page' off')
      \<or> unat (reg_addr s page' off') + m \<le> unat (reg_addr s page off)"
  proof (cases "page = page'")
    case True
    with assms(6) unat_reg_addr [OF w r(1,2)] unat_reg_addr [OF w r(3,4)] show ?thesis by auto
  next
    case False
    then consider "page < page'" | "page' < page" by linarith
    then show ?thesis using pages r by cases blast+
  qed
  then show ?thesis
    unfolding reg_val_def reg_put_def
    by (intro read_other reg_end(2) [OF w]) (use r in auto)
qed

text \<open>The log without the hooks: plain writes of registers.\<close>

fun bus_put :: "(nat \<Rightarrow> u32 \<Rightarrow> u32) \<Rightarrow> smmu_window \<Rightarrow> reg_write \<Rightarrow> iomem \<Rightarrow> iomem" where
  "bus_put g s (Gr1Write d off v) = reg_put s ARM_SMMU_GR1 off 4 (unat v)"
| "bus_put g s (CbWrite d i off v) = reg_put s (ARM_SMMU_CB s i) off 4 (unat v)"
| "bus_put g s (CbWriteq d i off q) = reg_put s (ARM_SMMU_CB s i) off 8 (unat q)"
| "bus_put g s (WriteSctlr d i v) = reg_put s (ARM_SMMU_CB s i) ARM_SMMU_CB_SCTLR 4 (unat (g i v))"

lemma bus_write_put: "sctlr_hook g i \<Longrightarrow> bus_write (Some i) s r mem = Some (bus_put g s r mem)"
  by (cases r) (simp_all add: sctlr_hook_def reg_put_def arm_smmu_gr1_write_def arm_smmu_cb_write_def
      arm_smmu_cb_writeq_def arm_smmu_writel_def arm_smmu_writeq_def writel_relaxed_def writeq_relaxed_def)

lemma bus_writes_put:
  "sctlr_hook g i \<Longrightarrow> bus_writes (Some i) s rs mem = Some (fold (bus_put g s) rs mem)"
  by (induction rs arbitrary: mem) (simp_all add: bus_write_put)

lemma cb_read_val:
  assumes "sctlr_hook g j"
  shows "arm_smmu_cb_read (Some j) s i off mem = of_nat (reg_val s (ARM_SMMU_CB s i) off 4 mem)"
    and "arm_smmu_cb_readq (Some j) s i off mem = of_nat (reg_val s (ARM_SMMU_CB s i) off 8 mem)"
  using assms
  by (simp_all add: sctlr_hook_def reg_val_def arm_smmu_cb_read_def arm_smmu_cb_readq_def arm_smmu_readl_def
      arm_smmu_readq_def readl_relaxed_def readq_relaxed_def)

text \<open>The writes of one programming of a bank.\<close>

definition bank_writes :: "ptr \<Rightarrow> nat \<Rightarrow> 'a smmu_st_scheme \<Rightarrow> reg_write list" where
  "bank_writes smmu idx s =
     drop (length (reg_writes s)) (reg_writes (kiumd_smmuv2_write_context_bank smmu idx s))"

lemma bank_writes_eq:
  "bank_writes smmu idx s =
     (let cb = cbs (smmus s smmu) idx; cfg = cb_cfg cb; stage1 = (cbar cfg \<noteq> CBAR_TYPE_S2_TRANS) in
      [Gr1Write smmu (ARM_SMMU_GR1_CBA2R idx) (if fmt cfg = ARM_SMMU_CTX_FMT_AARCH64 then BIT_U32 0 else 0),
       Gr1Write smmu (ARM_SMMU_GR1_CBAR idx) (cbar_value (feat_vmid16 (smmus s smmu)) cfg)]
      @ (if stage1 then [CbWrite smmu idx ARM_SMMU_CB_TCR2 (cb_tcr1 cb)] else [])
      @ [CbWrite smmu idx ARM_SMMU_CB_TCR (cb_tcr0 cb), CbWriteq smmu idx ARM_SMMU_CB_TTBR0 (cb_ttbr0 cb)]
      @ (if stage1 then [CbWriteq smmu idx ARM_SMMU_CB_TTBR1 (cb_ttbr1 cb)] else [])
      @ [CbWrite smmu idx ARM_SMMU_CB_S1_MAIR0 (cb_mair0 cb), CbWrite smmu idx ARM_SMMU_CB_S1_MAIR1 (cb_mair1 cb),
         WriteSctlr smmu idx SCTLR_value])"
  by (simp add: bank_writes_def kiumd_smmuv2_write_context_bank_def Let_def)

lemma reg_in_cb:
  assumes "window_ok s" "i < ARM_SMMU_MAX_CBS" "off + n \<le> 4096"
  shows "reg_in s (ARM_SMMU_CB s i) off n"
proof -
  have "(2 :: nat) ^ 12 \<le> 2 ^ pgshift s" using assms(1) by (intro power_increasing) (auto simp: window_ok_def)
  with assms(2,3) show ?thesis by (simp add: reg_in_def ARM_SMMU_CB_def)
qed

lemma reg_in_gr1:
  assumes "window_ok s" "off + n \<le> 4096"
  shows "reg_in s ARM_SMMU_GR1 off n"
proof -
  have "(2 :: nat) ^ 12 \<le> 2 ^ pgshift s" using assms(1) by (intro power_increasing) (auto simp: window_ok_def)
  with assms show ?thesis by (simp add: reg_in_def ARM_SMMU_GR1_def window_ok_def)
qed

lemma cb_not_gr1: "window_ok s \<Longrightarrow> ARM_SMMU_CB s i \<noteq> ARM_SMMU_GR1"
  by (simp add: ARM_SMMU_CB_def ARM_SMMU_GR1_def window_ok_def)

text \<open>What one programming of bank \<open>idx\<close> leaves on the bus.\<close>

lemmas bank_bus = bank_writes_eq Let_def

lemma bank_other:
  assumes w: "window_ok s" and idx: "idx < ARM_SMMU_MAX_CBS"
    and page: "page \<noteq> ARM_SMMU_GR1" "page \<noteq> ARM_SMMU_CB s idx" and r: "reg_in s page off n" "0 < n"
  shows "reg_val s page off n (fold (bus_put g s) (bank_writes smmu idx st) mem) = reg_val s page off n mem"
proof -
  have gr1: "reg_in s ARM_SMMU_GR1 (idx * 4) 4" "reg_in s ARM_SMMU_GR1 (0x800 + idx * 4) 4"
    using idx by (auto intro!: reg_in_gr1 [OF w] simp: ARM_SMMU_MAX_CBS_def)
  note other = reg_val_other [OF w r]
  show ?thesis using gr1 reg_in_cb [OF w idx] page by (simp add: bank_bus other)
qed

lemma bank_gr1_other:
  assumes w: "window_ok s" and idx: "idx < ARM_SMMU_MAX_CBS"
    and other: "off + n \<le> 4096" "0 < n" "off + n \<le> idx * 4 \<or> idx * 4 + 4 \<le> off"
      "off + n \<le> 0x800 + idx * 4 \<or> 0x800 + idx * 4 + 4 \<le> off"
  shows "reg_val s ARM_SMMU_GR1 off n (fold (bus_put g s) (bank_writes smmu idx st) mem)
           = reg_val s ARM_SMMU_GR1 off n mem"
proof -
  have gr1: "reg_in s ARM_SMMU_GR1 (idx * 4) 4" "reg_in s ARM_SMMU_GR1 (0x800 + idx * 4) 4"
    using idx by (auto intro!: reg_in_gr1 [OF w] simp: ARM_SMMU_MAX_CBS_def)
  note o = reg_val_other [OF w reg_in_gr1 [OF w other(1)] other(2)]
  show ?thesis
    using gr1 reg_in_cb [OF w idx] cb_not_gr1 [OF w, of idx] other(3,4) by (simp add: bank_bus o)
qed

text \<open>The registers of the programmed bank.\<close>

definition bank_on_bus ::
  "(nat \<Rightarrow> u32 \<Rightarrow> u32) \<Rightarrow> arm_smmu_impl \<Rightarrow> smmu_window \<Rightarrow> nat \<Rightarrow> arm_smmu_cb \<Rightarrow> iomem \<Rightarrow> bool" where
  "bank_on_bus g i s idx cb mem \<longleftrightarrow>
     arm_smmu_cb_read (Some i) s idx ARM_SMMU_CB_TCR mem = cb_tcr0 cb
     \<and> arm_smmu_cb_readq (Some i) s idx ARM_SMMU_CB_TTBR0 mem = cb_ttbr0 cb
     \<and> arm_smmu_cb_read (Some i) s idx ARM_SMMU_CB_S1_MAIR0 mem = cb_mair0 cb
     \<and> arm_smmu_cb_read (Some i) s idx ARM_SMMU_CB_S1_MAIR1 mem = cb_mair1 cb
     \<and> arm_smmu_cb_read (Some i) s idx ARM_SMMU_CB_SCTLR mem = g idx SCTLR_value
     \<and> (cbar (cb_cfg cb) \<noteq> CBAR_TYPE_S2_TRANS \<longrightarrow>
          arm_smmu_cb_read (Some i) s idx ARM_SMMU_CB_TCR2 mem = cb_tcr1 cb
          \<and> arm_smmu_cb_readq (Some i) s idx ARM_SMMU_CB_TTBR1 mem = cb_ttbr1 cb)"

lemma of_nat_unat_mod [simp]:
  "(of_nat (unat (v :: u32) mod 4294967296) :: u32) = v"
  "(of_nat (unat (q :: u64) mod 18446744073709551616) :: u64) = q"
  by simp_all

lemma bank_programs_bus:
  assumes w: "window_ok s" and idx: "idx < ARM_SMMU_MAX_CBS" and hook: "sctlr_hook g i"
  shows "bank_on_bus g i s idx (cbs (smmus st smmu) idx) (fold (bus_put g s) (bank_writes smmu idx st) mem)"
proof -
  note cb = reg_in_cb [OF w idx]
  note same = reg_val_same [OF w cb] and other = reg_val_other [OF w cb]
  show ?thesis
    using cb by (simp add: bank_on_bus_def bank_bus cb_read_val [OF hook] same other)
qed

section \<open>Control words\<close>

text \<open>The parameters of a stage-2 table; the second control word takes only the address size.\<close>

record lpae_vtcr =
  v_ps :: u32
  v_tg :: u32
  v_sh :: u32
  v_orgn :: u32
  v_irgn :: u32
  v_sl :: u32
  v_tsz :: u32

definition ARM_SMMU_TCR2_SEP_UPSTREAM :: u32 where "ARM_SMMU_TCR2_SEP_UPSTREAM = 0x7"

definition arm_smmu_lpae_tcr2 :: "u32 \<Rightarrow> u32" where
  "arm_smmu_lpae_tcr2 ips = FIELD_PREP 3 0 ips OR FIELD_PREP 17 15 ARM_SMMU_TCR2_SEP_UPSTREAM"

definition arm_smmu_lpae_vtcr :: "lpae_vtcr \<Rightarrow> u32" where
  "arm_smmu_lpae_vtcr v =
     BIT_U32 31 OR FIELD_PREP 18 16 (v_ps v) OR FIELD_PREP 15 14 (v_tg v) OR FIELD_PREP 13 12 (v_sh v)
     OR FIELD_PREP 11 10 (v_orgn v) OR FIELD_PREP 9 8 (v_irgn v) OR FIELD_PREP 7 6 (v_sl v)
     OR FIELD_PREP 5 0 (v_tsz v)"

lemma bit_upstream: "bit ARM_SMMU_TCR2_SEP_UPSTREAM n \<longleftrightarrow> n < 3"
proof -
  have up: "ARM_SMMU_TCR2_SEP_UPSTREAM = mask 3"
    by (simp add: ARM_SMMU_TCR2_SEP_UPSTREAM_def mask_eq_exp_minus_1)
  show ?thesis unfolding up bit_mask_iff by auto
qed

lemma lpae_tcr2_fields:
  "FIELD_GET 3 0 (arm_smmu_lpae_tcr2 ips) = take_bit 4 ips"
  "FIELD_GET 17 15 (arm_smmu_lpae_tcr2 ips) = ARM_SMMU_TCR2_SEP_UPSTREAM"
  by (rule bit_word_eqI, auto simp: arm_smmu_lpae_tcr2_def bit_upstream bit_take_bit_iff bit_or_iff)+

lemma lpae_vtcr_fields:
  "let r = arm_smmu_lpae_vtcr v in
     FIELD_GET 5 0 r = take_bit 6 (v_tsz v) \<and> FIELD_GET 7 6 r = take_bit 2 (v_sl v)
     \<and> FIELD_GET 9 8 r = take_bit 2 (v_irgn v) \<and> FIELD_GET 11 10 r = take_bit 2 (v_orgn v)
     \<and> FIELD_GET 13 12 r = take_bit 2 (v_sh v) \<and> FIELD_GET 15 14 r = take_bit 2 (v_tg v)
     \<and> FIELD_GET 18 16 r = take_bit 3 (v_ps v) \<and> bit r 31"
  by (auto simp: Let_def arm_smmu_lpae_vtcr_def bit_simps intro!: bit_word_eqI)

section \<open>The lock-free allocator\<close>

text \<open>\<open>__arm_smmu_alloc_bitmap\<close> takes no lock: it looks for a clear bit and then sets it with one
  atomic instruction, which tells it whether another caller was first; then it looks again. A
  call is a thread of two kinds of steps, and the bitmap is the set of its set bits.\<close>

function find_next_zero_bit :: "nat set \<Rightarrow> nat \<Rightarrow> nat \<Rightarrow> nat" where
  "find_next_zero_bit m e st =
     (if st < e then (if st \<notin> m then st else find_next_zero_bit m e (Suc st)) else e)"
  by pat_completeness auto
termination
  by (relation "measure (\<lambda>(m, e, st). e - st)") auto

declare find_next_zero_bit.simps [simp del]

datatype slot_pc = Look nat nat | Try nat nat nat | Got nat nat int

fun slot_step :: "(slot_pc, nat set) thread_step" where
  "slot_step (Look st e) m =
     (let idx = find_next_zero_bit m e st in
      if idx = e then Some (Got st e (- ENOSPC), m) else Some (Try st e idx, m))"
| "slot_step (Try st e idx) m =
     (if idx \<in> m then Some (Look st e, m) else Some (Got st e (int idx), insert idx m))"
| "slot_step (Got st e r) m = Some (Got st e r, m)"

definition arm_smmu_alloc_bitmap :: "nat set \<Rightarrow> nat \<Rightarrow> nat \<Rightarrow> int \<times> nat set" where
  "arm_smmu_alloc_bitmap m st e =
     (let idx = find_next_zero_bit m e st in if idx = e then (- ENOSPC, m) else (int idx, insert idx m))"

lemma find_next_zero_bit_spec:
  "find_next_zero_bit m e st \<noteq> e \<Longrightarrow>
     st \<le> find_next_zero_bit m e st \<and> find_next_zero_bit m e st < e \<and> find_next_zero_bit m e st \<notin> m"
  "find_next_zero_bit m e st = e \<Longrightarrow> {st ..< e} \<subseteq> m"
proof (induction m e st rule: find_next_zero_bit.induct)
  case (1 m e st)
  note simps = find_next_zero_bit.simps [of m e st]
  { case 1
    with "1.IH"(1) simps show ?case by (auto split: if_splits)
  next
    case 2
    have "{st ..< e} \<subseteq> insert st {Suc st ..< e}" by auto
    with 2 "1.IH"(2) simps show ?case by (auto split: if_splits)
  }
qed

text \<open>Without another caller the loop runs once.\<close>

lemma alloc_alone:
  "run_sched slot_step [0, 0] ([Look st e], m)
     = (case arm_smmu_alloc_bitmap m st e of (r, m') \<Rightarrow> Some ([Got st e r], m'))"
  using find_next_zero_bit_spec(1) [of m e st]
  by (auto simp: arm_smmu_alloc_bitmap_def Let_def)

section \<open>Callers in any order\<close>

fun taken :: "slot_pc \<Rightarrow> nat set" where
  "taken (Got st e r) = (if 0 \<le> r then {nat r} else {})"
| "taken _ = {}"

fun range_of :: "slot_pc \<Rightarrow> nat \<times> nat" where
  "range_of (Look st e) = (st, e)"
| "range_of (Try st e idx) = (st, e)"
| "range_of (Got st e r) = (st, e)"

fun slot_ok :: "nat set \<Rightarrow> nat set \<Rightarrow> slot_pc \<Rightarrow> bool" where
  "slot_ok m0 m (Look st e) = True"
| "slot_ok m0 m (Try st e idx) = (st \<le> idx \<and> idx < e \<and> idx \<notin> m0)"
| "slot_ok m0 m (Got st e r) =
     (r = - ENOSPC \<and> {st ..< e} \<subseteq> m \<or> 0 \<le> r \<and> st \<le> nat r \<and> nat r < e \<and> nat r \<notin> m0)"

definition slots_inv :: "nat set \<Rightarrow> slot_pc list \<Rightarrow> nat set \<Rightarrow> bool" where
  "slots_inv m0 ps m \<longleftrightarrow>
     m = m0 \<union> (\<Union>i < length ps. taken (ps ! i)) \<and> (\<forall>p \<in> set ps. slot_ok m0 m p)
     \<and> (\<forall>i < length ps. \<forall>k < length ps. i \<noteq> k \<longrightarrow> taken (ps ! i) \<inter> taken (ps ! k) = {})"

lemma slot_ok_mono: "slot_ok m0 m p \<Longrightarrow> m \<subseteq> m' \<Longrightarrow> slot_ok m0 m' p"
  by (cases p) auto

lemma slots_keep:
  assumes "slots_inv m0 ps m" "i < length ps" "taken p' = taken (ps ! i)" "slot_ok m0 m p'"
  shows "slots_inv m0 (ps[i := p']) m"
proof -
  have t: "taken (ps[i := p'] ! k) = taken (ps ! k)" if "k < length ps" for k
    using assms(2,3) that by (cases "i = k") auto
  then have "(\<Union>k < length ps. taken (ps[i := p'] ! k)) = (\<Union>k < length ps. taken (ps ! k))" by auto
  moreover have "\<forall>q \<in> set (ps[i := p']). slot_ok m0 m q"
    using assms(1,4) by (intro list_update_all) (auto simp: slots_inv_def)
  ultimately show ?thesis using assms(1) t by (simp add: slots_inv_def)
qed

lemma slots_take:
  assumes inv: "slots_inv m0 ps m" and i: "i < length ps" "ps ! i = Try st e idx" and new: "idx \<notin> m"
  shows "slots_inv m0 (ps[i := Got st e (int idx)]) (insert idx m)"
proof -
  let ?ps = "ps[i := Got st e (int idx)]"
  have t: "taken (?ps ! k) = (if k = i then {idx} else taken (ps ! k))" if "k < length ps" for k
    using i(1) that by simp
  have old: "taken (ps ! i) = {}" using i(2) by simp
  have m: "m = m0 \<union> (\<Union>k < length ps. taken (ps ! k))" using inv by (simp add: slots_inv_def)
  have "(\<Union>k < length ps. taken (?ps ! k)) = insert idx (\<Union>k < length ps. taken (ps ! k))"
    using i(1) t old by (auto split: if_splits)
  moreover have "\<forall>q \<in> set ?ps. slot_ok m0 (insert idx m) q"
  proof (intro list_update_all)
    show "\<forall>q \<in> set ps. slot_ok m0 (insert idx m) q"
      using inv slot_ok_mono [of m0 m _ "insert idx m"] by (auto simp: slots_inv_def)
    have "slot_ok m0 m (ps ! i)" using inv i(1) unfolding slots_inv_def by (metis nth_mem)
    then show "slot_ok m0 (insert idx m) (Got st e (int idx))" using i(2) by simp
  qed
  moreover have "taken (?ps ! j) \<inter> taken (?ps ! k) = {}" if "j < length ps" "k < length ps" "j \<noteq> k" for j k
  proof -
    have "idx \<notin> taken (ps ! l)" if "l < length ps" for l using new m that by auto
    with inv that show ?thesis by (auto simp: t slots_inv_def)
  qed
  ultimately show ?thesis using m by (simp add: slots_inv_def)
qed

interpretation slots: thread_invariant slot_step "slots_inv m0" for m0
proof
  fix ps m i
  assume inv: "slots_inv m0 ps m" and i: "i < length ps"
  then have ok: "slot_ok m0 m (ps ! i)" and sub: "m0 \<subseteq> m" by (auto simp: slots_inv_def)
  show "\<exists>p' m'. slot_step (ps ! i) m = Some (p', m') \<and> slots_inv m0 (ps[i := p']) m'"
  proof (cases "ps ! i")
    case (Look st e)
    with find_next_zero_bit_spec [of m e st] sub show ?thesis
      by (auto simp: Let_def intro!: slots_keep [OF inv i])
  next
    case (Try st e idx)
    with slots_take [OF inv i Try] ok show ?thesis
      by (auto intro!: slots_keep [OF inv i])
  next
    case (Got st e r)
    with ok show ?thesis by (auto intro!: slots_keep [OF inv i])
  qed
qed

text \<open>A call loses the race for a bit only to a call that ends with it: the steps left to call
  \<open>j\<close> are bounded by the calls that have not ended.\<close>

fun pending :: "slot_pc \<Rightarrow> nat" where
  "pending (Got st e r) = 0"
| "pending _ = 1"

definition unfinished :: "slot_pc list \<Rightarrow> nat" where
  "unfinished ps = (\<Sum>p \<leftarrow> ps. pending p)"

fun handicap :: "nat set \<Rightarrow> slot_pc \<Rightarrow> int" where
  "handicap m (Look st e) = 0"
| "handicap m (Try st e idx) = (if idx \<in> m then 1 else - 1)"
| "handicap m (Got st e r) = 0"

definition steps_bound :: "nat \<Rightarrow> slot_pc list \<Rightarrow> nat set \<Rightarrow> int" where
  "steps_bound j ps m = 2 * int (unfinished ps) + handicap m (ps ! j)"

lemma unfinished_update:
  "i < length ps \<Longrightarrow> unfinished (ps[i := p']) + pending (ps ! i) = unfinished ps + pending p'"
  unfolding unfinished_def by (rule sum_update)

lemma pending_le: "i < length ps \<Longrightarrow> pending (ps ! i) \<le> unfinished ps"
  unfolding unfinished_def by (intro member_le_sum_list) auto

lemma not_pending: "pending p = 0 \<longleftrightarrow> (\<exists>st e r. p = Got st e r)"
  by (cases p) auto

lemma steps_bound_pos:
  assumes "j < length ps" "pending (ps ! j) \<noteq> 0"
  shows "0 < steps_bound j ps m"
  using pending_le [OF assms(1)] assms(2) unfolding steps_bound_def
  by (cases "ps ! j") auto

lemma steps_bound_step:
  assumes st: "slot_step (ps ! i) m = Some (p', m')" and i: "i < length ps" and j: "j < length ps"
    and run: "pending (ps ! j) \<noteq> 0" and own: "i = j \<Longrightarrow> pending p' \<noteq> 0"
  shows "steps_bound j (ps[i := p']) m' \<le> steps_bound j ps m - (if i = j then 1 else 0)"
proof (cases "i = j")
  case True
  with unfinished_update [OF i, of p'] st run own i find_next_zero_bit_spec show ?thesis
    unfolding steps_bound_def
    by (cases "ps ! i") (auto simp: Let_def split: if_splits)
next
  case False
  then have "ps[i := p'] ! j = ps ! j" by simp
  moreover have "handicap m' (ps ! j) \<le> handicap m (ps ! j) + 2 * (int (pending (ps ! i)) - int (pending p'))"
    using st by (cases "ps ! i"; cases "ps ! j") (auto simp: Let_def split: if_splits)
  ultimately show ?thesis
    using unfinished_update [OF i, of p'] False unfolding steps_bound_def by auto
qed

lemma slot_range_step: "slot_step p m = Some (p', m') \<Longrightarrow> range_of p' = range_of p"
  by (cases p) (auto simp: Let_def split: if_splits)

lemma slot_range_run:
  "run_sched slot_step sch (ps, m) = Some (ps', m') \<Longrightarrow> j < length ps \<Longrightarrow>
     range_of (ps' ! j) = range_of (ps ! j)"
  by (rule label_run [where label = range_of, rotated]) (auto dest: slot_range_step)

lemma got_stays:
  "run_sched slot_step sch (ps, m) = Some (ps', m') \<Longrightarrow> j < length ps \<Longrightarrow> pending (ps ! j) = 0 \<Longrightarrow>
     ps' ! j = ps ! j"
proof (induction sch arbitrary: ps m)
  case (Cons i sch)
  then show ?case by (cases "i = j") (auto simp: not_pending split: if_splits option.splits)
qed simp

lemma steps_bound_run:
  assumes "run_sched slot_step sch (ps, m) = Some (ps', m')" "j < length ps"
    and "pending (ps' ! j) \<noteq> 0"
  shows "int (count_list sch j) < steps_bound j ps m"
  using assms
proof (induction sch arbitrary: ps m)
  case Nil
  then show ?case using steps_bound_pos by simp
next
  case (Cons i sch)
  have run: "pending (ps ! j) \<noteq> 0"
    using got_stays [OF Cons.prems(1,2)] Cons.prems(3) by (cases "pending (ps ! j) = 0") auto
  show ?case
  proof (cases "i < length ps")
    case True
    with Cons.prems(1) obtain p' m1 where st: "slot_step (ps ! i) m = Some (p', m1)"
      and rest: "run_sched slot_step sch (ps[i := p'], m1) = Some (ps', m')" by (auto split: option.splits)
    have "pending p' \<noteq> 0" if "i = j"
      using got_stays [OF rest, of j] Cons.prems(2,3) that True by (cases "pending p' = 0") auto
    from steps_bound_step [OF st True Cons.prems(2) run this] Cons.IH [OF rest] Cons.prems(2,3)
    show ?thesis by (cases "i = j") auto
  next
    case False
    with Cons show ?thesis by auto
  qed
qed

lemma looks_inv: "\<forall>p \<in> set ps. \<exists>st e. p = Look st e \<Longrightarrow> slots_inv m ps m"
proof -
  assume looks: "\<forall>p \<in> set ps. \<exists>st e. p = Look st e"
  then have "taken p = {} \<and> slot_ok m m p" if "p \<in> set ps" for p
    using that by fastforce
  then have "\<forall>i < length ps. taken (ps ! i) = {}" "\<forall>p \<in> set ps. slot_ok m m p" by simp_all
  then show ?thesis unfolding slots_inv_def by auto
qed

lemma looks_bound:
  assumes "\<forall>p \<in> set ps. \<exists>st e. p = Look st e" "j < length ps"
  shows "steps_bound j ps m = 2 * int (length ps)"
proof -
  have "unfinished ps = length ps"
    using assms(1) unfolding unfinished_def by (induction ps) auto
  with assms show ?thesis by (auto simp: steps_bound_def dest!: nth_mem)
qed

text \<open>The result of call \<open>j\<close> against the bitmap at the start and at the end.\<close>

definition slot_result :: "nat set \<Rightarrow> nat set \<Rightarrow> slot_pc \<Rightarrow> bool" where
  "slot_result m m' p \<longleftrightarrow> (\<exists>st e r. p = Got st e r \<and>
     (if r = - ENOSPC then {st ..< e} \<subseteq> m'
      else 0 \<le> r \<and> st \<le> nat r \<and> nat r < e \<and> nat r \<notin> m \<and> nat r \<in> m'))"

lemma slot_result_intro:
  assumes "pending p = 0" "slot_ok m m' p" "taken p \<subseteq> m'"
  shows "slot_result m m' p"
proof -
  from assms(1) obtain st e r where got: "p = Got st e r" by (auto simp: not_pending)
  with assms(2,3) show ?thesis by (cases "r = - ENOSPC") (simp_all add: slot_result_def)
qed

lemma alloc_run:
  assumes "\<forall>p \<in> set ps. \<exists>st e. p = Look st e"
  shows "\<exists>ps' m'. run_sched slot_step sch (ps, m) = Some (ps', m') \<and> length ps' = length ps
     \<and> m' = m \<union> (\<Union>i < length ps. taken (ps' ! i))
     \<and> (\<forall>i < length ps. \<forall>k < length ps. i \<noteq> k \<longrightarrow> taken (ps' ! i) \<inter> taken (ps' ! k) = {})
     \<and> (\<forall>j < length ps. 2 * length ps \<le> count_list sch j \<longrightarrow> slot_result m m' (ps' ! j))"
proof -
  obtain ps' m' where
    run: "run_sched slot_step sch (ps, m) = Some (ps', m')" and inv: "slots_inv m ps' m'"
    and len: "length ps' = length ps"
    using slots.run_kept [OF looks_inv [OF assms], of sch] by blast
  have res: "slot_result m m' (ps' ! j)" if j: "j < length ps" and c: "2 * length ps \<le> count_list sch j" for j
  proof -
    have "int (2 * length ps) \<le> int (count_list sch j)" using c by (simp only: of_nat_le_iff)
    then have "\<not> int (count_list sch j) < steps_bound j ps m"
      by (simp add: looks_bound [OF assms j])
    with steps_bound_run [OF run j] have "pending (ps' ! j) = 0" by blast
    moreover have "ps' ! j \<in> set ps'" using j len by simp
    then have "slot_ok m m' (ps' ! j)" using inv unfolding slots_inv_def by (elim conjE bspec)
    moreover have "taken (ps' ! j) \<subseteq> m'"
      using inv j len unfolding slots_inv_def by (elim conjE) (simp, blast)
    ultimately show ?thesis by (intro slot_result_intro)
  qed
  have eq1: "m' = m \<union> (\<Union>i < length ps'. taken (ps' ! i))"
    using inv unfolding slots_inv_def by (elim conjE)
  have eq2: "\<forall>i < length ps'. \<forall>k < length ps'. i \<noteq> k \<longrightarrow> taken (ps' ! i) \<inter> taken (ps' ! k) = {}"
    using inv unfolding slots_inv_def by (elim conjE)
  show ?thesis
    by (intro exI conjI) (rule run, rule len, rule eq1 [unfolded len], rule eq2 [unfolded len],
      simp add: res)
qed

section \<open>Properties\<close>

text \<open>C17: The allocator of context banks hands every index out once. Let any number of callers run
  the loop of \<open>__arm_smmu_alloc_bitmap\<close> on one bitmap, each with its own range, without a lock.
  Under every schedule the bits set are the old ones and the indices returned, no two callers get
  the same index, and every caller returns within twice as many steps of its own as there are
  callers, however the others run: with a bit of its range that was clear, or with -ENOSPC when
  its whole range is in use.\<close>

theorem slots_handed_out_once:
  assumes "\<forall>p \<in> set ps. \<exists>st e. p = Look st e"
  shows "\<exists>ps' m'. run_sched slot_step sch (ps, m) = Some (ps', m') \<and> length ps' = length ps
     \<and> m' = m \<union> (\<Union>i < length ps. taken (ps' ! i))
     \<and> (\<forall>i < length ps. \<forall>k < length ps. i \<noteq> k \<longrightarrow> taken (ps' ! i) \<inter> taken (ps' ! k) = {})
     \<and> (\<forall>j < length ps. 2 * length ps \<le> count_list sch j \<longrightarrow> slot_result m m' (ps' ! j))"
  using assms by (rule alloc_run)

theorem slots_handed_out_once_witness:
  "\<exists>ps' m'. run_sched slot_step [0, 1, 0, 1, 1, 1, 0, 0] ([Look 0 2, Look 0 2], {0}) = Some (ps', m')
     \<and> slot_result {0} m' (ps' ! 0) \<and> slot_result {0} m' (ps' ! 1)"
proof -
  have "\<forall>p \<in> set [Look 0 2, Look 0 2]. \<exists>st e. p = Look st e" by simp
  from slots_handed_out_once [OF this, of "[0, 1, 0, 1, 1, 1, 0, 0]" "{0}"] show ?thesis by auto
qed

text \<open>C16: Programming a context bank reaches its registers and no others. Take a device whose register
  window is well-formed and at most 2 GB long (beyond that the 32-bit shift of \<open>arm_smmu_page\<close>
  overflows) and whose implementation has no access hooks but the one for the control
  register, which writes some function of the value it is given there, and a bank below the
  maximum. Carrying the writes of \<open>kiumd_smmuv2_write_context_bank\<close> out on the bus does not crash and
  makes every register of the bank read back as its shadow value, the control register as what the
  hook makes of the fixed value; every register of the first global page and of every other bank
  keeps its content, and so does every register of the second global page but the bank's own two
  attribute registers.\<close>

theorem bank_writes_reach_bank:
  assumes "window_ok w" "idx < ARM_SMMU_MAX_CBS" "sctlr_hook g i"
  shows "\<exists>mem'. bus_writes (Some i) w (bank_writes smmu idx s) mem = Some mem'
     \<and> bank_on_bus g i w idx (cbs (smmus s smmu) idx) mem'
     \<and> (\<forall>page off n. page \<noteq> 1 \<and> page \<noteq> numpage w + idx \<and> reg_in w page off n \<and> 0 < n \<longrightarrow>
          reg_val w page off n mem' = reg_val w page off n mem)
     \<and> (\<forall>off n. off + n \<le> 4096 \<and> 0 < n \<and> (off + n \<le> idx * 4 \<or> idx * 4 + 4 \<le> off)
          \<and> (off + n \<le> 0x800 + idx * 4 \<or> 0x800 + idx * 4 + 4 \<le> off) \<longrightarrow>
          reg_val w 1 off n mem' = reg_val w 1 off n mem)"
proof -
  note pages = ARM_SMMU_GR1_def ARM_SMMU_CB_def
  show ?thesis
    by (intro exI conjI allI impI; (elim conjE)?)
       (rule bus_writes_put [OF assms(3)], rule bank_programs_bus [OF assms],
        rule bank_other [OF assms(1,2), unfolded pages], (assumption+)?,
        rule bank_gr1_other [OF assms(1,2), unfolded pages], assumption+)
qed

definition example_window :: smmu_window where
  "example_window = \<lparr>sw_base = 0x15000000, pgshift = 12, numpage = 64\<rparr>"

text \<open>A hook that adds one bit of its own.\<close>

definition example_impl :: arm_smmu_impl where
  "example_impl = \<lparr>read_reg = None, write_reg = None, read_reg64 = None, write_reg64 = None,
     write_sctlr = Some (\<lambda>s n v. writel_relaxed (v OR BIT_U32 8) (reg_addr s (ARM_SMMU_CB s n) 0))\<rparr>"

lemma example_hook: "sctlr_hook (\<lambda>_ v. v OR BIT_U32 8) example_impl"
  by (simp add: sctlr_hook_def example_impl_def arm_smmu_cb_write_def arm_smmu_writel_def fun_eq_iff)

theorem bank_writes_reach_bank_witness:
  "\<exists>mem'. bus_writes (Some example_impl) example_window (bank_writes 0x800 1 example_smmu) (\<lambda>_. 0) = Some mem'
   \<and> arm_smmu_cb_readq (Some example_impl) example_window 1 ARM_SMMU_CB_TTBR0 mem'
     = cb_ttbr0 (cbs (smmus example_smmu 0x800) 1)
   \<and> arm_smmu_cb_read (Some example_impl) example_window 1 ARM_SMMU_CB_SCTLR mem' = SCTLR_value OR BIT_U32 8
   \<and> reg_val example_window (ARM_SMMU_CB example_window 2) 0x20 8 mem'
     = reg_val example_window (ARM_SMMU_CB example_window 2) 0x20 8 (\<lambda>_. 0)"
proof -
  have w: "window_ok example_window" "1 < ARM_SMMU_MAX_CBS"
    by (simp_all add: window_ok_def example_window_def ARM_SMMU_MAX_CBS_def)
  have r: "reg_in example_window (ARM_SMMU_CB example_window 2) 0x20 8"
    "ARM_SMMU_CB example_window 2 \<noteq> 1" "ARM_SMMU_CB example_window 2 \<noteq> numpage example_window + 1"
    by (simp_all add: reg_in_def ARM_SMMU_CB_def example_window_def ARM_SMMU_MAX_CBS_def ARM_SMMU_GR1_def)
  from bank_writes_reach_bank [OF w example_hook, where smmu = "0x800" and s = example_smmu and mem = "\<lambda>_. 0"]
  obtain mem' where
    run: "bus_writes (Some example_impl) example_window (bank_writes 0x800 1 example_smmu) (\<lambda>_. 0) = Some mem'"
    and on: "bank_on_bus (\<lambda>_ v. v OR BIT_U32 8) example_impl example_window 1 (cbs (smmus example_smmu 0x800) 1) mem'"
    and keep: "\<forall>page off n. page \<noteq> 1 \<and> page \<noteq> numpage example_window + 1 \<and> reg_in example_window page off n
      \<and> 0 < n \<longrightarrow> reg_val example_window page off n mem' = reg_val example_window page off n (\<lambda>_. 0)"
    by blast
  from on have "arm_smmu_cb_readq (Some example_impl) example_window 1 ARM_SMMU_CB_TTBR0 mem'
      = cb_ttbr0 (cbs (smmus example_smmu 0x800) 1)
    \<and> arm_smmu_cb_read (Some example_impl) example_window 1 ARM_SMMU_CB_SCTLR mem' = SCTLR_value OR BIT_U32 8"
    unfolding bank_on_bus_def by blast
  with run keep r show ?thesis by (intro exI [of _ mem']) simp
qed

text \<open>On a device without an implementation, or whose implementation lacks the hook, programming a
  bank crashes.\<close>

lemma missing_sctlr_hook:
  assumes "Option.bind impl write_sctlr = None"
  shows "bus_writes impl w (bank_writes smmu idx s) mem = None"
  by (simp add: bank_writes_eq Let_def assms)

end
