(* ===== verification/Spec2Isabelle.thy ===== *)
theory Spec2Isabelle
  imports KPrelude Uapi IovaRegions IovaBitmap KiumdHandles KiumdVfio SmmuRegs KiumdFault KiumdTable KiumdMap
    KiumdRequests KiumdSecure KiumdDevice KiumdFrames ScmIntf SgOps KryoEdac MhiNet CarveoutHeap Profiler
    CmaHeap HeapSetup HeapIsolation Uscmi DloadMode PlatformDrivers
    Interleave KiumdThreads KiumdMmioThreads ProfilerSessions SmmuAccess
begin

text \<open>
  A model of the safelinux kernel modules (\<open>src/safelinux-modules\<close>) with proofs of their
  correctness properties. All paths below are relative to that directory.

  \<^bold>\<open>The program.\<close> The modules let a process drive devices that sit behind an SMMU. Their centre is
  \<open>drivers/kiumd.c\<close>: a process opens the kiumd device, hands it VFIO devices and dma-bufs, and asks
  for mappings, GPU page tables, secure sharing and fault reports. Around it stand the dma-buf heaps
  that make the buffers (\<open>qcom_carveout_heap.c\<close>, \<open>qcom_cma_heap.c\<close>, set up from the device tree by
  \<open>qcom_dt_parser.c\<close> and \<open>qcom_dma_heap.c\<close>, with the operations they share in \<open>qcom_sg_ops.c\<close>),
  the module that computes a device's reserved addresses (\<open>iommu_iova_map.c\<close>), the device for calls
  into the secure world (\<open>scm_user_intf.c\<close>), and independent drivers: the bandwidth profiler
  (\<open>profiler.c\<close>), power, performance and reset requests (\<open>qcom_uscmi.c\<close>), cache errors
  (\<open>kryo_arm64_edac.c\<close>), the network interface over MHI (\<open>mhi_ep_net.c\<close>), the dump mode
  (\<open>qcom_dload_mode.c\<close>) and three small ones.

  \<^bold>\<open>Conventions.\<close> A C function is a HOL function on an explicit state, with the guards, early returns
  and exit labels of the code. Integers keep their width where it matters: \<open>u32\<close> and \<open>u64\<close> are
  words, a C \<open>int\<close> is an integer with \<open>wrap32\<close> where it is incremented. A kernel address is a word,
  0 for NULL, and error pointers are encoded in it as the kernel does. Error codes are negative
  integers, results with a value are \<open>int + 'a\<close>. Dereferencing a bad pointer, using freed memory,
  leaving an array and undefined shifts are the outcome \<open>None\<close> of an \<open>option\<close>. What the kernel, the
  hardware and the secure world answer is an argument: a record of answers per call (\<open>fd_env\<close>,
  \<open>prof_env\<close>, \<open>scmi_env\<close>, ...), so a run of several calls may see any sequence of answers, or a
  function whose documented contract is a locale. Resources are counted in ledgers beside the data,
  so that a leak or a double release is a fact about numbers. Functions of the code and definitions
  of the model share their names.

  \<^bold>\<open>kiumd.\<close> Its state is a chain of records, each theory adding its fields:
  \<open>handle_ctx\<close> (the handle table) \<open>\<subseteq>\<close> \<open>vfio_st\<close> (file references, cookies) \<open>\<subseteq>\<close> \<open>smmu_st\<close> (SMMU
  domains, context banks, page tables, register log) \<open>\<subseteq>\<close> \<open>fault_st\<close> (registered devices) \<open>\<subseteq>\<close>
  \<open>map_st\<close> (mapping table, bitmaps, ledger) \<open>\<subseteq>\<close> \<open>sec_st\<close> (owners of the pages) \<open>\<subseteq>\<close> \<open>ki_st\<close> (memory
  areas). An operation of one theory is polymorphic in the later fields, so the requests compose
  without change.

  \<^item> \<open>KiumdHandles\<close>: \<open>kiumd_fd_dmabuf_handler\<close>, the table of dma-buf handles. References equal the
    handle counts over every sequence of requests; a handle resolves until it is closed. The locale
    \<open>xa_allocator\<close> is the contract of the kernel's index allocator.
  \<^item> \<open>KiumdVfio\<close>: the lookups from a descriptor to the VFIO device, its domain and its DMA cookie,
    and the cookie request. The kernel objects are the functions of \<open>world\<close>.
  \<^item> \<open>SmmuRegs\<close>: \<open>kiumd_smmuv2_write_context_bank\<close>, \<open>kiumd_set_pgtble_ttbr0_context\<close> and its sibling for
    TTBR1, and the page table requests, with the layout of the control register, field by field. Used as intended they
    never touch a page table that is not allocated, and a bank is not reprogrammed once it is on.
  \<^item> \<open>KiumdFault\<close>: fault registration, handler and sysfs file. It refines a mailbox of one slot per
    device that keeps the first fault until it is read.
  \<^item> \<open>IovaBitmap\<close>: the two 3 GB bitmaps of the GPU address space. The locale \<open>zero_area_search\<close> is the
    contract of the kernel's search; \<open>area_allocator\<close>, what the map requests rely on, is derived from
    it by \<open>sublocale\<close> for both bitmaps, with the disjointness of areas over any history.
  \<^item> \<open>KiumdTable\<close>: the hash table of mappings. The locale \<open>id_table\<close> is what the requests rely on; the
    bucket table gives it for every hash into range (\<open>table_hash\<close>).
  \<^item> \<open>KiumdMap\<close>, \<open>KiumdRequests\<close>: mapping and unmapping of dma-bufs and registers, and their
    properties: round trips, clean failure, unique ids, what closing gives back.
  \<^item> \<open>KiumdSecure\<close>: secure mapping through the hypervisor (locale \<open>hypervisor\<close>): a mapping gives the
    buffer to exactly the machines of the list, unmapping gives every page back.
  \<^item> \<open>KiumdDevice\<close>, \<open>KiumdFrames\<close>: open, close, memory areas, \<open>mmap\<close> and the dispatch of all requests
    over the whole state; what each request leaves alone, the consistency of both tables over every
    run, and the close that gives everything back but GPU mappings.
  \<^item> \<open>IovaRegions\<close>: the reserved regions of \<open>iommu_iova_map.c\<close> are the complement of the address pool;
    \<open>KiumdDevice\<close> relies on it for the custom address request.

  \<^bold>\<open>The heaps.\<close> \<open>SgOps\<close> holds the operations of every buffer: private copies for attachments, device
  and kernel mappings (the counted kernel mapping is the locale \<open>shared_mapping\<close>), cache maintenance,
  and the mapping into a process, equal to a reference layout page by page. \<open>CarveoutHeap\<close> and
  \<open>CmaHeap\<close> hand out the buffers. Carveout blocks stay disjoint over any run (locale \<open>gen_pool\<close>); a
  CMA buffer is cleared before it is handed out, by a loop that is proved to end, and its life cycle
  is a round trip. \<open>CmaHeap\<close> composes both sides: what a process maps are only cleared pages of its
  own buffer; \<open>HeapIsolation\<close> does for carveout buffers: two processes never see a common frame.
  \<open>HeapSetup\<close> parses the device tree, all or nothing, and the probe makes every heap over
  exactly its memory.

  \<^bold>\<open>Other devices.\<close> \<open>ScmIntf\<close>: calls to the secure world carry allowed pairs only, and the
  secure-element request the address of the user's buffer. \<open>Profiler\<close>: a counter request hands out
  every configured register at its place and zero elsewhere; after any run a release gives the
  device back. \<open>Uscmi\<close>: a sole user's power requests leave exactly one reference or none. \<open>KryoEdac\<close>:
  an error is reported once and its record cleared (locale \<open>error_record\<close>). \<open>MhiNet\<close>: packets are
  sent in order and accounted for, and one sent while the interface is removed can crash. \<open>DloadMode\<close>: writing and showing the dump mode is a round trip.
  \<open>PlatformDrivers\<close>: the VFIO back end, pin control, the GPU's SMMU device and the registration of
  the misc devices.

  \<^bold>\<open>Concurrency.\<close> Operations of one theory are atomic, except where a theory says otherwise.
  \<open>Interleave\<close> runs threads, program counters with local values, under a schedule; its locales
  \<open>thread_invariant\<close> and \<open>thread_safety\<close> are the proof rules, and \<open>rank_run\<close> bounds a thread's own
  steps whatever the others do. Four pieces of code are split into the steps the source leaves
  interruptible, and are proved to be the atomic function when nothing interrupts them.
  \<^item> \<open>KiumdThreads\<close>: \<open>get_map_offset\<close> has no lock. Pages in use are never handed out to a request
    that begins later, and nothing is written outside a bitmap; two overlapping requests can
    get the same pages.
  \<^item> \<open>KiumdMmioThreads\<close>: the register requests between their locked sections. Unmapping different
    ids is safe under every schedule, unmapping one id twice is not.
  \<^item> \<open>SmmuAccess\<close>: the lock-free \<open>__arm_smmu_alloc_bitmap\<close> gives every index to one caller and
    returns within a bound. This theory also has the register accessors of \<open>arm-smmu.h\<close> over
    a byte memory: programming a bank reaches that bank's registers only, the control register
    through the hook \<open>write_sctlr\<close>, which is a parameter; without it the driver crashes.
  \<^item> \<open>ProfilerSessions\<close>: the profiler stays exclusive although its release gives it up too early.

  \<^bold>\<open>Runs.\<close> Where a property speaks of every sequence of requests it is over a list of operations
  folded by the dispatch function (handles, bitmaps, mapping requests, device) or over the reflexive
  closure of an inductive step relation (\<open>scm_step\<close>, \<open>sg_step\<close>, \<open>carve_step\<close>, \<open>prof_step\<close>,
  \<open>scmi_step\<close>), or over every schedule of threads. No model uses fuel: loops are structural recursions over the list they walk or,
  for the clearing loop of the CMA heap, a function with a measure.

  \<^bold>\<open>Bounds.\<close> Assumptions on numbers are stated in each theorem. Those that recur: fewer than \<open>2^31\<close>
  mapping requests per context before its counter wraps, lengths at least a page below the largest
  word before \<open>PAGE_ALIGN\<close> wraps, and buffers below 4 GB, as the length of a scatter entry has 32
  bits; lemmas beside the properties show what happens beyond.

  \<^bold>\<open>Failures the models show.\<close> The lemmas in the last sections of the theories state, on the model,
  what the code does where it does not do what it means to: leaks on error paths, results that are
  dropped or overwritten, unchecked counts and names from user space, references put twice.

  \<^bold>\<open>Not modelled.\<close> Interleavings of all other operations: they take one lock for their whole
  length, or, like the requests that map buffers, the fault list and the close, they are modelled as
  atomic where the code does not make them so. Accesses to a bitmap smaller than the whole call, and
  the memory model of the processor. Log messages. Code outside the repository: the VFIO, IOMMU,
  dma-buf, genpool, CMA, MHI, EDAC and secure-monitor functions are parameters, so the answers the
  heaps give to the mapping requests of kiumd are arbitrary there. Headers copied from the kernel
  (\<open>vfio.h\<close>, \<open>edac_device.h\<close>, the register constants of \<open>arm-smmu.h\<close> that no module uses) and
  \<open>qtee_shmbridge.h\<close>, which only declares functions of another driver. Module tables and
  registration macros, and \<open>runtime\<close> callbacks that do nothing. The user-space package and build
  files.
\<close>

end
